(* ===== verification/Prelude.thy ===== *)
theory Prelude
  imports Complex_Main
begin

text \<open>
  Shared vocabulary of the development: the result type of code that may raise, the
  collections that carry the component proofs, and the lemmas on Python-style integers
  (unbounded, two's complement under the bit operators) that every component uses.

  Python's \<open>&\<close>, \<open>|\<close>, \<open>^\<close>, \<open>~\<close>, \<open>>>\<close> and \<open><<\<close> on \<open>int\<close> are \<open>AND\<close>, \<open>OR\<close>, \<open>XOR\<close>, \<open>NOT\<close>,
  \<^const>\<open>drop_bit\<close> and \<^const>\<open>push_bit\<close> on \<^typ>\<open>int\<close>: both read a negative number as an
  infinite two's complement bit string, and both shift right towards minus infinity.
\<close>

unbundle bit_operations_syntax

text \<open>
  What the Python raises or fails to do: \<open>ValueError\<close>, \<open>KeyError\<close>, \<open>IndexError\<close>,
  \<open>AttributeError\<close>, \<open>AssertionError\<close>, \<open>RuntimeError\<close>, \<open>struct.error\<close>, \<open>ZeroDivisionError\<close> and \<open>OverflowError\<close> as constructors, and
  \<open>Diverges\<close> for a loop that never ends.
\<close>

datatype py_error = ValueError | KeyError | IndexError | AttributeError | AssertionError | RuntimeError | StructError
  | ZeroDivisionError | OverflowError | Diverges

type_synonym 'a result = "py_error + 'a"

text \<open>Sequencing of calls that may raise: the first exception ends the sequence.\<close>

definition rbind :: "'a result \<Rightarrow> ('a \<Rightarrow> 'b result) \<Rightarrow> 'b result" where
  "rbind r f = (case r of Inl e \<Rightarrow> Inl e | Inr x \<Rightarrow> f x)"

lemma rbind_simps [simp]: "rbind (Inl e) f = Inl e" "rbind (Inr x) f = f x"
  by (simp_all add: rbind_def)

named_theorems bit_norm \<open>masks and shifts as remainders and quotients\<close>
named_theorems fields \<open>extracting a bit field from an encoded word\<close>
named_theorems wf_intro \<open>operations that keep a state well formed\<close>
named_theorems evals \<open>definitions unfolded to evaluate a concrete input\<close>

subsection \<open>Masks\<close>

lemma and_mask_mod: "x AND (2 ^ n - 1) = x mod 2 ^ n" for x :: int
  by (simp add: mask_eq_exp_minus_1 [symmetric] take_bit_eq_mod flip: take_bit_eq_mask)

lemma and_mod_1 [bit_norm]: "x AND 1 = x mod 2" for x :: int
  using and_mask_mod [of x 1] by simp

lemma and_mod_2 [bit_norm]: "x AND 3 = x mod 4" for x :: int
  using and_mask_mod [of x 2] by simp

lemma and_mod_3 [bit_norm]: "x AND 7 = x mod 8" for x :: int
  using and_mask_mod [of x 3] by simp

lemma and_mod_4 [bit_norm]: "x AND 15 = x mod 16" for x :: int
  using and_mask_mod [of x 4] by simp

lemma and_mod_5 [bit_norm]: "x AND 31 = x mod 32" for x :: int
  using and_mask_mod [of x 5] by simp

lemma and_mod_6 [bit_norm]: "x AND 63 = x mod 64" for x :: int
  using and_mask_mod [of x 6] by simp

lemma and_mod_7 [bit_norm]: "x AND 127 = x mod 128" for x :: int
  using and_mask_mod [of x 7] by simp

lemma and_mod_8 [bit_norm]: "x AND 255 = x mod 256" for x :: int
  using and_mask_mod [of x 8] by simp

lemma and_mod_9 [bit_norm]: "x AND 0x1ff = x mod 0x200" for x :: int
  using and_mask_mod [of x 9] by simp

lemma and_mod_10 [bit_norm]: "x AND 0x3ff = x mod 0x400" for x :: int
  using and_mask_mod [of x 10] by simp

lemma and_mod_12 [bit_norm]: "x AND 0xfff = x mod 0x1000" for x :: int
  using and_mask_mod [of x 12] by simp

lemma and_mod_18 [bit_norm]: "x AND 0x3ffff = x mod 0x40000" for x :: int
  using and_mask_mod [of x 18] by simp

lemma and_mod_20 [bit_norm]: "x AND 0xfffff = x mod 0x100000" for x :: int
  using and_mask_mod [of x 20] by simp

lemma and_mod_23 [bit_norm]: "x AND 0x7fffff = x mod 0x800000" for x :: int
  using and_mask_mod [of x 23] by simp

lemma and_mod_31 [bit_norm]: "x AND 0x7fffffff = x mod 0x80000000" for x :: int
  using and_mask_mod [of x 31] by simp

lemma and_mod_32 [bit_norm]: "x AND 0xffffffff = x mod 0x100000000" for x :: int
  using and_mask_mod [of x 32] by simp

lemma and_le_mask: "0 \<le> m \<Longrightarrow> 0 \<le> x AND m \<and> x AND m \<le> m" for x m :: int
  by (simp add: AND_upper2 and.commute)

lemma shift_norm [bit_norm]: "drop_bit n x = x div 2 ^ n" "push_bit n x = x * 2 ^ n" for x :: int
  by (simp_all add: drop_bit_eq_div push_bit_eq_mult)

lemma bit_odd_mod: "(x mod 2 = 1) = odd x" for x :: int
  by presburger

subsection \<open>Disjoint fields\<close>

lemma or_low: "push_bit k a OR b = push_bit k a + b" if "0 \<le> b" "b < 2 ^ k" for a b :: int
proof -
  have "push_bit k a AND b = 0"
  proof (rule bit_eqI)
    fix n
    have "bit b n \<Longrightarrow> n < k"
      using that by (metis bit_take_bit_iff take_bit_int_eq_self)
    then show "bit (push_bit k a AND b) n = bit (0::int) n"
      by (auto simp: bit_and_iff bit_push_bit_iff)
  qed
  then show ?thesis by (simp add: disjunctive_add_eq_or)
qed

lemma bit_range: "bit x n \<Longrightarrow> 0 \<le> x \<Longrightarrow> x < 2 ^ k \<Longrightarrow> n < k" for x :: int
  by (metis bit_take_bit_iff take_bit_int_eq_self)

lemma or_range: "0 \<le> x \<Longrightarrow> x < 2 ^ n \<Longrightarrow> 0 \<le> y \<Longrightarrow> y < 2 ^ n \<Longrightarrow> 0 \<le> x OR y \<and> x OR y < 2 ^ n"
  for x y :: int
  by (metis OR_upper or_nonnegative_int_iff)

lemma xor_range: "0 \<le> x \<Longrightarrow> x < 2 ^ n \<Longrightarrow> 0 \<le> y \<Longrightarrow> y < 2 ^ n \<Longrightarrow> 0 \<le> x XOR y \<and> x XOR y < 2 ^ n"
  for x y :: int
  by (metis XOR_upper xor_nonnegative_int_iff)

lemma and_range: "0 \<le> y \<Longrightarrow> y < 2 ^ n \<Longrightarrow> 0 \<le> x AND y \<and> x AND y < 2 ^ n" for x y :: int
  using and_le_mask [of y x] by linarith

lemma push_range: "0 \<le> x \<Longrightarrow> x < 2 ^ m \<Longrightarrow> m + k \<le> n \<Longrightarrow> 0 \<le> push_bit k x \<and> push_bit k x < 2 ^ n"
  for x :: int
proof -
  assume a: "0 \<le> x" "x < 2 ^ m" "m + k \<le> n"
  have "x * 2 ^ k < 2 ^ m * 2 ^ k" using a by simp
  also have "\<dots> \<le> 2 ^ n" using a by (simp add: power_increasing flip: power_add)
  finally show ?thesis using a by (simp add: push_bit_eq_mult)
qed

subsection \<open>Lists updated by index\<close>

lemma list_all_update: "list_all P xs \<Longrightarrow> P v \<Longrightarrow> list_all P (xs[i := v])"
  by (auto simp: list_all_iff dest: set_update_subset_insert [THEN subsetD])

lemma list_all_nth_nat: "list_all P xs \<Longrightarrow> 0 \<le> i \<Longrightarrow> i < int (length xs) \<Longrightarrow> P (xs ! nat i)"
  by (auto simp: list_all_length)

end
