(* ===== verification/Iss_Ints.thy ===== *)
theory Iss_Ints
  imports Prelude
begin

text \<open>
  The width helpers at the top of \<open>sim/tools/iss.py\<close>: \<open>s32\<close>, \<open>u32\<close>, \<open>sXLEN\<close>, \<open>uXLEN\<close> and
  \<open>sext\<close>. The lemmas give each helper its arithmetic meaning (a remainder, or the signed
  residue) and the congruences that let a masked intermediate result be dropped.
\<close>

definition s32 :: "int \<Rightarrow> int" where
  "s32 v0 = (let v = v0 AND 0xFFFFFFFF in if v AND 0x80000000 \<noteq> 0 then v - push_bit 32 1 else v)"

definition u32 :: "int \<Rightarrow> int" where
  "u32 v = v AND 0xFFFFFFFF"

definition sXLEN :: "int \<Rightarrow> nat \<Rightarrow> int" where
  "sXLEN v0 xlen =
     (let v = v0 AND (push_bit xlen 1 - 1)
      in if v AND push_bit (xlen - 1) 1 \<noteq> 0 then v - push_bit xlen 1 else v)"

definition uXLEN :: "int \<Rightarrow> nat \<Rightarrow> int" where
  "uXLEN v xlen = v AND (push_bit xlen 1 - 1)"

definition sext :: "int \<Rightarrow> nat \<Rightarrow> int" where
  "sext v0 bits =
     (let v = v0 AND (push_bit bits 1 - 1)
      in if v AND push_bit (bits - 1) 1 \<noteq> 0 then v - push_bit bits 1 else v)"

subsection \<open>Unsigned residues\<close>

lemma uXLEN_mod: "uXLEN v n = v mod 2 ^ n"
  by (simp add: uXLEN_def push_bit_eq_mult and_mask_mod)

lemma u32_mod: "u32 v = v mod 2 ^ 32"
  by (simp add: u32_def and_mod_32)

lemma u32_uXLEN: "u32 v = uXLEN v 32"
  by (simp add: u32_mod uXLEN_mod)

lemma uXLEN_range [simp]: "0 \<le> uXLEN v n" "uXLEN v n < 2 ^ n"
  by (simp_all add: uXLEN_mod)

lemma uXLEN_le [simp]: "uXLEN v n \<le> 2 ^ n - 1"
  using uXLEN_range(2) [of v n] by linarith

lemma u32_range [simp]: "0 \<le> u32 v" "u32 v < 2 ^ 32" "u32 v < 4294967296" "u32 v \<le> 4294967295"
  using pos_mod_bound [of "2 ^ 32 :: int" v] by (simp_all add: u32_mod)

lemma uXLEN_id: "0 \<le> v \<Longrightarrow> v < 2 ^ n \<Longrightarrow> uXLEN v n = v"
  by (simp add: uXLEN_mod)

lemma u32_id: "0 \<le> v \<Longrightarrow> v < 2 ^ 32 \<Longrightarrow> u32 v = v"
  by (simp add: u32_mod)

lemma uXLEN_idem [simp]: "uXLEN (uXLEN v n) n = uXLEN v n"
  by (simp add: uXLEN_mod)

subsection \<open>Signed residues\<close>

lemma and_exp_bit: "(x AND push_bit k 1 \<noteq> 0) = bit x k" for x :: int
proof -
  have "x AND push_bit k 1 = of_bool (bit x k) * 2 ^ k"
    by (rule bit_eqI) (auto simp: bit_simps)
  then show ?thesis by simp
qed

lemma exp_pred: "0 < n \<Longrightarrow> (2::int) ^ n = 2 * 2 ^ (n - 1)"
  by (cases n) simp_all

lemma bit_top: "0 < n \<Longrightarrow> bit (x mod 2 ^ n) (n - 1) = (2 ^ (n - 1) \<le> x mod 2 ^ n)" for x :: int
proof -
  assume n: "0 < n"
  let ?y = "x mod 2 ^ n"
  have le: "?y < 2 * 2 ^ (n - 1)" and ge: "0 \<le> ?y"
    using pos_mod_bound [of "2 ^ n" x] exp_pred [OF n] by simp_all
  have "bit ?y (n - 1) = odd (?y div 2 ^ (n - 1))" by (simp add: bit_iff_odd)
  moreover have "?y div 2 ^ (n - 1) = (if 2 ^ (n - 1) \<le> ?y then 1 else 0)"
  proof (cases "2 ^ (n - 1) \<le> ?y")
    case True
    have "?y div 2 ^ (n - 1) = 1"
      by (rule int_div_pos_eq [where r = "?y - 2 ^ (n - 1)"]) (use True le in auto)
    with True show ?thesis by simp
  next
    case False
    with ge show ?thesis by (simp add: div_pos_pos_trivial)
  qed
  ultimately show ?thesis by simp
qed

lemma sext_eq: "0 < n \<Longrightarrow> sext v n = (if v mod 2 ^ n < 2 ^ (n - 1) then v mod 2 ^ n else v mod 2 ^ n - 2 ^ n)"
proof -
  assume n: "0 < n"
  have m: "v AND (push_bit n 1 - 1) = v mod 2 ^ n"
    by (simp add: push_bit_eq_mult and_mask_mod)
  show ?thesis
    unfolding sext_def Let_def m and_exp_bit using bit_top [OF n, of v]
    by (simp add: push_bit_eq_mult)
qed

lemma sXLEN_sext: "sXLEN v n = sext v n"
  by (simp add: sXLEN_def sext_def)

lemmas sXLEN_eq = sext_eq [folded sXLEN_sext]

lemma s32_sext: "s32 v = sext v 32"
  by (simp add: s32_def sext_def push_bit_eq_mult)

lemma sext_range: "0 < n \<Longrightarrow> - (2 ^ (n - 1)) \<le> sext v n \<and> sext v n < 2 ^ (n - 1)"
proof -
  assume n: "0 < n"
  have p: "(0::int) < 2 ^ (n - 1)" by simp
  have m: "0 \<le> v mod 2 ^ n" "v mod 2 ^ n < 2 ^ n" by simp_all
  show ?thesis
    using p m exp_pred [OF n] unfolding sext_eq [OF n]
    by (simp only: split: if_split) linarith
qed

lemma sext_mod [simp]: "sext v n mod 2 ^ n = v mod 2 ^ n"
proof (cases "n = 0")
  case False
  then show ?thesis by (simp add: sext_eq mod_diff_left_eq)
qed simp

lemma uXLEN_sext [simp]: "uXLEN (sext v n) n = uXLEN v n"
  by (simp add: uXLEN_mod)

lemma sext_0 [simp]: "sext v 0 = 0"
  by (simp add: sext_def push_bit_eq_mult)

lemma sext_cong: "x mod 2 ^ n = y mod 2 ^ n \<Longrightarrow> sext x n = sext y n"
  by (cases "n = 0") (simp_all add: sext_eq)

lemma sext_uXLEN [simp]: "sext (uXLEN v n) n = sext v n"
  by (rule sext_cong) (simp add: uXLEN_mod)

lemma sext_id: "0 < n \<Longrightarrow> - (2 ^ (n - 1)) \<le> v \<Longrightarrow> v < 2 ^ (n - 1) \<Longrightarrow> sext v n = v"
proof -
  assume a: "0 < n" "- (2 ^ (n - 1)) \<le> v" "v < 2 ^ (n - 1)"
  note e = exp_pred [OF a(1)]
  show ?thesis
  proof (cases "0 \<le> v")
    case True
    then have "v mod 2 ^ n = v" using a e by simp
    then show ?thesis using a by (simp add: sext_eq)
  next
    case False
    have "(v + 2 ^ n) mod 2 ^ n = v + 2 ^ n"
      by (rule mod_pos_pos_trivial) (use False a e in auto)
    then have "v mod 2 ^ n = v + 2 ^ n" by simp
    then show ?thesis using a e False by (simp add: sext_eq)
  qed
qed

lemma sext_inj: "sext x n = sext y n \<Longrightarrow> x mod 2 ^ n = y mod 2 ^ n"
  by (metis sext_mod)

lemma sext_eq_iff: "0 \<le> x \<Longrightarrow> x < 2 ^ n \<Longrightarrow> 0 \<le> y \<Longrightarrow> y < 2 ^ n \<Longrightarrow> (sext x n = sext y n) = (x = y)"
  using sext_inj [of x n y] by auto

lemmas width_simps = sXLEN_sext s32_sext u32_uXLEN

end
