(* ===== verification/Softfloat.thy ===== *)
theory Softfloat
  imports Iss_Ints
begin

text \<open>
  The RV32F reference model of \<open>sim/tools/iss.py\<close>: decoding of a float32 bit pattern, exact
  rational arithmetic (\<open>fractions.Fraction\<close> is \<^typ>\<open>rat\<close>), normalisation, the rounding
  decision and packing, then one definition per operation. An operation returns the
  result bits and the exception flags; \<open>Inl Diverges\<close> stands for a normalisation loop that
  never ends and \<open>Inl AssertionError\<close> for the \<open>assert\<close> in the square root.
\<close>

abbreviation (input) RM_RNE :: int where "RM_RNE \<equiv> 0"
abbreviation (input) RM_RTZ :: int where "RM_RTZ \<equiv> 1"
abbreviation (input) RM_RDN :: int where "RM_RDN \<equiv> 2"
abbreviation (input) RM_RUP :: int where "RM_RUP \<equiv> 3"
abbreviation (input) RM_RMM :: int where "RM_RMM \<equiv> 4"
abbreviation (input) CANONICAL_NAN :: int where "CANONICAL_NAN \<equiv> 0x7FC00000"
abbreviation (input) F_NV :: int where "F_NV \<equiv> 16"
abbreviation (input) F_DZ :: int where "F_DZ \<equiv> 8"
abbreviation (input) F_OF :: int where "F_OF \<equiv> 4"
abbreviation (input) F_UF :: int where "F_UF \<equiv> 2"
abbreviation (input) F_NX :: int where "F_NX \<equiv> 1"

subsection \<open>Decoding and packing\<close>

record f32_decoded =
  dsign :: int
  is_zero :: bool
  is_inf :: bool
  is_nan :: bool
  is_snan :: bool
  dmag :: "rat option"

definition f32_decode :: "int \<Rightarrow> f32_decoded" where
  "f32_decode bits0 =
     (let bits = bits0 AND 0xFFFFFFFF;
          sign = drop_bit 31 bits AND 1;
          exp = drop_bit 23 bits AND 0xFF;
          mant = bits AND 0x7FFFFF
      in if exp = 0xFF then
           (if mant = 0 then
              \<lparr>dsign = sign, is_zero = False, is_inf = True, is_nan = False, is_snan = False, dmag = None\<rparr>
            else
              \<lparr>dsign = sign, is_zero = False, is_inf = False, is_nan = True,
               is_snan = (drop_bit 22 mant AND 1 = 0), dmag = None\<rparr>)
         else if exp = 0 then
           \<lparr>dsign = sign, is_zero = True, is_inf = False, is_nan = False, is_snan = False, dmag = Some 0\<rparr>
         else
           \<lparr>dsign = sign, is_zero = False, is_inf = False, is_nan = False, is_snan = False,
            dmag = Some (of_int (push_bit 23 1 OR mant) / of_int (push_bit 23 1) * 2 powi (exp - 127))\<rparr>)"

text \<open>The magnitude of a finite operand; the source never reads it of an infinity or a NaN.\<close>

definition magnitude :: "f32_decoded \<Rightarrow> rat" where
  "magnitude d = (case dmag d of Some m \<Rightarrow> m | None \<Rightarrow> 0)"

definition f32_is_zero_arith :: "int \<Rightarrow> bool" where
  "f32_is_zero_arith bits \<longleftrightarrow> drop_bit 23 bits AND 0xFF = 0"

definition f32_pack_zero :: "int \<Rightarrow> int" where
  "f32_pack_zero sign = push_bit 31 (sign AND 1)"

definition f32_pack_inf :: "int \<Rightarrow> int" where
  "f32_pack_inf sign = push_bit 31 (sign AND 1) OR push_bit 23 0xFF"

subsection \<open>Rounding\<close>

datatype remainder_cls = Exact | Below | Tie | Above

definition f32_round_up_decision :: "remainder_cls \<Rightarrow> int \<Rightarrow> int \<Rightarrow> int \<Rightarrow> bool \<times> bool" where
  "f32_round_up_decision cls sig_floor sign rm =
     (if cls = Exact then (False, False)
      else if rm = RM_RTZ then (False, True)
      else if rm = RM_RDN then (sign = 1, True)
      else if rm = RM_RUP then (sign = 0, True)
      else if rm = RM_RMM then (cls \<noteq> Below, True)
      else if cls = Above then (True, True)
      else if cls = Below then (False, True)
      else (sig_floor AND 1 \<noteq> 0, True))"

definition f32_pack_rounded :: "int \<Rightarrow> int \<Rightarrow> int \<Rightarrow> remainder_cls \<Rightarrow> int \<Rightarrow> int \<times> int" where
  "f32_pack_rounded sign e0 sig0 cls rm =
     (let (round_up, inexact) = f32_round_up_decision cls sig0 sign rm;
          sig1 = (if round_up then sig0 + 1 else sig0);
          carry = (round_up \<and> sig1 = push_bit 24 1);
          sig_floor = (if carry then drop_bit 1 sig1 else sig1);
          e = (if carry then e0 + 1 else e0)
      in if e > 127 then
           ((if rm = RM_RTZ \<or> (rm = RM_RDN \<and> sign = 0) \<or> (rm = RM_RUP \<and> sign = 1)
             then push_bit 31 sign OR push_bit 23 0xFE OR 0x7FFFFF
             else push_bit 31 sign OR push_bit 23 0xFF),
            F_OF OR F_NX)
         else if e < -126 then (f32_pack_zero sign, F_UF OR F_NX)
         else
           (push_bit 31 sign OR push_bit 23 (e + 127) OR (sig_floor AND 0x7FFFFF),
            if inexact then F_NX else 0))"

text \<open>Python's \<open>int.bit_length\<close> of a nonnegative number.\<close>

fun bit_length :: "nat \<Rightarrow> nat" where
  "bit_length n = (if n = 0 then 0 else Suc (bit_length (n div 2)))"

declare bit_length.simps [simp del]

definition int_bit_length :: "int \<Rightarrow> int" where
  "int_bit_length i = int (bit_length (nat \<bar>i\<bar>))"

text \<open>The two \<open>while\<close> loops of the normalisation, with \<open>None\<close> for running forever.\<close>

partial_function (option) norm_up :: "nat \<Rightarrow> rat \<Rightarrow> int \<Rightarrow> int option" where
  "norm_up k m e = (if m \<ge> 2 powi (int k * (e + 1)) then norm_up k m (e + 1) else Some e)"

partial_function (option) norm_down :: "nat \<Rightarrow> rat \<Rightarrow> int \<Rightarrow> int option" where
  "norm_down k m e = (if m < 2 powi (int k * e) then norm_down k m (e - 1) else Some e)"

declare norm_up.simps [code] norm_down.simps [code]

definition classify_remainder :: "rat \<Rightarrow> remainder_cls" where
  "classify_remainder r = (if r = 0 then Exact else if r < 1 / 2 then Below else if r > 1 / 2 then Above else Tie)"

definition floor_div :: "rat \<Rightarrow> int" where
  "floor_div q = (case quotient_of q of (n, d) \<Rightarrow> n div d)"

definition f32_normalize_fraction :: "rat \<Rightarrow> (int \<times> int \<times> remainder_cls) result" where
  "f32_normalize_fraction m =
     (let e0 = int_bit_length (fst (quotient_of m)) - int_bit_length (snd (quotient_of m)) - 1
      in case norm_up 1 m e0 of None \<Rightarrow> Inl Diverges
      | Some e1 \<Rightarrow> (case norm_down 1 m e1 of None \<Rightarrow> Inl Diverges
        | Some e \<Rightarrow>
          (let sig_exact = m * 2 powi (23 - e);
               sig_floor = floor_div sig_exact;
               remainder = sig_exact - of_int sig_floor
           in Inr (e, sig_floor, classify_remainder remainder))))"

text \<open>\<open>math.isqrt\<close>: the integer square root of a nonnegative number.\<close>

fun isqrt :: "nat \<Rightarrow> nat" where
  "isqrt n = (if n = 0 then 0 else let r = 2 * isqrt (n div 4) in if (r + 1) * (r + 1) \<le> n then r + 1 else r)"

declare isqrt.simps [simp del]

definition f32_sqrt_normalize :: "rat \<Rightarrow> (int \<times> int \<times> remainder_cls) result" where
  "f32_sqrt_normalize m =
     (let e0 = (int_bit_length (fst (quotient_of m)) - int_bit_length (snd (quotient_of m))) div 2 - 1
      in case norm_up 2 m e0 of None \<Rightarrow> Inl Diverges
      | Some e1 \<Rightarrow> (case norm_down 2 m e1 of None \<Rightarrow> Inl Diverges
        | Some e \<Rightarrow>
          (let scaled = m * 2 powi (2 * (23 - e))
           in if snd (quotient_of scaled) \<noteq> 1 then Inl AssertionError
              else
                (let n = fst (quotient_of scaled);
                     sig_floor = int (isqrt (nat n))
                 in if sig_floor * sig_floor = n then Inr (e, sig_floor, Exact)
                    else
                      (let mid_sq = (2 * sig_floor + 1) ^ 2; four_n = 4 * n
                       in Inr (e, sig_floor,
                            if four_n < mid_sq then Below else if four_n > mid_sq then Above else Tie))))))"

definition f32_round_from_fraction :: "int \<Rightarrow> rat \<Rightarrow> int \<Rightarrow> (int \<times> int) result" where
  "f32_round_from_fraction sign m rm =
     (case f32_normalize_fraction m of Inl x \<Rightarrow> Inl x
      | Inr (e, sig_floor, cls) \<Rightarrow> Inr (f32_pack_rounded sign e sig_floor cls rm))"

definition f32_round_from_sqrt :: "int \<Rightarrow> rat \<Rightarrow> int \<Rightarrow> (int \<times> int) result" where
  "f32_round_from_sqrt sign m rm =
     (case f32_sqrt_normalize m of Inl x \<Rightarrow> Inl x
      | Inr (e, sig_floor, cls) \<Rightarrow> Inr (f32_pack_rounded sign e sig_floor cls rm))"

subsection \<open>Arithmetic\<close>

definition f_add :: "int \<Rightarrow> int \<Rightarrow> int \<Rightarrow> bool \<Rightarrow> (int \<times> int) result" where
  "f_add a_bits b_bits rm is_sub =
     (let a = f32_decode a_bits; b = f32_decode b_bits;
          eff_sb = dsign b XOR (if is_sub then 1 else 0)
      in if is_nan a \<or> is_nan b then Inr (CANONICAL_NAN, if is_snan a \<or> is_snan b then F_NV else 0)
         else if is_inf a \<and> is_inf b \<and> dsign a \<noteq> eff_sb then Inr (CANONICAL_NAN, F_NV)
         else if is_inf a then Inr (f32_pack_inf (dsign a), 0)
         else if is_inf b then Inr (f32_pack_inf eff_sb, 0)
         else if is_zero a \<and> is_zero b then
           (if dsign a = eff_sb then Inr (f32_pack_zero (dsign a), 0)
            else Inr (f32_pack_zero (if rm = RM_RDN then 1 else 0), 0))
         else if is_zero a then Inr (push_bit 31 eff_sb OR (b_bits AND 0x7FFFFFFF), 0)
         else if is_zero b then Inr (a_bits, 0)
         else
           (let va = (if dsign a = 0 then magnitude a else - magnitude a);
                vb = (if eff_sb = 0 then magnitude b else - magnitude b);
                total = va + vb
            in if total = 0 then Inr (f32_pack_zero (if rm = RM_RDN then 1 else 0), 0)
               else f32_round_from_fraction (if total < 0 then 1 else 0) \<bar>total\<bar> rm))"

definition f_mul :: "int \<Rightarrow> int \<Rightarrow> int \<Rightarrow> (int \<times> int) result" where
  "f_mul a_bits b_bits rm =
     (let a = f32_decode a_bits; b = f32_decode b_bits; sign = dsign a XOR dsign b
      in if is_nan a \<or> is_nan b then Inr (CANONICAL_NAN, if is_snan a \<or> is_snan b then F_NV else 0)
         else if (is_inf a \<and> is_zero b) \<or> (is_zero a \<and> is_inf b) then Inr (CANONICAL_NAN, F_NV)
         else if is_inf a \<or> is_inf b then Inr (f32_pack_inf sign, 0)
         else if is_zero a \<or> is_zero b then Inr (f32_pack_zero sign, 0)
         else f32_round_from_fraction sign (magnitude a * magnitude b) rm)"

definition f_div :: "int \<Rightarrow> int \<Rightarrow> int \<Rightarrow> (int \<times> int) result" where
  "f_div a_bits b_bits rm =
     (let a = f32_decode a_bits; b = f32_decode b_bits; sign = dsign a XOR dsign b
      in if is_nan a \<or> is_nan b then Inr (CANONICAL_NAN, if is_snan a \<or> is_snan b then F_NV else 0)
         else if is_inf a \<and> is_inf b then Inr (CANONICAL_NAN, F_NV)
         else if is_zero a \<and> is_zero b then Inr (CANONICAL_NAN, F_NV)
         else if is_inf a then Inr (f32_pack_inf sign, 0)
         else if is_inf b then Inr (f32_pack_zero sign, 0)
         else if is_zero b then Inr (f32_pack_inf sign, F_DZ)
         else if is_zero a then Inr (f32_pack_zero sign, 0)
         else f32_round_from_fraction sign (magnitude a / magnitude b) rm)"

definition f_sqrt :: "int \<Rightarrow> int \<Rightarrow> (int \<times> int) result" where
  "f_sqrt a_bits rm =
     (let a = f32_decode a_bits
      in if is_nan a then Inr (CANONICAL_NAN, if is_snan a then F_NV else 0)
         else if is_zero a then Inr (a_bits, 0)
         else if dsign a \<noteq> 0 then Inr (CANONICAL_NAN, F_NV)
         else if is_inf a then Inr (a_bits, 0)
         else f32_round_from_sqrt 0 (magnitude a) rm)"

definition f_madd :: "int \<Rightarrow> int \<Rightarrow> int \<Rightarrow> int \<Rightarrow> bool \<Rightarrow> bool \<Rightarrow> (int \<times> int) result" where
  "f_madd a_bits b_bits c_bits rm neg_prod neg_addend =
     (let a = f32_decode a_bits; b = f32_decode b_bits; c = f32_decode c_bits
      in if is_nan a \<or> is_nan b \<or> is_nan c
         then Inr (CANONICAL_NAN, if is_snan a \<or> is_snan b \<or> is_snan c then F_NV else 0)
         else if (is_inf a \<and> is_zero b) \<or> (is_zero a \<and> is_inf b) then Inr (CANONICAL_NAN, F_NV)
         else
           (let prod_sign = (dsign a XOR dsign b) XOR (if neg_prod then 1 else 0);
                prod_inf = (is_inf a \<or> is_inf b);
                eff_sc = dsign c XOR (if neg_addend then 1 else 0)
            in if prod_inf \<and> is_inf c \<and> prod_sign \<noteq> eff_sc then Inr (CANONICAL_NAN, F_NV)
               else if prod_inf then Inr (f32_pack_inf prod_sign, 0)
               else if is_inf c then Inr (f32_pack_inf eff_sc, 0)
               else if is_zero a \<or> is_zero b then
                 (if is_zero c then
                    (if prod_sign = eff_sc then Inr (f32_pack_zero prod_sign, 0)
                     else Inr (f32_pack_zero (if rm = RM_RDN then 1 else 0), 0))
                  else Inr (push_bit 31 eff_sc OR (c_bits AND 0x7FFFFFFF), 0))
               else
                 (let prod_val = magnitude a * magnitude b;
                      prod_signed = (if prod_sign = 0 then prod_val else - prod_val);
                      addend_signed = (if eff_sc = 0 then magnitude c else - magnitude c);
                      total = prod_signed + addend_signed
                  in if total = 0 then Inr (f32_pack_zero (if rm = RM_RDN then 1 else 0), 0)
                     else f32_round_from_fraction (if total < 0 then 1 else 0) \<bar>total\<bar> rm)))"

subsection \<open>Sign injection, minimum and maximum, comparison, classification\<close>

definition f_sgnj :: "int \<Rightarrow> int \<Rightarrow> int \<Rightarrow> int \<times> int" where
  "f_sgnj a_bits b_bits funct3 =
     (let sa = drop_bit 31 a_bits AND 1;
          sb = drop_bit 31 b_bits AND 1;
          sign = (if funct3 = 0 then sb else if funct3 = 1 then sb XOR 1 else sa XOR sb)
      in (push_bit 31 sign OR (a_bits AND 0x7FFFFFFF), 0))"

definition f_minmax :: "int \<Rightarrow> int \<Rightarrow> int \<Rightarrow> int \<times> int" where
  "f_minmax a_bits b_bits funct3 =
     (let a = f32_decode a_bits; b = f32_decode b_bits
      in if is_nan a \<and> is_nan b then (CANONICAL_NAN, if is_snan a \<or> is_snan b then F_NV else 0)
         else if is_nan a then (b_bits, if is_snan a then F_NV else 0)
         else if is_nan b then (a_bits, if is_snan b then F_NV else 0)
         else
           (let a_ez = f32_is_zero_arith a_bits; b_ez = f32_is_zero_arith b_bits;
                a_nz = (a_ez \<and> drop_bit 31 a_bits AND 1 \<noteq> 0);
                b_nz = (b_ez \<and> drop_bit 31 b_bits AND 1 \<noteq> 0);
                a_lt_b =
                  (if a_ez \<and> b_ez then a_nz \<and> \<not> b_nz
                   else if dsign a \<noteq> dsign b then dsign a \<noteq> 0
                   else if dsign a \<noteq> 0 then a_bits AND 0x7FFFFFFF > b_bits AND 0x7FFFFFFF
                   else a_bits AND 0x7FFFFFFF < b_bits AND 0x7FFFFFFF)
            in if funct3 = 0 then (if a_lt_b then a_bits else b_bits, 0)
               else (if a_lt_b then b_bits else a_bits, 0)))"

definition f_cmp :: "int \<Rightarrow> int \<Rightarrow> int \<Rightarrow> int \<times> int" where
  "f_cmp a_bits b_bits funct3 =
     (let a = f32_decode a_bits; b = f32_decode b_bits
      in if is_nan a \<or> is_nan b then
           (0, if funct3 = 2 then (if is_snan a \<or> is_snan b then F_NV else 0) else F_NV)
         else
           (let both_zero = (f32_is_zero_arith a_bits \<and> f32_is_zero_arith b_bits);
                eq = (if both_zero then True else a_bits = b_bits);
                lt =
                  (if both_zero then False
                   else if dsign a \<noteq> dsign b then dsign a \<noteq> 0
                   else if dsign a \<noteq> 0 then a_bits AND 0x7FFFFFFF > b_bits AND 0x7FFFFFFF
                   else a_bits AND 0x7FFFFFFF < b_bits AND 0x7FFFFFFF)
            in (if funct3 = 2 then (if eq then 1 else 0)
                else if funct3 = 1 then (if lt then 1 else 0)
                else (if lt \<or> eq then 1 else 0), 0)))"

definition f_class :: "int \<Rightarrow> int" where
  "f_class a_bits =
     (let sa = drop_bit 31 a_bits AND 1;
          exp = drop_bit 23 a_bits AND 0xFF;
          frac = a_bits AND 0x7FFFFF
      in if exp = 0xFF \<and> frac = 0 \<and> sa \<noteq> 0 then push_bit 0 1
         else if exp \<noteq> 0 \<and> exp \<noteq> 0xFF \<and> sa \<noteq> 0 then push_bit 1 1
         else if exp = 0 \<and> frac \<noteq> 0 \<and> sa \<noteq> 0 then push_bit 2 1
         else if exp = 0 \<and> frac = 0 \<and> sa \<noteq> 0 then push_bit 3 1
         else if exp = 0 \<and> frac = 0 \<and> sa = 0 then push_bit 4 1
         else if exp = 0 \<and> frac \<noteq> 0 \<and> sa = 0 then push_bit 5 1
         else if exp \<noteq> 0 \<and> exp \<noteq> 0xFF \<and> sa = 0 then push_bit 6 1
         else if exp = 0xFF \<and> frac = 0 \<and> sa = 0 then push_bit 7 1
         else if exp = 0xFF \<and> frac \<noteq> 0 \<and> drop_bit 22 frac AND 1 = 0 then push_bit 8 1
         else push_bit 9 1)"

subsection \<open>Conversions\<close>

definition f_cvt_to_int :: "int \<Rightarrow> int \<Rightarrow> bool \<Rightarrow> int \<times> int" where
  "f_cvt_to_int a_bits rm unsigned =
     (let a = f32_decode a_bits; sa = dsign a;
          sat = (if unsigned then (if sa \<noteq> 0 then 0 else 0xFFFFFFFF)
                 else (if sa \<noteq> 0 then 0x80000000 else 0x7FFFFFFF))
      in if is_nan a then (if unsigned then 0xFFFFFFFF else 0x7FFFFFFF, F_NV)
         else if is_zero a then (0, 0)
         else if is_inf a then (sat, F_NV)
         else
           (let floor_mag = floor_div (magnitude a);
                remainder = magnitude a - of_int floor_mag;
                (round_up, inexact) = f32_round_up_decision (classify_remainder remainder) floor_mag sa rm;
                magn = floor_mag + (if round_up then 1 else 0);
                out_of_range =
                  (if unsigned then (sa \<noteq> 0 \<and> magn \<noteq> 0) \<or> magn > 0xFFFFFFFF
                   else (sa = 0 \<and> magn > 0x7FFFFFFF) \<or> (sa \<noteq> 0 \<and> magn > 0x80000000))
            in if out_of_range then (sat, F_NV)
               else (if sa = 0 then magn AND 0xFFFFFFFF else (- magn) AND 0xFFFFFFFF,
                     if inexact then F_NX else 0)))"

definition f_cvt_from_int :: "int \<Rightarrow> int \<Rightarrow> bool \<Rightarrow> (int \<times> int) result" where
  "f_cvt_from_int a_bits rm unsigned =
     (if a_bits = 0 then Inr (0, 0)
      else if unsigned then f32_round_from_fraction 0 (of_int (a_bits AND 0xFFFFFFFF)) rm
      else
        (let sign = drop_bit 31 a_bits AND 1;
             magn = (if sign \<noteq> 0 then (NOT a_bits + 1) AND 0xFFFFFFFF else a_bits)
         in f32_round_from_fraction sign (of_int magn) rm))"

end
