(* ===== verification/Softfloat_Round.thy ===== *)
theory Softfloat_Round
  imports Softfloat
begin

text \<open>
  Correct rounding of the float32 reference model. The abstract specification is the
  unbounded-exponent binary format \<open>sig24\<close> (every number with a 24-bit significand) and
  the relation \<open>is_rounding\<close>, which says for each rounding mode which element of that
  format an exact positive real is rounded to. The interface \<open>normalizer\<close> states what the
  rounding code needs of a normalisation routine; both routines of the source provide it,
  and the correctness of packing is proved once against the interface.
\<close>

subsection \<open>The normalisation loops\<close>

lemma bit_length_bounds: "0 < n \<Longrightarrow> 0 < bit_length n \<and> 2 ^ (bit_length n - 1) \<le> n \<and> n < 2 ^ bit_length n"
proof (induction n rule: bit_length.induct)
  case (1 n)
  show ?case
  proof (cases "n div 2 = 0")
    case True
    with 1(2) have "n = 1" by presburger
    then show ?thesis by (simp add: bit_length.simps)
  next
    case False
    with 1 have ih: "0 < bit_length (n div 2)" "2 ^ (bit_length (n div 2) - 1) \<le> n div 2"
      "n div 2 < 2 ^ bit_length (n div 2)" by simp_all
    have e: "bit_length n = Suc (bit_length (n div 2))" using 1(2) by (simp add: bit_length.simps [of n])
    have "2 ^ bit_length (n div 2) = 2 * (2::nat) ^ (bit_length (n div 2) - 1)"
      using ih(1) by (cases "bit_length (n div 2)") simp_all
    then have "2 ^ (bit_length n - 1) \<le> n" using ih(2) e by simp
    moreover have "n < 2 ^ bit_length n" using ih(3) e by simp
    ultimately show ?thesis using e by simp
  qed
qed

lemma powi_nat: "(2::'a::field_char_0) powi (int n) = 2 ^ n"
  by simp

lemma int_bit_length_bounds:
  assumes "0 < p"
  shows "0 < int_bit_length p" "(2::rat) powi (int_bit_length p - 1) \<le> of_int p"
    "of_int p < (2::rat) powi int_bit_length p"
proof -
  define a where "a = bit_length (nat p)"
  have ia: "int_bit_length p = int a" using assms by (simp add: int_bit_length_def a_def)
  have A: "0 < a" "2 ^ (a - 1) \<le> nat p" "nat p < 2 ^ a"
    using bit_length_bounds [of "nat p"] assms by (simp_all add: a_def)
  have e: "int_bit_length p - 1 = int (a - 1)" using A(1) ia by simp
  show "0 < int_bit_length p" using A ia by simp
  show "(2::rat) powi (int_bit_length p - 1) \<le> of_int p"
    unfolding e powi_nat using A(2) of_nat_le_iff [of "2 ^ (a - 1)" "nat p", where 'a = rat] assms by simp
  show "of_int p < (2::rat) powi int_bit_length p"
    unfolding ia powi_nat using A(3) of_nat_less_iff [of "nat p" "2 ^ a", where 'a = rat] assms by simp
qed

lemma estimate_bounds:
  assumes "0 < m"
  defines "t \<equiv> int_bit_length (fst (quotient_of m)) - int_bit_length (snd (quotient_of m))"
  shows "(2::rat) powi (t - 1) < m" "m < 2 powi (t + 1)"
proof -
  obtain p q where pq: "quotient_of m = (p, q)" by force
  have q: "0 < q" using quotient_of_denom_pos [OF pq] .
  have m: "m = of_int p / of_int q" using quotient_of_div [OF pq] .
  have p: "0 < p" using assms q by (simp add: m zero_less_divide_iff)
  note P = int_bit_length_bounds [OF p] and Q = int_bit_length_bounds [OF q]
  have t: "t - 1 = int_bit_length p - 1 - int_bit_length q" "t + 1 = int_bit_length p - (int_bit_length q - 1)"
    by (simp_all add: t_def pq)
  have "(2::rat) powi (t - 1) = 2 powi (int_bit_length p - 1) / 2 powi int_bit_length q"
    unfolding t(1) by (rule power_int_diff) simp
  also have "\<dots> < of_int p / of_int q"
    by (rule frac_less2) (use P Q q in auto)
  finally show "(2::rat) powi (t - 1) < m" by (simp add: m)
  have "of_int p / of_int q < (2::rat) powi int_bit_length p / 2 powi (int_bit_length q - 1)"
    by (rule frac_less) (use P Q p in auto)
  also have "\<dots> = 2 powi (t + 1)"
    unfolding t(2) by (rule power_int_diff [symmetric]) simp
  finally show "m < 2 powi (t + 1)" by (simp add: m)
qed

lemma norm_up_one:
  assumes "2 powi (int k * e) \<le> m" "m < 2 powi (int k * (e + 2))"
  obtains e' where "norm_up k m e = Some e'" "2 powi (int k * e') \<le> m" "m < 2 powi (int k * (e' + 1))"
proof (cases "2 powi (int k * (e + 1)) \<le> m")
  case True
  have "norm_up k m (e + 1) = Some (e + 1)"
    using assms(2) by (subst norm_up.simps) (simp add: add.assoc)
  with True have "norm_up k m e = Some (e + 1)" by (subst norm_up.simps) simp
  with True assms(2) show ?thesis by (intro that [of "e + 1"]) (simp_all add: add.assoc)
next
  case False
  then have "norm_up k m e = Some e" by (subst norm_up.simps) simp
  with False assms(1) show ?thesis by (intro that [of e]) simp_all
qed

lemma norm_down_none: "2 powi (int k * e) \<le> m \<Longrightarrow> norm_down k m e = Some e"
  by (subst norm_down.simps) simp

lemma norm_loops:
  assumes "0 < m" and k: "k = 1 \<or> k = (2::nat)"
  defines "t \<equiv> int_bit_length (fst (quotient_of m)) - int_bit_length (snd (quotient_of m))"
  obtains e where "norm_up k m (t div int k - 1) = Some e" "norm_down k m e = Some e"
    "2 powi (int k * e) \<le> m" "m < 2 powi (int k * (e + 1))"
proof -
  note b = estimate_bounds [OF assms(1), folded t_def]
  let ?e = "t div int k - 1"
  have "int k * ?e \<le> t - 1" "t + 1 \<le> int k * (?e + 2)" using k by auto
  then have "(2::rat) powi (int k * ?e) \<le> 2 powi (t - 1)" "(2::rat) powi (t + 1) \<le> 2 powi (int k * (?e + 2))"
    by (simp_all add: power_int_increasing)
  then have "2 powi (int k * ?e) \<le> m" "m < 2 powi (int k * (?e + 2))" using b by linarith+
  then obtain e where e: "norm_up k m ?e = Some e" "2 powi (int k * e) \<le> m" "m < 2 powi (int k * (e + 1))"
    by (rule norm_up_one)
  with norm_down_none [OF e(2)] show ?thesis by (intro that)
qed

subsection \<open>The unbounded format and what rounding into it means\<close>

definition sig24 :: "real set" where
  "sig24 = {of_int sig * 2 powi (e - 23) | sig e. 2 ^ 23 \<le> sig \<and> sig < 2 ^ 24}"

definition even_sig :: "real \<Rightarrow> bool" where
  "even_sig y \<longleftrightarrow> (\<exists>sig e. y = of_int sig * 2 powi (e - 23) \<and> 2 ^ 23 \<le> sig \<and> sig < 2 ^ 24 \<and> even sig)"

definition toward_zero :: "int \<Rightarrow> int \<Rightarrow> bool" where
  "toward_zero rm sign \<longleftrightarrow> rm = RM_RTZ \<or> (rm = RM_RDN \<and> sign = 0) \<or> (rm = RM_RUP \<and> sign = 1)"

definition is_rounding :: "int \<Rightarrow> int \<Rightarrow> real \<Rightarrow> real \<Rightarrow> bool" where
  "is_rounding rm sign x y \<longleftrightarrow> y \<in> sig24 \<and>
     (if toward_zero rm sign then y \<le> x \<and> (\<forall>z \<in> sig24. z \<le> x \<longrightarrow> z \<le> y)
      else if rm = RM_RDN \<or> rm = RM_RUP then x \<le> y \<and> (\<forall>z \<in> sig24. x \<le> z \<longrightarrow> y \<le> z)
      else (\<forall>z \<in> sig24. \<bar>y - x\<bar> \<le> \<bar>z - x\<bar>) \<and>
           (\<forall>z \<in> sig24. z \<noteq> y \<and> \<bar>z - x\<bar> = \<bar>y - x\<bar> \<longrightarrow> (if rm = RM_RMM then z < y else even_sig y)))"

lemma powi_step: "(2::real) powi (e - 22) = 2 * 2 powi (e - 23)"
  using power_int_add_1 [of "2::real" "e - 23"] by (simp add: algebra_simps)

lemma sig_real: "2 ^ 23 \<le> s \<Longrightarrow> s < 2 ^ 24 \<Longrightarrow> (2::real) ^ 23 \<le> of_int s \<and> of_int s < (2::real) ^ 24"
  using of_int_le_iff [of "2 ^ 23" s, where 'a = real] of_int_less_iff [of s "2 ^ 24", where 'a = real]
  by simp

lemma sig24_gap:
  assumes sig: "2 ^ 23 \<le> sig" "sig < 2 ^ 24" and z: "z \<in> sig24"
  shows "z \<le> of_int sig * 2 powi (e - 23) \<or> of_int (sig + 1) * 2 powi (e - 23) \<le> z"
proof -
  from z obtain s f where zf: "z = of_int s * 2 powi (f - 23)" and s: "2 ^ 23 \<le> s" "s < 2 ^ 24"
    by (auto simp: sig24_def)
  have sr: "(2::real) ^ 23 \<le> of_int s" "of_int s < (2::real) ^ 24"
    using sig_real [OF s] by simp_all
  consider "f = e" | "f < e" | "e < f" by linarith
  then show ?thesis
  proof cases
    case 1
    then show ?thesis unfolding zf by (cases "s \<le> sig") simp_all
  next
    case 2
    have "z < 2 ^ 24 * 2 powi (f - 23)" unfolding zf using sr by simp
    also have "\<dots> = 2 ^ 23 * 2 powi (f + 1 - 23)" by (simp add: powi_step)
    also have "\<dots> \<le> 2 ^ 23 * (2::real) powi (e - 23)" using 2 by (simp add: power_int_increasing)
    also have "\<dots> \<le> of_int sig * 2 powi (e - 23)" using sig by simp
    finally show ?thesis by simp
  next
    case 3
    have "of_int (sig + 1) * (2::real) powi (e - 23) \<le> 2 ^ 24 * 2 powi (e - 23)" using sig by simp
    also have "\<dots> = 2 ^ 23 * 2 powi (e + 1 - 23)" by (simp add: powi_step)
    also have "\<dots> \<le> 2 ^ 23 * (2::real) powi (f - 23)" using 3 by (simp add: power_int_increasing)
    also have "\<dots> \<le> z" unfolding zf using sr by simp
    finally show ?thesis by simp
  qed
qed

lemma sig24_I: "2 ^ 23 \<le> sig \<Longrightarrow> sig < 2 ^ 24 \<Longrightarrow> of_int sig * 2 powi (e - 23) \<in> sig24"
  by (auto simp: sig24_def)

lemma sig24_carry: "(of_int (2 ^ 24) * 2 powi (e - 23) :: real) = of_int (2 ^ 23) * 2 powi (e + 1 - 23)"
  by (simp add: powi_step)

lemma sig24_succ: "2 ^ 23 \<le> sig \<Longrightarrow> sig < 2 ^ 24 \<Longrightarrow> of_int (sig + 1) * 2 powi (e - 23) \<in> sig24"
proof (cases "sig + 1 = 2 ^ 24")
  case True
  show ?thesis unfolding True sig24_carry by (rule sig24_I) simp_all
next
  case False
  assume "2 ^ 23 \<le> sig" "sig < 2 ^ 24"
  with False show ?thesis by (intro sig24_I) simp_all
qed

definition cls_of :: "remainder_cls \<Rightarrow> real \<Rightarrow> bool" where
  "cls_of cls r = (case cls of Exact \<Rightarrow> r = 0 | Below \<Rightarrow> 0 < r \<and> r < 1 / 2 | Tie \<Rightarrow> r = 1 / 2
     | Above \<Rightarrow> 1 / 2 < r \<and> r < 1)"

lemma even_sig_I: "2 ^ 23 \<le> sig \<Longrightarrow> sig < 2 ^ 24 \<Longrightarrow> even sig \<Longrightarrow> even_sig (of_int sig * 2 powi (e - 23))"
  by (auto simp: even_sig_def)

lemma even_sig_succ: "2 ^ 23 \<le> sig \<Longrightarrow> sig < 2 ^ 24 \<Longrightarrow> odd sig \<Longrightarrow> even_sig (of_int (sig + 1) * 2 powi (e - 23))"
proof (cases "sig + 1 = 2 ^ 24")
  case True
  show ?thesis unfolding True sig24_carry by (rule even_sig_I) simp_all
next
  case False
  assume "2 ^ 23 \<le> sig" "sig < 2 ^ 24" "odd sig"
  with False show ?thesis by (intro even_sig_I) simp_all
qed

lemma cls_scaled:
  assumes "cls_of cls r" "0 < u"
  shows "case cls of Exact \<Rightarrow> r * u = 0 | Below \<Rightarrow> 0 < r * u \<and> 2 * (r * u) < u | Tie \<Rightarrow> 2 * (r * u) = u
    | Above \<Rightarrow> u < 2 * (r * u) \<and> r * u < u"
  using assms mult_strict_right_mono [of "2 * r" 1 u] mult_strict_right_mono [of 1 "2 * r" u]
    mult_strict_right_mono [of r 1 u]
  by (auto simp: cls_of_def algebra_simps split: remainder_cls.splits)

lemma decision_rounds:
  assumes sig: "2 ^ 23 \<le> sig" "sig < 2 ^ 24" and sign: "sign = 0 \<or> sign = 1"
    and cls: "cls_of cls r" and x: "x = (of_int sig + r) * 2 powi (e - 23)"
    and dec: "f32_round_up_decision cls sig sign rm = (up, inexact)"
    and y: "y = of_int (if up then sig + 1 else sig) * 2 powi (e - 23)"
  shows "is_rounding rm sign x y" "inexact \<longleftrightarrow> y \<noteq> x"
proof -
  define u lo hi where "u = (2::real) powi (e - 23)" and "lo = of_int sig * u" and "hi = of_int (sig + 1) * u"
  have u: "0 < u" and hi: "hi = lo + u" by (simp_all add: u_def lo_def hi_def algebra_simps)
  have xr: "x = lo + r * u" by (simp add: x u_def lo_def algebra_simps)
  have yl: "y = (if up then hi else lo)" by (simp add: y u_def lo_def hi_def)
  have F: "lo \<in> sig24" "hi \<in> sig24" unfolding lo_def hi_def u_def
    using sig24_I [OF sig, of e] sig24_succ [OF sig, of e] by simp_all
  have gap: "z \<le> lo \<or> hi \<le> z" if "z \<in> sig24" for z
    using sig24_gap [OF sig that, of e] by (simp add: lo_def hi_def u_def)
  have ev: "even sig \<Longrightarrow> even_sig lo" "odd sig \<Longrightarrow> even_sig hi"
    unfolding lo_def hi_def u_def using even_sig_I [OF sig, of e] even_sig_succ [OF sig, of e] by simp_all
  define d where "d = r * u"
  have pos: "x - lo = d" "hi - x = u - d" by (simp_all add: xr hi d_def)
  have cx: "cls = Exact \<longleftrightarrow> x = lo" "cls \<noteq> Exact \<longleftrightarrow> lo < x \<and> x < hi"
    "cls = Below \<longleftrightarrow> lo < x \<and> x - lo < hi - x" "cls = Tie \<longleftrightarrow> x - lo = hi - x"
    "cls = Above \<longleftrightarrow> hi - x < x - lo \<and> x < hi"
    using cls_scaled [OF cls u, folded d_def] u pos by (auto split: remainder_cls.splits)
  have od: "sig AND 1 \<noteq> 0 \<longleftrightarrow> odd sig" by (simp add: and_one_eq odd_iff_mod_2_eq_one)
  show "inexact \<longleftrightarrow> y \<noteq> x"
    using dec cx yl by (auto simp: f32_round_up_decision_def split: if_splits)
  show "is_rounding rm sign x y"
  proof (cases "cls = Exact")
    case True
    then have "x = lo" "y = lo" using cx dec yl by (auto simp: f32_round_up_decision_def)
    then show ?thesis using F by (auto simp: is_rounding_def)
  next
    case False
    show ?thesis
    proof (cases "toward_zero rm sign")
      case True
      then have "y = lo" using dec yl False sign
        by (auto simp: f32_round_up_decision_def toward_zero_def split: if_splits)
      then show ?thesis using True False cx(2) F gap by (fastforce simp: is_rounding_def)
    next
      case tz: False
      show ?thesis
      proof (cases "rm = 2 \<or> rm = 3")
        case True
        then have "y = hi" using dec yl False sign tz
          by (auto simp: f32_round_up_decision_def toward_zero_def split: if_splits)
        then show ?thesis using True tz False cx(2) F gap by (fastforce simp: is_rounding_def)
      next
        case nr: False
        then have r1: "rm \<noteq> 1" using tz by (auto simp: toward_zero_def)
        have up: "up \<longleftrightarrow> cls = Above \<or> (cls = Tie \<and> (rm = 4 \<or> odd sig))"
          using dec False nr r1 od by (cases cls) (auto simp: f32_round_up_decision_def split: if_splits)
        have near: "\<bar>y - x\<bar> \<le> \<bar>z - x\<bar>" if "z \<in> sig24" for z
          using gap [OF that] yl up cx False by (cases cls) (auto split: if_splits)
        have tie: "if rm = 4 then z < y else even_sig y" if "z \<in> sig24" "z \<noteq> y" "\<bar>z - x\<bar> = \<bar>y - x\<bar>" for z
          using gap [OF that(1)] that(2,3) yl up cx False ev by (cases cls) (auto split: if_splits)
        show ?thesis using near tie tz nr F yl by (auto simp: is_rounding_def)
      qed
    qed
  qed
qed

subsection \<open>Packing\<close>

definition f32_value :: "int \<Rightarrow> real" where
  "f32_value bits =
     (if dsign (f32_decode bits) = 0 then 1 else - 1) * of_rat (magnitude (f32_decode bits))"

definition is_normal :: "int \<Rightarrow> bool" where
  "is_normal bits \<longleftrightarrow> 0 \<le> bits \<and> bits < 2 ^ 32 \<and> \<not> is_nan (f32_decode bits) \<and>
     \<not> is_inf (f32_decode bits) \<and> \<not> is_zero (f32_decode bits)"

text \<open>
  What the packed result must be when the exact magnitude \<open>x\<close> has been rounded to \<open>y\<close>:
  beyond the largest binade an overflow (an infinity, or the largest finite number when
  the mode rounds towards zero), below the smallest normal number a flush to zero, and
  otherwise a normal number of value \<open>y\<close> with the inexact flag exactly when \<open>y\<close> is not \<open>x\<close>.
\<close>

definition packs :: "int \<Rightarrow> int \<Rightarrow> real \<Rightarrow> real \<Rightarrow> int \<times> int \<Rightarrow> bool" where
  "packs rm sign x y res \<longleftrightarrow>
     (if 2 ^ 128 \<le> y then
        res = (if toward_zero rm sign then push_bit 31 sign OR 0x7F7FFFFF else f32_pack_inf sign, 5)
      else if y < 2 powi (-126) then res = (f32_pack_zero sign, 3)
      else is_normal (fst res) \<and> dsign (f32_decode (fst res)) = sign \<and>
           \<bar>f32_value (fst res)\<bar> = y \<and> snd res = (if y = x then 0 else 1))"

lemma f32_fields:
  fixes s E M :: int
  assumes "0 \<le> s" "s \<le> 1" "0 \<le> E" "E < 256" "0 \<le> M" "M < 0x800000"
  defines "bits \<equiv> push_bit 31 s OR push_bit 23 E OR M"
  shows "bits = s * 2 ^ 31 + E * 2 ^ 23 + M" "0 \<le> bits" "bits < 2 ^ 32"
    "bits AND 0xFFFFFFFF = bits" "drop_bit 31 bits AND 1 = s" "drop_bit 23 bits AND 0xFF = E"
    "bits AND 0x7FFFFF = M"
proof -
  have 1: "push_bit 23 E OR M = E * 2 ^ 23 + M"
    using or_low [of M 23 E] assms(5,6) by (simp add: push_bit_eq_mult)
  show e: "bits = s * 2 ^ 31 + E * 2 ^ 23 + M"
    unfolding bits_def 1 using or_low [of "E * 2 ^ 23 + M" 31 s] assms
    by (simp add: push_bit_eq_mult)
  show "0 \<le> bits" "bits < 2 ^ 32" unfolding e using assms by simp_all
  have d31: "bits div 2 ^ 31 = s"
    by (rule int_div_pos_eq [where r = "E * 2 ^ 23 + M"]) (use e assms(1-6) in auto)
  have d23: "bits div 2 ^ 23 = s * 256 + E"
    by (rule int_div_pos_eq [where r = M]) (use e assms(1-6) in auto)
  have m23: "bits mod 2 ^ 23 = M"
    by (rule int_mod_pos_eq [where q = "s * 256 + E"]) (use e assms(1-6) in auto)
  show "bits AND 0xFFFFFFFF = bits"
    unfolding and_mod_32 using e assms(1-6) by (intro mod_pos_pos_trivial) auto
  show "drop_bit 31 bits AND 1 = s" using d31 assms(1,2) by (simp add: drop_bit_eq_div and_mod_1)
  show "drop_bit 23 bits AND 0xFF = E"
    unfolding drop_bit_eq_div d23 and_mod_8
    by (rule int_mod_pos_eq [where q = s]) (use assms(3,4) in auto)
  show "bits AND 0x7FFFFF = M" using m23 by (simp add: and_mod_23)
qed

lemma decode_normal:
  fixes s E M :: int
  assumes "0 \<le> s" "s \<le> 1" "0 < E" "E < 255" "0 \<le> M" "M < 0x800000"
  defines "d \<equiv> f32_decode (push_bit 31 s OR push_bit 23 E OR M)"
  shows "dsign d = s" "\<not> is_zero d" "\<not> is_inf d" "\<not> is_nan d" "\<not> is_snan d"
    "magnitude d = of_int (2 ^ 23 + M) / 2 ^ 23 * 2 powi (E - 127)"
proof -
  note f = f32_fields [OF assms(1,2), of E M]
  have m: "push_bit 23 1 OR M = 2 ^ 23 + M"
    using or_low [of M 23 1] assms by (simp add: push_bit_eq_mult)
  have "d = \<lparr>dsign = s, is_zero = False, is_inf = False, is_nan = False, is_snan = False,
      dmag = Some (of_int (2 ^ 23 + M) / 2 ^ 23 * 2 powi (E - 127))\<rparr>"
    unfolding d_def f32_decode_def Let_def using f assms(3-6) m by (simp add: push_bit_eq_mult)
  then show "dsign d = s" "\<not> is_zero d" "\<not> is_inf d" "\<not> is_nan d" "\<not> is_snan d"
    "magnitude d = of_int (2 ^ 23 + M) / 2 ^ 23 * 2 powi (E - 127)"
    by (simp_all add: magnitude_def)
qed

lemma binade:
  fixes sig e :: int
  assumes "2 ^ 23 \<le> sig" "sig < 2 ^ 24"
  defines "y \<equiv> of_int sig * (2::real) powi (e - 23)"
  shows "2 powi e \<le> y" "y < 2 powi (e + 1)"
proof -
  have p: "(2::real) powi e = 2 ^ 23 * 2 powi (e - 23)" "(2::real) powi (e + 1) = 2 ^ 24 * 2 powi (e - 23)"
    using power_int_add [of "2::real" 23 "e - 23"] power_int_add [of "2::real" 24 "e - 23"] by (simp_all add: add.commute)
  show "2 powi e \<le> y" "y < 2 powi (e + 1)"
    unfolding p y_def using sig_real [OF assms(1,2)] by simp_all
qed

lemma binade_iff:
  assumes "2 ^ 23 \<le> sig" "sig < 2 ^ 24"
  shows "(2 ^ 128 \<le> of_int sig * (2::real) powi (e - 23)) = (127 < e)"
    "(of_int sig * (2::real) powi (e - 23) < 2 powi (-126)) = (e < -126)"
proof -
  note b = binade [OF assms, of e]
  have "127 < e \<Longrightarrow> (2::real) powi 128 \<le> 2 powi e" by (rule power_int_increasing) simp_all
  moreover have "\<not> 127 < e \<Longrightarrow> (2::real) powi (e + 1) \<le> 2 powi 128" by (rule power_int_increasing) simp_all
  ultimately show "(2 ^ 128 \<le> of_int sig * (2::real) powi (e - 23)) = (127 < e)"
    using b by (cases "127 < e") auto
  have "e < -126 \<Longrightarrow> (2::real) powi (e + 1) \<le> 2 powi (-126)" by (rule power_int_increasing) simp_all
  moreover have "\<not> e < -126 \<Longrightarrow> (2::real) powi (-126) \<le> 2 powi e" by (rule power_int_increasing) simp_all
  ultimately show "(of_int sig * (2::real) powi (e - 23) < 2 powi (-126)) = (e < -126)"
    using b by (cases "e < -126") auto
qed

lemma of_rat_powi: "(of_rat (2 powi n) :: real) = 2 powi n"
  by (simp add: power_int_def of_rat_power of_rat_divide)

lemma pack_normal_value:
  assumes "sign = 0 \<or> sign = 1" "-126 \<le> e" "e \<le> 127" "2 ^ 23 \<le> sig" "sig < 2 ^ 24"
  defines "bits \<equiv> push_bit 31 sign OR push_bit 23 (e + 127) OR (sig AND 0x7FFFFF)"
  shows "is_normal bits" "dsign (f32_decode bits) = sign" "\<bar>f32_value bits\<bar> = of_int sig * 2 powi (e - 23)"
proof -
  have m: "sig AND 0x7FFFFF = sig - 2 ^ 23"
    unfolding and_mod_23 by (rule int_mod_pos_eq [where q = 1]) (use assms in auto)
  have M: "0 \<le> sig AND 0x7FFFFF" "sig AND 0x7FFFFF < 0x800000" using assms by (simp_all add: m)
  have s: "0 \<le> sign" "sign \<le> 1" using assms by auto
  have E: "0 < e + 127" "e + 127 < 255" using assms by auto
  note d = decode_normal [OF s E M] and f = f32_fields [OF s _ _ M, of "e + 127"]
  show "is_normal bits" using d f E by (simp add: is_normal_def bits_def)
  show "dsign (f32_decode bits) = sign" using d by (simp add: bits_def)
  have mag: "magnitude (f32_decode bits) = of_int sig / 2 ^ 23 * 2 powi e"
    using d(6) by (simp add: bits_def m)
  have "of_rat (magnitude (f32_decode bits)) = of_int sig * (2::real) powi (e - 23)"
    unfolding mag using power_int_diff [of "2::real" e 23]
    by (simp add: of_rat_mult of_rat_divide of_rat_power of_rat_powi)
  then show "\<bar>f32_value bits\<bar> = of_int sig * 2 powi (e - 23)"
    using assms(4) by (simp add: f32_value_def abs_mult)
qed

lemma pack_rounded_correct:
  assumes sig: "2 ^ 23 \<le> sig" "sig < 2 ^ 24" and sign: "sign = 0 \<or> sign = 1"
    and cls: "cls_of cls r" and x: "x = (of_int sig + r) * 2 powi (e - 23)"
  shows "\<exists>y. is_rounding rm sign x y \<and> packs rm sign x y (f32_pack_rounded sign e sig cls rm)"
proof -
  obtain up inexact where dec: "f32_round_up_decision cls sig sign rm = (up, inexact)" by force
  define sig1 where "sig1 = (if up then sig + 1 else sig)"
  define y where "y = (of_int sig1 :: real) * 2 powi (e - 23)"
  note rd = decision_rounds [OF sig sign cls x dec y_def [unfolded sig1_def]]
  define c where "c \<longleftrightarrow> up \<and> sig1 = push_bit 24 1"
  define sig2 where "sig2 = (if c then drop_bit 1 sig1 else sig1)"
  define e2 where "e2 = (if c then e + 1 else e)"
  have c24: "c = (up \<and> sig1 = 2 ^ 24)" by (simp add: c_def push_bit_eq_mult)
  have c: "c \<Longrightarrow> sig1 = 2 ^ 24" "c \<Longrightarrow> sig2 = 2 ^ 23" by (simp_all add: c24 sig2_def)
  have s2: "2 ^ 23 \<le> sig2 \<and> sig2 < 2 ^ 24"
  proof (cases c)
    case True
    with c show ?thesis by simp
  next
    case False
    then have "sig2 = sig1" "\<not> up \<or> sig1 \<noteq> 2 ^ 24" by (simp_all add: sig2_def c24)
    with sig show ?thesis by (cases up) (simp_all add: sig1_def)
  qed
  have y2: "y = of_int sig2 * 2 powi (e2 - 23)"
    using c sig24_carry [of e] by (cases c) (simp_all add: y_def sig2_def e2_def)
  have P: "f32_pack_rounded sign e sig cls rm =
      (if e2 > 127 then
         ((if toward_zero rm sign then push_bit 31 sign OR push_bit 23 0xFE OR 0x7FFFFF
           else push_bit 31 sign OR push_bit 23 0xFF), 5)
       else if e2 < -126 then (f32_pack_zero sign, 3)
       else (push_bit 31 sign OR push_bit 23 (e2 + 127) OR (sig2 AND 0x7FFFFF), if inexact then 1 else 0))"
    by (simp add: f32_pack_rounded_def dec Let_def sig1_def c_def sig2_def e2_def toward_zero_def)
  have sg: "sign AND 1 = sign" using sign by auto
  have "packs rm sign x y (f32_pack_rounded sign e sig cls rm)"
    unfolding packs_def y2 binade_iff [OF s2 [THEN conjunct1] s2 [THEN conjunct2]] P
    using pack_normal_value [OF sign _ _ s2 [THEN conjunct1] s2 [THEN conjunct2], of e2] rd(2) y2 sg
    by (auto simp: f32_pack_inf_def)
  with rd(1) show ?thesis by blast
qed

end
