(* ===== verification/Softfloat_Norm.thy ===== *)
theory Softfloat_Norm
  imports Softfloat_Round
begin

text \<open>
  The interface between the normalisation routines and the rounding code, and its two
  providers: \<open>_f32_normalize_fraction\<close> (exact value: the rational itself) and
  \<open>_f32_sqrt_normalize\<close> (exact value: its square root). The laws of the interface say that
  the loops end and that exponent, significand and remainder class describe the exact
  value; the correctly rounded result follows inside the interface.
\<close>

locale normalizer =
  fixes norm :: "rat \<Rightarrow> (int \<times> int \<times> remainder_cls) result"
    and exact :: "rat \<Rightarrow> real"
    and domain :: "rat \<Rightarrow> bool"
  assumes norm_ok: "domain m \<Longrightarrow> \<exists>e sig cls r. norm m = Inr (e, sig, cls) \<and> 2 ^ 23 \<le> sig \<and> sig < 2 ^ 24 \<and>
    cls_of cls r \<and> exact m = (of_int sig + r) * 2 powi (e - 23)"
begin

lemma rounds:
  assumes "domain m" "sign = 0 \<or> sign = 1"
  obtains e sig cls y where "norm m = Inr (e, sig, cls)" "is_rounding rm sign (exact m) y"
    "packs rm sign (exact m) y (f32_pack_rounded sign e sig cls rm)"
  using norm_ok [OF assms(1)] pack_rounded_correct [OF _ _ assms(2)] by metis

end

subsection \<open>Rational results\<close>

lemma floor_div_floor: "floor_div q = \<lfloor>q\<rfloor>"
  by (simp add: floor_div_def rat_floor_code Let_def)

lemma classify_cls:
  assumes "0 \<le> r" "r < 1"
  shows "cls_of (classify_remainder r) (of_rat r)"
proof -
  have h: "(of_rat (1 / 2) :: real) = 1 / 2" by (simp add: of_rat_divide)
  have "r < 1 / 2 \<longleftrightarrow> of_rat r < (1 / 2 :: real)" "r > 1 / 2 \<longleftrightarrow> of_rat r > (1 / 2 :: real)"
    "r = 1 / 2 \<longleftrightarrow> of_rat r = (1 / 2 :: real)"
    unfolding h [symmetric] of_rat_less of_rat_eq_iff by (rule refl)+
  moreover have "r = 0 \<longleftrightarrow> of_rat r = (0::real)" "of_rat r < (1::real)" "(0::real) \<le> of_rat r"
    using assms by simp_all
  ultimately show ?thesis by (auto simp: classify_remainder_def cls_of_def)
qed

lemma scaled_sig:
  assumes "2 powi e \<le> m" "m < 2 powi (e + 1)"
  shows "2 ^ 23 \<le> m * 2 powi (23 - e)" "m * 2 powi (23 - e) < (2::rat) ^ 24"
proof -
  have p: "(2::rat) powi e * 2 powi (23 - e) = 2 ^ 23" "(2::rat) powi (e + 1) * 2 powi (23 - e) = 2 ^ 24"
    using power_int_add [of "2::rat" e "23 - e"] power_int_add [of "2::rat" "e + 1" "23 - e"] by simp_all
  show "2 ^ 23 \<le> m * 2 powi (23 - e)" "m * 2 powi (23 - e) < (2::rat) ^ 24"
    unfolding p [symmetric] using assms by simp_all
qed

interpretation frac: normalizer f32_normalize_fraction of_rat "\<lambda>m. 0 < m"
proof
  fix m :: rat
  assume m: "0 < m"
  obtain e where e: "norm_up 1 m (int_bit_length (fst (quotient_of m)) - int_bit_length (snd (quotient_of m)) - 1) = Some e"
    "norm_down 1 m e = Some e" "2 powi e \<le> m" "m < 2 powi (e + 1)"
    by (rule norm_loops [OF m, of 1]) simp_all
  define q where "q = m * 2 powi (23 - e)"
  have q: "2 ^ 23 \<le> q" "q < 2 ^ 24" unfolding q_def by (rule scaled_sig [OF e(3,4)])+
  have f: "f32_normalize_fraction m = Inr (e, \<lfloor>q\<rfloor>, classify_remainder (q - of_int \<lfloor>q\<rfloor>))"
    using e(1,2) by (simp add: f32_normalize_fraction_def Let_def floor_div_floor q_def)
  have s: "2 ^ 23 \<le> \<lfloor>q\<rfloor>" "\<lfloor>q\<rfloor> < 2 ^ 24"
    using q by (simp_all add: le_floor_iff floor_less_iff)
  have r: "0 \<le> q - of_int \<lfloor>q\<rfloor>" "q - of_int \<lfloor>q\<rfloor> < 1" by linarith+
  have "m = q * 2 powi (e - 23)"
    unfolding q_def using power_int_add [of "2::rat" "23 - e" "e - 23"] by (simp add: mult.assoc)
  then have "(of_rat m :: real) = of_rat q * of_rat (2 powi (e - 23))" by (simp add: of_rat_mult)
  then have "(of_rat m :: real) = (of_int \<lfloor>q\<rfloor> + of_rat (q - of_int \<lfloor>q\<rfloor>)) * 2 powi (e - 23)"
    by (simp add: of_rat_powi of_rat_diff)
  with f s classify_cls [OF r]
  show "\<exists>e sig cls r. f32_normalize_fraction m = Inr (e, sig, cls) \<and> 2 ^ 23 \<le> sig \<and> sig < 2 ^ 24 \<and>
      cls_of cls r \<and> of_rat m = (of_int sig + r) * 2 powi (e - 23)" by blast
qed

subsection \<open>Square roots\<close>

lemma isqrt_bounds: "isqrt n * isqrt n \<le> n \<and> n < (isqrt n + 1) * (isqrt n + 1)"
proof (induction n rule: isqrt.induct)
  case (1 n)
  show ?case
  proof (cases "n = 0")
    case False
    define q where "q = isqrt (n div 4)"
    have q: "q * q \<le> n div 4" "n div 4 < (q + 1) * (q + 1)" using 1 False by (simp_all add: q_def)
    have lo: "(2 * q) * (2 * q) \<le> n" using q(1) by simp
    have hi: "n < (2 * q + 1 + 1) * (2 * q + 1 + 1)" using q(2) by simp
    have "isqrt n = (if (2 * q + 1) * (2 * q + 1) \<le> n then 2 * q + 1 else 2 * q)"
      using False by (subst isqrt.simps) (simp add: Let_def q_def)
    with lo hi show ?thesis by (cases "(2 * q + 1) * (2 * q + 1) \<le> n") (auto simp: not_le)
  qed (simp add: isqrt.simps)
qed

definition dyadic24 :: "rat \<Rightarrow> bool" where
  "dyadic24 m \<longleftrightarrow> (\<exists>M x. 2 ^ 23 \<le> M \<and> M < 2 ^ 24 \<and> m = of_int M * 2 powi x)"

lemma powi_nonneg_int: "0 \<le> x \<Longrightarrow> (2::rat) powi x = of_int (2 ^ nat x)"
  by (simp add: power_int_def)

lemma dyadic_scaled:
  assumes d: "dyadic24 m" and e: "2 powi (2 * e) \<le> m" "m < 2 powi (2 * (e + 1))"
  obtains n where "m * 2 powi (2 * (23 - e)) = of_int n" "2 ^ 46 \<le> n" "n < 2 ^ 48"
proof -
  from d obtain M x where M: "2 ^ 23 \<le> M" "M < 2 ^ 24" "m = of_int M * 2 powi x" by (auto simp: dyadic24_def)
  let ?y = "2 * (23 - e)"
  have "(of_int M :: rat) < 2 ^ 24" using M(2) of_int_less_iff [of M "2 ^ 24", where 'a = rat] by simp
  then have "of_int M * (2::rat) powi x < 2 ^ 24 * 2 powi x" by (rule mult_strict_right_mono) simp
  with e(1) have "(2::rat) powi (2 * e) < 2 ^ 24 * 2 powi x" unfolding M(3) by linarith
  also have "\<dots> = 2 powi (24 + x)" by (simp add: power_int_add)
  finally have "2 * e < 24 + x" using power_int_increasing [of "24 + x" "2 * e" "2::rat"] by linarith
  then have p: "0 \<le> x + ?y" by simp
  have s: "m * 2 powi ?y = of_int (M * 2 ^ nat (x + ?y))"
    unfolding M(3) using p power_int_add [of "2::rat" x ?y] powi_nonneg_int [OF p] by (simp add: mult.assoc)
  have q: "(2::rat) powi (2 * e) * 2 powi ?y = 2 ^ 46" "(2::rat) powi (2 * (e + 1)) * 2 powi ?y = 2 ^ 48"
    using power_int_add [of "2::rat" "2 * e" ?y] power_int_add [of "2::rat" "2 * (e + 1)" ?y] by simp_all
  have "(2::rat) ^ 46 \<le> of_int (M * 2 ^ nat (x + ?y))" "of_int (M * 2 ^ nat (x + ?y)) < (2::rat) ^ 48"
    unfolding s [symmetric] q [symmetric] using e by simp_all
  then have "2 ^ 46 \<le> M * 2 ^ nat (x + ?y)" "M * 2 ^ nat (x + ?y) < 2 ^ 48"
    using of_int_le_iff [of "2 ^ 46" "M * 2 ^ nat (x + ?y)", where 'a = rat]
      of_int_less_iff [of "M * 2 ^ nat (x + ?y)" "2 ^ 48", where 'a = rat]
    unfolding of_int_power of_int_numeral by blast+
  with s show ?thesis by (rule that)
qed

lemma sqrt_class:
  fixes n s :: int
  assumes "0 \<le> s" "s * s \<le> n" "n < (s + 1) * (s + 1)"
  shows "cls_of (if s * s = n then Exact else if 4 * n < (2 * s + 1) ^ 2 then Below
     else if 4 * n > (2 * s + 1) ^ 2 then Above else Tie) (sqrt (of_int n) - of_int s)"
proof -
  define r where "r = sqrt (of_int n)"
  have s0: "(0::real) \<le> of_int s" using assms by simp
  have rr: "r ^ 2 = of_int n" "0 \<le> r" using assms(1,2) by (simp_all add: r_def order.trans [of 0 "s * s"])
  have cmp: "a ^ 2 < b ^ 2 \<longleftrightarrow> a < b" if "0 \<le> a" "0 \<le> b" for a b :: real
    using that power2_less_imp_less [of a b] power_strict_mono [of a b 2] by auto
  have eq: "a ^ 2 = b ^ 2 \<longleftrightarrow> a = b" if "0 \<le> a" "0 \<le> b" for a b :: real
    using that by (simp add: power2_eq_iff_nonneg)
  have ii: "of_int (s * s) = (of_int s :: real) ^ 2" "of_int ((s + 1) * (s + 1)) = (of_int s + 1 :: real) ^ 2"
    "of_int ((2 * s + 1) ^ 2) = (2 * of_int s + 1 :: real) ^ 2" "of_int (4 * n) = (2 * r) ^ 2"
    by (simp_all add: power2_eq_square rr(1) [symmetric])
  have "s * s = n \<longleftrightarrow> of_int s = r" "n < (s + 1) * (s + 1) \<longleftrightarrow> r < of_int s + 1"
    "\<not> n < s * s \<longleftrightarrow> \<not> r < of_int s"
    using eq [of "of_int s" r] cmp [of r "of_int s + 1"] cmp [of r "of_int s"] s0 rr ii
    by (metis of_int_eq_iff, metis of_int_less_iff add_nonneg_nonneg zero_le_one, metis of_int_less_iff)
  moreover have "4 * n < (2 * s + 1) ^ 2 \<longleftrightarrow> 2 * r < 2 * of_int s + 1"
    "4 * n > (2 * s + 1) ^ 2 \<longleftrightarrow> 2 * r > 2 * of_int s + 1"
    using cmp [of "2 * r" "2 * of_int s + 1"] cmp [of "2 * of_int s + 1" "2 * r"] s0 rr(2) ii
      of_int_less_iff [of "4 * n" "(2 * s + 1) ^ 2", where 'a = real]
      of_int_less_iff [of "(2 * s + 1) ^ 2" "4 * n", where 'a = real]
    by simp_all
  ultimately show ?thesis using assms(2,3) unfolding r_def [symmetric] by (auto simp: cls_of_def)
qed

lemma isqrt_int:
  assumes "0 \<le> n"
  defines "s \<equiv> int (isqrt (nat n))"
  shows "0 \<le> s" "s * s \<le> n" "n < (s + 1) * (s + 1)"
proof -
  note b = isqrt_bounds [of "nat n"]
  have "int (isqrt (nat n) * isqrt (nat n)) \<le> n" using b assms(1) by linarith
  then show "s * s \<le> n" by (simp add: s_def)
  have "n < int ((isqrt (nat n) + 1) * (isqrt (nat n) + 1))" using b assms(1) by linarith
  then show "n < (s + 1) * (s + 1)" by (simp add: s_def algebra_simps)
  show "0 \<le> s" by (simp add: s_def)
qed

lemma sqrt_sig_range:
  fixes s n :: int
  assumes "0 \<le> s" "s * s \<le> n" "n < (s + 1) * (s + 1)" "2 ^ 46 \<le> n" "n < 2 ^ 48"
  shows "2 ^ 23 \<le> s" "s < 2 ^ 24"
proof -
  have "(2 ^ 23) ^ 2 < (s + 1) ^ 2" using assms by (simp add: power2_eq_square)
  then show "2 ^ 23 \<le> s" using power_less_imp_less_base [of "2 ^ 23" 2 "s + 1"] assms(1) by simp
  have "s ^ 2 < (2 ^ 24) ^ 2" using assms by (simp add: power2_eq_square)
  then show "s < 2 ^ 24" using power_less_imp_less_base [of s 2 "2 ^ 24"] by simp
qed

lemma sqrt_unscale:
  assumes "m * 2 powi (2 * (23 - e)) = of_int n"
  shows "sqrt (of_rat m) = sqrt (of_int n) * 2 powi (e - 23)"
proof -
  have "m = of_int n * (2 powi (e - 23)) ^ 2"
    unfolding assms [symmetric] using power_int_add [of "2::rat" "2 * (23 - e)" "2 * (e - 23)"]
    by (simp add: mult.assoc power_int_mult power_int_power' mult.commute)
  then have "of_rat m = of_int n * ((2::real) powi (e - 23)) ^ 2"
    by (simp add: of_rat_mult of_rat_power of_rat_powi)
  then show ?thesis by (simp add: real_sqrt_mult)
qed

interpretation root: normalizer f32_sqrt_normalize "\<lambda>m. sqrt (of_rat m)" dyadic24
proof
  fix m :: rat
  assume d: "dyadic24 m"
  then have m: "0 < m" by (auto simp: dyadic24_def)
  obtain e where e: "norm_up 2 m ((int_bit_length (fst (quotient_of m)) - int_bit_length (snd (quotient_of m))) div 2 - 1) = Some e"
    "norm_down 2 m e = Some e" "2 powi (2 * e) \<le> m" "m < 2 powi (2 * (e + 1))"
    by (rule norm_loops [OF m, of 2]) simp_all
  obtain n where n: "m * 2 powi (2 * (23 - e)) = of_int n" "2 ^ 46 \<le> n" "n < 2 ^ 48"
    by (rule dyadic_scaled [OF d e(3,4)])
  define s where "s = int (isqrt (nat n))"
  have "0 \<le> n" using n(2) by simp
  note s = isqrt_int [OF this, folded s_def]
  have f: "f32_sqrt_normalize m = Inr (e, s, if s * s = n then Exact
      else if 4 * n < (2 * s + 1) ^ 2 then Below else if 4 * n > (2 * s + 1) ^ 2 then Above else Tie)"
    using e(1,2) n(1) by (simp add: f32_sqrt_normalize_def Let_def s_def)
  have "sqrt (of_rat m) = (of_int s + (sqrt (of_int n) - of_int s)) * 2 powi (e - 23)"
    using sqrt_unscale [OF n(1)] by simp
  with f sqrt_sig_range [OF s n(2,3)] sqrt_class [OF s]
  show "\<exists>e sig cls r. f32_sqrt_normalize m = Inr (e, sig, cls) \<and> 2 ^ 23 \<le> sig \<and> sig < 2 ^ 24 \<and>
      cls_of cls r \<and> sqrt (of_rat m) = (of_int sig + r) * 2 powi (e - 23)" by blast
qed

end
