(* ===== verification/Softfloat_Ops.thy ===== *)
theory Softfloat_Ops
  imports Softfloat_Norm
begin

text \<open>
  The floating-point operations of \<open>sim/tools/iss.py\<close> against real arithmetic: every
  operation returns (no normalisation loop runs forever, the assertion of the square root
  never fails), on finite operands with a nonzero exact result the value returned is the
  exact result rounded once, zeros and comparisons follow the order of the reals, and
  conversions saturate.
\<close>

subsection \<open>Decoding\<close>

lemma decode_sign: "dsign (f32_decode b) = drop_bit 31 (b AND 0xFFFFFFFF) AND 1"
  by (simp add: f32_decode_def Let_def)

lemma decode_sign_01: "dsign (f32_decode b) = 0 \<or> dsign (f32_decode b) = 1"
  unfolding decode_sign and_mod_1 by presburger

lemma decode_excl:
  "is_nan (f32_decode b) \<Longrightarrow> \<not> is_inf (f32_decode b) \<and> \<not> is_zero (f32_decode b)"
  "is_inf (f32_decode b) \<Longrightarrow> \<not> is_nan (f32_decode b) \<and> \<not> is_zero (f32_decode b)"
  "is_zero (f32_decode b) \<Longrightarrow> \<not> is_nan (f32_decode b) \<and> \<not> is_inf (f32_decode b)"
  "is_snan (f32_decode b) \<Longrightarrow> is_nan (f32_decode b)"
  by (simp_all add: f32_decode_def Let_def split: if_splits)

lemma decode_zero_mag: "is_zero (f32_decode b) \<Longrightarrow> magnitude (f32_decode b) = 0"
  by (simp add: f32_decode_def Let_def magnitude_def split: if_splits)

text \<open>The pattern of a normal number, split into its fields.\<close>

lemma normal_fields:
  fixes b :: int
  assumes "0 \<le> b" "b < 2 ^ 32"
  defines "E \<equiv> drop_bit 23 b AND 0xFF" and "M \<equiv> b AND 0x7FFFFF" and "s \<equiv> drop_bit 31 b AND 1"
  shows "b = push_bit 31 s OR push_bit 23 E OR M" "0 \<le> s" "s \<le> 1" "0 \<le> E" "E < 256" "0 \<le> M" "M < 0x800000"
    "b = s * 2 ^ 31 + E * 2 ^ 23 + M"
proof -
  have M: "M = b mod 2 ^ 23" and E: "E = b div 2 ^ 23 mod 2 ^ 8" and s: "s = b div 2 ^ 31 mod 2"
    by (simp_all add: M_def E_def s_def bit_norm)
  show r: "0 \<le> s" "s \<le> 1" "0 \<le> E" "E < 256" "0 \<le> M" "M < 0x800000" unfolding M E s by simp_all
  have "b div 2 ^ 31 = b div 2 ^ 23 div 2 ^ 8" by (simp flip: div_mult2_eq)
  moreover have "b div 2 ^ 31 mod 2 = b div 2 ^ 31" using assms(1,2) by (intro mod_pos_pos_trivial) auto
  ultimately have "s * 2 ^ 8 + E = b div 2 ^ 23" unfolding s E by simp
  then have "b = (s * 2 ^ 8 + E) * 2 ^ 23 + M" unfolding M by (simp only: div_mult_mod_eq)
  then show e: "b = s * 2 ^ 31 + E * 2 ^ 23 + M" by (simp add: algebra_simps)
  show "b = push_bit 31 s OR push_bit 23 E OR M"
    using f32_fields(1) [OF r] e by simp
qed

lemma decode_fields:
  assumes "0 \<le> b" "b < 2 ^ 32"
  defines "E \<equiv> drop_bit 23 b AND 0xFF" and "M \<equiv> b AND 0x7FFFFF"
  shows "dsign (f32_decode b) = drop_bit 31 b AND 1" "is_zero (f32_decode b) \<longleftrightarrow> E = 0"
    "is_inf (f32_decode b) \<longleftrightarrow> E = 255 \<and> M = 0" "is_nan (f32_decode b) \<longleftrightarrow> E = 255 \<and> M \<noteq> 0"
    "is_snan (f32_decode b) \<longleftrightarrow> E = 255 \<and> M \<noteq> 0 \<and> drop_bit 22 M AND 1 = 0"
    "E \<noteq> 0 \<Longrightarrow> E \<noteq> 255 \<Longrightarrow> magnitude (f32_decode b) = of_int (2 ^ 23 + M) * 2 powi (E - 150)"
proof -
  note n = normal_fields [OF assms(1,2), folded E_def M_def]
  have u: "b AND 0xFFFFFFFF = b" unfolding and_mod_32 using assms by simp
  show "dsign (f32_decode b) = drop_bit 31 b AND 1" by (simp add: decode_sign u)
  show "is_zero (f32_decode b) \<longleftrightarrow> E = 0" "is_inf (f32_decode b) \<longleftrightarrow> E = 255 \<and> M = 0"
    "is_nan (f32_decode b) \<longleftrightarrow> E = 255 \<and> M \<noteq> 0"
    "is_snan (f32_decode b) \<longleftrightarrow> E = 255 \<and> M \<noteq> 0 \<and> drop_bit 22 M AND 1 = 0"
    by (auto simp: f32_decode_def Let_def u E_def M_def)
  have p: "(2::rat) powi (E - 127) = 2 powi (E - 150) * 2 ^ 23"
    using power_int_add [of "2::rat" "E - 150" 23] by simp
  assume "E \<noteq> 0" "E \<noteq> 255"
  then have "0 < E" "E < 255" using n by simp_all
  from decode_normal(6) [OF n(2,3) this n(6,7)] n(1)
  show "magnitude (f32_decode b) = of_int (2 ^ 23 + M) * 2 powi (E - 150)" by (simp add: p)
qed

lemma normal_cases:
  assumes "is_normal b"
  obtains E M where "0 < E" "E < 255" "0 \<le> M" "M < 2 ^ 23"
    "b = dsign (f32_decode b) * 2 ^ 31 + E * 2 ^ 23 + M"
    "magnitude (f32_decode b) = of_int (2 ^ 23 + M) * 2 powi (E - 150)"
proof -
  have r: "0 \<le> b" "b < 2 ^ 32" using assms by (simp_all add: is_normal_def)
  define E M where "E = drop_bit 23 b AND 0xFF" and "M = b AND 0x7FFFFF"
  note d = decode_fields [OF r, folded E_def M_def] and n = normal_fields [OF r, folded E_def M_def]
  have "E \<noteq> 0" "E \<noteq> 255" using assms d(2-4) unfolding is_normal_def by blast+
  moreover have "0 \<le> E" "E < 256" "0 \<le> M" "M < 2 ^ 23" using n(4-7) by simp_all
  moreover have "b = dsign (f32_decode b) * 2 ^ 31 + E * 2 ^ 23 + M" unfolding d(1) by (rule n(8))
  ultimately show ?thesis using d(6) by (intro that [of E M]) auto
qed

lemma normal_dyadic: "is_normal b \<Longrightarrow> dyadic24 (magnitude (f32_decode b))"
proof (erule normal_cases)
  fix E M :: int
  assume a: "0 \<le> M" "M < 2 ^ 23" "magnitude (f32_decode b) = of_int (2 ^ 23 + M) * 2 powi (E - 150)"
  then have "2 ^ 23 \<le> 2 ^ 23 + M \<and> 2 ^ 23 + M < 2 ^ 24 \<and>
      magnitude (f32_decode b) = of_int (2 ^ 23 + M) * 2 powi (E - 150)" by simp
  then show ?thesis unfolding dyadic24_def by blast
qed

lemma normal_pos: "is_normal b \<Longrightarrow> 0 < magnitude (f32_decode b)"
  by (erule normal_cases) simp

lemma normal_sig24:
  assumes "is_normal b"
  shows "of_rat (magnitude (f32_decode b)) \<in> sig24"
    "2 powi (-126) \<le> (of_rat (magnitude (f32_decode b)) :: real)"
    "of_rat (magnitude (f32_decode b)) < (2 ^ 128 :: real)"
proof -
  from assms obtain E M where E: "0 < E" "E < 255" "0 \<le> M" "M < 2 ^ 23"
    and m: "magnitude (f32_decode b) = of_int (2 ^ 23 + M) * 2 powi (E - 150)" by (rule normal_cases)
  have x: "of_rat (magnitude (f32_decode b)) = of_int (2 ^ 23 + M) * (2::real) powi ((E - 127) - 23)"
    unfolding m of_rat_mult of_rat_powi of_rat_of_int_eq by simp
  have s: "2 ^ 23 \<le> 2 ^ 23 + M" "2 ^ 23 + M < 2 ^ 24" using E by simp_all
  show "of_rat (magnitude (f32_decode b)) \<in> sig24" unfolding x by (rule sig24_I [OF s])
  show "2 powi (-126) \<le> (of_rat (magnitude (f32_decode b)) :: real)"
    using binade_iff(2) [OF s, of "E - 127"] E unfolding x by linarith
  show "of_rat (magnitude (f32_decode b)) < (2 ^ 128 :: real)"
    using binade_iff(1) [OF s, of "E - 127"] E unfolding x by linarith
qed

subsection \<open>Rounded results\<close>

text \<open>The result of rounding the exact magnitude \<open>x\<close> once, with the sign the source gives it.\<close>

definition correctly_rounded :: "int \<Rightarrow> int \<Rightarrow> real \<Rightarrow> (int \<times> int) result \<Rightarrow> bool" where
  "correctly_rounded rm sign x r \<longleftrightarrow>
     (\<exists>res y. r = Inr res \<and> is_rounding rm sign x y \<and> packs rm sign x y res)"

definition f32_range :: "int \<Rightarrow> bool" where
  "f32_range b \<longleftrightarrow> 0 \<le> b \<and> b < 2 ^ 32"

text \<open>What an instruction needs of an operation: it returns, with a 32-bit pattern and five flags.\<close>

definition fp_returns :: "(int \<times> int) result \<Rightarrow> bool" where
  "fp_returns r \<longleftrightarrow> (\<exists>b fl. r = Inr (b, fl) \<and> f32_range b \<and> 0 \<le> fl \<and> fl < 32)"

lemma round_from_fraction_ok:
  assumes "0 < m" "sign = 0 \<or> sign = 1"
  shows "correctly_rounded rm sign (of_rat m) (f32_round_from_fraction sign m rm)"
  by (rule frac.rounds [OF assms, of rm])
     (auto simp: correctly_rounded_def f32_round_from_fraction_def)

lemma round_from_sqrt_ok:
  assumes "dyadic24 m" "sign = 0 \<or> sign = 1"
  shows "correctly_rounded rm sign (sqrt (of_rat m)) (f32_round_from_sqrt sign m rm)"
  by (rule root.rounds [OF assms, of rm])
     (auto simp: correctly_rounded_def f32_round_from_sqrt_def)

lemma pack_range:
  assumes "sign = 0 \<or> sign = (1::int)"
  shows "f32_range (f32_pack_zero sign)" "f32_range (f32_pack_inf sign)"
    "0 \<le> k \<Longrightarrow> k < 2 ^ 31 \<Longrightarrow> f32_range (push_bit 31 sign OR k)"
proof -
  show "f32_range (f32_pack_zero sign)" "f32_range (f32_pack_inf sign)"
    using assms by (auto simp: f32_range_def f32_pack_zero_def f32_pack_inf_def push_bit_eq_mult)
  show "0 \<le> k \<Longrightarrow> k < 2 ^ 31 \<Longrightarrow> f32_range (push_bit 31 sign OR k)"
    using assms or_low [of k 31 sign] by (auto simp: f32_range_def push_bit_eq_mult)
qed

lemma packs_range:
  assumes "packs rm sign x y res" "sign = 0 \<or> sign = 1"
  shows "f32_range (fst res)" "0 \<le> snd res" "snd res < 32"
  using assms(1) pack_range(1,2) [OF assms(2)] pack_range(3) [OF assms(2), where k = "0x7F7FFFFF"]
  by (auto simp: packs_def is_normal_def f32_range_def split: if_splits)

lemma rounded_returns:
  assumes "correctly_rounded rm sign x r" "sign = 0 \<or> sign = 1"
  shows "fp_returns r"
proof -
  from assms(1) obtain res y where r: "r = Inr res" and p: "packs rm sign x y res"
    unfolding correctly_rounded_def by blast
  with packs_range [OF p assms(2)] show ?thesis unfolding fp_returns_def by (cases res) simp
qed

text \<open>A number of the format is its own rounding, in every mode.\<close>

lemma rounding_exact: "x \<in> sig24 \<Longrightarrow> is_rounding rm sign x x"
  by (auto simp: is_rounding_def)

lemma exact_normal:
  assumes "is_normal b" "dsign (f32_decode b) = sign" "x = of_rat (magnitude (f32_decode b))"
  shows "correctly_rounded rm sign x (Inr (b, 0))"
proof -
  have v: "\<bar>f32_value b\<bar> = x" using normal_pos [OF assms(1)] assms(3) by (simp add: f32_value_def abs_mult)
  have "packs rm sign x x (b, 0)"
    unfolding packs_def using normal_sig24 [OF assms(1)] assms v by simp
  moreover have "is_rounding rm sign x x" using rounding_exact normal_sig24(1) [OF assms(1)] assms(3) by simp
  ultimately show ?thesis unfolding correctly_rounded_def by blast
qed

lemma flip_sign:
  assumes "is_normal b" "s = 0 \<or> s = 1"
  shows "is_normal (push_bit 31 s OR (b AND 0x7FFFFFFF))"
    "dsign (f32_decode (push_bit 31 s OR (b AND 0x7FFFFFFF))) = s"
    "magnitude (f32_decode (push_bit 31 s OR (b AND 0x7FFFFFFF))) = magnitude (f32_decode b)"
proof -
  from assms(1) obtain E M where E: "0 < E" "E < 255" "0 \<le> M" "M < 2 ^ 23"
    and b: "b = dsign (f32_decode b) * 2 ^ 31 + E * 2 ^ 23 + M"
    and m: "magnitude (f32_decode b) = of_int (2 ^ 23 + M) * 2 powi (E - 150)" by (rule normal_cases)
  have "b mod 2 ^ 31 = E * 2 ^ 23 + M"
    by (rule int_mod_pos_eq [where q = "dsign (f32_decode b)"]) (use b E in auto)
  moreover have "E * 2 ^ 23 + M = push_bit 23 E OR M"
    using or_low [of M 23 E] E by (simp add: push_bit_eq_mult)
  ultimately have w: "push_bit 31 s OR (b AND 0x7FFFFFFF) = push_bit 31 s OR push_bit 23 E OR M"
    by (simp add: and_mod_31)
  have s: "0 \<le> s" "s \<le> 1" and M: "M < 0x800000" using assms(2) E(4) by auto
  note d = decode_normal [OF s E(1,2,3) M] and f = f32_fields [OF s _ _ E(3) M, of E]
  show "is_normal (push_bit 31 s OR (b AND 0x7FFFFFFF))" unfolding w is_normal_def using d f E by simp
  show "dsign (f32_decode (push_bit 31 s OR (b AND 0x7FFFFFFF))) = s" unfolding w using d by simp
  have p: "(2::rat) powi (E - 127) = 2 powi (E - 150) * 2 ^ 23"
    using power_int_add [of "2::rat" "E - 150" 23] by simp
  show "magnitude (f32_decode (push_bit 31 s OR (b AND 0x7FFFFFFF))) = magnitude (f32_decode b)"
    unfolding w d(6) m p by simp
qed

lemma xor_01: "a = 0 \<or> a = (1::int) \<Longrightarrow> b = 0 \<or> b = 1 \<Longrightarrow> a XOR b = 0 \<or> a XOR b = 1"
  by auto

subsection \<open>Finite operands\<close>

definition f32_finite :: "int \<Rightarrow> bool" where
  "f32_finite b \<longleftrightarrow> f32_range b \<and> \<not> is_nan (f32_decode b) \<and> \<not> is_inf (f32_decode b)"

lemma finite_normal: "f32_finite b \<Longrightarrow> \<not> is_zero (f32_decode b) \<Longrightarrow> is_normal b"
  by (simp add: f32_finite_def is_normal_def f32_range_def)

lemma finite_flags:
  "f32_finite b \<Longrightarrow> \<not> is_nan (f32_decode b)" "f32_finite b \<Longrightarrow> \<not> is_inf (f32_decode b)"
  "f32_finite b \<Longrightarrow> \<not> is_snan (f32_decode b)"
  using decode_excl(4) [of b] by (auto simp: f32_finite_def)

text \<open>The signed value of an operand as the exact rational the source computes with.\<close>

definition rat_value :: "int \<Rightarrow> rat" where
  "rat_value b = (if dsign (f32_decode b) = 0 then magnitude (f32_decode b) else - magnitude (f32_decode b))"

lemma value_of_rat: "f32_value b = of_rat (rat_value b)"
  by (simp add: f32_value_def rat_value_def of_rat_minus)

lemma value_zero_iff: "f32_finite b \<Longrightarrow> f32_value b = 0 \<longleftrightarrow> is_zero (f32_decode b)"
  using finite_normal [of b] normal_pos [of b] decode_zero_mag [of b] by (force simp: f32_value_def)

lemma rounded_total:
  assumes "T = of_rat t" "t \<noteq> 0"
  shows "correctly_rounded rm (if T < 0 then 1 else 0) \<bar>T\<bar>
     (f32_round_from_fraction (if t < 0 then 1 else 0) \<bar>t\<bar> rm)"
  using round_from_fraction_ok [of "\<bar>t\<bar>" "if t < 0 then 1 else 0" rm] assms by simp

lemma rounded_product:
  assumes "is_normal a" "is_normal b"
  shows "correctly_rounded rm (dsign (f32_decode a) XOR dsign (f32_decode b)) \<bar>f32_value a * f32_value b\<bar>
      (f32_round_from_fraction (dsign (f32_decode a) XOR dsign (f32_decode b))
        (magnitude (f32_decode a) * magnitude (f32_decode b)) rm)"
    "correctly_rounded rm (dsign (f32_decode a) XOR dsign (f32_decode b)) \<bar>f32_value a / f32_value b\<bar>
      (f32_round_from_fraction (dsign (f32_decode a) XOR dsign (f32_decode b))
        (magnitude (f32_decode a) / magnitude (f32_decode b)) rm)"
proof -
  note p = normal_pos [OF assms(1)] normal_pos [OF assms(2)]
  have v: "\<bar>f32_value a\<bar> = of_rat (magnitude (f32_decode a))" "\<bar>f32_value b\<bar> = of_rat (magnitude (f32_decode b))"
    using p by (simp_all add: f32_value_def abs_mult)
  note s = xor_01 [OF decode_sign_01 decode_sign_01, of a b]
  show "correctly_rounded rm (dsign (f32_decode a) XOR dsign (f32_decode b)) \<bar>f32_value a * f32_value b\<bar>
      (f32_round_from_fraction (dsign (f32_decode a) XOR dsign (f32_decode b))
        (magnitude (f32_decode a) * magnitude (f32_decode b)) rm)"
    using round_from_fraction_ok [OF mult_pos_pos [OF p] s, of rm] unfolding abs_mult v of_rat_mult .
  show "correctly_rounded rm (dsign (f32_decode a) XOR dsign (f32_decode b)) \<bar>f32_value a / f32_value b\<bar>
      (f32_round_from_fraction (dsign (f32_decode a) XOR dsign (f32_decode b))
        (magnitude (f32_decode a) / magnitude (f32_decode b)) rm)"
    using round_from_fraction_ok [OF divide_pos_pos [OF p] s, of rm] unfolding abs_divide v of_rat_divide .
qed

text \<open>A zero operand of an addition leaves the other operand, with its effective sign.\<close>

lemma rounded_flip:
  assumes "is_normal b" "s = 0 \<or> s = 1" "T = (if s = 0 then 1 else - 1) * of_rat (magnitude (f32_decode b))"
  shows "correctly_rounded rm (if T < 0 then 1 else 0) \<bar>T\<bar> (Inr (push_bit 31 s OR (b AND 0x7FFFFFFF), 0))"
proof -
  have "\<bar>T\<bar> = of_rat (magnitude (f32_decode b))" "(if T < 0 then 1 else 0) = s"
    using assms normal_pos [OF assms(1)] by (auto simp: abs_mult)
  with exact_normal [OF flip_sign(1,2) [OF assms(1,2)] refl, of rm] flip_sign(3) [OF assms(1,2)]
  show ?thesis by simp
qed

lemma add_sign: "s = 0 \<or> s = (1::int) \<Longrightarrow> s XOR (if f then 1 else 0) = (if f then 1 - s else s)"
  by auto

lemma f_add_finite:
  fixes a b rm :: int and sub :: bool
  assumes a: "f32_finite a" and b: "f32_finite b"
  defines "T \<equiv> f32_value a + (if sub then - 1 else 1) * f32_value b"
  shows "T \<noteq> 0 \<Longrightarrow> correctly_rounded rm (if T < 0 then 1 else 0) \<bar>T\<bar> (f_add a b rm sub)"
    "T = 0 \<Longrightarrow> f_add a b rm sub = Inr (f32_pack_zero
       (if is_zero (f32_decode a) \<and> dsign (f32_decode a) = dsign (f32_decode b) XOR (if sub then 1 else 0)
        then dsign (f32_decode a) else if rm = RM_RDN then 1 else 0), 0)"
proof -
  let ?a = "f32_decode a" and ?b = "f32_decode b"
  let ?s = "dsign ?b XOR (if sub then 1 else 0)"
  note sa = decode_sign_01 [of a] and sb = decode_sign_01 [of b]
  have s: "?s = 0 \<or> ?s = 1" using sb by auto
  note fl = finite_flags [OF a] finite_flags [OF b]
  define t where "t = rat_value a + (if ?s = 0 then magnitude ?b else - magnitude ?b)"
  have T: "T = of_rat t"
    unfolding T_def t_def value_of_rat using sb by (auto simp: of_rat_add of_rat_minus rat_value_def)
  have za: "is_zero ?a \<Longrightarrow> rat_value a = 0" and zb: "is_zero ?b \<Longrightarrow> magnitude ?b = 0"
    using decode_zero_mag by (simp_all add: rat_value_def)
  have t0: "is_zero ?a \<Longrightarrow> \<not> is_zero ?b \<Longrightarrow> t \<noteq> 0" "\<not> is_zero ?a \<Longrightarrow> is_zero ?b \<Longrightarrow> t \<noteq> 0"
    using za zb normal_pos [OF finite_normal [OF a]] normal_pos [OF finite_normal [OF b]]
    by (auto simp: t_def rat_value_def)
  show "correctly_rounded rm (if T < 0 then 1 else 0) \<bar>T\<bar> (f_add a b rm sub)" if nz: "T \<noteq> 0"
  proof -
    consider "is_zero ?a" "\<not> is_zero ?b" | "\<not> is_zero ?a" "is_zero ?b" | "\<not> is_zero ?a" "\<not> is_zero ?b"
      using nz T za zb by (cases "is_zero ?a"; cases "is_zero ?b") (auto simp: t_def split: if_splits)
    then show ?thesis
    proof cases
      case 1
      have "T = (if ?s = 0 then 1 else - 1) * of_rat (magnitude ?b)"
        using 1 za unfolding T t_def by (simp add: of_rat_minus)
      then show ?thesis using rounded_flip [OF finite_normal [OF b 1(2)] s] 1 fl
        by (simp add: f_add_def Let_def)
    next
      case 2
      have n: "is_normal a" by (rule finite_normal [OF a 2(1)])
      have "T = of_rat (rat_value a)" unfolding T t_def using 2 zb by simp
      then have "(if T < 0 then 1 else 0) = dsign ?a" "\<bar>T\<bar> = of_rat (magnitude ?a)"
        using sa normal_pos [OF n] by (auto simp: rat_value_def of_rat_minus)
      with exact_normal [OF n refl refl, of rm] 2 fl show ?thesis by (simp add: f_add_def Let_def)
    next
      case 3
      then have "f_add a b rm sub = f32_round_from_fraction (if t < 0 then 1 else 0) \<bar>t\<bar> rm"
        using fl nz T by (simp add: f_add_def Let_def t_def rat_value_def)
      then show ?thesis using rounded_total [OF T, of rm] nz T by simp
    qed
  qed
  assume "T = 0"
  then have "t = 0" using T by simp
  moreover from this t0 have "is_zero ?a = is_zero ?b" by blast
  ultimately show "f_add a b rm sub = Inr (f32_pack_zero
       (if is_zero ?a \<and> dsign ?a = ?s then dsign ?a else if rm = RM_RDN then 1 else 0), 0)"
    using fl by (auto simp: f_add_def Let_def t_def rat_value_def)
qed

lemma f_madd_finite:
  fixes a b c rm :: int and np na :: bool
  assumes a: "f32_finite a" and b: "f32_finite b" and c: "f32_finite c"
  defines "T \<equiv> (if np then - 1 else 1) * (f32_value a * f32_value b) + (if na then - 1 else 1) * f32_value c"
  shows "T \<noteq> 0 \<Longrightarrow> correctly_rounded rm (if T < 0 then 1 else 0) \<bar>T\<bar> (f_madd a b c rm np na)"
    "T = 0 \<Longrightarrow> f_madd a b c rm np na = Inr (f32_pack_zero
       (if (is_zero (f32_decode a) \<or> is_zero (f32_decode b)) \<and>
           (dsign (f32_decode a) XOR dsign (f32_decode b)) XOR (if np then 1 else 0) =
           dsign (f32_decode c) XOR (if na then 1 else 0)
        then dsign (f32_decode c) XOR (if na then 1 else 0) else if rm = RM_RDN then 1 else 0), 0)"
proof -
  let ?a = "f32_decode a" and ?b = "f32_decode b" and ?c = "f32_decode c"
  let ?p = "(dsign ?a XOR dsign ?b) XOR (if np then 1 else 0)" and ?s = "dsign ?c XOR (if na then 1 else 0)"
  note sa = decode_sign_01 [of a] and sb = decode_sign_01 [of b] and sc = decode_sign_01 [of c]
  have s: "?s = 0 \<or> ?s = 1" "?p = 0 \<or> ?p = 1" using sa sb sc by auto
  note fl = finite_flags [OF a] finite_flags [OF b] finite_flags [OF c]
  define m where "m = magnitude ?a * magnitude ?b"
  define t where "t = (if ?p = 0 then m else - m) + (if ?s = 0 then magnitude ?c else - magnitude ?c)"
  have "T = of_rat ((if np then - 1 else 1) * (rat_value a * rat_value b) + (if na then - 1 else 1) * rat_value c)"
    unfolding T_def value_of_rat by (simp add: of_rat_add of_rat_minus of_rat_mult)
  moreover have "(if np then - 1 else 1) * (rat_value a * rat_value b) = (if ?p = 0 then m else - m)"
    using sa sb by (auto simp: rat_value_def m_def)
  moreover have "(if na then - 1 else 1) * rat_value c = (if ?s = 0 then magnitude ?c else - magnitude ?c)"
    using sc by (auto simp: rat_value_def)
  ultimately have T: "T = of_rat t" by (simp add: t_def)
  show "correctly_rounded rm (if T < 0 then 1 else 0) \<bar>T\<bar> (f_madd a b c rm np na)" if nz: "T \<noteq> 0"
  proof (cases "is_zero ?a \<or> is_zero ?b")
    case True
    then have m0: "m = 0" using decode_zero_mag by (auto simp: m_def)
    then have zc: "\<not> is_zero ?c" using nz T decode_zero_mag [of c] by (auto simp: t_def split: if_splits)
    have "T = (if ?s = 0 then 1 else - 1) * of_rat (magnitude ?c)"
      using m0 unfolding T t_def by (simp add: of_rat_minus)
    then show ?thesis using rounded_flip [OF finite_normal [OF c zc] s(1)] True zc fl
      by (simp add: f_madd_def Let_def)
  next
    case False
    then have "f_madd a b c rm np na = (if t = 0 then Inr (f32_pack_zero (if rm = RM_RDN then 1 else 0), 0)
        else f32_round_from_fraction (if t < 0 then 1 else 0) \<bar>t\<bar> rm)"
      using fl by (simp only: f_madd_def Let_def t_def m_def) simp
    then show ?thesis using rounded_total [OF T, of rm] nz T by simp
  qed
  assume "T = 0"
  then have t0: "t = 0" using T by simp
  have zc: "is_zero ?c" if "is_zero ?a \<or> is_zero ?b"
  proof -
    from that have "m = 0" using decode_zero_mag by (auto simp: m_def)
    then show ?thesis using t0 normal_pos [OF finite_normal [OF c]] by (auto simp: t_def split: if_splits)
  qed
  have "f_madd a b c rm np na = (if is_zero ?a \<or> is_zero ?b then
        (if is_zero ?c then
           (if ?p = ?s then Inr (f32_pack_zero ?p, 0) else Inr (f32_pack_zero (if rm = RM_RDN then 1 else 0), 0))
         else Inr (push_bit 31 ?s OR (c AND 0x7FFFFFFF), 0))
      else if t = 0 then Inr (f32_pack_zero (if rm = RM_RDN then 1 else 0), 0)
      else f32_round_from_fraction (if t < 0 then 1 else 0) \<bar>t\<bar> rm)"
    using fl by (simp only: f_madd_def Let_def t_def m_def) simp
  then show "f_madd a b c rm np na = Inr (f32_pack_zero
       (if (is_zero ?a \<or> is_zero ?b) \<and> ?p = ?s then ?s else if rm = RM_RDN then 1 else 0), 0)"
    using t0 zc by simp
qed

subsection \<open>Every operation returns\<close>

lemma returns_I:
  "f32_range b \<Longrightarrow> 0 \<le> fl \<Longrightarrow> fl < 32 \<Longrightarrow> fp_returns (Inr (b, fl))"
  by (simp add: fp_returns_def)

lemma returns_if: "(c \<Longrightarrow> fp_returns r) \<Longrightarrow> (\<not> c \<Longrightarrow> fp_returns r') \<Longrightarrow> fp_returns (if c then r else r')"
  by simp

lemma nan_range: "f32_range CANONICAL_NAN"
  by (simp add: f32_range_def)

lemma returns_total: "t \<noteq> 0 \<Longrightarrow> fp_returns (f32_round_from_fraction (if t < 0 then 1 else 0) \<bar>t\<bar> rm)"
  by (rule rounded_returns [OF rounded_total [OF refl]]) (simp_all split: if_split)

lemma flip_range: "s = 0 \<or> s = (1::int) \<Longrightarrow> f32_range (push_bit 31 s OR (b AND 0x7FFFFFFF))"
  using pack_range(3) [of s "b AND 0x7FFFFFFF"] and_le_mask [of "0x7FFFFFFF" b] by simp

lemma rdn_zero_range: "f32_range (f32_pack_zero (if c then 1 else 0))"
  by (rule pack_range) simp

lemmas returns_intros = returns_if returns_I returns_total pack_range(1,2) nan_range flip_range rdn_zero_range

lemma f_add_returns:
  assumes "f32_range a" "f32_range b"
  shows "fp_returns (f_add a b rm sub)"
proof -
  have s: "dsign (f32_decode b) XOR (if sub then 1 else 0) = 0 \<or> dsign (f32_decode b) XOR (if sub then 1 else 0) = 1"
    by (rule xor_01 [OF decode_sign_01]) simp
  show ?thesis
    unfolding f_add_def Let_def
    by (intro returns_intros s decode_sign_01 assms) (simp_all split: if_split)
qed

lemma f_mul_returns:
  assumes "f32_range a" "f32_range b"
  shows "fp_returns (f_mul a b rm)"
  using assms xor_01 [OF decode_sign_01 decode_sign_01, of a b]
    rounded_returns [OF rounded_product(1) [OF finite_normal finite_normal], of a b rm]
  unfolding f_mul_def Let_def f32_finite_def
  by (intro returns_if) (auto intro!: returns_I pack_range nan_range)

lemma f_div_returns:
  assumes "f32_range a" "f32_range b"
  shows "fp_returns (f_div a b rm)"
  using assms xor_01 [OF decode_sign_01 decode_sign_01, of a b]
    rounded_returns [OF rounded_product(2) [OF finite_normal finite_normal], of a b rm]
  unfolding f_div_def Let_def f32_finite_def
  by (intro returns_if) (auto intro!: returns_I pack_range nan_range)

lemma f_sqrt_returns:
  assumes "f32_range a"
  shows "fp_returns (f_sqrt a rm)"
  using assms rounded_returns [OF round_from_sqrt_ok [OF normal_dyadic [OF finite_normal]], of a 0 rm]
  unfolding f_sqrt_def Let_def f32_finite_def
  by (intro returns_if) (auto intro!: returns_I nan_range)

lemma f_madd_returns:
  assumes "f32_range a" "f32_range b" "f32_range c"
  shows "fp_returns (f_madd a b c rm np na)"
proof -
  have s: "dsign (f32_decode c) XOR (if na then 1 else 0) = 0 \<or> dsign (f32_decode c) XOR (if na then 1 else 0) = 1"
    by (rule xor_01 [OF decode_sign_01]) simp
  have p: "(dsign (f32_decode a) XOR dsign (f32_decode b)) XOR (if np then 1 else 0) = 0 \<or>
      (dsign (f32_decode a) XOR dsign (f32_decode b)) XOR (if np then 1 else 0) = 1"
    by (rule xor_01 [OF xor_01 [OF decode_sign_01 decode_sign_01]]) simp
  show ?thesis
    unfolding f_madd_def Let_def
    by (intro returns_intros s p assms) (simp_all split: if_split)
qed

end
