(* ===== verification/Softfloat_Cmp.thy ===== *)
theory Softfloat_Cmp
  imports Softfloat_Ops
begin

text \<open>
  Comparison, minimum and maximum, classification and conversion of \<open>sim/tools/iss.py\<close>. The
  source compares bit patterns; \<open>f32_ord\<close> gives every pattern that is not a NaN its place
  in the order of the reals, with the infinities just beyond the largest finite number.
\<close>

definition f32_ord :: "int \<Rightarrow> real" where
  "f32_ord b = (if dsign (f32_decode b) = 0 then 1 else - 1) *
     (if is_inf (f32_decode b) then 2 ^ 128 else of_rat (magnitude (f32_decode b)))"

lemma ord_finite: "f32_finite b \<Longrightarrow> f32_ord b = f32_value b"
  by (simp add: f32_ord_def f32_value_def f32_finite_def)

subsection \<open>The order of the magnitude patterns\<close>

definition pattern_mag :: "int \<Rightarrow> real" where
  "pattern_mag K = (if K < 2 ^ 23 then 0 else of_int (2 ^ 23 + K mod 2 ^ 23) * 2 powi ((K div 2 ^ 23 - 127) - 23))"

lemma pattern_mag_binade:
  assumes "2 ^ 23 \<le> K"
  shows "2 powi (K div 2 ^ 23 - 127) \<le> pattern_mag K" "pattern_mag K < 2 powi (K div 2 ^ 23 - 127 + 1)"
proof -
  have s: "2 ^ 23 \<le> 2 ^ 23 + K mod 2 ^ 23" "2 ^ 23 + K mod 2 ^ 23 < 2 ^ 24" by simp_all
  show "2 powi (K div 2 ^ 23 - 127) \<le> pattern_mag K" "pattern_mag K < 2 powi (K div 2 ^ 23 - 127 + 1)"
    using binade [OF s, of "K div 2 ^ 23 - 127"] assms by (simp_all add: pattern_mag_def)
qed

lemma pattern_mag_mono:
  assumes "K < L" "2 ^ 23 \<le> L"
  shows "pattern_mag K < pattern_mag L"
proof (cases "K < 2 ^ 23")
  case True
  then have "pattern_mag K = 0" by (simp add: pattern_mag_def)
  moreover have "(0::real) < 2 powi (L div 2 ^ 23 - 127)" by simp
  ultimately show ?thesis using pattern_mag_binade(1) [OF assms(2)] by linarith
next
  case False
  then have k: "2 ^ 23 \<le> K" by simp
  show ?thesis
  proof (cases "K div 2 ^ 23 = L div 2 ^ 23")
    case True
    then have "K mod 2 ^ 23 < L mod 2 ^ 23"
      using assms(1) by simp presburger
    then have "(of_int (2 ^ 23 + K mod 2 ^ 23) :: real) < of_int (2 ^ 23 + L mod 2 ^ 23)" by linarith
    then show ?thesis using True k assms(2) unfolding pattern_mag_def by simp
  next
    case ne: False
    have "K div 2 ^ 23 \<le> L div 2 ^ 23" using assms(1) by (simp add: zdiv_mono1)
    with ne have "(2::real) powi (K div 2 ^ 23 - 127 + 1) \<le> 2 powi (L div 2 ^ 23 - 127)"
      by (intro power_int_increasing) simp_all
    with pattern_mag_binade(2) [OF k] pattern_mag_binade(1) [OF assms(2)] show ?thesis by linarith
  qed
qed

lemma pattern_mag_zero: "K < 2 ^ 23 \<Longrightarrow> pattern_mag K = 0"
  by (simp add: pattern_mag_def)

lemma pattern_mag_nonneg: "0 \<le> pattern_mag K"
  using pattern_mag_zero [of K] pattern_mag_mono [of 0 K] by (cases "K < 2 ^ 23") (simp_all add: pattern_mag_zero)

lemma ord_pattern:
  assumes r: "f32_range b" and n: "\<not> is_nan (f32_decode b)"
  defines "K \<equiv> b AND 0x7FFFFFFF"
  shows "f32_ord b = (if dsign (f32_decode b) = 0 then 1 else - 1) * pattern_mag K"
    "f32_is_zero_arith b \<longleftrightarrow> K < 2 ^ 23" "0 \<le> K" "b = dsign (f32_decode b) * 2 ^ 31 + K"
proof -
  have b: "0 \<le> b" "b < 2 ^ 32" using r by (simp_all add: f32_range_def)
  define E M where "E = drop_bit 23 b AND 0xFF" and "M = b AND 0x7FFFFF"
  note d = decode_fields [OF b, folded E_def M_def] and f = normal_fields [OF b, folded E_def M_def]
  have "b mod 2 ^ 31 = E * 2 ^ 23 + M"
    by (rule int_mod_pos_eq [where q = "drop_bit 31 b AND 1"]) (use f in auto)
  then have K: "K = E * 2 ^ 23 + M" by (simp add: K_def and_mod_31)
  have KE: "K div 2 ^ 23 = E" by (rule int_div_pos_eq [where r = M]) (use K f(4-7) in auto)
  have KM: "K mod 2 ^ 23 = M" by (rule int_mod_pos_eq [where q = E]) (use K f(4-7) in auto)
  show z: "f32_is_zero_arith b \<longleftrightarrow> K < 2 ^ 23"
    unfolding f32_is_zero_arith_def E_def [symmetric] K using f(4-7) by auto
  show "0 \<le> K" using K f by simp
  show "b = dsign (f32_decode b) * 2 ^ 31 + K" unfolding d(1) K using f(8) by simp
  consider "E = 0" | "E = 255" "M = 0" | "E \<noteq> 0" "E \<noteq> 255" using n d(4) by blast
  then have "(if is_inf (f32_decode b) then 2 ^ 128 else of_rat (magnitude (f32_decode b))) = pattern_mag K"
  proof cases
    case 1
    then show ?thesis using d(2,3) decode_zero_mag [of b] pattern_mag_zero [of K] K f(7) by simp
  next
    case 2
    then have "K = 255 * 2 ^ 23" using K by simp
    then show ?thesis using 2 d(3) by (simp add: pattern_mag_def)
  next
    case 3
    then have "\<not> K < 2 ^ 23" using K f(4-7) by simp
    moreover from 3 d(3) have "\<not> is_inf (f32_decode b)" by blast
    ultimately show ?thesis
      unfolding d(6) [OF 3] pattern_mag_def KE KM of_rat_mult of_rat_powi of_rat_of_int_eq by simp
  qed
  then show "f32_ord b = (if dsign (f32_decode b) = 0 then 1 else - 1) * pattern_mag K"
    by (simp add: f32_ord_def)
qed

text \<open>The comparison the source makes on two patterns that are not both zeros.\<close>

lemma pattern_less:
  assumes a: "f32_range a" "\<not> is_nan (f32_decode a)" and b: "f32_range b" "\<not> is_nan (f32_decode b)"
    and nz: "\<not> (f32_is_zero_arith a \<and> f32_is_zero_arith b)"
  shows "f32_ord a < f32_ord b \<longleftrightarrow>
     (if dsign (f32_decode a) \<noteq> dsign (f32_decode b) then dsign (f32_decode a) \<noteq> 0
      else if dsign (f32_decode a) \<noteq> 0 then a AND 0x7FFFFFFF > b AND 0x7FFFFFFF
      else a AND 0x7FFFFFFF < b AND 0x7FFFFFFF)"
    "f32_ord a = f32_ord b \<longleftrightarrow> a = b"
proof -
  define K L where "K = a AND 0x7FFFFFFF" and "L = b AND 0x7FFFFFFF"
  note A = ord_pattern [OF a, folded K_def] and B = ord_pattern [OF b, folded L_def]
  note sg = decode_sign_01 [of a] decode_sign_01 [of b]
  have big: "2 ^ 23 \<le> K \<or> 2 ^ 23 \<le> L" using nz A(2) B(2) by auto
  have cmp: "pattern_mag K < pattern_mag L \<longleftrightarrow> K < L" "pattern_mag L < pattern_mag K \<longleftrightarrow> L < K"
    using pattern_mag_mono [of K L] pattern_mag_mono [of L K] big by (cases K L rule: linorder_cases; force)+
  have pos: "0 < pattern_mag K \<or> 0 < pattern_mag L"
    using big pattern_mag_mono [of 0 K] pattern_mag_mono [of 0 L] by (auto simp: pattern_mag_zero)
  note nn = pattern_mag_nonneg [of K] pattern_mag_nonneg [of L]
  show "f32_ord a < f32_ord b \<longleftrightarrow>
     (if dsign (f32_decode a) \<noteq> dsign (f32_decode b) then dsign (f32_decode a) \<noteq> 0
      else if dsign (f32_decode a) \<noteq> 0 then a AND 0x7FFFFFFF > b AND 0x7FFFFFFF
      else a AND 0x7FFFFFFF < b AND 0x7FFFFFFF)"
    unfolding A(1) B(1) K_def [symmetric] L_def [symmetric] using sg cmp pos nn by auto
  have "f32_ord a = f32_ord b \<longleftrightarrow> dsign (f32_decode a) = dsign (f32_decode b) \<and> K = L"
    unfolding A(1) B(1) using sg cmp pos nn by auto
  moreover have "a = b \<longleftrightarrow> dsign (f32_decode a) = dsign (f32_decode b) \<and> K = L"
    using A(4) B(4) K_def L_def by metis
  ultimately show "f32_ord a = f32_ord b \<longleftrightarrow> a = b" by simp
qed

lemma zeros_ord:
  assumes "f32_range b" "\<not> is_nan (f32_decode b)" "f32_is_zero_arith b"
  shows "f32_ord b = 0"
  using ord_pattern [OF assms(1,2)] assms(3) by (simp add: pattern_mag_zero)

lemma f_cmp_order:
  assumes "f32_range a" "\<not> is_nan (f32_decode a)" "f32_range b" "\<not> is_nan (f32_decode b)"
  shows "f_cmp a b f3 =
    (of_bool (if f3 = 2 then f32_ord a = f32_ord b else if f3 = 1 then f32_ord a < f32_ord b
              else f32_ord a \<le> f32_ord b), 0)"
proof (cases "f32_is_zero_arith a \<and> f32_is_zero_arith b")
  case True
  then show ?thesis using assms zeros_ord by (simp add: f_cmp_def Let_def)
next
  case False
  show ?thesis
    using pattern_less [OF assms False] assms(2,4) False
    by (auto simp: f_cmp_def Let_def order.order_iff_strict)
qed

lemma f_minmax_order:
  fixes a b f3 :: int
  assumes "f32_range a" "\<not> is_nan (f32_decode a)" "f32_range b" "\<not> is_nan (f32_decode b)"
  defines "res \<equiv> f_minmax a b f3"
  shows "fst res = a \<or> fst res = b" "snd res = 0"
    "f32_ord (fst res) = (if f3 = 0 then min (f32_ord a) (f32_ord b) else max (f32_ord a) (f32_ord b))"
proof -
  show "fst res = a \<or> fst res = b" "snd res = 0"
    using assms(2,4) by (simp_all add: res_def f_minmax_def Let_def)
  show "f32_ord (fst res) = (if f3 = 0 then min (f32_ord a) (f32_ord b) else max (f32_ord a) (f32_ord b))"
  proof (cases "f32_is_zero_arith a \<and> f32_is_zero_arith b")
    case True
    then show ?thesis using assms zeros_ord by (auto simp: res_def f_minmax_def Let_def)
  next
    case False
    define lt where "lt = (f32_ord a < f32_ord b)"
    have "fst res = (if f3 = 0 then if lt then a else b else if lt then b else a)"
      unfolding lt_def pattern_less(1) [OF assms(1-4) False]
      using assms(2,4) by (simp only: res_def f_minmax_def Let_def False if_False simp_thms) simp
    then show ?thesis by (auto simp: lt_def min_def max_def)
  qed
qed

subsection \<open>Classification\<close>

lemma f_class_decode:
  assumes "f32_range a"
  shows "f_class a =
    (let d = f32_decode a; neg = dsign d \<noteq> 0
     in if is_nan d then (if is_snan d then 256 else 512)
        else if is_inf d then (if neg then 1 else 128)
        else if is_zero d then
          (if a AND 0x7FFFFF = 0 then (if neg then 8 else 16) else (if neg then 4 else 32))
        else (if neg then 2 else 64))"
proof -
  have r: "0 \<le> a" "a < 2 ^ 32" using assms by (simp_all add: f32_range_def)
  define E M where "E = drop_bit 23 a AND 0xFF" and "M = a AND 0x7FFFFF"
  note d = decode_fields(1-5) [OF r, folded E_def M_def]
  show ?thesis
    unfolding f_class_def Let_def d E_def [symmetric] M_def [symmetric] by (auto simp: push_bit_eq_mult)
qed

subsection \<open>Conversion to integers\<close>

text \<open>
  Rounding a rational to an integer in each mode: towards zero, down, up, to nearest with
  ties away from zero, and to nearest with ties to even.
\<close>

definition round_int :: "int \<Rightarrow> rat \<Rightarrow> int" where
  "round_int rm v =
     (if rm = RM_RTZ then (if v < 0 then \<lceil>v\<rceil> else \<lfloor>v\<rfloor>)
      else if rm = RM_RDN then \<lfloor>v\<rfloor>
      else if rm = RM_RUP then \<lceil>v\<rceil>
      else if rm = RM_RMM then (if v < 0 then \<lceil>v - 1 / 2\<rceil> else \<lfloor>v + 1 / 2\<rfloor>)
      else if v - of_int \<lfloor>v\<rfloor> < 1 / 2 then \<lfloor>v\<rfloor>
      else if v - of_int \<lfloor>v\<rfloor> > 1 / 2 then \<lfloor>v\<rfloor> + 1
      else if even \<lfloor>v\<rfloor> then \<lfloor>v\<rfloor> else \<lfloor>v\<rfloor> + 1)"

definition int_lo :: "bool \<Rightarrow> int" where "int_lo unsigned = (if unsigned then 0 else - (2 ^ 31))"
definition int_hi :: "bool \<Rightarrow> int" where "int_hi unsigned = (if unsigned then 2 ^ 32 - 1 else 2 ^ 31 - 1)"

lemma floor_neg_split:
  fixes f :: int and r :: rat
  assumes "0 < r" "r < 1"
  shows "\<lfloor>of_int f + r\<rfloor> = f" "\<lceil>of_int f + r\<rceil> = f + 1" "\<lfloor>- (of_int f + r)\<rfloor> = - f - 1" "\<lceil>- (of_int f + r)\<rceil> = - f"
  using assms by (auto intro!: floor_unique ceiling_unique)

lemma floor_half_split:
  fixes f :: int and r :: rat
  assumes "0 < r" "r < 1"
  shows "\<lfloor>of_int f + r + 1 / 2\<rfloor> = (if r < 1 / 2 then f else f + 1)"
    "\<lceil>- (of_int f + r) - 1 / 2\<rceil> = - (if r < 1 / 2 then f else f + 1)"
  using assms by (auto intro!: floor_unique ceiling_unique)

lemma decision_round_int:
  fixes f :: int and r :: rat
  assumes f: "0 \<le> f" and r: "0 \<le> r" "r < 1" and s: "s = 0 \<or> s = 1" and p: "0 < of_int f + r"
    and dec: "f32_round_up_decision (classify_remainder r) f s rm = (up, inexact)"
  shows "round_int rm ((if s = 0 then 1 else - 1) * (of_int f + r)) = (if s = 0 then 1 else - 1) * (f + (if up then 1 else 0))"
    "inexact \<longleftrightarrow> r \<noteq> 0"
proof -
  have od: "f AND 1 \<noteq> 0 \<longleftrightarrow> odd f" by (simp add: and_one_eq odd_iff_mod_2_eq_one)
  show "inexact \<longleftrightarrow> r \<noteq> 0"
    using dec by (auto simp: f32_round_up_decision_def classify_remainder_def split: if_splits)
  show "round_int rm ((if s = 0 then 1 else - 1) * (of_int f + r)) = (if s = 0 then 1 else - 1) * (f + (if up then 1 else 0))"
  proof (cases "r = 0")
    case True
    have up: "\<not> up" using dec True by (simp add: f32_round_up_decision_def classify_remainder_def)
    have h: "\<lfloor>of_int f + 1 / 2 :: rat\<rfloor> = f" "\<lceil>- of_int f - 1 / 2 :: rat\<rceil> = - f"
      by (auto intro!: floor_unique ceiling_unique)
    have c: "\<lceil>- rat_of_int f\<rceil> = - f" by (rule ceiling_unique) simp_all
    show ?thesis using s f p up True h c by (auto simp: round_int_def)
  next
    case False
    with r have r': "0 < r" "r < 1" by simp_all
    note fl = floor_neg_split [OF r', of f] floor_half_split [OF r', of f]
    show ?thesis
    proof (cases "s = 0")
      case True
      have nn: "\<not> of_int f + r < 0" using p by simp
      show ?thesis using True dec nn False od
        unfolding f32_round_up_decision_def classify_remainder_def round_int_def
        by (simp add: fl split: if_splits) auto
    next
      case neg: False
      with s have s1: "s = 1" by simp
      show ?thesis using s1 dec p False od
        unfolding f32_round_up_decision_def classify_remainder_def round_int_def
        by (simp add: fl [simplified] fl split: if_splits) auto
    qed
  qed
qed

lemma f_cvt_to_int_finite:
  fixes a rm :: int and unsigned :: bool
  assumes a: "f32_finite a"
  defines "v \<equiv> rat_value a"
  defines "n \<equiv> round_int rm v"
  shows "f_cvt_to_int a rm unsigned =
    (if int_lo unsigned \<le> n \<and> n \<le> int_hi unsigned then (n mod 2 ^ 32, if of_int n = v then 0 else F_NX)
     else ((if v < 0 then int_lo unsigned else int_hi unsigned) mod 2 ^ 32, F_NV))"
proof (cases "is_zero (f32_decode a)")
  case True
  then have "v = 0" by (simp add: v_def rat_value_def decode_zero_mag)
  moreover have "\<lceil>- 1 / 2 :: rat\<rceil> = 0" "\<lfloor>1 / 2 :: rat\<rfloor> = 0" by (auto intro!: floor_unique ceiling_unique)
  ultimately have "n = 0" by (simp add: n_def round_int_def)
  with True \<open>v = 0\<close> finite_flags [OF a] show ?thesis
    by (simp add: f_cvt_to_int_def Let_def int_lo_def int_hi_def)
next
  case False
  let ?d = "f32_decode a"
  define m f r where "m = magnitude ?d" and "f = \<lfloor>m\<rfloor>" and "r = m - of_int \<lfloor>m\<rfloor>"
  have m: "0 < m" using normal_pos [OF finite_normal [OF a False]] by (simp add: m_def)
  have fr: "0 \<le> f" "0 \<le> r" "r < 1" "m = of_int f + r" using m by (simp_all add: f_def r_def) linarith
  have rf: "m - of_int f = r" by (simp add: f_def r_def)
  obtain up inexact where dec: "f32_round_up_decision (classify_remainder r) f (dsign ?d) rm = (up, inexact)" by force
  define g where "g = f + (if up then 1 else 0)"
  note s = decode_sign_01 [of a]
  have p: "0 < of_int f + r" using m fr by simp
  have v: "v = (if dsign ?d = 0 then 1 else - 1) * (of_int f + r)" by (simp add: v_def rat_value_def m_def [symmetric] fr)
  note D = decision_round_int [OF fr(1,2,3) s p dec]
  have n: "n = (if dsign ?d = 0 then 1 else - 1) * g" unfolding n_def v D(1) g_def by simp
  have neg: "v < 0 \<longleftrightarrow> dsign ?d \<noteq> 0" unfolding v using p by simp
  have g: "0 \<le> g" using fr(1) by (simp add: g_def)
  have "r = 0 \<Longrightarrow> \<not> up" using dec by (simp add: f32_round_up_decision_def classify_remainder_def)
  then have "rat_of_int g = of_int f + r \<longleftrightarrow> r = 0" using fr(2,3) by (auto simp: g_def)
  then have ex: "of_int n = v \<longleftrightarrow> \<not> inexact" unfolding n v D(2) by auto
  have "f_cvt_to_int a rm unsigned =
     (let sat = (if unsigned then (if dsign ?d \<noteq> 0 then 0 else 0xFFFFFFFF)
                 else (if dsign ?d \<noteq> 0 then 0x80000000 else 0x7FFFFFFF));
          out_of_range =
            (if unsigned then (dsign ?d \<noteq> 0 \<and> g \<noteq> 0) \<or> g > 0xFFFFFFFF
             else (dsign ?d = 0 \<and> g > 0x7FFFFFFF) \<or> (dsign ?d \<noteq> 0 \<and> g > 0x80000000))
      in if out_of_range then (sat, F_NV)
         else (if dsign ?d = 0 then g AND 0xFFFFFFFF else (- g) AND 0xFFFFFFFF, if inexact then F_NX else 0))"
    unfolding f_cvt_to_int_def Let_def floor_div_floor m_def [symmetric] f_def [symmetric] rf dec prod.case g_def
    using False finite_flags [OF a] by simp
  then show ?thesis
    unfolding n neg ex [unfolded n] and_mod_32 using s g
    by (auto simp: int_lo_def int_hi_def Let_def)
qed

lemma f_cvt_to_int_special:
  "is_nan (f32_decode a) \<Longrightarrow> f_cvt_to_int a rm unsigned = (int_hi unsigned mod 2 ^ 32, F_NV)"
  "is_inf (f32_decode a) \<Longrightarrow> f_cvt_to_int a rm unsigned =
     ((if dsign (f32_decode a) \<noteq> 0 then int_lo unsigned else int_hi unsigned) mod 2 ^ 32, F_NV)"
proof -
  show "is_nan (f32_decode a) \<Longrightarrow> f_cvt_to_int a rm unsigned = (int_hi unsigned mod 2 ^ 32, F_NV)"
    unfolding f_cvt_to_int_def Let_def by (simp add: int_hi_def)
  show "is_inf (f32_decode a) \<Longrightarrow> f_cvt_to_int a rm unsigned =
     ((if dsign (f32_decode a) \<noteq> 0 then int_lo unsigned else int_hi unsigned) mod 2 ^ 32, F_NV)"
    using decode_excl(2) [of a] unfolding f_cvt_to_int_def Let_def by (simp add: int_lo_def int_hi_def)
qed

lemma f_cvt_from_int_value:
  fixes a rm :: int and unsigned :: bool
  assumes "0 \<le> a" "a < 2 ^ 32"
  defines "v \<equiv> (if unsigned then a else s32 a)"
  shows "v \<noteq> 0 \<Longrightarrow> correctly_rounded rm (if v < 0 then 1 else 0) \<bar>of_int v\<bar> (f_cvt_from_int a rm unsigned)"
    "v = 0 \<Longrightarrow> f_cvt_from_int a rm unsigned = Inr (0, 0)"
proof -
  have am: "a mod 2 ^ 32 = a" using assms(1,2) by simp
  have s: "s32 a = (if a < 2 ^ 31 then a else a - 2 ^ 32)"
    using am by (simp add: s32_sext sext_eq)
  have a0: "v = 0 \<longleftrightarrow> a = 0" using assms(1,2) by (auto simp: v_def s)
  show "v = 0 \<Longrightarrow> f_cvt_from_int a rm unsigned = Inr (0, 0)" using a0 by (simp add: f_cvt_from_int_def)
  assume nz: "v \<noteq> 0"
  define m where "m = \<bar>v\<bar>"
  have "a div 2 ^ 31 = (if a < 2 ^ 31 then 0 else 1)"
    using assms(1,2) by (auto intro: int_div_pos_eq [where r = "a - 2 ^ 31"])
  then have sg: "drop_bit 31 a AND 1 = (if a < 2 ^ 31 then 0 else 1)" by (simp add: bit_norm)
  have neg: "(NOT a + 1) AND 0xFFFFFFFF = 2 ^ 32 - a" if "0 < a"
    unfolding and_mod_32 not_int_def by (rule int_mod_pos_eq [where q = "- 1"]) (use that assms(1,2) in auto)
  have au: "a AND 0xFFFFFFFF = a" using am by (simp add: and_mod_32)
  have "f_cvt_from_int a rm unsigned = f32_round_from_fraction (if v < 0 then 1 else 0) (of_int m) rm"
    using nz a0 assms(1,2) neg sg by (auto simp: f_cvt_from_int_def Let_def m_def v_def s au)
  moreover have "correctly_rounded rm (if v < 0 then 1 else 0) (of_rat (of_int m))
      (f32_round_from_fraction (if v < 0 then 1 else 0) (of_int m) rm)"
    by (rule round_from_fraction_ok) (use nz in \<open>simp_all add: m_def split: if_split\<close>)
  moreover have "of_rat (of_int m) = \<bar>real_of_int v\<bar>" unfolding of_rat_of_int_eq m_def by (rule of_int_abs)
  ultimately show "correctly_rounded rm (if v < 0 then 1 else 0) \<bar>of_int v\<bar> (f_cvt_from_int a rm unsigned)"
    by (simp only:)
qed

subsection \<open>Results stay in range\<close>

lemma f_sgnj_range: "f32_range (fst (f_sgnj a b f3))"
proof -
  have b: "drop_bit 31 c AND 1 = 0 \<or> drop_bit 31 c AND 1 = 1" for c :: int unfolding and_mod_1 by presburger
  show ?thesis unfolding f_sgnj_def Let_def fst_conv
    using b [of b] xor_01 [OF b, of 1 b] xor_01 [OF b b, of a b] by (intro flip_range) simp
qed

lemma f_minmax_returns: "f32_range a \<Longrightarrow> f32_range b \<Longrightarrow> fp_returns (Inr (f_minmax a b f3))"
  unfolding f_minmax_def Let_def by (simp add: fp_returns_def f32_range_def)

lemma f_cvt_from_int_returns:
  assumes "0 \<le> a" "a < 2 ^ 32"
  shows "fp_returns (f_cvt_from_int a rm unsigned)"
proof -
  define v where "v = (if unsigned then a else s32 a)"
  note c = f_cvt_from_int_value [OF assms, of unsigned rm, folded v_def]
  show ?thesis
  proof (cases "v = 0")
    case True
    then show ?thesis using c(2) by (simp add: fp_returns_def f32_range_def)
  next
    case False
    then show ?thesis by (rule rounded_returns [OF c(1)]) (simp split: if_split)
  qed
qed

end
