(* ===== verification/Float_Props.thy ===== *)
theory Float_Props
  imports Softfloat_Cmp
begin

text \<open>
  The properties of the floating-point model, stated over the operations of
  \<open>sim/tools/iss.py\<close> and the reals, each with an instance on concrete bit patterns
  (1.0 is \<open>0x3F800000\<close>, 2.0 is \<open>0x40000000\<close>, 3.0 is \<open>0x40400000\<close>).
\<close>

lemma pattern_1: "f32_finite 0x3F800000" "f32_value 0x3F800000 = 1" "dsign (f32_decode 0x3F800000) = 0"
  "is_normal 0x3F800000" "\<not> is_nan (f32_decode 0x3F800000)" "f32_range 0x3F800000" "f32_ord 0x3F800000 = 1"
  by (simp_all add: f32_finite_def f32_range_def f32_value_def is_normal_def f32_ord_def f32_decode_def Let_def magnitude_def)

lemma pattern_2: "f32_finite 0x40000000" "f32_value 0x40000000 = 2" "dsign (f32_decode 0x40000000) = 0"
  "is_normal 0x40000000" "\<not> is_nan (f32_decode 0x40000000)" "f32_range 0x40000000" "f32_ord 0x40000000 = 2"
  by (simp_all add: f32_finite_def f32_range_def f32_value_def is_normal_def f32_ord_def f32_decode_def Let_def magnitude_def)

lemma pattern_3: "f32_finite 0x40400000" "f32_value 0x40400000 = 3" "dsign (f32_decode 0x40400000) = 0"
  "is_normal 0x40400000"
  by (simp_all add: f32_finite_def f32_range_def f32_value_def is_normal_def f32_decode_def Let_def magnitude_def)

text \<open>
  C26. Addition and subtraction of finite operands: a nonzero exact sum is rounded once in
  the given mode, with its own sign; an exact zero gets the common sign of two zero
  operands, and otherwise the sign of the rounding mode, and raises no flag.
\<close>

theorem f_add_correct:
  assumes "f32_finite a" "f32_finite b"
  shows "let T = f32_value a + (if is_sub then - 1 else 1) * f32_value b;
             eff_sb = dsign (f32_decode b) XOR (if is_sub then 1 else 0)
         in if T = 0 then f_add a b rm is_sub = Inr (f32_pack_zero
              (if is_zero (f32_decode a) \<and> dsign (f32_decode a) = eff_sb
               then dsign (f32_decode a) else if rm = 2 then 1 else 0), 0)
            else correctly_rounded rm (if T < 0 then 1 else 0) \<bar>T\<bar> (f_add a b rm is_sub)"
  using f_add_finite [OF assms, of is_sub rm] by (simp add: Let_def)

theorem f_add_correct_witness:
  "f32_finite 0x3F800000 \<and> f32_finite 0x40000000 \<and>
   correctly_rounded 0 0 3 (f_add 0x3F800000 0x40000000 0 False) \<and>
   correctly_rounded 0 1 1 (f_add 0x3F800000 0x40000000 0 True)"
  using f_add_correct [OF pattern_1(1) pattern_2(1), of False 0] f_add_correct [OF pattern_1(1) pattern_2(1), of True 0]
  by (simp add: pattern_1 pattern_2 Let_def)

text \<open>
  Multiplication of finite operands returns the exact product rounded once, with the
  exclusive or of the signs; a zero product is a zero of that sign without flags.
\<close>

lemma f_mul_correct:
  assumes "f32_finite a" "f32_finite b"
  shows "let P = f32_value a * f32_value b; sign = dsign (f32_decode a) XOR dsign (f32_decode b)
         in if P = 0 then f_mul a b rm = Inr (f32_pack_zero sign, 0)
            else correctly_rounded rm sign \<bar>P\<bar> (f_mul a b rm)"
proof (cases "is_zero (f32_decode a) \<or> is_zero (f32_decode b)")
  case True
  then show ?thesis using value_zero_iff [OF assms(1)] value_zero_iff [OF assms(2)]
      finite_flags [OF assms(1)] finite_flags [OF assms(2)] by (auto simp: f_mul_def Let_def)
next
  case False
  then show ?thesis
    using rounded_product(1) [OF finite_normal [OF assms(1)] finite_normal [OF assms(2)], of rm]
      value_zero_iff [OF assms(1)] value_zero_iff [OF assms(2)] finite_flags [OF assms(1)] finite_flags [OF assms(2)]
    by (simp add: f_mul_def Let_def)
qed

text \<open>
  C27. Division of finite operands: zero by zero is the canonical NaN with the invalid flag,
  a nonzero number by zero an infinity with the divide-by-zero flag, and every other
  quotient is the exact one rounded once.
\<close>

theorem f_div_correct:
  assumes "f32_finite a" "f32_finite b"
  shows "let va = f32_value a; vb = f32_value b; sign = dsign (f32_decode a) XOR dsign (f32_decode b)
         in if vb = 0 then f_div a b rm = (if va = 0 then Inr (0x7FC00000, 16) else Inr (f32_pack_inf sign, 8))
            else if va = 0 then f_div a b rm = Inr (f32_pack_zero sign, 0)
            else correctly_rounded rm sign \<bar>va / vb\<bar> (f_div a b rm)"
proof (cases "is_zero (f32_decode a) \<or> is_zero (f32_decode b)")
  case True
  then show ?thesis using value_zero_iff [OF assms(1)] value_zero_iff [OF assms(2)]
      finite_flags [OF assms(1)] finite_flags [OF assms(2)] by (auto simp: f_div_def Let_def)
next
  case False
  then show ?thesis
    using rounded_product(2) [OF finite_normal [OF assms(1)] finite_normal [OF assms(2)], of rm]
      value_zero_iff [OF assms(1)] value_zero_iff [OF assms(2)] finite_flags [OF assms(1)] finite_flags [OF assms(2)]
    by (simp add: f_div_def Let_def)
qed

theorem f_div_correct_witness:
  "f32_finite 0x3F800000 \<and> f32_finite 0x40400000 \<and> correctly_rounded 1 0 (1 / 3) (f_div 0x3F800000 0x40400000 1)"
  using f_div_correct [OF pattern_1(1) pattern_3(1), of 1] by (simp add: pattern_1 pattern_3)

text \<open>
  C28. The square root of a positive normal number is the exact root rounded once: the
  integer square root of the scaled significand and its remainder class are enough, and
  the assertion that the scaled significand is an integer holds.
\<close>

theorem f_sqrt_correct:
  assumes "is_normal a" "dsign (f32_decode a) = 0"
  shows "correctly_rounded rm 0 (sqrt (f32_value a)) (f_sqrt a rm)"
  using round_from_sqrt_ok [OF normal_dyadic [OF assms(1)], of 0 rm] assms
  by (simp add: f_sqrt_def Let_def is_normal_def f32_value_def)

theorem f_sqrt_correct_witness:
  "is_normal 0x40000000 \<and> correctly_rounded 0 0 (sqrt 2) (f_sqrt 0x40000000 0)"
  using f_sqrt_correct [OF pattern_2(4,3), of 0] by (simp add: pattern_2)

text \<open>
  C29. The four fused multiply-add forms on finite operands: the exact value of plus or
  minus the product plus or minus the addend is rounded once, not the product first.
\<close>

theorem f_madd_correct:
  assumes "f32_finite a" "f32_finite b" "f32_finite c"
  shows "let T = (if neg_prod then - 1 else 1) * (f32_value a * f32_value b) + (if neg_addend then - 1 else 1) * f32_value c
         in if T = 0 then \<exists>z \<in> {0, 1}. f_madd a b c rm neg_prod neg_addend = Inr (f32_pack_zero z, 0)
            else correctly_rounded rm (if T < 0 then 1 else 0) \<bar>T\<bar> (f_madd a b c rm neg_prod neg_addend)"
proof -
  have "dsign (f32_decode c) XOR (if neg_addend then 1 else 0) \<in> {0, 1}"
    using xor_01 [OF decode_sign_01 [of c], of "if neg_addend then 1 else 0"] by auto
  then show ?thesis
    using f_madd_finite [OF assms, of neg_prod neg_addend rm] by (auto simp: Let_def split: if_split)
qed

theorem f_madd_correct_witness:
  "f32_finite 0x40000000 \<and> f32_finite 0x40400000 \<and> f32_finite 0x3F800000 \<and>
   correctly_rounded 0 0 5 (f_madd 0x40000000 0x40400000 0x3F800000 0 False True)"
  using f_madd_correct [OF pattern_2(1) pattern_3(1) pattern_1(1), of False True 0]
  by (simp add: pattern_1 pattern_2 pattern_3 Let_def)

text \<open>
  C30. Every floating-point operation that normalises returns for all operand patterns and
  every rounding mode: no normalisation loop runs forever, no assertion fails, and the
  result is a 32-bit pattern with five exception flags.
\<close>

theorem fp_operations_return:
  assumes "f32_range a" "f32_range b" "f32_range c"
  shows "fp_returns (f_add a b rm is_sub) \<and> fp_returns (f_mul a b rm) \<and> fp_returns (f_div a b rm) \<and>
    fp_returns (f_sqrt a rm) \<and> fp_returns (f_madd a b c rm neg_prod neg_addend) \<and>
    fp_returns (f_cvt_from_int a rm unsigned)"
  using assms f_cvt_from_int_returns [of a rm unsigned]
  by (simp add: f_add_returns f_mul_returns f_div_returns f_sqrt_returns f_madd_returns f32_range_def)

theorem fp_operations_return_witness:
  "f32_range 0x7F800001 \<and> f32_range 0xFF7FFFFF \<and> f32_range 1 \<and>
   fp_returns (f_madd 0x7F800001 0xFF7FFFFF 1 3 True False)"
  using fp_operations_return [of "0x7F800001" "0xFF7FFFFF" 1 3 False True False True] by (simp add: f32_range_def)

text \<open>
  Comparisons of operands that are not NaN follow the order of the reals, with both
  zeros (and the flushed subnormals) equal and the infinities outermost: \<open>feq\<close> (2), \<open>flt\<close>
  (1) and \<open>fle\<close> (any other code) return 1 exactly when the relation holds, without flags.
\<close>

lemma f_cmp_correct:
  assumes "f32_range a" "\<not> is_nan (f32_decode a)" "f32_range b" "\<not> is_nan (f32_decode b)"
  shows "f_cmp a b funct3 =
    (of_bool (if funct3 = 2 then f32_ord a = f32_ord b else if funct3 = 1 then f32_ord a < f32_ord b
              else f32_ord a \<le> f32_ord b), 0)"
  by (rule f_cmp_order [OF assms])

text \<open>
  C31. Conversion of a finite number to a 32-bit integer: the value rounded to an integer
  in the given mode when that fits (inexact exactly when it differs from the value), and
  otherwise the nearest bound of the range with the invalid flag.
\<close>

theorem f_cvt_to_int_correct:
  assumes "f32_finite a"
  shows "f_cvt_to_int a rm unsigned =
    (let v = rat_value a; n = round_int rm v; lo = int_lo unsigned; hi = int_hi unsigned
     in if lo \<le> n \<and> n \<le> hi then (n mod 2 ^ 32, if of_int n = v then 0 else 1)
        else ((if v < 0 then lo else hi) mod 2 ^ 32, 16))"
  unfolding Let_def by (rule f_cvt_to_int_finite [OF assms])

theorem f_cvt_to_int_correct_witness:
  "f32_finite 0xC0400000 \<and> f_cvt_to_int 0xC0400000 0 False = (0xFFFFFFFD, 0) \<and>
   f_cvt_to_int 0xC0400000 0 True = (0, 16)"
proof -
  have f: "f32_finite 0xC0400000" and v: "rat_value 0xC0400000 = - 3"
    by (simp_all add: f32_finite_def f32_range_def rat_value_def f32_decode_def Let_def magnitude_def)
  show ?thesis
    using f f_cvt_to_int_correct [OF f, of 0 False] f_cvt_to_int_correct [OF f, of 0 True]
    by (simp add: v round_int_def int_lo_def int_hi_def Let_def)
qed

text \<open>
  Conversion of a 32-bit integer register, signed or unsigned, returns the integer
  rounded once, and the pattern of positive zero for zero.
\<close>

lemma f_cvt_from_int_correct:
  assumes "0 \<le> a" "a < 2 ^ 32"
  shows "let v = (if unsigned then a else s32 a)
         in if v = 0 then f_cvt_from_int a rm unsigned = Inr (0, 0)
            else correctly_rounded rm (if v < 0 then 1 else 0) \<bar>of_int v\<bar> (f_cvt_from_int a rm unsigned)"
proof -
  note c = f_cvt_from_int_value [OF assms, of unsigned rm]
  show ?thesis
    unfolding Let_def by (cases "(if unsigned then a else s32 a) = 0") (simp_all only: c if_True if_False simp_thms)
qed

end
