(* ===== verification/Iss_State.thy ===== *)
theory Iss_State
  imports Iss_Ints
begin

text \<open>
  The architectural state of \<open>class ISS\<close> in \<open>sim/tools/iss.py\<close> and the operations on it that
  are not instructions: construction, register writes, the CSR file (\<open>csr_read\<close>,
  \<open>csr_write\<close>, with the masked views \<open>sstatus\<close>, \<open>sie\<close>, \<open>sip\<close> and \<open>fcsr\<close>), trap entry with
  delegation, and the two trap returns. The second half states the well-formedness
  invariant \<open>iss_wf\<close> and proves that every operation keeps it.
\<close>

subsection \<open>Constants\<close>

abbreviation (input) CSR_MSTATUS :: int where "CSR_MSTATUS \<equiv> 0x300"
abbreviation (input) CSR_MTVEC :: int where "CSR_MTVEC \<equiv> 0x305"
abbreviation (input) CSR_MSCRATCH :: int where "CSR_MSCRATCH \<equiv> 0x340"
abbreviation (input) CSR_MEPC :: int where "CSR_MEPC \<equiv> 0x341"
abbreviation (input) CSR_MCAUSE :: int where "CSR_MCAUSE \<equiv> 0x342"
abbreviation (input) MCAUSE_ILLEGAL_INSTRUCTION :: int where "MCAUSE_ILLEGAL_INSTRUCTION \<equiv> 2"
abbreviation (input) MCAUSE_BREAKPOINT :: int where "MCAUSE_BREAKPOINT \<equiv> 3"
abbreviation (input) MCAUSE_ECALL_FROM_M :: int where "MCAUSE_ECALL_FROM_M \<equiv> 11"
abbreviation (input) MCAUSE_INT_MACHINE_TIMER :: int where "MCAUSE_INT_MACHINE_TIMER \<equiv> 0x80000007"
abbreviation (input) MCAUSE_INT_MACHINE_EXTERNAL :: int where "MCAUSE_INT_MACHINE_EXTERNAL \<equiv> 0x8000000B"
abbreviation (input) CSR_SSTATUS :: int where "CSR_SSTATUS \<equiv> 0x100"
abbreviation (input) CSR_SIE :: int where "CSR_SIE \<equiv> 0x104"
abbreviation (input) CSR_STVEC :: int where "CSR_STVEC \<equiv> 0x105"
abbreviation (input) CSR_SSCRATCH :: int where "CSR_SSCRATCH \<equiv> 0x140"
abbreviation (input) CSR_SEPC :: int where "CSR_SEPC \<equiv> 0x141"
abbreviation (input) CSR_SCAUSE :: int where "CSR_SCAUSE \<equiv> 0x142"
abbreviation (input) CSR_STVAL :: int where "CSR_STVAL \<equiv> 0x143"
abbreviation (input) CSR_SIP :: int where "CSR_SIP \<equiv> 0x144"
abbreviation (input) CSR_SATP :: int where "CSR_SATP \<equiv> 0x180"
abbreviation (input) CSR_MIE :: int where "CSR_MIE \<equiv> 0x304"
abbreviation (input) CSR_MIP :: int where "CSR_MIP \<equiv> 0x344"
abbreviation (input) CSR_MTVAL :: int where "CSR_MTVAL \<equiv> 0x343"
abbreviation (input) CSR_MEDELEG :: int where "CSR_MEDELEG \<equiv> 0x302"
abbreviation (input) CSR_MIDELEG :: int where "CSR_MIDELEG \<equiv> 0x303"
abbreviation (input) MCAUSE_ECALL_FROM_U :: int where "MCAUSE_ECALL_FROM_U \<equiv> 8"
abbreviation (input) MCAUSE_ECALL_FROM_S :: int where "MCAUSE_ECALL_FROM_S \<equiv> 9"
abbreviation (input) MCAUSE_INSTRUCTION_PAGE_FAULT :: int where "MCAUSE_INSTRUCTION_PAGE_FAULT \<equiv> 12"
abbreviation (input) MCAUSE_LOAD_PAGE_FAULT :: int where "MCAUSE_LOAD_PAGE_FAULT \<equiv> 13"
abbreviation (input) MCAUSE_STORE_PAGE_FAULT :: int where "MCAUSE_STORE_PAGE_FAULT \<equiv> 15"
abbreviation (input) PRIV_U :: int where "PRIV_U \<equiv> 0"
abbreviation (input) PRIV_S :: int where "PRIV_S \<equiv> 1"
abbreviation (input) PRIV_M :: int where "PRIV_M \<equiv> 3"
abbreviation (input) MSTATUS_SIE_BIT :: nat where "MSTATUS_SIE_BIT \<equiv> 1"
abbreviation (input) MSTATUS_SPIE_BIT :: nat where "MSTATUS_SPIE_BIT \<equiv> 5"
abbreviation (input) MSTATUS_SPP_BIT :: nat where "MSTATUS_SPP_BIT \<equiv> 8"
abbreviation (input) MSTATUS_MPP_LO :: nat where "MSTATUS_MPP_LO \<equiv> 11"
abbreviation (input) MIE_SSIE_BIT :: nat where "MIE_SSIE_BIT \<equiv> 1"
abbreviation (input) MIE_STIE_BIT :: nat where "MIE_STIE_BIT \<equiv> 5"
abbreviation (input) MIE_SEIE_BIT :: nat where "MIE_SEIE_BIT \<equiv> 9"
abbreviation (input) MIE_MSIE_BIT :: nat where "MIE_MSIE_BIT \<equiv> 3"
abbreviation (input) MSTATUS_UXL_LO :: nat where "MSTATUS_UXL_LO \<equiv> 32"
abbreviation (input) MSTATUS_SXL_LO :: nat where "MSTATUS_SXL_LO \<equiv> 34"
abbreviation (input) MXL_XLEN64 :: int where "MXL_XLEN64 \<equiv> 2"
abbreviation (input) RM_DYN :: int where "RM_DYN \<equiv> 7"
abbreviation (input) CSR_FFLAGS :: int where "CSR_FFLAGS \<equiv> 0x001"
abbreviation (input) CSR_FRM :: int where "CSR_FRM \<equiv> 0x002"
abbreviation (input) CSR_FCSR :: int where "CSR_FCSR \<equiv> 0x003"

subsection \<open>State\<close>

record iss =
  xlen :: nat
  regs :: "int list"
  mem :: "int list"
  mem_mask :: int
  pc :: int
  halted :: bool
  csr :: "int \<rightharpoonup> int"
  priv_mode :: int
  fregs :: "int list"
  frm :: int
  fflags :: int
  pending_interrupt :: "(int \<times> int) option"

definition csr_reset :: "int \<rightharpoonup> int" where
  "csr_reset = map_of
     [(CSR_MSTATUS, 0), (CSR_MTVEC, 0), (CSR_MSCRATCH, 0), (CSR_MEPC, 0), (CSR_MCAUSE, 0),
      (CSR_SSCRATCH, 0), (CSR_SEPC, 0), (CSR_SCAUSE, 0), (CSR_STVAL, 0), (CSR_MTVAL, 0),
      (CSR_STVEC, 0), (CSR_SATP, 0), (CSR_MIDELEG, 0), (CSR_MEDELEG, 0), (CSR_MIE, 0), (CSR_MIP, 0)]"

definition iss_init :: "nat \<Rightarrow> nat \<Rightarrow> iss" where
  "iss_init mem_size xl =
     \<lparr>xlen = xl, regs = (replicate 32 0)[2 := int mem_size], mem = replicate mem_size 0,
      mem_mask = int mem_size - 1, pc = 0, halted = False, csr = csr_reset, priv_mode = PRIV_M,
      fregs = replicate 32 0, frm = 0, fflags = 0, pending_interrupt = None\<rparr>"

definition schedule_interrupt :: "iss \<Rightarrow> int \<Rightarrow> int \<Rightarrow> iss" where
  "schedule_interrupt s after_steps cause = s\<lparr>pending_interrupt := Some (after_steps, cause)\<rparr>"

text \<open>
  \<open>self.csr[a]\<close> and \<open>self.csr.get(a, 0)\<close> read the same dictionary. The first would raise
  \<open>KeyError\<close> on a missing key; \<open>iss_wf\<close> keeps the key set fixed, so it never does.
\<close>

definition csr_at :: "iss \<Rightarrow> int \<Rightarrow> int" where
  "csr_at s a = (case csr s a of Some v \<Rightarrow> v | None \<Rightarrow> 0)"

definition csr_put :: "iss \<Rightarrow> int \<Rightarrow> int \<Rightarrow> iss" where
  "csr_put s a v = s\<lparr>csr := (csr s)(a \<mapsto> v)\<rparr>"

definition sxlen :: "iss \<Rightarrow> int \<Rightarrow> int" where
  "sxlen s v = sXLEN v (xlen s)"

definition uxlen :: "iss \<Rightarrow> int \<Rightarrow> int" where
  "uxlen s v = uXLEN v (xlen s)"

definition wr :: "iss \<Rightarrow> int \<Rightarrow> int \<Rightarrow> iss" where
  "wr s rd val = (if rd \<noteq> 0 then s\<lparr>regs := (regs s)[nat rd := uxlen s val]\<rparr> else s)"

definition set_fflags :: "iss \<Rightarrow> int \<Rightarrow> iss" where
  "set_fflags s flags = s\<lparr>fflags := (fflags s OR flags) AND 0x1F\<rparr>"

definition resolve_rm :: "iss \<Rightarrow> int \<Rightarrow> int" where
  "resolve_rm s rm_field = (if rm_field = RM_DYN then frm s else rm_field)"

subsection \<open>The CSR file\<close>

abbreviation (input) bit_of :: "int \<Rightarrow> nat \<Rightarrow> int" where
  "bit_of v n \<equiv> push_bit n (drop_bit n v AND 1)"

definition csr_read :: "iss \<Rightarrow> int \<Rightarrow> int" where
  "csr_read s addr =
     (if addr = CSR_FFLAGS then fflags s AND 0x1F
      else if addr = CSR_FRM then frm s AND 0x7
      else if addr = CSR_FCSR then push_bit 5 (frm s AND 0x7) OR (fflags s AND 0x1F)
      else if addr = CSR_SSTATUS then
        (let m = csr_at s CSR_MSTATUS
         in bit_of m MSTATUS_SIE_BIT OR bit_of m MSTATUS_SPIE_BIT OR bit_of m MSTATUS_SPP_BIT)
      else if addr = CSR_SIE then
        (let e = csr_at s CSR_MIE
         in bit_of e MIE_SSIE_BIT OR bit_of e MIE_STIE_BIT OR bit_of e MIE_SEIE_BIT)
      else if addr = CSR_SIP then
        (let p = csr_at s CSR_MIP
         in bit_of p MIE_SSIE_BIT OR bit_of p MIE_STIE_BIT OR bit_of p MIE_SEIE_BIT)
      else if addr = CSR_MSTATUS \<and> xlen s = 64 then
        csr_at s addr OR push_bit MSTATUS_UXL_LO MXL_XLEN64 OR push_bit MSTATUS_SXL_LO MXL_XLEN64
      else csr_at s addr)"

abbreviation (input) SSTATUS_MASK :: int where
  "SSTATUS_MASK \<equiv> push_bit MSTATUS_SIE_BIT 1 OR push_bit MSTATUS_SPIE_BIT 1 OR push_bit MSTATUS_SPP_BIT 1"

abbreviation (input) MSTATUS_MASK :: int where
  "MSTATUS_MASK \<equiv> push_bit 3 1 OR push_bit 7 1 OR push_bit MSTATUS_SIE_BIT 1 OR
     push_bit MSTATUS_SPIE_BIT 1 OR push_bit MSTATUS_SPP_BIT 1 OR push_bit MSTATUS_MPP_LO 3"

abbreviation (input) SIE_MASK :: int where
  "SIE_MASK \<equiv> push_bit MIE_SSIE_BIT 1 OR push_bit MIE_STIE_BIT 1 OR push_bit MIE_SEIE_BIT 1"

abbreviation (input) MIE_MASK :: int where
  "MIE_MASK \<equiv> push_bit MIE_MSIE_BIT 1 OR push_bit 7 1 OR push_bit 11 1 OR
     push_bit MIE_SSIE_BIT 1 OR push_bit MIE_STIE_BIT 1 OR push_bit MIE_SEIE_BIT 1"

abbreviation (input) MEDELEG_MASK :: int where
  "MEDELEG_MASK \<equiv> push_bit 2 1 OR push_bit 3 1 OR push_bit 8 1 OR push_bit 9 1 OR
     push_bit 11 1 OR push_bit 12 1 OR push_bit 13 1 OR push_bit 15 1"

abbreviation (input) MIDELEG_MASK :: int where
  "MIDELEG_MASK \<equiv> push_bit MIE_SSIE_BIT 1 OR push_bit MIE_STIE_BIT 1 OR push_bit MIE_MSIE_BIT 1 OR
     push_bit 7 1 OR push_bit MIE_SEIE_BIT 1 OR push_bit 11 1"

definition csr_store :: "iss \<Rightarrow> int \<Rightarrow> int \<Rightarrow> iss" where
  "csr_store s addr val = (if csr s addr \<noteq> None then csr_put s addr (u32 val) else s)"

definition csr_write :: "iss \<Rightarrow> int \<Rightarrow> int \<Rightarrow> iss" where
  "csr_write s addr val =
     (if addr = CSR_FFLAGS then s\<lparr>fflags := val AND 0x1F\<rparr>
      else if addr = CSR_FRM then s\<lparr>frm := val AND 0x7\<rparr>
      else if addr = CSR_FCSR then s\<lparr>frm := drop_bit 5 val AND 0x7, fflags := val AND 0x1F\<rparr>
      else if addr = CSR_MSTATUS then csr_store s addr (val AND MSTATUS_MASK)
      else if addr = CSR_SSTATUS then
        (let keep = csr_at s CSR_MSTATUS AND NOT SSTATUS_MASK; new = val AND SSTATUS_MASK
         in csr_put s CSR_MSTATUS (u32 (keep OR new)))
      else if addr = CSR_MIE then csr_store s addr (val AND MIE_MASK)
      else if addr = CSR_SIE then
        (let keep = csr_at s CSR_MIE AND NOT SIE_MASK; new = val AND SIE_MASK
         in csr_put s CSR_MIE (u32 (keep OR new)))
      else if addr = CSR_MIP \<or> addr = CSR_SIP then csr_put s CSR_MIP (u32 (val AND SIE_MASK))
      else if addr = CSR_MEDELEG then csr_store s addr (val AND MEDELEG_MASK)
      else if addr = CSR_MIDELEG then csr_store s addr (val AND MIDELEG_MASK)
      else csr_store s addr val)"

subsection \<open>Traps\<close>

definition trap :: "iss \<Rightarrow> int \<Rightarrow> int \<Rightarrow> iss" where
  "trap s cause tval =
     (let is_interrupt = (cause AND 0x80000000 \<noteq> 0);
          low_cause = cause AND 0x1F;
          deleg = (if is_interrupt then csr_at s CSR_MIDELEG else csr_at s CSR_MEDELEG);
          to_s = (priv_mode s \<noteq> PRIV_M \<and> drop_bit (nat low_cause) deleg AND 1 \<noteq> 0);
          mcause_val = u32 cause;
          m = csr_at s CSR_MSTATUS
      in if to_s then
        (let s1 = csr_put (csr_put (csr_put s CSR_SEPC (pc s)) CSR_SCAUSE mcause_val) CSR_STVAL (u32 tval);
             sie = drop_bit MSTATUS_SIE_BIT m AND 1;
             m1 = m AND NOT (push_bit MSTATUS_SIE_BIT 1 OR push_bit MSTATUS_SPIE_BIT 1 OR push_bit MSTATUS_SPP_BIT 1);
             m2 = m1 OR (push_bit MSTATUS_SPIE_BIT sie OR push_bit MSTATUS_SPP_BIT (priv_mode s AND 1));
             s2 = csr_put s1 CSR_MSTATUS (u32 m2)
         in s2\<lparr>priv_mode := PRIV_S, pc := csr_at s2 CSR_STVEC\<rparr>)
      else
        (let s1 = csr_put (csr_put (csr_put s CSR_MEPC (pc s)) CSR_MCAUSE mcause_val) CSR_MTVAL (u32 tval);
             mie = drop_bit 3 m AND 1;
             m1 = m AND NOT (push_bit 3 1 OR push_bit 7 1 OR push_bit MSTATUS_MPP_LO 3);
             m2 = m1 OR (push_bit 7 mie OR push_bit MSTATUS_MPP_LO (priv_mode s));
             s2 = csr_put s1 CSR_MSTATUS (u32 m2)
         in s2\<lparr>priv_mode := PRIV_M, pc := csr_at s2 CSR_MTVEC\<rparr>))"

definition mret :: "iss \<Rightarrow> iss" where
  "mret s =
     (let m = csr_at s CSR_MSTATUS;
          mpie = drop_bit 7 m AND 1;
          mpp = drop_bit MSTATUS_MPP_LO m AND 3;
          m1 = m AND NOT (push_bit 3 1 OR push_bit 7 1 OR push_bit MSTATUS_MPP_LO 3);
          m2 = m1 OR (push_bit 3 mpie OR push_bit 7 1 OR push_bit MSTATUS_MPP_LO PRIV_U);
          s2 = csr_put s CSR_MSTATUS (u32 m2)
      in s2\<lparr>priv_mode := mpp, pc := csr_at s2 CSR_MEPC\<rparr>)"

definition sret :: "iss \<Rightarrow> iss" where
  "sret s =
     (let m = csr_at s CSR_MSTATUS;
          spie = drop_bit MSTATUS_SPIE_BIT m AND 1;
          spp = drop_bit MSTATUS_SPP_BIT m AND 1;
          m1 = m AND NOT (push_bit MSTATUS_SIE_BIT 1 OR push_bit MSTATUS_SPIE_BIT 1 OR push_bit MSTATUS_SPP_BIT 1);
          m2 = m1 OR (push_bit MSTATUS_SIE_BIT spie OR push_bit MSTATUS_SPIE_BIT 1);
          s2 = csr_put s CSR_MSTATUS (u32 m2)
      in s2\<lparr>priv_mode := spp, pc := csr_at s2 CSR_SEPC\<rparr>)"

subsection \<open>Well-formed states\<close>

definition csr_keys :: "int set" where
  "csr_keys = {CSR_MSTATUS, CSR_MTVEC, CSR_MSCRATCH, CSR_MEPC, CSR_MCAUSE, CSR_SSCRATCH, CSR_SEPC,
     CSR_SCAUSE, CSR_STVAL, CSR_MTVAL, CSR_STVEC, CSR_SATP, CSR_MIDELEG, CSR_MEDELEG, CSR_MIE, CSR_MIP}"

definition csr_val_ok :: "int \<Rightarrow> int \<Rightarrow> bool" where
  "csr_val_ok k v \<longleftrightarrow> 0 \<le> v \<and> (k \<noteq> CSR_MEPC \<and> k \<noteq> CSR_SEPC \<longrightarrow> v < 2 ^ 32)"

definition csr_ok :: "(int \<rightharpoonup> int) \<Rightarrow> bool" where
  "csr_ok c \<longleftrightarrow> dom c = csr_keys \<and> (\<forall>k v. c k = Some v \<longrightarrow> csr_val_ok k v)"

definition iss_wf :: "iss \<Rightarrow> bool" where
  "iss_wf s \<longleftrightarrow>
     0 < xlen s \<and>
     length (regs s) = 32 \<and> regs s ! 0 = 0 \<and> list_all (\<lambda>v. 0 \<le> v \<and> v < 2 ^ xlen s) (regs s) \<and>
     0 \<le> mem_mask s \<and> int (length (mem s)) = mem_mask s + 1 \<and> list_all (\<lambda>b. 0 \<le> b \<and> b < 256) (mem s) \<and>
     0 \<le> pc s \<and> csr_ok (csr s) \<and> 0 \<le> priv_mode s \<and> priv_mode s < 4 \<and>
     length (fregs s) = 32 \<and> list_all (\<lambda>v. 0 \<le> v \<and> v < 2 ^ 32) (fregs s) \<and>
     0 \<le> frm s \<and> frm s < 8 \<and> 0 \<le> fflags s \<and> fflags s < 32"

lemma wf_simps:
  assumes "iss_wf s"
  shows "0 < xlen s" "length (regs s) = 32" "regs s ! 0 = 0" "0 \<le> mem_mask s"
    "int (length (mem s)) = mem_mask s + 1" "0 \<le> pc s" "csr_ok (csr s)" "0 \<le> priv_mode s"
    "priv_mode s < 4" "length (fregs s) = 32" "0 \<le> frm s" "frm s < 8" "0 \<le> fflags s" "fflags s < 32"
  using assms by (simp_all add: iss_wf_def)

lemma wf_reg:
  assumes "iss_wf s" "0 \<le> i" "i < 32"
  shows "0 \<le> regs s ! nat i" "regs s ! nat i < 2 ^ xlen s"
  using assms list_all_nth_nat [of "\<lambda>v. 0 \<le> v \<and> v < 2 ^ xlen s" "regs s" i] by (auto simp: iss_wf_def)

lemma wf_freg:
  assumes "iss_wf s" "0 \<le> i" "i < 32"
  shows "0 \<le> fregs s ! nat i" "fregs s ! nat i < 2 ^ 32"
  using assms list_all_nth_nat [of "\<lambda>v. 0 \<le> v \<and> v < 2 ^ 32" "fregs s" i] by (auto simp: iss_wf_def)

lemma csr_at_val: "iss_wf s \<Longrightarrow> csr_val_ok k (csr_at s k)"
  by (auto simp: iss_wf_def csr_ok_def csr_at_def csr_val_ok_def split: option.splits)

lemma csr_at_nonneg: "iss_wf s \<Longrightarrow> 0 \<le> csr_at s k"
  using csr_at_val [of s k] by (simp add: csr_val_ok_def)

lemma csr_at_u32: "iss_wf s \<Longrightarrow> k \<noteq> CSR_MEPC \<Longrightarrow> k \<noteq> CSR_SEPC \<Longrightarrow> csr_at s k < 2 ^ 32"
  using csr_at_val [of s k] by (simp add: csr_val_ok_def)

lemma csr_put_sel [simp]:
  "xlen (csr_put s k v) = xlen s" "regs (csr_put s k v) = regs s" "mem (csr_put s k v) = mem s"
  "mem_mask (csr_put s k v) = mem_mask s" "pc (csr_put s k v) = pc s"
  "priv_mode (csr_put s k v) = priv_mode s" "fregs (csr_put s k v) = fregs s"
  "frm (csr_put s k v) = frm s" "fflags (csr_put s k v) = fflags s"
  "pending_interrupt (csr_put s k v) = pending_interrupt s"
  by (simp_all add: csr_put_def)

lemma csr_at_put: "csr_at (csr_put s k v) k' = (if k' = k then v else csr_at s k')"
  by (simp add: csr_at_def csr_put_def)

lemma csr_at_upd [simp]:
  "csr_at (s\<lparr>pc := x\<rparr>) k = csr_at s k" "csr_at (s\<lparr>priv_mode := y\<rparr>) k = csr_at s k"
  "csr_at (s\<lparr>regs := r\<rparr>) k = csr_at s k" "csr_at (s\<lparr>mem := m\<rparr>) k = csr_at s k"
  "csr_at (s\<lparr>fregs := r\<rparr>) k = csr_at s k" "csr_at (s\<lparr>frm := x\<rparr>) k = csr_at s k"
  "csr_at (s\<lparr>fflags := x\<rparr>) k = csr_at s k"
  "csr_at (s\<lparr>pending_interrupt := p\<rparr>) k = csr_at s k"
  by (simp_all add: csr_at_def)

lemma wf_csr_put [wf_intro]: "iss_wf s \<Longrightarrow> k \<in> csr_keys \<Longrightarrow> csr_val_ok k v \<Longrightarrow> iss_wf (csr_put s k v)"
  by (auto simp: iss_wf_def csr_put_def csr_ok_def)

lemma csr_val_u32 [wf_intro]: "csr_val_ok k (u32 v)"
  by (simp add: csr_val_ok_def)

lemma csr_val_epc [wf_intro]: "0 \<le> v \<Longrightarrow> k = CSR_MEPC \<or> k = CSR_SEPC \<Longrightarrow> csr_val_ok k v"
  by (auto simp: csr_val_ok_def)

lemma csr_keysI [wf_intro]:
  "CSR_MSTATUS \<in> csr_keys" "CSR_MEPC \<in> csr_keys" "CSR_MCAUSE \<in> csr_keys" "CSR_MTVAL \<in> csr_keys"
  "CSR_SEPC \<in> csr_keys" "CSR_SCAUSE \<in> csr_keys" "CSR_STVAL \<in> csr_keys" "CSR_MIE \<in> csr_keys"
  "CSR_MIP \<in> csr_keys" "CSR_SATP \<in> csr_keys"
  by (simp_all add: csr_keys_def)

lemma wf_pc [wf_intro]: "iss_wf s \<Longrightarrow> 0 \<le> x \<Longrightarrow> iss_wf (s\<lparr>pc := x\<rparr>)"
  by (simp add: iss_wf_def)

lemma wf_priv [wf_intro]: "iss_wf s \<Longrightarrow> 0 \<le> x \<Longrightarrow> x < 4 \<Longrightarrow> iss_wf (s\<lparr>priv_mode := x\<rparr>)"
  by (simp add: iss_wf_def)

lemma wf_pending [wf_intro]: "iss_wf s \<Longrightarrow> iss_wf (s\<lparr>pending_interrupt := x\<rparr>)"
  by (simp add: iss_wf_def)

lemma wf_fcsr [wf_intro]:
  "iss_wf s \<Longrightarrow> 0 \<le> x \<Longrightarrow> x < 8 \<Longrightarrow> iss_wf (s\<lparr>frm := x\<rparr>)"
  "iss_wf s \<Longrightarrow> 0 \<le> y \<Longrightarrow> y < 32 \<Longrightarrow> iss_wf (s\<lparr>fflags := y\<rparr>)"
  by (simp_all add: iss_wf_def)

lemma wf_set_freg [wf_intro]:
  "iss_wf s \<Longrightarrow> 0 \<le> v \<Longrightarrow> v < 2 ^ 32 \<Longrightarrow> iss_wf (s\<lparr>fregs := (fregs s)[i := v]\<rparr>)"
  by (simp add: iss_wf_def list_all_update)

lemma wf_init: "0 < n \<Longrightarrow> 0 < xl \<Longrightarrow> int n < 2 ^ xl \<Longrightarrow> iss_wf (iss_init n xl)"
proof -
  assume a: "0 < n" "0 < xl" "int n < 2 ^ xl"
  have "list_all (\<lambda>v. 0 \<le> v \<and> v < 2 ^ xl) ((replicate 32 (0::int))[2 := int n])"
    using a by (intro list_all_update) (simp_all add: list_all_iff)
  moreover have "csr_ok csr_reset"
    by (auto simp: csr_ok_def csr_reset_def csr_keys_def csr_val_ok_def split: if_splits)
  ultimately show ?thesis
    using a by (simp add: iss_wf_def iss_init_def list_all_iff)
qed

lemma wf_wr [wf_intro]: "iss_wf s \<Longrightarrow> 0 \<le> rd \<Longrightarrow> iss_wf (wr s rd v)"
  by (auto simp: iss_wf_def wr_def uxlen_def list_all_update)

lemma wf_set_fflags [wf_intro]: "iss_wf s \<Longrightarrow> iss_wf (set_fflags s f)"
  using and_le_mask [of 31 "fflags s OR f"] by (simp add: set_fflags_def wf_fcsr)

lemma csr_some_key: "iss_wf s \<Longrightarrow> (csr s a \<noteq> None) = (a \<in> csr_keys)"
  by (auto simp: iss_wf_def csr_ok_def)

lemma wf_csr_store [wf_intro]: "iss_wf s \<Longrightarrow> iss_wf (csr_store s a v)"
  using csr_some_key [of s a] unfolding csr_store_def by (simp add: wf_csr_put csr_val_u32)

lemma wf_csr_write [wf_intro]: "iss_wf s \<Longrightarrow> iss_wf (csr_write s a v)"
proof -
  assume wf: "iss_wf s"
  have r: "0 \<le> x AND 7 \<and> x AND 7 < 8" "0 \<le> x AND 31 \<and> x AND 31 < 32" for x :: int
    using and_le_mask [of 7 x] and_le_mask [of 31 x] by simp_all
  show ?thesis
    unfolding csr_write_def Let_def
    by (simp add: wf r wf_intro split: if_split)
qed

lemma wf_trap [wf_intro]: "iss_wf s \<Longrightarrow> iss_wf (trap s c t)"
  unfolding trap_def Let_def
  by (auto intro!: wf_intro simp: csr_at_put csr_at_nonneg wf_simps)

lemma wf_mret [wf_intro]: "iss_wf s \<Longrightarrow> iss_wf (mret s)"
  using and_le_mask [of 3] unfolding mret_def Let_def
  by (auto intro!: wf_intro simp: csr_at_put csr_at_nonneg wf_simps and_mod_2)

lemma wf_sret [wf_intro]: "iss_wf s \<Longrightarrow> iss_wf (sret s)"
  unfolding sret_def Let_def
  by (auto intro!: wf_intro simp: csr_at_put csr_at_nonneg wf_simps and_mod_1)

end
