(* ===== verification/Iss_Mem.thy ===== *)
theory Iss_Mem
  imports Iss_State
begin

text \<open>
  Data memory and address translation of \<open>sim/tools/iss.py\<close>: the byte accessors with their
  MMIO cut-off, the page-table-entry readers and permission check, the Sv32 and Sv39 walks
  and the \<open>translate\<close> dispatcher. A walk either yields a physical address in the unchanged
  state or traps and yields none: the result is \<open>int option \<times> iss\<close>.
\<close>

abbreviation (input) PTE_V_BIT :: nat where "PTE_V_BIT \<equiv> 0"
abbreviation (input) PTE_R_BIT :: nat where "PTE_R_BIT \<equiv> 1"
abbreviation (input) PTE_W_BIT :: nat where "PTE_W_BIT \<equiv> 2"
abbreviation (input) PTE_X_BIT :: nat where "PTE_X_BIT \<equiv> 3"
abbreviation (input) PTE_U_BIT :: nat where "PTE_U_BIT \<equiv> 4"
abbreviation (input) SATP_MODE_BIT :: nat where "SATP_MODE_BIT \<equiv> 31"
abbreviation (input) SATP64_MODE_LO :: nat where "SATP64_MODE_LO \<equiv> 60"
abbreviation (input) SATP_MODE_SV39 :: int where "SATP_MODE_SV39 \<equiv> 8"

datatype access = Fetch | Load | Store

subsection \<open>Bytes\<close>

definition load_mem_byte :: "iss \<Rightarrow> int \<Rightarrow> int" where
  "load_mem_byte s addr = (if addr \<ge> 0x10000000 then 0 else mem s ! nat (addr AND mem_mask s))"

definition store_mem_byte :: "iss \<Rightarrow> int \<Rightarrow> int \<Rightarrow> iss" where
  "store_mem_byte s addr val =
     (if addr \<ge> 0x10000000 then s
      else s\<lparr>mem := (mem s)[nat (addr AND mem_mask s) := val AND 0xFF]\<rparr>)"

text \<open>\<open>for i in range(n): v |= load_mem_byte(addr + i) << (8 * i)\<close>, and the store loop.\<close>

fun load_le :: "iss \<Rightarrow> int \<Rightarrow> nat \<Rightarrow> int" where
  "load_le s addr 0 = 0"
| "load_le s addr (Suc n) = load_le s addr n OR push_bit (8 * n) (load_mem_byte s (addr + int n))"

fun store_le :: "iss \<Rightarrow> int \<Rightarrow> int \<Rightarrow> nat \<Rightarrow> iss" where
  "store_le s addr val 0 = s"
| "store_le s addr val (Suc n) =
     store_mem_byte (store_le s addr val n) (addr + int n) (drop_bit (8 * n) val)"

subsection \<open>Page tables\<close>

definition read_pte :: "iss \<Rightarrow> int \<Rightarrow> int" where
  "read_pte s addr0 =
     (let addr = addr0 AND 0xFFFFFFFF
      in load_mem_byte s addr OR push_bit 8 (load_mem_byte s (addr + 1)) OR
         push_bit 16 (load_mem_byte s (addr + 2)) OR push_bit 24 (load_mem_byte s (addr + 3)))"

definition read_pte64 :: "iss \<Rightarrow> int \<Rightarrow> int" where
  "read_pte64 s addr0 = load_le s (addr0 AND 0xFFFFFFFF) 8"

definition pte_perm_ok :: "iss \<Rightarrow> int \<Rightarrow> access \<Rightarrow> bool" where
  "pte_perm_ok s pte acc =
     (let access_bit = (case acc of Fetch \<Rightarrow> PTE_X_BIT | Store \<Rightarrow> PTE_W_BIT | Load \<Rightarrow> PTE_R_BIT)
      in if drop_bit access_bit pte AND 1 = 0 then False
         else let priv_is_u = (priv_mode s = PRIV_U); pte_u = drop_bit PTE_U_BIT pte AND 1
              in if priv_is_u then pte_u \<noteq> 0 else pte_u = 0)"

definition fault_cause :: "access \<Rightarrow> int" where
  "fault_cause acc =
     (case acc of Fetch \<Rightarrow> MCAUSE_INSTRUCTION_PAGE_FAULT | Load \<Rightarrow> MCAUSE_LOAD_PAGE_FAULT
      | Store \<Rightarrow> MCAUSE_STORE_PAGE_FAULT)"

definition page_fault :: "iss \<Rightarrow> access \<Rightarrow> int \<Rightarrow> int option \<times> iss" where
  "page_fault s acc vaddr = (None, trap s (fault_cause acc) vaddr)"

abbreviation (input) pte_bit :: "int \<Rightarrow> nat \<Rightarrow> bool" where
  "pte_bit pte n \<equiv> drop_bit n pte AND 1 \<noteq> 0"

definition translate_sv32 :: "iss \<Rightarrow> int \<Rightarrow> access \<Rightarrow> int \<Rightarrow> int option \<times> iss" where
  "translate_sv32 s vaddr0 acc satp =
     (let vaddr = u32 vaddr0;
          vpn1 = drop_bit 22 vaddr AND 0x3FF;
          vpn0 = drop_bit 12 vaddr AND 0x3FF;
          offset = vaddr AND 0xFFF;
          satp_ppn20 = satp AND 0xFFFFF;
          l1_addr = push_bit 12 satp_ppn20 OR push_bit 2 vpn1;
          pte1 = read_pte s l1_addr
      in if \<not> pte_bit pte1 PTE_V_BIT then page_fault s acc vaddr
         else if pte_bit pte1 PTE_R_BIT \<or> pte_bit pte1 PTE_W_BIT \<or> pte_bit pte1 PTE_X_BIT then
           (let ppn20 = drop_bit 10 pte1 AND 0xFFFFF
            in if ppn20 AND 0x3FF \<noteq> 0 then page_fault s acc vaddr
               else if \<not> pte_perm_ok s pte1 acc then page_fault s acc vaddr
               else (let result_ppn20 = push_bit 10 (drop_bit 10 ppn20) OR vpn0
                     in (Some (u32 (push_bit 12 result_ppn20 OR offset)), s)))
         else
           (let l0_addr = push_bit 12 (drop_bit 10 pte1 AND 0xFFFFF) OR push_bit 2 vpn0;
                pte0 = read_pte s l0_addr
            in if \<not> pte_bit pte0 PTE_V_BIT then page_fault s acc vaddr
               else if \<not> (pte_bit pte0 PTE_R_BIT \<or> pte_bit pte0 PTE_W_BIT \<or> pte_bit pte0 PTE_X_BIT)
               then page_fault s acc vaddr
               else if \<not> pte_perm_ok s pte0 acc then page_fault s acc vaddr
               else (let ppn20 = drop_bit 10 pte0 AND 0xFFFFF
                     in (Some (u32 (push_bit 12 ppn20 OR offset)), s))))"

definition translate_sv39 :: "iss \<Rightarrow> int \<Rightarrow> access \<Rightarrow> int \<Rightarrow> int option \<times> iss" where
  "translate_sv39 s vaddr acc satp =
     (let vpn2 = drop_bit 30 vaddr AND 0x1FF;
          vpn1 = drop_bit 21 vaddr AND 0x1FF;
          vpn0 = drop_bit 12 vaddr AND 0x1FF;
          offset = vaddr AND 0xFFF;
          satp_ppn20 = satp AND 0xFFFFF;
          l2_addr = push_bit 12 satp_ppn20 OR push_bit 3 vpn2;
          pte2 = read_pte64 s l2_addr
      in if \<not> pte_bit pte2 PTE_V_BIT then page_fault s acc vaddr
         else if pte_bit pte2 PTE_R_BIT \<or> pte_bit pte2 PTE_W_BIT \<or> pte_bit pte2 PTE_X_BIT then
           (let pte_ppn20 = drop_bit 10 pte2 AND 0xFFFFF
            in if pte_ppn20 AND 0x3FFFF \<noteq> 0 then page_fault s acc vaddr
               else if \<not> pte_perm_ok s pte2 acc then page_fault s acc vaddr
               else (let result_ppn20 = push_bit 18 (drop_bit 18 pte_ppn20) OR push_bit 9 vpn1 OR vpn0
                     in (Some (uxlen s (push_bit 12 result_ppn20 OR offset)), s)))
         else
           (let l1_addr = push_bit 12 (drop_bit 10 pte2 AND 0xFFFFF) OR push_bit 3 vpn1;
                pte1 = read_pte64 s l1_addr
            in if \<not> pte_bit pte1 PTE_V_BIT then page_fault s acc vaddr
               else if pte_bit pte1 PTE_R_BIT \<or> pte_bit pte1 PTE_W_BIT \<or> pte_bit pte1 PTE_X_BIT then
                 (let pte_ppn20 = drop_bit 10 pte1 AND 0xFFFFF
                  in if pte_ppn20 AND 0x1FF \<noteq> 0 then page_fault s acc vaddr
                     else if \<not> pte_perm_ok s pte1 acc then page_fault s acc vaddr
                     else (let result_ppn20 = push_bit 9 (drop_bit 9 pte_ppn20) OR vpn0
                           in (Some (uxlen s (push_bit 12 result_ppn20 OR offset)), s)))
               else
                 (let l0_addr = push_bit 12 (drop_bit 10 pte1 AND 0xFFFFF) OR push_bit 3 vpn0;
                      pte0 = read_pte64 s l0_addr
                  in if \<not> pte_bit pte0 PTE_V_BIT then page_fault s acc vaddr
                     else if \<not> (pte_bit pte0 PTE_R_BIT \<or> pte_bit pte0 PTE_W_BIT \<or> pte_bit pte0 PTE_X_BIT)
                     then page_fault s acc vaddr
                     else if \<not> pte_perm_ok s pte0 acc then page_fault s acc vaddr
                     else (let ppn20 = drop_bit 10 pte0 AND 0xFFFFF
                           in (Some (uxlen s (push_bit 12 ppn20 OR offset)), s)))))"

definition translate :: "iss \<Rightarrow> int \<Rightarrow> access \<Rightarrow> int option \<times> iss" where
  "translate s vaddr acc =
     (let satp = csr_at s CSR_SATP
      in if priv_mode s = PRIV_M then (Some (uxlen s vaddr), s)
         else if xlen s = 32 then
           (if drop_bit SATP_MODE_BIT satp AND 1 = 0 then (Some (uxlen s vaddr), s)
            else translate_sv32 s vaddr acc satp)
         else
           (if drop_bit SATP64_MODE_LO satp AND 0xF \<noteq> SATP_MODE_SV39 then (Some (uxlen s vaddr), s)
            else translate_sv39 s vaddr acc satp))"

text \<open>What a walk can come to: an address in the same state, or a page fault at \<open>v\<close>.\<close>

definition walk_outcome :: "iss \<Rightarrow> access \<Rightarrow> int \<Rightarrow> int option \<times> iss \<Rightarrow> bool" where
  "walk_outcome s acc v r \<longleftrightarrow> (\<exists>a. r = (Some a, s)) \<or> r = page_fault s acc v"

subsection \<open>Memory accesses stay in range\<close>

lemma mem_index: "iss_wf s \<Longrightarrow> nat (addr AND mem_mask s) < length (mem s)"
  using and_le_mask [of "mem_mask s" addr] wf_simps(4,5) [of s] by linarith

lemma load_byte_range: "iss_wf s \<Longrightarrow> 0 \<le> load_mem_byte s a \<and> load_mem_byte s a < 256"
  using mem_index [of s a] by (auto simp: load_mem_byte_def iss_wf_def list_all_length)

lemma store_mem_byte_sel [simp]:
  "xlen (store_mem_byte s a v) = xlen s" "regs (store_mem_byte s a v) = regs s"
  "mem_mask (store_mem_byte s a v) = mem_mask s" "pc (store_mem_byte s a v) = pc s"
  "csr (store_mem_byte s a v) = csr s" "priv_mode (store_mem_byte s a v) = priv_mode s"
  "fregs (store_mem_byte s a v) = fregs s" "frm (store_mem_byte s a v) = frm s"
  "fflags (store_mem_byte s a v) = fflags s"
  "pending_interrupt (store_mem_byte s a v) = pending_interrupt s"
  "length (mem (store_mem_byte s a v)) = length (mem s)"
  by (simp_all add: store_mem_byte_def)

lemma wf_store_mem_byte [wf_intro]: "iss_wf s \<Longrightarrow> iss_wf (store_mem_byte s a v)"
  using and_le_mask [of 255 v] by (auto simp: store_mem_byte_def iss_wf_def list_all_update)

lemma wf_store_le [wf_intro]: "iss_wf s \<Longrightarrow> iss_wf (store_le s a v n)"
  by (induction n) (simp_all add: wf_store_mem_byte)

lemma load_le_range: "iss_wf s \<Longrightarrow> 0 \<le> load_le s a n \<and> load_le s a n < 2 ^ (8 * n)"
proof (induction n)
  case (Suc n)
  have b: "0 \<le> load_mem_byte s (a + int n)" "load_mem_byte s (a + int n) < 2 ^ 8"
    using load_byte_range [OF Suc.prems, of "a + int n"] by simp_all
  have "0 \<le> push_bit (8 * n) (load_mem_byte s (a + int n)) \<and>
        push_bit (8 * n) (load_mem_byte s (a + int n)) < 2 ^ (8 * Suc n)"
    by (rule push_range [OF b]) simp
  moreover have "load_le s a n < 2 ^ (8 * Suc n)"
    using Suc.IH [OF Suc.prems] by (smt (verit) power_increasing_iff mult_le_mono2 le_add2 plus_1_eq_Suc)
  ultimately show ?case
    using Suc.IH [OF Suc.prems] or_range [of "load_le s a n" "8 * Suc n"] by simp
qed simp

lemma load4_le:
  "load_mem_byte s a OR push_bit 8 (load_mem_byte s (a + 1)) OR
   push_bit 16 (load_mem_byte s (a + 2)) OR push_bit 24 (load_mem_byte s (a + 3)) = load_le s a 4"
proof -
  have "load_le s a 4 = load_le s a (Suc (Suc (Suc (Suc 0))))" by (simp add: eval_nat_numeral)
  also have "\<dots> = load_mem_byte s a OR push_bit 8 (load_mem_byte s (a + 1)) OR
      push_bit 16 (load_mem_byte s (a + 2)) OR push_bit 24 (load_mem_byte s (a + 3))"
    unfolding load_le.simps by (simp add: or.assoc)
  finally show ?thesis by simp
qed

lemma load2_le: "load_mem_byte s a OR push_bit 8 (load_mem_byte s (a + 1)) = load_le s a 2"
proof -
  have "load_le s a 2 = load_le s a (Suc (Suc 0))" by (simp add: eval_nat_numeral)
  then show ?thesis unfolding load_le.simps by simp
qed

subsection \<open>Translation\<close>

lemma wf_page_fault [wf_intro]: "iss_wf s \<Longrightarrow> iss_wf (snd (page_fault s acc v))"
  by (simp add: page_fault_def wf_trap)

lemma walk_outcome_intro:
  "walk_outcome s acc v (Some a, s)" "walk_outcome s acc v (page_fault s acc v)"
  "walk_outcome s acc v r \<Longrightarrow> walk_outcome s acc v r' \<Longrightarrow> walk_outcome s acc v (if c then r else r')"
  by (simp_all add: walk_outcome_def)

lemma sv32_outcome: "walk_outcome s acc (u32 v) (translate_sv32 s v acc satp)"
  unfolding translate_sv32_def Let_def by (intro walk_outcome_intro)

lemma sv39_outcome: "walk_outcome s acc v (translate_sv39 s v acc satp)"
  unfolding translate_sv39_def Let_def by (intro walk_outcome_intro)

lemma translate_outcome: "walk_outcome s acc (if xlen s = 32 then u32 v else v) (translate s v acc)"
  unfolding translate_def Let_def
  by (cases "xlen s = 32") (simp_all add: walk_outcome_intro sv32_outcome sv39_outcome)

lemma translate_cases:
  obtains (hit) a where "translate s v acc = (Some a, s)"
    | (fault) v' where "translate s v acc = page_fault s acc v'"
  using translate_outcome [of s acc v] unfolding walk_outcome_def by blast

lemma wf_translate [wf_intro]: "iss_wf s \<Longrightarrow> iss_wf (snd (translate s v acc))"
  by (rule translate_cases [of s v acc]) (auto simp: page_fault_def wf_trap)

lemma translate_Some: "translate s v acc = (Some a, s') \<Longrightarrow> s' = s"
  by (rule translate_cases [of s v acc]) (auto simp: page_fault_def)

end
