(* ===== verification/Iss_Step.thy ===== *)
theory Iss_Step
  imports Iss_Mem Softfloat
begin

text \<open>
  \<open>ISS.step\<close> and \<open>ISS.run\<close> of \<open>sim/tools/iss.py\<close>: the instruction fields, the arithmetic of
  each opcode group, one definition per arm of the opcode dispatch, the dispatch itself
  and the fetch loop. A raised \<open>ValueError\<close> or \<open>KeyError\<close> is \<open>Inl\<close>; the fetch loop is a
  partial function whose \<open>None\<close> means that the Python loop never ends.
\<close>

subsection \<open>Fields\<close>

definition op_of :: "int \<Rightarrow> int" where "op_of word = word AND 0x7F"
definition rd_of :: "int \<Rightarrow> int" where "rd_of word = drop_bit 7 word AND 0x1F"
definition f3_of :: "int \<Rightarrow> int" where "f3_of word = drop_bit 12 word AND 0x7"
definition rs1_of :: "int \<Rightarrow> int" where "rs1_of word = drop_bit 15 word AND 0x1F"
definition rs2_of :: "int \<Rightarrow> int" where "rs2_of word = drop_bit 20 word AND 0x1F"
definition f7_of :: "int \<Rightarrow> int" where "f7_of word = drop_bit 25 word AND 0x7F"
definition imm_i_of :: "int \<Rightarrow> int" where "imm_i_of word = sext (drop_bit 20 word AND 0xFFF) 12"

definition imm_s_of :: "int \<Rightarrow> int" where
  "imm_s_of word = sext (push_bit 5 (drop_bit 25 word) OR (drop_bit 7 word AND 0x1F)) 12"

definition branch_off :: "int \<Rightarrow> int" where
  "branch_off word =
     (let b12 = drop_bit 31 word AND 1; b11 = drop_bit 7 word AND 1;
          b10_5 = drop_bit 25 word AND 0x3F; b4_1 = drop_bit 8 word AND 0xF
      in sext (push_bit 12 b12 OR push_bit 11 b11 OR push_bit 5 b10_5 OR push_bit 1 b4_1) 13)"

definition jal_off :: "int \<Rightarrow> int" where
  "jal_off word =
     (let b20 = drop_bit 31 word AND 1; b19_12 = drop_bit 12 word AND 0xFF;
          b11 = drop_bit 20 word AND 1; b10_1 = drop_bit 21 word AND 0x3FF
      in sext (push_bit 20 b20 OR push_bit 12 b19_12 OR push_bit 11 b11 OR push_bit 1 b10_1) 21)"

definition reg_a :: "iss \<Rightarrow> int \<Rightarrow> int" where "reg_a s word = regs s ! nat (rs1_of word)"
definition reg_b :: "iss \<Rightarrow> int \<Rightarrow> int" where "reg_b s word = regs s ! nat (rs2_of word)"

subsection \<open>Integer arithmetic\<close>

definition muldiv :: "nat \<Rightarrow> int \<Rightarrow> int \<Rightarrow> int \<Rightarrow> int" where
  "muldiv xl f3 A B =
     (let sA = sXLEN A xl; sB = sXLEN B xl; uA = uXLEN A xl; uB = uXLEN B xl
      in if f3 = 0 then uXLEN (A * B) xl
         else if f3 = 1 then uXLEN (drop_bit xl (sA * sB)) xl
         else if f3 = 2 then uXLEN (drop_bit xl (sA * uB)) xl
         else if f3 = 3 then drop_bit xl (uA * uB)
         else if f3 = 4 then
           (if B = 0 then uXLEN (-1) xl
            else if sA = - push_bit (xl - 1) 1 \<and> sB = -1 then A
            else (let q = \<bar>sA\<bar> div \<bar>sB\<bar> in uXLEN (if (sA < 0) \<noteq> (sB < 0) then - q else q) xl))
         else if f3 = 5 then (if B = 0 then uXLEN (-1) xl else uA div uB)
         else if f3 = 6 then
           (if B = 0 then A
            else if sA = - push_bit (xl - 1) 1 \<and> sB = -1 then 0
            else (let r = \<bar>sA\<bar> mod \<bar>sB\<bar> in uXLEN (if sA < 0 then - r else r) xl))
         else (if B = 0 then A else uA mod uB))"

fun ctz_loop :: "int \<Rightarrow> nat list \<Rightarrow> int \<Rightarrow> bool \<Rightarrow> int" where
  "ctz_loop A [] count done = count"
| "ctz_loop A (i # is) count done =
     (if drop_bit i A AND 1 = 0 \<and> \<not> done then ctz_loop A is (count + 1) done
      else ctz_loop A is count True)"

definition ctz_count :: "nat \<Rightarrow> int \<Rightarrow> int" where
  "ctz_count xl A = ctz_loop A [0..<xl - 1] 0 False"

definition alu :: "nat \<Rightarrow> int \<Rightarrow> int \<Rightarrow> int \<Rightarrow> int \<Rightarrow> int result" where
  "alu xl f3 f7 A B =
     (let sh = nat (B AND (int xl - 1))
      in if f3 = 0 \<and> f7 = 0 then Inr (uXLEN (A + B) xl)
         else if f3 = 0 \<and> f7 = 0x20 then Inr (uXLEN (A - B) xl)
         else if f3 = 1 then Inr (uXLEN (push_bit sh A) xl)
         else if f3 = 2 then Inr (if sXLEN A xl < sXLEN B xl then 1 else 0)
         else if f3 = 3 then Inr (if uXLEN A xl < uXLEN B xl then 1 else 0)
         else if f3 = 4 then Inr (uXLEN (A XOR B) xl)
         else if f3 = 5 \<and> f7 = 0 then Inr (drop_bit sh (uXLEN A xl))
         else if f3 = 5 \<and> f7 = 0x20 then Inr (uXLEN (drop_bit sh (sXLEN A xl)) xl)
         else if f3 = 6 then Inr (uXLEN (A OR B) xl)
         else if f3 = 7 then Inr (uXLEN (A AND B) xl)
         else Inl ValueError)"

definition step_op :: "iss \<Rightarrow> int \<Rightarrow> iss result" where
  "step_op s word =
     (let f3 = f3_of word; f7 = f7_of word; A = reg_a s word; B = reg_b s word; rd = rd_of word
      in if f7 = 1 then Inr ((wr s rd (muldiv (xlen s) f3 A B))\<lparr>pc := pc s + 4\<rparr>)
         else if f7 = 0x20 \<and> f3 = 7 then Inr ((wr s rd (ctz_count (xlen s) A))\<lparr>pc := pc s + 4\<rparr>)
         else (case alu (xlen s) f3 f7 A B of Inl e \<Rightarrow> Inl e
               | Inr res \<Rightarrow> Inr ((wr s rd res)\<lparr>pc := pc s + 4\<rparr>)))"

definition muldiv_w :: "int \<Rightarrow> int \<Rightarrow> int \<Rightarrow> int" where
  "muldiv_w f3 A B =
     (if f3 = 0 then u32 (A * B)
      else if f3 = 4 then
        (if u32 B = 0 then 0xFFFFFFFF
         else if s32 A = -2147483648 \<and> s32 B = -1 then u32 A
         else (let q = \<bar>s32 A\<bar> div \<bar>s32 B\<bar> in u32 (if (s32 A < 0) \<noteq> (s32 B < 0) then - q else q)))
      else if f3 = 5 then (if u32 B = 0 then 0xFFFFFFFF else u32 A div u32 B)
      else if f3 = 6 then
        (if u32 B = 0 then u32 A
         else if s32 A = -2147483648 \<and> s32 B = -1 then 0
         else (let r = \<bar>s32 A\<bar> mod \<bar>s32 B\<bar> in u32 (if s32 A < 0 then - r else r)))
      else (if u32 B = 0 then u32 A else u32 A mod u32 B))"

definition alu_w :: "int \<Rightarrow> int \<Rightarrow> int \<Rightarrow> int \<Rightarrow> int result" where
  "alu_w f3 f7 A B =
     (let sh = nat (B AND 0x1F)
      in if f3 = 0 \<and> f7 = 0 then Inr (u32 (A + B))
         else if f3 = 0 \<and> f7 = 0x20 then Inr (u32 (A - B))
         else if f3 = 1 then Inr (u32 (push_bit sh (u32 A)))
         else if f3 = 5 \<and> f7 = 0 then Inr (drop_bit sh (u32 A))
         else if f3 = 5 \<and> f7 = 0x20 then Inr (u32 (drop_bit sh (s32 A)))
         else Inl ValueError)"

definition step_op_32 :: "iss \<Rightarrow> int \<Rightarrow> iss result" where
  "step_op_32 s word =
     (let f3 = f3_of word; f7 = f7_of word; A = reg_a s word; B = reg_b s word; rd = rd_of word
      in case (if f7 = 1 then Inr (muldiv_w f3 A B) else alu_w f3 f7 A B) of Inl e \<Rightarrow> Inl e
         | Inr res32 \<Rightarrow> Inr ((wr s rd (s32 res32))\<lparr>pc := pc s + 4\<rparr>))"

definition step_ctz :: "iss \<Rightarrow> int \<Rightarrow> iss result" where
  "step_ctz s word = Inr ((wr s (rd_of word) (ctz_count (xlen s) (reg_a s word)))\<lparr>pc := pc s + 4\<rparr>)"

definition alu_imm :: "nat \<Rightarrow> int \<Rightarrow> int \<Rightarrow> int result" where
  "alu_imm xl word A =
     (let f3 = f3_of word; imm_i = imm_i_of word
      in if f3 = 1 \<or> f3 = 5 then
           (let shamt = nat (if xl \<ge> 64 then drop_bit 20 word AND 0x3F else drop_bit 20 word AND 0x1F);
                is_alt = (if xl \<ge> 64 then drop_bit 26 word AND 0x3F = 0x10 else f7_of word = 0x20)
            in if f3 = 1 then Inr (uXLEN (push_bit shamt A) xl)
               else if is_alt then Inr (uXLEN (drop_bit shamt (sXLEN A xl)) xl)
               else Inr (drop_bit shamt (uXLEN A xl)))
         else if f3 = 0 then Inr (uXLEN (A + imm_i) xl)
         else if f3 = 2 then Inr (if sXLEN A xl < imm_i then 1 else 0)
         else if f3 = 3 then Inr (if uXLEN A xl < uXLEN imm_i xl then 1 else 0)
         else if f3 = 4 then Inr (uXLEN (A XOR uXLEN imm_i xl) xl)
         else if f3 = 6 then Inr (uXLEN (A OR uXLEN imm_i xl) xl)
         else if f3 = 7 then Inr (uXLEN (A AND uXLEN imm_i xl) xl)
         else Inl ValueError)"

definition step_op_imm :: "iss \<Rightarrow> int \<Rightarrow> iss result" where
  "step_op_imm s word =
     (case alu_imm (xlen s) word (reg_a s word) of Inl e \<Rightarrow> Inl e
      | Inr res \<Rightarrow> Inr ((wr s (rd_of word) res)\<lparr>pc := pc s + 4\<rparr>))"

definition alu_imm_w :: "int \<Rightarrow> int \<Rightarrow> int result" where
  "alu_imm_w word A =
     (let f3 = f3_of word
      in if f3 = 1 \<or> f3 = 5 then
           (let shamt = nat (drop_bit 20 word AND 0x1F)
            in if f3 = 1 then Inr (u32 (push_bit shamt (u32 A)))
               else if f7_of word = 0x20 then Inr (u32 (drop_bit shamt (s32 A)))
               else Inr (drop_bit shamt (u32 A)))
         else if f3 = 0 then Inr (u32 (A + imm_i_of word))
         else Inl ValueError)"

definition step_op_imm_32 :: "iss \<Rightarrow> int \<Rightarrow> iss result" where
  "step_op_imm_32 s word =
     (case alu_imm_w word (reg_a s word) of Inl e \<Rightarrow> Inl e
      | Inr res32 \<Rightarrow> Inr ((wr s (rd_of word) (s32 res32))\<lparr>pc := pc s + 4\<rparr>))"

subsection \<open>Loads and stores\<close>

definition load_value :: "iss \<Rightarrow> int \<Rightarrow> int \<Rightarrow> int result" where
  "load_value s f3 addr =
     (let b = (\<lambda>i. load_mem_byte s (addr + i));
          half = load_mem_byte s addr OR push_bit 8 (b 1);
          word4 = load_mem_byte s addr OR push_bit 8 (b 1) OR push_bit 16 (b 2) OR push_bit 24 (b 3)
      in if f3 = 0 then
           (let v = load_mem_byte s addr in Inr (s32 (v OR (if v AND 0x80 \<noteq> 0 then 0xFFFFFF00 else 0))))
         else if f3 = 1 then Inr (s32 (half OR (if half AND 0x8000 \<noteq> 0 then 0xFFFF0000 else 0)))
         else if f3 = 2 then Inr (s32 word4)
         else if f3 = 4 then Inr (load_mem_byte s addr)
         else if f3 = 5 then Inr half
         else if f3 = 3 then Inr (load_le s addr 8)
         else if f3 = 6 then Inr word4
         else Inl ValueError)"

definition step_load :: "iss \<Rightarrow> int \<Rightarrow> iss result" where
  "step_load s word =
     (case translate s (uxlen s (reg_a s word + imm_i_of word)) Load of
        (None, s') \<Rightarrow> Inr s'
      | (Some addr, s') \<Rightarrow>
          (case load_value s' (f3_of word) addr of Inl e \<Rightarrow> Inl e
           | Inr res \<Rightarrow> Inr ((wr s' (rd_of word) res)\<lparr>pc := pc s + 4\<rparr>)))"

definition store_value :: "iss \<Rightarrow> int \<Rightarrow> int \<Rightarrow> int \<Rightarrow> iss result" where
  "store_value s f3 addr B =
     (if f3 = 0 then Inr (store_mem_byte s addr B)
      else if f3 = 1 then Inr (store_mem_byte (store_mem_byte s addr B) (addr + 1) (drop_bit 8 B))
      else if f3 = 2 then Inr (store_le s addr B 4)
      else if f3 = 3 then Inr (store_le s addr B 8)
      else Inl ValueError)"

definition step_store :: "iss \<Rightarrow> int \<Rightarrow> iss result" where
  "step_store s word =
     (case translate s (uxlen s (reg_a s word + imm_s_of word)) Store of
        (None, s') \<Rightarrow> Inr s'
      | (Some addr, s') \<Rightarrow>
          (case store_value s' (f3_of word) addr (reg_b s word) of Inl e \<Rightarrow> Inl e
           | Inr s'' \<Rightarrow> Inr (s''\<lparr>pc := pc s + 4\<rparr>)))"

subsection \<open>Control flow and upper immediates\<close>

definition branch_taken :: "nat \<Rightarrow> int \<Rightarrow> int \<Rightarrow> int \<Rightarrow> bool" where
  "branch_taken xl f3 A B =
     (if f3 = 0 then sXLEN A xl = sXLEN B xl
      else if f3 = 1 then sXLEN A xl \<noteq> sXLEN B xl
      else if f3 = 2 then sXLEN A xl \<le> sXLEN B xl
      else if f3 = 3 then sXLEN A xl > sXLEN B xl
      else if f3 = 4 then sXLEN A xl < sXLEN B xl
      else if f3 = 5 then sXLEN A xl \<ge> sXLEN B xl
      else if f3 = 6 then uXLEN A xl < uXLEN B xl
      else uXLEN A xl \<ge> uXLEN B xl)"

definition step_branch :: "iss \<Rightarrow> int \<Rightarrow> iss result" where
  "step_branch s word =
     Inr (s\<lparr>pc := (if branch_taken (xlen s) (f3_of word) (reg_a s word) (reg_b s word)
                    then uxlen s (pc s + branch_off word) else pc s + 4)\<rparr>)"

definition step_jal :: "iss \<Rightarrow> int \<Rightarrow> iss result" where
  "step_jal s word = Inr ((wr s (rd_of word) (pc s + 4))\<lparr>pc := uxlen s (pc s + jal_off word)\<rparr>)"

definition step_jalr :: "iss \<Rightarrow> int \<Rightarrow> iss result" where
  "step_jalr s word =
     (let target = uxlen s ((reg_a s word + imm_i_of word) AND NOT 1)
      in Inr ((wr s (rd_of word) (pc s + 4))\<lparr>pc := target\<rparr>))"

definition step_lui :: "iss \<Rightarrow> int \<Rightarrow> iss result" where
  "step_lui s word = Inr ((wr s (rd_of word) (s32 (word AND 0xFFFFF000)))\<lparr>pc := pc s + 4\<rparr>)"

definition step_auipc :: "iss \<Rightarrow> int \<Rightarrow> iss result" where
  "step_auipc s word =
     Inr ((wr s (rd_of word) (uxlen s (pc s + s32 (word AND 0xFFFFF000))))\<lparr>pc := pc s + 4\<rparr>)"

subsection \<open>SYSTEM\<close>

definition step_priv :: "iss \<Rightarrow> int \<Rightarrow> iss result" where
  "step_priv s word =
     (let csr_addr = drop_bit 20 word AND 0xFFF
      in if f7_of word = 9 then
           (if priv_mode s = PRIV_U then Inr (trap s MCAUSE_ILLEGAL_INSTRUCTION 0)
            else Inr (s\<lparr>pc := pc s + 4\<rparr>))
         else if csr_addr = 0 then
           (if priv_mode s = PRIV_M then Inr (trap s MCAUSE_ECALL_FROM_M 0)
            else if priv_mode s = PRIV_S then Inr (trap s MCAUSE_ECALL_FROM_S 0)
            else if priv_mode s = PRIV_U then Inr (trap s MCAUSE_ECALL_FROM_U 0)
            else Inl KeyError)
         else if csr_addr = 1 then Inr (trap s MCAUSE_BREAKPOINT 0)
         else if csr_addr = 0x302 then
           (if priv_mode s \<noteq> PRIV_M then Inr (trap s MCAUSE_ILLEGAL_INSTRUCTION 0) else Inr (mret s))
         else if csr_addr = 0x102 then
           (if priv_mode s = PRIV_U then Inr (trap s MCAUSE_ILLEGAL_INSTRUCTION 0) else Inr (sret s))
         else Inr (trap s MCAUSE_ILLEGAL_INSTRUCTION 0))"

definition step_csr :: "iss \<Rightarrow> int \<Rightarrow> iss result" where
  "step_csr s word =
     (let csr_addr = drop_bit 20 word AND 0xFFF; f3 = f3_of word;
          required_priv = drop_bit 8 csr_addr AND 3
      in if priv_mode s < required_priv then Inr (trap s MCAUSE_ILLEGAL_INSTRUCTION 0)
         else
           (let old = csr_read s csr_addr;
                src = (if f3 AND 4 \<noteq> 0 then rs1_of word else reg_a s word);
                csr_op = f3 AND 3;
                new_val = (if csr_op = 1 then src else if csr_op = 2 then old OR src else old AND NOT src)
            in Inr ((wr (csr_write s csr_addr new_val) (rd_of word) old)\<lparr>pc := pc s + 4\<rparr>)))"

definition step_system :: "iss \<Rightarrow> int \<Rightarrow> iss result" where
  "step_system s word = (if f3_of word = 0 then step_priv s word else step_csr s word)"

subsection \<open>Floating point\<close>

definition set_freg :: "iss \<Rightarrow> int \<Rightarrow> int \<Rightarrow> iss" where
  "set_freg s rd v = s\<lparr>fregs := (fregs s)[nat rd := v]\<rparr>"

definition step_flw :: "iss \<Rightarrow> int \<Rightarrow> iss result" where
  "step_flw s word =
     (case translate s (uxlen s (reg_a s word + imm_i_of word)) Load of
        (None, s') \<Rightarrow> Inr s'
      | (Some addr, s') \<Rightarrow>
          (let v = load_mem_byte s' addr OR push_bit 8 (load_mem_byte s' (addr + 1)) OR
                   push_bit 16 (load_mem_byte s' (addr + 2)) OR push_bit 24 (load_mem_byte s' (addr + 3))
           in Inr ((set_freg s' (rd_of word) v)\<lparr>pc := pc s + 4\<rparr>)))"

definition step_fsw :: "iss \<Rightarrow> int \<Rightarrow> iss result" where
  "step_fsw s word =
     (case translate s (uxlen s (reg_a s word + imm_s_of word)) Store of
        (None, s') \<Rightarrow> Inr s'
      | (Some addr, s') \<Rightarrow>
          Inr ((store_le s' addr (fregs s' ! nat (rs2_of word)) 4)\<lparr>pc := pc s + 4\<rparr>))"

text \<open>\<open>res, flags = \<dots>; self.fregs[rd] = res; self.set_fflags(flags)\<close>, and its integer twin.\<close>

definition put_f :: "iss \<Rightarrow> int \<Rightarrow> (int \<times> int) result \<Rightarrow> iss result" where
  "put_f s rd r = (case r of Inl e \<Rightarrow> Inl e | Inr (res, flags) \<Rightarrow> Inr (set_fflags (set_freg s rd res) flags))"

definition put_x :: "iss \<Rightarrow> int \<Rightarrow> int \<times> int \<Rightarrow> iss result" where
  "put_x s rd r = (case r of (res, flags) \<Rightarrow> Inr (set_fflags (wr s rd res) flags))"

definition op_fp :: "iss \<Rightarrow> int \<Rightarrow> iss result" where
  "op_fp s word =
     (let funct5 = drop_bit 27 word AND 0x1F; f3 = f3_of word; rm = resolve_rm s f3;
          rd = rd_of word; rs2 = rs2_of word;
          fa = fregs s ! nat (rs1_of word); fb = fregs s ! nat rs2; A = reg_a s word
      in if funct5 = 0 then put_f s rd (f_add fa fb rm False)
         else if funct5 = 1 then put_f s rd (f_add fa fb rm True)
         else if funct5 = 2 then put_f s rd (f_mul fa fb rm)
         else if funct5 = 3 then put_f s rd (f_div fa fb rm)
         else if funct5 = 11 then put_f s rd (f_sqrt fa rm)
         else if funct5 = 4 then Inr (set_freg s rd (fst (f_sgnj fa fb f3)))
         else if funct5 = 5 then put_f s rd (Inr (f_minmax fa fb f3))
         else if funct5 = 20 then put_x s rd (f_cmp fa fb f3)
         else if funct5 = 24 then put_x s rd (f_cvt_to_int fa rm (rs2 = 1))
         else if funct5 = 26 then put_f s rd (f_cvt_from_int (u32 A) rm (rs2 = 1))
         else if funct5 = 28 then
           (if f3 = 1 then Inr (wr s rd (f_class fa)) else Inr (wr s rd (s32 fa)))
         else if funct5 = 30 then Inr (set_freg s rd (u32 A))
         else Inl ValueError)"

definition step_op_fp :: "iss \<Rightarrow> int \<Rightarrow> iss result" where
  "step_op_fp s word = map_sum id (\<lambda>s'. s'\<lparr>pc := pc s + 4\<rparr>) (op_fp s word)"

definition step_fmadd :: "iss \<Rightarrow> int \<Rightarrow> iss result" where
  "step_fmadd s word =
     (let rs3 = drop_bit 27 word AND 0x1F; rm = resolve_rm s (f3_of word);
          op2 = drop_bit 2 (op_of word) AND 3;
          neg_prod = (op2 AND 2 \<noteq> 0); neg_addend = (op2 AND 1 \<noteq> 0)
      in map_sum id (\<lambda>s'. s'\<lparr>pc := pc s + 4\<rparr>)
           (put_f s (rd_of word)
             (f_madd (fregs s ! nat (rs1_of word)) (fregs s ! nat (rs2_of word)) (fregs s ! nat rs3)
               rm neg_prod neg_addend)))"

subsection \<open>Dispatch\<close>

definition step :: "iss \<Rightarrow> int \<Rightarrow> iss result" where
  "step s word =
     (let op = op_of word
      in if word = 0 then Inr (s\<lparr>pc := pc s + 4\<rparr>)
         else if op = 0x33 then step_op s word
         else if op = 0x3B then step_op_32 s word
         else if op = 0x2A then step_ctz s word
         else if op = 0x13 then step_op_imm s word
         else if op = 0x1B then step_op_imm_32 s word
         else if op = 0x03 then step_load s word
         else if op = 0x23 then step_store s word
         else if op = 0x63 then step_branch s word
         else if op = 0x6F then step_jal s word
         else if op = 0x67 then step_jalr s word
         else if op = 0x37 then step_lui s word
         else if op = 0x17 then step_auipc s word
         else if op = 0x73 then step_system s word
         else if op = 0x07 then step_flw s word
         else if op = 0x27 then step_fsw s word
         else if op = 0x53 then step_op_fp s word
         else if op = 0x43 \<or> op = 0x47 \<or> op = 0x4B \<or> op = 0x4F then step_fmadd s word
         else if op = 0x0F \<and> f3_of word = 0 then Inr (s\<lparr>pc := pc s + 4\<rparr>)
         else Inr (trap s MCAUSE_ILLEGAL_INSTRUCTION 0))"

definition is_self_loop :: "int \<Rightarrow> bool" where
  "is_self_loop word \<longleftrightarrow> word AND 0x7F = 0x6F \<and> jal_off word = 0"

partial_function (option) run_loop :: "int list \<Rightarrow> int \<Rightarrow> iss \<Rightarrow> int \<Rightarrow> (int \<times> iss) result option" where
  "run_loop words max_steps s steps =
     (if steps < max_steps then
        (if (case pending_interrupt s of None \<Rightarrow> False
             | Some (after, cause) \<Rightarrow> steps \<ge> after \<and> drop_bit 3 (csr_at s CSR_MSTATUS) AND 1 \<noteq> 0)
         then run_loop words max_steps
                ((trap s (snd (the (pending_interrupt s))) 0)\<lparr>pending_interrupt := None\<rparr>) steps
         else (case translate s (pc s) Fetch of
             (None, s') \<Rightarrow> run_loop words max_steps s' steps
           | (Some fetch_addr, s') \<Rightarrow>
               (if fetch_addr \<ge> 4 * int (length words) then Some (Inr (steps, s'))
                else if is_self_loop (words ! nat (fetch_addr div 4)) then Some (Inr (steps, s'))
                else (case step s' (words ! nat (fetch_addr div 4)) of
                    Inl e \<Rightarrow> Some (Inl e)
                  | Inr s'' \<Rightarrow> run_loop words max_steps s'' (steps + 1)))))
      else Some (Inl RuntimeError))"

declare run_loop.simps [code]

definition run :: "iss \<Rightarrow> int list \<Rightarrow> int \<Rightarrow> (int \<times> iss) result option" where
  "run s words max_steps = run_loop words max_steps s 0"

end
