(* ===== verification/Iss_Inv.thy ===== *)
theory Iss_Inv
  imports Iss_Step Softfloat_Cmp
begin

text \<open>
  Safety of \<open>ISS.step\<close>: every arm of the dispatch keeps the state well formed, so register
  and memory indices are always in range and \<open>x0\<close> stays zero, and the only exceptions a
  step can raise are the \<open>ValueError\<close>s of the undefined encodings and the \<open>KeyError\<close> of an
  environment call in privilege mode 2. In particular no floating-point instruction
  diverges.
\<close>

subsection \<open>Register fields\<close>

lemma field_ranges:
  "0 \<le> rd_of w \<and> rd_of w < 32" "0 \<le> rs1_of w \<and> rs1_of w < 32" "0 \<le> rs2_of w \<and> rs2_of w < 32"
  "0 \<le> f3_of w \<and> f3_of w < 8" "0 \<le> f7_of w \<and> f7_of w < 128" "0 \<le> op_of w \<and> op_of w < 128"
  by (simp_all add: rd_of_def rs1_of_def rs2_of_def f3_of_def f7_of_def op_of_def bit_norm)

lemma rs3_range: "0 \<le> drop_bit 27 w AND 31 \<and> drop_bit 27 w AND 31 < 32" for w :: int
  by (simp add: bit_norm)

lemma reg_range:
  assumes "iss_wf s"
  shows "0 \<le> reg_a s w" "reg_a s w < 2 ^ xlen s" "0 \<le> reg_b s w" "reg_b s w < 2 ^ xlen s"
  using wf_reg [OF assms] field_ranges by (simp_all add: reg_a_def reg_b_def)

lemma freg_range: "iss_wf s \<Longrightarrow> 0 \<le> i \<Longrightarrow> i < 32 \<Longrightarrow> f32_range (fregs s ! nat i)"
  using wf_freg [of s i] by (simp add: f32_range_def)

lemma wf_wr_pc [wf_intro]: "iss_wf s \<Longrightarrow> 0 \<le> p \<Longrightarrow> iss_wf ((wr s (rd_of w) v)\<lparr>pc := p\<rparr>)"
  using field_ranges by (intro wf_pc wf_wr) auto

lemma pc_next [wf_intro]: "iss_wf s \<Longrightarrow> 0 \<le> pc s + 4"
  by (simp add: wf_simps)

lemma uxlen_nonneg [wf_intro]: "0 \<le> uxlen s v"
  by (simp add: uxlen_def)

subsection \<open>Each arm keeps the state well formed\<close>

definition result_wf :: "iss result \<Rightarrow> bool" where
  "result_wf r \<longleftrightarrow> (\<forall>s'. r = Inr s' \<longrightarrow> iss_wf s')"

lemma result_wf_I [wf_intro]: "iss_wf s \<Longrightarrow> result_wf (Inr s)" "result_wf (Inl e)"
  by (simp_all add: result_wf_def)

lemma result_wf_if [wf_intro]: "result_wf a \<Longrightarrow> result_wf b \<Longrightarrow> result_wf (if c then a else b)"
  by simp

lemma result_wf_bind: "(\<And>v. r = Inr v \<Longrightarrow> result_wf (f v)) \<Longrightarrow> result_wf (case r of Inl e \<Rightarrow> Inl e | Inr v \<Rightarrow> f v)"
  by (cases r) (simp_all add: result_wf_I)

lemma result_wf_pc: "result_wf r \<Longrightarrow> 0 \<le> p \<Longrightarrow> result_wf (map_sum id (\<lambda>s. s\<lparr>pc := p\<rparr>) r)"
  by (cases r) (auto simp: result_wf_def wf_pc)

lemma wf_alu_arms:
  assumes "iss_wf s"
  shows "result_wf (step_op s w)" "result_wf (step_op_32 s w)" "result_wf (step_ctz s w)"
    "result_wf (step_op_imm s w)" "result_wf (step_op_imm_32 s w)"
  unfolding step_op_def step_op_32_def step_ctz_def step_op_imm_def step_op_imm_32_def Let_def
  by (intro wf_intro result_wf_bind assms)+

lemma wf_jump_arms:
  assumes "iss_wf s"
  shows "result_wf (step_branch s w)" "result_wf (step_jal s w)" "result_wf (step_jalr s w)"
    "result_wf (step_lui s w)" "result_wf (step_auipc s w)"
  unfolding step_branch_def step_jal_def step_jalr_def step_lui_def step_auipc_def Let_def
  using assms by (auto intro!: wf_intro simp: wf_simps)

lemma result_wf_translate:
  assumes "iss_wf s" "\<And>a. result_wf (f a s)"
  shows "result_wf (case translate s v acc of (None, s') \<Rightarrow> Inr s' | (Some a, s') \<Rightarrow> f a s')"
  by (rule translate_cases [of s v acc]) (simp_all add: assms page_fault_def wf_intro)

lemma wf_store_value: "iss_wf s \<Longrightarrow> store_value s f3 a v = Inr s' \<Longrightarrow> iss_wf s'"
  by (auto simp: store_value_def wf_intro split: if_splits)

lemma wf_set_freg_rd [wf_intro]: "iss_wf s \<Longrightarrow> f32_range v \<Longrightarrow> iss_wf (set_freg s rd v)"
  by (simp add: set_freg_def f32_range_def wf_set_freg)

lemma load_word_range: "iss_wf s \<Longrightarrow> f32_range (load_le s a 4)"
  using load_le_range [of s a 4] by (simp add: f32_range_def)

lemma wf_mem_arms:
  assumes "iss_wf s"
  shows "result_wf (step_load s w)" "result_wf (step_store s w)" "result_wf (step_flw s w)" "result_wf (step_fsw s w)"
  unfolding step_load_def step_store_def step_flw_def step_fsw_def Let_def load4_le
  by (intro result_wf_translate result_wf_bind wf_intro load_word_range wf_store_value [OF assms] assms; assumption)+

lemma wf_system_arm:
  assumes "iss_wf s"
  shows "result_wf (step_system s w)"
  unfolding step_system_def step_priv_def step_csr_def Let_def
  by (intro wf_intro assms)

lemma wf_put_f: "iss_wf s \<Longrightarrow> fp_returns r \<Longrightarrow> result_wf (put_f s rd r)"
  by (auto simp: put_f_def fp_returns_def intro!: wf_intro)

lemma wf_put_x: "iss_wf s \<Longrightarrow> 0 \<le> rd \<Longrightarrow> result_wf (put_x s rd r)"
  by (auto simp: put_x_def intro!: wf_intro split: prod.split)

lemmas fp_returns_ops = f_add_returns f_mul_returns f_div_returns f_sqrt_returns f_madd_returns
  f_minmax_returns f_cvt_from_int_returns

lemma wf_op_fp: "iss_wf s \<Longrightarrow> result_wf (op_fp s w)"
proof -
  assume wf: "iss_wf s"
  have r: "f32_range (fregs s ! nat (rs1_of w))" "f32_range (fregs s ! nat (rs2_of w))"
    using freg_range [OF wf] field_ranges by simp_all
  have u: "f32_range (u32 x)" for x by (simp add: f32_range_def)
  have rd: "0 \<le> rd_of w" using field_ranges by simp
  show ?thesis
    unfolding op_fp_def Let_def
    by (intro wf_intro wf_put_f wf_put_x fp_returns_ops f_sgnj_range r u rd wf u32_range)
qed

lemma wf_fp_arms: "iss_wf s \<Longrightarrow> result_wf (step_op_fp s w)" "iss_wf s \<Longrightarrow> result_wf (step_fmadd s w)"
proof -
  assume wf: "iss_wf s"
  show "result_wf (step_op_fp s w)"
    unfolding step_op_fp_def by (intro result_wf_pc wf_op_fp pc_next wf)
  have r: "f32_range (fregs s ! nat (rs1_of w))" "f32_range (fregs s ! nat (rs2_of w))"
    "f32_range (fregs s ! nat (drop_bit 27 w AND 31))"
    using freg_range [OF wf] field_ranges rs3_range by simp_all
  show "result_wf (step_fmadd s w)"
    unfolding step_fmadd_def Let_def by (intro result_wf_pc wf_put_f fp_returns_ops pc_next r wf)
qed

lemma step_result_wf: "iss_wf s \<Longrightarrow> result_wf (step s w)"
  unfolding step_def Let_def
  by (intro wf_intro wf_alu_arms wf_jump_arms wf_mem_arms wf_system_arm wf_fp_arms; assumption)

lemma step_wf: "iss_wf s \<Longrightarrow> step s w = Inr s' \<Longrightarrow> iss_wf s'"
  using step_result_wf [of s w] by (simp add: result_wf_def)

subsection \<open>What a step can raise\<close>

text \<open>The undefined encodings of each opcode group, and the environment call of mode 2.\<close>

definition undefined_alu :: "int \<Rightarrow> bool" where
  "undefined_alu w \<longleftrightarrow>
     (op_of w = 0x33 \<and> (f3_of w = 0 \<or> f3_of w = 5) \<and> f7_of w \<notin> {0, 1, 0x20}) \<or>
     (op_of w = 0x3B \<and> f7_of w \<noteq> 1 \<and> f3_of w \<noteq> 1 \<and> \<not> ((f3_of w = 0 \<or> f3_of w = 5) \<and> f7_of w \<in> {0, 0x20})) \<or>
     (op_of w = 0x1B \<and> f3_of w \<notin> {0, 1, 5}) \<or>
     (op_of w = 0x53 \<and> drop_bit 27 w AND 0x1F \<notin> {0, 1, 2, 3, 4, 5, 11, 20, 24, 26, 28, 30})"

definition undefined_mem :: "iss \<Rightarrow> int \<Rightarrow> bool" where
  "undefined_mem s w \<longleftrightarrow>
     (op_of w = 0x03 \<and> f3_of w = 7 \<and> fst (translate s (uxlen s (reg_a s w + imm_i_of w)) Load) \<noteq> None) \<or>
     (op_of w = 0x23 \<and> 4 \<le> f3_of w \<and> fst (translate s (uxlen s (reg_a s w + imm_s_of w)) Store) \<noteq> None)"

definition reserved_ecall :: "iss \<Rightarrow> int \<Rightarrow> bool" where
  "reserved_ecall s w \<longleftrightarrow> op_of w = 0x73 \<and> f3_of w = 0 \<and> f7_of w \<noteq> 9 \<and> drop_bit 20 w AND 0xFFF = 0 \<and> priv_mode s = 2"

lemma f3_cases: "f3_of w = 0 \<or> f3_of w = 1 \<or> f3_of w = 2 \<or> f3_of w = 3 \<or> f3_of w = 4 \<or> f3_of w = 5 \<or>
    f3_of w = 6 \<or> f3_of w = 7"
  using field_ranges(4) [of w] by presburger

lemma raises_alu:
  "step_op s w = Inl e \<longleftrightarrow> (f3_of w = 0 \<or> f3_of w = 5) \<and> f7_of w \<notin> {0, 1, 0x20} \<and> e = ValueError"
  "step_op_32 s w = Inl e \<longleftrightarrow> f7_of w \<noteq> 1 \<and> f3_of w \<noteq> 1 \<and>
     \<not> ((f3_of w = 0 \<or> f3_of w = 5) \<and> f7_of w \<in> {0, 0x20}) \<and> e = ValueError"
  "step_op_imm s w \<noteq> Inl e"
  "step_op_imm_32 s w = Inl e \<longleftrightarrow> f3_of w \<notin> {0, 1, 5} \<and> e = ValueError"
  using f3_cases [of w]
  by (auto simp: step_op_def alu_def step_op_32_def alu_w_def step_op_imm_def alu_imm_def
      step_op_imm_32_def alu_imm_w_def Let_def)

lemma raises_mem:
  "step_load s w = Inl e \<longleftrightarrow>
     f3_of w = 7 \<and> fst (translate s (uxlen s (reg_a s w + imm_i_of w)) Load) \<noteq> None \<and> e = ValueError"
  "step_store s w = Inl e \<longleftrightarrow>
     4 \<le> f3_of w \<and> fst (translate s (uxlen s (reg_a s w + imm_s_of w)) Store) \<noteq> None \<and> e = ValueError"
  "step_flw s w \<noteq> Inl e" "step_fsw s w \<noteq> Inl e"
  using f3_cases [of w]
  by (auto simp: step_load_def load_value_def step_store_def store_value_def step_flw_def step_fsw_def Let_def
      split: prod.splits option.splits)

lemma raises_simple:
  "step_ctz s w \<noteq> Inl e" "step_branch s w \<noteq> Inl e" "step_jal s w \<noteq> Inl e" "step_jalr s w \<noteq> Inl e"
  "step_lui s w \<noteq> Inl e" "step_auipc s w \<noteq> Inl e"
  by (simp_all add: step_ctz_def step_branch_def step_jal_def step_jalr_def step_lui_def step_auipc_def Let_def)

lemma raises_system:
  "iss_wf s \<Longrightarrow> step_system s w = Inl e \<longleftrightarrow>
     f3_of w = 0 \<and> f7_of w \<noteq> 9 \<and> drop_bit 20 w AND 0xFFF = 0 \<and> priv_mode s = 2 \<and> e = KeyError"
  using wf_simps(8,9) [of s] by (auto simp: step_system_def step_priv_def step_csr_def Let_def)

lemma put_f_ok: "fp_returns r \<Longrightarrow> put_f s rd r \<noteq> Inl e"
  by (auto simp: put_f_def fp_returns_def)

lemma put_x_ok: "put_x s rd r \<noteq> Inl e"
  by (simp add: put_x_def split: prod.split)

lemma raises_fp:
  assumes wf: "iss_wf s"
  shows "step_op_fp s w = Inl e \<longleftrightarrow>
      drop_bit 27 w AND 0x1F \<notin> {0, 1, 2, 3, 4, 5, 11, 20, 24, 26, 28, 30} \<and> e = ValueError"
    "step_fmadd s w \<noteq> Inl e"
proof -
  have r: "f32_range (fregs s ! nat (rs1_of w))" "f32_range (fregs s ! nat (rs2_of w))"
    "f32_range (fregs s ! nat (drop_bit 27 w AND 31))"
    using freg_range [OF wf] field_ranges rs3_range by simp_all
  have m: "map_sum id g x = Inl e \<longleftrightarrow> x = Inl e" for g :: "iss \<Rightarrow> iss" and x by (cases x) simp_all
  show "step_op_fp s w = Inl e \<longleftrightarrow>
      drop_bit 27 w AND 0x1F \<notin> {0, 1, 2, 3, 4, 5, 11, 20, 24, 26, 28, 30} \<and> e = ValueError"
    unfolding step_op_fp_def m op_fp_def Let_def
    using r by (auto simp: put_f_ok put_x_ok fp_returns_ops)
  show "step_fmadd s w \<noteq> Inl e"
    unfolding step_fmadd_def Let_def m by (intro put_f_ok fp_returns_ops r)
qed

lemma op_of_0: "op_of 0 = 0"
  by (simp add: op_of_def)

lemma step_raises:
  assumes wf: "iss_wf s"
  shows "step s w = Inl e \<longleftrightarrow>
    (undefined_alu w \<or> undefined_mem s w) \<and> e = ValueError \<or> reserved_ecall s w \<and> e = KeyError"
  unfolding step_def Let_def undefined_alu_def undefined_mem_def reserved_ecall_def
  by (simp add: raises_alu raises_mem raises_simple raises_system [OF wf] raises_fp [OF wf] op_of_0)

subsection \<open>What no instruction changes\<close>

definition frame :: "iss \<Rightarrow> nat \<times> int \<times> nat \<times> bool \<times> (int \<times> int) option" where
  "frame s = (xlen s, mem_mask s, length (mem s), halted s, pending_interrupt s)"

lemma frame_upd [simp]:
  "frame (s\<lparr>pc := p\<rparr>) = frame s" "frame (s\<lparr>priv_mode := m\<rparr>) = frame s" "frame (s\<lparr>regs := r\<rparr>) = frame s"
  "frame (s\<lparr>fregs := f\<rparr>) = frame s" "frame (s\<lparr>frm := x\<rparr>) = frame s" "frame (s\<lparr>fflags := y\<rparr>) = frame s"
  "frame (csr_put s k v) = frame s" "frame (store_mem_byte s a v) = frame s"
  by (simp_all add: frame_def csr_put_def store_mem_byte_def)

lemma frame_ops [simp]:
  "frame (wr s rd v) = frame s" "frame (set_fflags s fl) = frame s" "frame (set_freg s rd v) = frame s"
  "frame (csr_store s k v) = frame s" "frame (csr_write s k v) = frame s" "frame (trap s c tv) = frame s"
  "frame (mret s) = frame s" "frame (sret s) = frame s" "frame (store_le s a v n) = frame s"
  by (simp_all add: wr_def set_fflags_def set_freg_def csr_store_def csr_write_def trap_def mret_def sret_def Let_def)
     (induction n, simp_all)

lemma frame_translate: "translate s v acc = (r, s') \<Longrightarrow> frame s' = frame s"
  by (rule translate_cases [of s v acc]) (auto simp: page_fault_def)

lemma frame_put: "put_f s rd r = Inr s' \<Longrightarrow> frame s' = frame s" "put_x s rd x = Inr s' \<Longrightarrow> frame s' = frame s"
  by (auto simp: put_f_def put_x_def split: sum.splits prod.splits)

lemma frame_store_value: "store_value s f3 a v = Inr s' \<Longrightarrow> frame s' = frame s"
  by (auto simp: store_value_def split: if_splits)

lemma frame_int_arms:
  "step_op s w = Inr s' \<Longrightarrow> frame s' = frame s" "step_op_32 s w = Inr s' \<Longrightarrow> frame s' = frame s"
  "step_ctz s w = Inr s' \<Longrightarrow> frame s' = frame s" "step_op_imm s w = Inr s' \<Longrightarrow> frame s' = frame s"
  "step_op_imm_32 s w = Inr s' \<Longrightarrow> frame s' = frame s" "step_branch s w = Inr s' \<Longrightarrow> frame s' = frame s"
  "step_jal s w = Inr s' \<Longrightarrow> frame s' = frame s" "step_jalr s w = Inr s' \<Longrightarrow> frame s' = frame s"
  "step_lui s w = Inr s' \<Longrightarrow> frame s' = frame s" "step_auipc s w = Inr s' \<Longrightarrow> frame s' = frame s"
  by (auto simp: step_op_def step_op_32_def step_ctz_def step_op_imm_def step_op_imm_32_def step_branch_def
      step_jal_def step_jalr_def step_lui_def step_auipc_def Let_def split: sum.splits if_splits)

lemma frame_mem_arms:
  "step_load s w = Inr s' \<Longrightarrow> frame s' = frame s" "step_store s w = Inr s' \<Longrightarrow> frame s' = frame s"
  "step_flw s w = Inr s' \<Longrightarrow> frame s' = frame s" "step_fsw s w = Inr s' \<Longrightarrow> frame s' = frame s"
proof -
  show "step_store s w = Inr s' \<Longrightarrow> frame s' = frame s"
    by (rule translate_cases [of s "uxlen s (reg_a s w + imm_s_of w)" Store])
       (auto simp: step_store_def page_fault_def dest: frame_store_value split: sum.splits)
qed (auto simp: step_load_def step_flw_def step_fsw_def Let_def dest: frame_translate
      split: sum.splits prod.splits option.splits)

lemma frame_system_arm: "step_system s w = Inr s' \<Longrightarrow> frame s' = frame s"
  by (auto simp: step_system_def step_priv_def step_csr_def Let_def split: if_splits)

lemma frame_fp_arms:
  "step_op_fp s w = Inr s' \<Longrightarrow> frame s' = frame s" "step_fmadd s w = Inr s' \<Longrightarrow> frame s' = frame s"
proof -
  have m: "map_sum id (\<lambda>s. s\<lparr>pc := p\<rparr>) r = Inr s' \<longleftrightarrow> (\<exists>u. r = Inr u \<and> s' = u\<lparr>pc := p\<rparr>)" for p and r :: "iss result"
    by (cases r) auto
  have "op_fp s w = Inr u \<Longrightarrow> frame u = frame s" for u
    unfolding op_fp_def Let_def by (auto dest: frame_put split: if_splits)
  then show "step_op_fp s w = Inr s' \<Longrightarrow> frame s' = frame s" by (auto simp: step_op_fp_def m)
  show "step_fmadd s w = Inr s' \<Longrightarrow> frame s' = frame s" by (auto simp: step_fmadd_def Let_def m dest: frame_put)
qed

lemma step_frame: "step s w = Inr s' \<Longrightarrow> frame s' = frame s"
  unfolding step_def Let_def
  by (auto dest: frame_int_arms frame_mem_arms frame_system_arm frame_fp_arms split: if_splits)

lemma frame_xlen: "frame s' = frame s \<Longrightarrow> xlen s' = xlen s"
  by (simp add: frame_def)

end
