(* ===== verification/Iss_Arith.thy ===== *)
theory Iss_Arith
  imports Iss_Inv "HOL-Library.Word" "HOL-Library.Signed_Division"
begin

text \<open>
  The integer arithmetic of \<open>ISS.step\<close> against machine words. The abstract specification is
  arithmetic on \<^typ>\<open>'a::len word\<close> with the RISC-V conventions for division; the Python
  computes on unbounded integers and masks. On register values (integers \<open>uint a\<close> of words
  of the core's width) both agree for every function code.
\<close>

subsection \<open>Integers and words\<close>

lemma sext_signed_take_bit: "sext v (Suc n) = signed_take_bit n v"
proof -
  have "sext v (Suc n) = sext (signed_take_bit n v) (Suc n)"
    by (rule sext_cong) (simp only: take_bit_eq_mod [symmetric] take_bit_signed_take_bit order.refl)
  also have "\<dots> = signed_take_bit n v"
    by (rule sext_id) (simp_all add: signed_take_bit_int_greater_eq_minus_exp signed_take_bit_int_less_exp)
  finally show ?thesis .
qed

lemma uXLEN_word: "uXLEN x LENGTH('a) = uint (word_of_int x :: 'a::len word)"
  by (simp add: uXLEN_mod uint_word_of_int_eq take_bit_eq_mod)

lemma sXLEN_word: "sXLEN (uint a) LENGTH('a) = sint a" for a :: "'a::len word"
proof -
  have "LENGTH('a) = Suc (LENGTH('a) - Suc 0)" by simp
  then have "sXLEN (uint a) LENGTH('a) = signed_take_bit (LENGTH('a) - Suc 0) (uint a)"
    unfolding sXLEN_sext using sext_signed_take_bit by metis
  then show ?thesis by (simp add: sint_uint)
qed

lemma uXLEN_uint [simp]: "uXLEN (uint a) LENGTH('a) = uint a" for a :: "'a::len word"
  by (simp add: uXLEN_word)

lemma uint_of_bool: "uint (of_bool P :: 'a::len word) = of_bool P"
  by simp

lemmas word_ints = uXLEN_word sXLEN_word uXLEN_uint word_sless_alt word_less_def word_le_def word_sle_eq

subsection \<open>Register-register operations\<close>

definition alu_word :: "int \<Rightarrow> int \<Rightarrow> 'a::len word \<Rightarrow> 'a word \<Rightarrow> 'a word option" where
  "alu_word f3 f7 a b =
     (let sh = nat (uint b AND (int LENGTH('a) - 1))
      in if f3 = 0 then (if f7 = 0 then Some (a + b) else if f7 = 0x20 then Some (a - b) else None)
         else if f3 = 1 then Some (push_bit sh a)
         else if f3 = 2 then Some (of_bool (a <s b))
         else if f3 = 3 then Some (of_bool (a < b))
         else if f3 = 4 then Some (a XOR b)
         else if f3 = 5 then
           (if f7 = 0 then Some (drop_bit sh a) else if f7 = 0x20 then Some (signed_drop_bit sh a) else None)
         else if f3 = 6 then Some (a OR b)
         else if f3 = 7 then Some (a AND b) else None)"

definition word_result :: "'a::len word option \<Rightarrow> int result" where
  "word_result r = (case r of None \<Rightarrow> Inl ValueError | Some w \<Rightarrow> Inr (uint w))"

lemma word_of_int_push: "word_of_int (push_bit n (uint a)) = push_bit n a" for a :: "'a::len word"
  by (simp add: push_bit_eq_mult)

lemma uint_sdrop: "uint (word_of_int (drop_bit n (sint a)) :: 'a::len word) = uint (signed_drop_bit n a)" for a :: "'a::len word"
  by (simp flip: sint_signed_drop_bit_eq)

lemma word_of_int_bits:
  "word_of_int (uint a AND uint b) = a AND b" "word_of_int (uint a OR uint b) = a OR b"
  "word_of_int (uint a XOR uint b) = a XOR b" for a b :: "'a::len word"
  by (simp_all flip: unsigned_and_eq unsigned_or_eq unsigned_xor_eq)

lemma uint_drop: "uint (drop_bit n a) = drop_bit n (uint a)" for a :: "'a::len word"
proof -
  have "take_bit LENGTH('a) (uint a) = uint a" by (metis uint_word_of_int_eq word_of_int_uint)
  then show ?thesis by (simp add: unsigned_drop_bit_eq)
qed

lemma alu_refines:
  fixes a b :: "'a::len word"
  shows "alu LENGTH('a) f3 f7 (uint a) (uint b) = word_result (alu_word f3 f7 a b)"
  unfolding alu_def alu_word_def word_result_def Let_def
  by (simp add: word_ints word_of_int_push uint_sdrop word_of_int_bits uint_drop)

subsection \<open>Multiplication and division\<close>

definition muldiv_word :: "int \<Rightarrow> 'a::len word \<Rightarrow> 'a word \<Rightarrow> 'a word" where
  "muldiv_word f3 a b =
     (if f3 = 0 then a * b
      else if f3 = 1 then word_of_int (drop_bit LENGTH('a) (sint a * sint b))
      else if f3 = 2 then word_of_int (drop_bit LENGTH('a) (sint a * uint b))
      else if f3 = 3 then word_of_int (drop_bit LENGTH('a) (uint a * uint b))
      else if f3 = 4 then (if b = 0 then - 1 else word_of_int (sint a sdiv sint b))
      else if f3 = 5 then (if b = 0 then - 1 else a div b)
      else if f3 = 6 then (if b = 0 then a else word_of_int (sint a smod sint b))
      else a mod b)"

lemma sdiv_abs: "x sdiv y = (if (x < 0) \<noteq> (y < 0) then - (\<bar>x\<bar> div \<bar>y\<bar>) else \<bar>x\<bar> div \<bar>y\<bar>)" if "y \<noteq> 0" for x y :: int
  using that by (auto simp: signed_divide_int_def sgn_if)

lemma smod_abs: "x smod y = (if x < 0 then - (\<bar>x\<bar> mod \<bar>y\<bar>) else \<bar>x\<bar> mod \<bar>y\<bar>)" for x y :: int
  by (auto simp: signed_modulo_int_def sgn_if)

lemma uint_eq_0: "uint b = 0 \<longleftrightarrow> b = 0" for b :: "'a::len word"
  by (simp add: uint_0_iff)

lemma sint_eq_0: "sint b = 0 \<longleftrightarrow> b = 0" for b :: "'a::len word"
proof
  assume "sint b = 0"
  then have "word_of_int (sint b) = (0 :: 'a word)" by simp
  then show "b = 0" by simp
qed simp

lemma overflow_div:
  fixes a b :: "'a::len word"
  assumes "sint a = - push_bit (LENGTH('a) - 1) 1" "sint b = - 1"
  shows "word_of_int (sint a sdiv sint b) = a" "sint a smod sint b = 0"
proof -
  let ?h = "2 ^ (LENGTH('a) - 1) :: int"
  have "(word_of_int ?h :: 'a word) = word_of_int (- ?h + 2 ^ LENGTH('a))"
    using exp_pred [of "LENGTH('a)"] by simp
  also have "\<dots> = word_of_int (- ?h)" by (simp only: of_int_add of_int_power of_int_numeral word_exp_length_eq_0 add_0_right)
  also have "\<dots> = word_of_int (sint a)" using assms(1) by (simp add: push_bit_eq_mult)
  finally have "(word_of_int ?h :: 'a word) = a" by simp
  then show "word_of_int (sint a sdiv sint b) = a" using assms by (simp add: push_bit_eq_mult)
  show "sint a smod sint b = 0" using assms(2) by (simp add: signed_modulo_int_def)
qed

lemma div_lt_square: "x < k * k \<Longrightarrow> 0 < k \<Longrightarrow> x div k < k" for x k :: int
proof (rule ccontr)
  assume a: "x < k * k" "0 < k" "\<not> x div k < k"
  then have "k * k \<le> x div k * k" by (intro mult_right_mono) simp_all
  also have "\<dots> \<le> x" using div_mult_mod_eq [of x k] pos_mod_sign [OF a(2), of x] by linarith
  finally show False using a(1) by simp
qed

lemma mulhu_range: "uint (word_of_int (drop_bit LENGTH('a) (uint a * uint b)) :: 'a word) = drop_bit LENGTH('a) (uint a * uint b)"
  for a b :: "'a::len word"
proof -
  have "uint a * uint b < 2 ^ LENGTH('a) * 2 ^ LENGTH('a)"
    by (rule mult_strict_mono) (simp_all add: uint_lt2p)
  then have "drop_bit LENGTH('a) (uint a * uint b) < 2 ^ LENGTH('a)"
    unfolding drop_bit_eq_div by (rule div_lt_square) simp
  then show ?thesis unfolding uXLEN_word [symmetric] by (intro uXLEN_id) simp_all
qed

lemma muldiv_refines:
  fixes a b :: "'a::len word"
  shows "muldiv LENGTH('a) f3 (uint a) (uint b) = uint (muldiv_word f3 a b)"
  unfolding muldiv_def muldiv_word_def Let_def word_ints sXLEN_word
  using overflow_div [of a b] mulhu_range [of a b]
  by (simp add: uint_eq_0 sint_eq_0 sdiv_abs smod_abs uint_div uint_mod word_ints)

text \<open>The high and the low half of a product make up the product.\<close>

lemma split_product: "drop_bit n x * 2 ^ n + uXLEN x n = x"
  unfolding drop_bit_eq_div uXLEN_mod by (rule div_mult_mod_eq)

lemma uXLEN_mult_cong: "uXLEN (x * y) n = uXLEN (x' * y') n" if "uXLEN x n = uXLEN x' n" "uXLEN y n = uXLEN y' n"
  using that unfolding uXLEN_mod by (metis mod_mult_eq)

lemma sXLEN_drop:
  assumes "0 < n" "- (2 ^ (n - 1) * 2 ^ n) \<le> p" "p < 2 ^ (n - 1) * 2 ^ n"
  shows "sXLEN (uXLEN (drop_bit n p) n) n = drop_bit n p"
proof -
  define q where "q = p div 2 ^ n"
  have "q * 2 ^ n + p mod 2 ^ n = p" "0 \<le> p mod 2 ^ n" "p mod 2 ^ n < 2 ^ n"
    using div_mult_mod_eq [of p "2 ^ n"] by (simp_all add: q_def)
  moreover have "(q + 1) * 2 ^ n = q * 2 ^ n + 2 ^ n" by (simp add: algebra_simps)
  ultimately have "q * 2 ^ n \<le> p" "p < (q + 1) * 2 ^ n" by linarith+
  with assms have "- (2 ^ (n - 1)) * 2 ^ n < (q + 1) * 2 ^ n" "q * 2 ^ n < 2 ^ (n - 1) * 2 ^ n" by linarith+
  then have "- (2 ^ (n - 1)) \<le> q" "q < 2 ^ (n - 1)"
    by (simp_all only: mult_less_cancel_right) (simp_all add: not_less)
  then show ?thesis using assms(1) by (simp add: sXLEN_sext sext_id drop_bit_eq_div q_def)
qed

subsection \<open>Counting trailing zeros\<close>

lemma ctz_loop_done: "ctz_loop A is c True = c"
  by (induction "is") simp_all

lemma ctz_loop_upto:
  assumes "l \<le> m"
  shows "\<exists>k. l \<le> k \<and> k \<le> m \<and> ctz_loop A [l..<m] c False = c + int (k - l) \<and>
     (\<forall>i. l \<le> i \<and> i < k \<longrightarrow> \<not> bit A i) \<and> (k < m \<longrightarrow> bit A k)"
  using assms
proof (induction l arbitrary: c rule: inc_induct)
  case base
  then show ?case by (intro exI [of _ m]) auto
next
  case (step l)
  have u: "[l..<m] = l # [Suc l..<m]" using step.hyps by (simp add: upt_conv_Cons)
  have b: "drop_bit l A AND 1 = 0 \<longleftrightarrow> \<not> bit A l" by (simp add: and_mod_1 drop_bit_eq_div bit_iff_odd even_iff_mod_2_eq_zero)
  show ?case
  proof (cases "bit A l")
    case True
    then have "ctz_loop A [l..<m] c False = c" unfolding u by (simp add: b ctz_loop_done)
    then show ?thesis using True step.hyps by (intro exI [of _ l]) auto
  next
    case False
    obtain k where k: "Suc l \<le> k" "k \<le> m" "ctz_loop A [Suc l..<m] (c + 1) False = c + 1 + int (k - Suc l)"
      "\<forall>i. Suc l \<le> i \<and> i < k \<longrightarrow> \<not> bit A i" "k < m \<longrightarrow> bit A k"
      using step.IH [of "c + 1"] by blast
    have "ctz_loop A [l..<m] c False = c + int (k - l)" unfolding u using k(1,3) False by (simp add: b)
    moreover have "\<forall>i. l \<le> i \<and> i < k \<longrightarrow> \<not> bit A i" using k(4) False by (metis Suc_leI le_neq_implies_less)
    ultimately show ?thesis using k(1,2,5) by (intro exI [of _ k]) auto
  qed
qed

lemma ctz_count_spec:
  obtains k where "ctz_count xl A = int k" "k \<le> xl - 1" "\<forall>i < k. \<not> bit A i" "k < xl - 1 \<longrightarrow> bit A k"
  using ctz_loop_upto [of 0 "xl - 1" A 0] by (auto simp: ctz_count_def)

subsection \<open>Branch conditions\<close>

definition branch_word :: "int \<Rightarrow> 'a::len word \<Rightarrow> 'a word \<Rightarrow> bool" where
  "branch_word f3 a b =
     (if f3 = 0 then a = b else if f3 = 1 then a \<noteq> b
      else if f3 = 2 then a \<le>s b else if f3 = 3 then b <s a
      else if f3 = 4 then a <s b else if f3 = 5 then b \<le>s a
      else if f3 = 6 then a < b else b \<le> a)"

lemma sint_inj: "sint a = sint b \<longleftrightarrow> a = b" for a b :: "'a::len word"
proof
  assume "sint a = sint b"
  then have "word_of_int (sint a) = (word_of_int (sint b) :: 'a word)" by simp
  then show "a = b" by simp
qed simp

lemma branch_refines:
  fixes a b :: "'a::len word"
  shows "branch_taken LENGTH('a) f3 (uint a) (uint b) = branch_word f3 a b"
  unfolding branch_taken_def branch_word_def word_ints
  by (auto simp: sint_inj)

subsection \<open>Word operations of a 64-bit core\<close>

lemma u32_word: "u32 x = uint (word_of_int x :: 32 word)"
  using uXLEN_word [of x, where 'a = 32] by (simp add: u32_uXLEN)

lemma s32_word: "s32 x = sint (word_of_int x :: 32 word)"
proof -
  have "s32 x = sXLEN (uint (word_of_int x :: 32 word)) 32"
    unfolding s32_sext sXLEN_sext u32_word [symmetric] u32_uXLEN by simp
  then show ?thesis using sXLEN_word [of "word_of_int x :: 32 word"] by simp
qed

lemma shamt_low: "B AND 31 = uint (word_of_int B :: 32 word) AND 31"
  unfolding u32_word [symmetric] u32_mod and_mod_5 by (simp add: mod_mod_cancel)

lemma alu_w_refines:
  assumes "f3 = 0 \<or> f3 = 1 \<or> f3 = 5"
  shows "alu_w f3 f7 A B = word_result (alu_word f3 f7 (word_of_int A :: 32 word) (word_of_int B))"
proof -
  let ?a = "word_of_int A :: 32 word" and ?b = "word_of_int B :: 32 word"
  have "u32 (A + B) = uint (?a + ?b)" "u32 (A - B) = uint (?a - ?b)" unfolding u32_word by simp_all
  then show ?thesis
    using assms uint_sdrop [of _ ?a] word_of_int_push [of _ ?a]
    by (auto simp: alu_w_def alu_word_def word_result_def Let_def shamt_low [of B] s32_word uint_drop u32_word)
qed

lemma muldiv_w_refines:
  assumes "f3 = 0 \<or> 4 \<le> f3"
  shows "muldiv_w f3 A B = uint (muldiv_word f3 (word_of_int A :: 32 word) (word_of_int B))"
proof -
  let ?a = "word_of_int A :: 32 word" and ?b = "word_of_int B :: 32 word"
  have m: "u32 (A * B) = uint (?a * ?b)" unfolding u32_word by simp
  have m1: "uint (- 1 :: 32 word) = 4294967295" by (simp add: unsigned_minus_1_eq_mask mask_eq_exp_minus_1)
  have "muldiv_w f3 A B = muldiv 32 f3 (uint ?a) (uint ?b)"
    unfolding muldiv_w_def muldiv_def Let_def
    using assms m uXLEN_word [where 'a = 32] sXLEN_word [of ?a] sXLEN_word [of ?b]
    by (auto simp: u32_word s32_word push_bit_eq_mult m1)
  then show ?thesis using muldiv_refines [of f3 ?a ?b] by simp
qed

subsection \<open>Immediate operations\<close>

text \<open>Each immediate form is its register form on the sign-extended immediate.\<close>

lemma alu_imm_reg:
  assumes "f3_of w \<noteq> 1" "f3_of w \<noteq> 5" "12 \<le> xl"
  shows "alu_imm xl w A = alu xl (f3_of w) 0 A (uXLEN (imm_i_of w) xl)"
proof -
  have r: "- (2 ^ 11) \<le> imm_i_of w" "imm_i_of w < 2 ^ 11"
    using sext_range [of 12 "drop_bit 20 w AND 0xFFF"] by (simp_all add: imm_i_of_def)
  have "(2::int) ^ 11 \<le> 2 ^ (xl - 1)" using assms(3) by (intro power_increasing) simp_all
  with r have s: "sXLEN (uXLEN (imm_i_of w) xl) xl = imm_i_of w"
    using assms(3) by (simp add: sXLEN_sext sext_id)
  have p: "uXLEN (A + uXLEN x xl) xl = uXLEN (A + x) xl" for x by (simp add: uXLEN_mod mod_add_right_eq)
  show ?thesis
    unfolding alu_imm_def alu_def Let_def using assms f3_cases [of w] s p by auto
qed

end
