(* ===== verification/Iss_Bytes.thy ===== *)
theory Iss_Bytes
  imports Iss_Inv
begin

text \<open>
  Little-endian memory accesses of \<open>ISS.step\<close>. The interface \<open>byte_memory\<close> is what the load
  and store instructions rely on: reading a byte after writing one, where addresses name
  cells (two addresses may share a cell, because the address is masked to the memory size)
  and some addresses name none (the MMIO range, whose writes are dropped). The multi-byte
  round trip is proved once in the interface and instantiated with the byte accessors.
\<close>

fun le_bytes :: "(int \<Rightarrow> int) \<Rightarrow> int \<Rightarrow> nat \<Rightarrow> int" where
  "le_bytes f a 0 = 0"
| "le_bytes f a (Suc n) = le_bytes f a n OR push_bit (8 * n) (f (a + int n))"

fun put_bytes :: "('m \<Rightarrow> int \<Rightarrow> int \<Rightarrow> 'm) \<Rightarrow> 'm \<Rightarrow> int \<Rightarrow> int \<Rightarrow> nat \<Rightarrow> 'm" where
  "put_bytes st m a v 0 = m"
| "put_bytes st m a v (Suc n) = st (put_bytes st m a v n) (a + int n) (drop_bit (8 * n) v)"

lemma le_bytes_cong: "(\<And>i. i < n \<Longrightarrow> f (a + int i) = g (a + int i)) \<Longrightarrow> le_bytes f a n = le_bytes g a n"
  by (induction n) simp_all

lemma le_bytes_drop: "le_bytes (\<lambda>b. drop_bit (8 * nat (b - a)) v AND 255) a n = v mod 2 ^ (8 * n)"
proof (induction n)
  case (Suc n)
  have "v mod 2 ^ (8 * n) OR push_bit (8 * n) (drop_bit (8 * n) v AND 255) = v mod 2 ^ (8 * Suc n)"
  proof -
    have "x AND 255 = take_bit 8 x" for x :: int by (simp add: and_mod_8 take_bit_eq_mod)
    then show ?thesis unfolding take_bit_eq_mod [symmetric] by (intro bit_eqI) (auto simp: bit_simps)
  qed
  then show ?case using Suc by simp
qed simp

locale byte_memory =
  fixes ok :: "'m \<Rightarrow> bool" and ld :: "'m \<Rightarrow> int \<Rightarrow> int" and st :: "'m \<Rightarrow> int \<Rightarrow> int \<Rightarrow> 'm"
    and cell :: "'m \<Rightarrow> int \<Rightarrow> int option"
  assumes st_ok: "ok m \<Longrightarrow> ok (st m a v)"
    and st_cell: "cell (st m a v) b = cell m b"
    and ld_st_same: "ok m \<Longrightarrow> cell m a = Some c \<Longrightarrow> cell m b = Some c \<Longrightarrow> ld (st m a v) b = v AND 255"
    and ld_st_other: "ok m \<Longrightarrow> cell m a \<noteq> cell m b \<Longrightarrow> ld (st m a v) b = ld m b"
    and st_nowhere: "cell m a = None \<Longrightarrow> st m a v = m"
begin

lemma put_ok: "ok m \<Longrightarrow> ok (put_bytes st m a v n)"
  by (induction n) (simp_all add: st_ok)

lemma put_cell: "cell (put_bytes st m a v n) b = cell m b"
  by (induction n) (simp_all add: st_cell)

lemma put_other:
  "ok m \<Longrightarrow> \<forall>i < n. cell m (a + int i) \<noteq> cell m b \<Longrightarrow> ld (put_bytes st m a v n) b = ld m b"
  by (induction n) (simp_all add: ld_st_other put_ok put_cell)

lemma put_get_byte:
  assumes "ok m" "inj_on (\<lambda>i. cell m (a + int i)) {..<n}" "\<forall>i < n. cell m (a + int i) \<noteq> None" "i < n"
  shows "ld (put_bytes st m a v n) (a + int i) = drop_bit (8 * i) v AND 255"
  using assms
proof (induction n)
  case (Suc n)
  show ?case
  proof (cases "i = n")
    case True
    obtain c where "cell m (a + int n) = Some c" using Suc.prems(3) by auto
    then have "cell (put_bytes st m a v n) (a + int n) = Some c" by (simp add: put_cell)
    then show ?thesis using True ld_st_same [OF put_ok [OF Suc.prems(1)]] by simp
  next
    case False
    then have i: "i < n" using Suc.prems(4) by simp
    have "cell m (a + int n) \<noteq> cell m (a + int i)"
      using Suc.prems(2,4) False by (auto simp: inj_on_def)
    moreover have "inj_on (\<lambda>i. cell m (a + int i)) {..<n}" using Suc.prems(2) by (rule inj_on_subset) auto
    ultimately show ?thesis using Suc i by (simp add: ld_st_other put_ok put_cell)
  qed
qed simp

lemma put_get:
  assumes "ok m" "inj_on (\<lambda>i. cell m (a + int i)) {..<n}" "\<forall>i < n. cell m (a + int i) \<noteq> None"
  shows "le_bytes (ld (put_bytes st m a v n)) a n = v mod 2 ^ (8 * n)"
proof -
  have "le_bytes (ld (put_bytes st m a v n)) a n = le_bytes (\<lambda>b. drop_bit (8 * nat (b - a)) v AND 255) a n"
    by (rule le_bytes_cong) (simp add: put_get_byte [OF assms])
  then show ?thesis by (simp add: le_bytes_drop)
qed

end

subsection \<open>The memory of the simulator\<close>

definition iss_cell :: "iss \<Rightarrow> int \<Rightarrow> int option" where
  "iss_cell s a = (if a \<ge> 0x10000000 then None else Some (a AND mem_mask s))"

interpretation iss_bytes: byte_memory iss_wf load_mem_byte store_mem_byte iss_cell
proof
  fix s :: iss and a b c v :: int
  show "iss_wf s \<Longrightarrow> iss_wf (store_mem_byte s a v)" by (rule wf_store_mem_byte)
  show "iss_cell (store_mem_byte s a v) b = iss_cell s b" by (simp add: iss_cell_def)
  show "iss_cell s a = None \<Longrightarrow> store_mem_byte s a v = s" by (simp add: iss_cell_def store_mem_byte_def split: if_splits)
  show "iss_wf s \<Longrightarrow> iss_cell s a = Some c \<Longrightarrow> iss_cell s b = Some c \<Longrightarrow> load_mem_byte (store_mem_byte s a v) b = v AND 255"
    using mem_index [of s a] by (auto simp: iss_cell_def store_mem_byte_def load_mem_byte_def split: if_splits)
  assume wf: "iss_wf s" and d: "iss_cell s a \<noteq> iss_cell s b"
  have "a AND mem_mask s \<noteq> b AND mem_mask s \<Longrightarrow> nat (a AND mem_mask s) \<noteq> nat (b AND mem_mask s)"
    using and_le_mask [OF wf_simps(4) [OF wf], of a] and_le_mask [OF wf_simps(4) [OF wf], of b] by linarith
  with d show "load_mem_byte (store_mem_byte s a v) b = load_mem_byte s b"
    by (auto simp: iss_cell_def store_mem_byte_def load_mem_byte_def split: if_splits)
qed

lemma load_le_bytes: "load_le s a n = le_bytes (load_mem_byte s) a n"
  by (induction n) simp_all

lemma store_le_bytes: "store_le s a v n = put_bytes store_mem_byte s a v n"
  by (induction n) simp_all

lemma cells_distinct:
  assumes "mem_mask s = 2 ^ k - 1" "n \<le> 2 ^ k" "a + int n \<le> 0x10000000"
  shows "inj_on (\<lambda>i. iss_cell s (a + int i)) {..<n}" "\<forall>i < n. iss_cell s (a + int i) \<noteq> None"
proof -
  have c: "iss_cell s (a + int i) = Some ((a + int i) mod 2 ^ k)" if "i < n" for i
    using that assms(1,3) by (simp add: iss_cell_def and_mask_mod)
  then show "\<forall>i < n. iss_cell s (a + int i) \<noteq> None" by simp
  show "inj_on (\<lambda>i. iss_cell s (a + int i)) {..<n}"
  proof (rule inj_onI)
    fix i j
    assume ij: "i \<in> {..<n}" "j \<in> {..<n}" "iss_cell s (a + int i) = iss_cell s (a + int j)"
    then have "(a + int i) mod 2 ^ k = (a + int j) mod 2 ^ k" using c by simp
    then have "(a + int i - a) mod 2 ^ k = (a + int j - a) mod 2 ^ k" by (metis mod_diff_left_eq)
    then have "int i mod 2 ^ k = int j mod 2 ^ k" by simp
    moreover have "int i < 2 ^ k" "int j < 2 ^ k"
      using ij(1,2) assms(2) of_nat_less_iff [of _ "2 ^ k", where 'a = int] by auto
    ultimately show "i = j" by simp
  qed
qed

lemma load_store_le:
  assumes "iss_wf s" "mem_mask s = 2 ^ k - 1" "n \<le> 2 ^ k" "a + int n \<le> 0x10000000"
  shows "load_le (store_le s a v n) a n = v mod 2 ^ (8 * n)"
  unfolding load_le_bytes store_le_bytes
  by (rule iss_bytes.put_get [OF assms(1) cells_distinct [OF assms(2,3,4)]])

text \<open>How many of the \<open>n\<close> bytes from \<open>a\<close> on lie below the MMIO range, where accesses have no effect.\<close>

definition ram_bytes :: "int \<Rightarrow> nat \<Rightarrow> nat" where
  "ram_bytes a n = nat (min (int n) (max 0 (0x10000000 - a)))"

lemma access_cut:
  assumes "0x10000000 \<le> a + int m"
  shows "store_le s a v (m + j) = store_le s a v m" "load_le s a (m + j) = load_le s a m"
  by (induction j) (use assms in \<open>simp_all add: store_mem_byte_def load_mem_byte_def\<close>)

lemma load_store_ram:
  assumes "iss_wf s" "mem_mask s = 2 ^ k - 1" "n \<le> 2 ^ k"
  shows "load_le (store_le s a v n) a n = v mod 2 ^ (8 * ram_bytes a n)"
proof (cases "a + int n \<le> 0x10000000")
  case True
  then have "ram_bytes a n = n" by (simp add: ram_bytes_def)
  with load_store_le [OF assms True] show ?thesis by simp
next
  case False
  define m where "m = ram_bytes a n"
  have m: "m \<le> n" "0x10000000 \<le> a + int m" using False by (auto simp: m_def ram_bytes_def)
  then have n: "n = m + (n - m)" by simp
  have c: "store_le s a v n = store_le s a v m" "load_le t a n = load_le t a m" for t
    by (subst n, rule access_cut [OF m(2)])+
  have "load_le (store_le s a v m) a m = v mod 2 ^ (8 * m)"
  proof (cases "m = 0")
    case False
    then have "a + int m \<le> 0x10000000" by (auto simp: m_def ram_bytes_def min_def max_def split: if_splits)
    with load_store_le [OF assms(1,2)] m(1) assms(3) show ?thesis by simp
  qed simp
  then show ?thesis unfolding c m_def .
qed

lemma ram_bytes_le: "ram_bytes a n \<le> n"
  by (simp add: ram_bytes_def)

lemma load_store_other:
  assumes "iss_wf s" "\<forall>i < n. \<forall>j < m. iss_cell s (a + int i) \<noteq> iss_cell s (b + int j)"
  shows "load_le (store_le s a v n) b m = load_le s b m"
  unfolding load_le_bytes store_le_bytes
  by (rule le_bytes_cong) (use assms in \<open>auto intro!: iss_bytes.put_other\<close>)

subsection \<open>Load and store instructions\<close>

lemma sign_extend_or:
  assumes "0 \<le> v" "v < 2 ^ Suc k" "k < 31"
  shows "s32 (v OR (if v AND 2 ^ k \<noteq> 0 then 2 ^ 32 - 2 ^ Suc k else 0)) = sext v (Suc k)"
proof -
  have vm: "v mod 2 ^ Suc k = v" using assms by simp
  have t: "v AND 2 ^ k \<noteq> 0 \<longleftrightarrow> 2 ^ k \<le> v"
    using and_exp_bit [of v k] bit_top [of "Suc k" v] vm by (simp add: push_bit_eq_mult)
  have le: "(2::int) ^ Suc k \<le> 2 ^ 31" by (rule power_increasing) (use assms(3) in auto)
  show ?thesis
  proof (cases "2 ^ k \<le> v")
    case True
    have "(2::int) ^ 32 - 2 ^ Suc k = push_bit (Suc k) (2 ^ (31 - k) - 1)"
    proof -
      have "(2::int) ^ 32 = 2 ^ Suc k * 2 ^ (31 - k)" using assms(3) by (simp flip: power_Suc power_add)
      then show ?thesis by (simp add: push_bit_eq_mult algebra_simps)
    qed
    then have o: "v OR (2 ^ 32 - 2 ^ Suc k) = 2 ^ 32 + (v - 2 ^ Suc k)"
      using or_low [of v "Suc k" "2 ^ (31 - k) - 1"] assms by (simp add: or.commute)
    have "s32 (2 ^ 32 + (v - 2 ^ Suc k)) = sext (v - 2 ^ Suc k) 32"
      unfolding s32_sext by (rule sext_cong) simp
    also have "\<dots> = v - 2 ^ Suc k" by (rule sext_id) (use le assms True in auto)
    also have "\<dots> = sext v (Suc k)" using True vm by (simp add: sext_eq)
    finally show ?thesis unfolding if_P [OF t [THEN iffD2, OF True]] o .
  next
    case False
    have "s32 v = v" unfolding s32_sext by (rule sext_id) (use le assms in auto)
    moreover have "sext v (Suc k) = v" using False vm by (simp add: sext_eq)
    ultimately show ?thesis using False t by simp
  qed
qed

lemma load_value_le:
  assumes "iss_wf s"
  shows "load_value s 0 a = Inr (sext (load_le s a 1) 8)" "load_value s 1 a = Inr (sext (load_le s a 2) 16)"
    "load_value s 2 a = Inr (sext (load_le s a 4) 32)" "load_value s 3 a = Inr (load_le s a 8)"
    "load_value s 4 a = Inr (load_le s a 1)" "load_value s 5 a = Inr (load_le s a 2)"
    "load_value s 6 a = Inr (load_le s a 4)"
proof -
  have b1: "load_le s a 1 = load_mem_byte s a" by simp
  have r: "0 \<le> load_le s a 1" "load_le s a 1 < 2 ^ 8" "0 \<le> load_le s a 2" "load_le s a 2 < 2 ^ 16"
    using load_le_range [OF assms, of a 1] load_le_range [OF assms, of a 2] by simp_all
  show "load_value s 0 a = Inr (sext (load_le s a 1) 8)"
    using sign_extend_or [of "load_le s a 1" 7] r unfolding b1
    by (simp add: load_value_def Let_def split: if_splits)
  show "load_value s 1 a = Inr (sext (load_le s a 2) 16)"
    using sign_extend_or [of "load_le s a 2" 15] r
    by (simp add: load_value_def Let_def load2_le split: if_splits)
  show "load_value s 2 a = Inr (sext (load_le s a 4) 32)" "load_value s 3 a = Inr (load_le s a 8)"
    "load_value s 4 a = Inr (load_le s a 1)" "load_value s 5 a = Inr (load_le s a 2)"
    "load_value s 6 a = Inr (load_le s a 4)"
    by (simp_all add: load_value_def Let_def load4_le load2_le s32_sext)
qed

lemma store_value_le:
  assumes "0 \<le> f3" "f3 < 4"
  shows "store_value s f3 a v = Inr (store_le s a v (2 ^ nat f3))"
proof -
  have 2: "store_le s a v 2 = store_mem_byte (store_mem_byte s a v) (a + 1) (drop_bit 8 v)"
    by (simp add: numeral_2_eq_2)
  from assms consider "f3 = 0" | "f3 = 1" | "f3 = 2" | "f3 = 3" by linarith
  then show ?thesis by cases (simp_all add: store_value_def 2)
qed

end
