(* ===== verification/Iss_Run.thy ===== *)
theory Iss_Run
  imports Iss_Inv
begin

text \<open>
  The fetch loop \<open>ISS.run\<close> as a transition system. A configuration is the machine state with
  the step counter; one transition is one iteration of the \<open>while\<close> body: a scheduled
  interrupt, an instruction page fault (neither is counted), or an executed instruction.
  The loop is shown to return exactly the halting configuration this system reaches, to
  end always on a 64-bit core, and not to end for a page-fault handler that faults itself.
\<close>

type_synonym config = "iss \<times> int"

definition irq_due :: "config \<Rightarrow> bool" where
  "irq_due c \<longleftrightarrow> (case pending_interrupt (fst c) of None \<Rightarrow> False
     | Some (after, cause) \<Rightarrow> snd c \<ge> after \<and> drop_bit 3 (csr_at (fst c) CSR_MSTATUS) AND 1 \<noteq> 0)"

definition take_irq :: "iss \<Rightarrow> iss" where
  "take_irq s = (trap s (snd (the (pending_interrupt s))) 0)\<lparr>pending_interrupt := None\<rparr>"

definition fetch_stops :: "int list \<Rightarrow> int \<Rightarrow> bool" where
  "fetch_stops words a \<longleftrightarrow> a \<ge> 4 * int (length words) \<or> is_self_loop (words ! nat (a div 4))"

inductive loop_step :: "int list \<Rightarrow> config \<Rightarrow> config \<Rightarrow> bool" for words where
  irq: "irq_due (s, n) \<Longrightarrow> loop_step words (s, n) (take_irq s, n)"
| fault: "\<not> irq_due (s, n) \<Longrightarrow> translate s (pc s) Fetch = (None, s') \<Longrightarrow> loop_step words (s, n) (s', n)"
| exec: "\<not> irq_due (s, n) \<Longrightarrow> translate s (pc s) Fetch = (Some a, s') \<Longrightarrow> \<not> fetch_stops words a \<Longrightarrow>
    step s' (words ! nat (a div 4)) = Inr s'' \<Longrightarrow> loop_step words (s, n) (s'', n + 1)"

definition halts :: "int list \<Rightarrow> config \<Rightarrow> bool" where
  "halts words c \<longleftrightarrow> \<not> irq_due c \<and>
     (case translate (fst c) (pc (fst c)) Fetch of (None, _) \<Rightarrow> False | (Some a, _) \<Rightarrow> fetch_stops words a)"

inductive_cases loop_stepE: "loop_step words (s, n) c"

subsection \<open>Invariants and determinism\<close>

locale transition_system =
  fixes move :: "'c \<Rightarrow> 'c \<Rightarrow> bool" and inv :: "'c \<Rightarrow> bool" and final :: "'c \<Rightarrow> bool"
  assumes move_inv: "inv x \<Longrightarrow> move x y \<Longrightarrow> inv y"
    and move_det: "move x y \<Longrightarrow> move x z \<Longrightarrow> y = z"
    and final_stuck: "final x \<Longrightarrow> \<not> move x y"
begin

lemma reach_inv: "move\<^sup>*\<^sup>* x y \<Longrightarrow> inv x \<Longrightarrow> inv y"
  by (induction rule: rtranclp_induct) (auto intro: move_inv)

lemma final_unique: "move\<^sup>*\<^sup>* x y \<Longrightarrow> final y \<Longrightarrow> move\<^sup>*\<^sup>* x z \<Longrightarrow> final z \<Longrightarrow> y = z"
proof (induction rule: converse_rtranclp_induct)
  case base
  from base.prems(2) show ?case
    by (rule converse_rtranclpE) (use base.prems final_stuck in auto)
next
  case (step x u)
  from step.prems(2) show ?case
  proof (rule converse_rtranclpE)
    assume "x = z"
    then show ?thesis using step.hyps(1) step.prems(3) final_stuck by blast
  next
    fix v
    assume "move x v" "move\<^sup>*\<^sup>* v z"
    with step move_det show ?thesis by blast
  qed
qed

end

definition config_wf :: "config \<Rightarrow> bool" where
  "config_wf c \<longleftrightarrow> iss_wf (fst c)"

lemma wf_take_irq: "iss_wf s \<Longrightarrow> iss_wf (take_irq s)"
  by (simp add: take_irq_def wf_intro)

lemma wf_fetch: "iss_wf s \<Longrightarrow> translate s v acc = (r, s') \<Longrightarrow> iss_wf s'"
  using wf_translate [of s v acc] by simp

interpretation fetch_loop: transition_system "loop_step words" config_wf "halts words" for words
proof
  fix x y z
  show "config_wf x \<Longrightarrow> loop_step words x y \<Longrightarrow> config_wf y"
    by (cases x) (auto elim!: loop_stepE simp: config_wf_def intro: wf_take_irq wf_fetch step_wf)
  show "loop_step words x y \<Longrightarrow> loop_step words x z \<Longrightarrow> y = z"
    by (cases x) (auto elim!: loop_stepE)
  show "halts words x \<Longrightarrow> \<not> loop_step words x y"
    by (cases x) (auto elim!: loop_stepE simp: halts_def)
qed

subsection \<open>The loop follows the transitions\<close>

text \<open>One iteration of the loop, with the continuation \<open>f\<close> for going round again.\<close>

definition loop_body ::
  "(iss \<Rightarrow> int \<Rightarrow> (int \<times> iss) result option) \<Rightarrow> int list \<Rightarrow> int \<Rightarrow> iss \<Rightarrow> int \<Rightarrow> (int \<times> iss) result option" where
  "loop_body f words mx s n =
     (if n < mx then
        (if irq_due (s, n) then f (take_irq s) n
         else (case translate s (pc s) Fetch of
             (None, s') \<Rightarrow> f s' n
           | (Some a, s') \<Rightarrow>
               (if fetch_stops words a then Some (Inr (n, s'))
                else (case step s' (words ! nat (a div 4)) of
                    Inl e \<Rightarrow> Some (Inl e)
                  | Inr s'' \<Rightarrow> f s'' (n + 1)))))
      else Some (Inl RuntimeError))"

lemma run_loop_unfold: "run_loop words mx s n = loop_body (run_loop words mx) words mx s n"
  by (subst run_loop.simps)
     (simp add: loop_body_def irq_due_def take_irq_def fetch_stops_def split: option.split prod.split if_split)

lemma loop_body_cases [consumes 1, case_names limit halt raise move]:
  assumes "loop_body f words mx s n = Some r"
  obtains "mx \<le> n" "r = Inl RuntimeError"
    | "n < mx" "halts words (s, n)" "r = Inr (n, s)"
    | a e where "n < mx" "\<not> irq_due (s, n)" "translate s (pc s) Fetch = (Some a, s)"
        "\<not> fetch_stops words a" "step s (words ! nat (a div 4)) = Inl e" "r = Inl e"
    | s' n' where "n < mx" "loop_step words (s, n) (s', n')" "f s' n' = Some r"
proof (cases "n < mx \<and> \<not> irq_due (s, n)")
  case False
  then show ?thesis using assms that(1,4) loop_step.irq [of s n words] by (auto simp: loop_body_def split: if_splits)
next
  case go: True
  show ?thesis
  proof (rule translate_cases [of s "pc s" Fetch])
    fix a
    assume t: "translate s (pc s) Fetch = (Some a, s)"
    show ?thesis
    proof (cases "fetch_stops words a")
      case True
      then have "halts words (s, n)" "r = Inr (n, s)" using assms go t by (simp_all add: halts_def loop_body_def)
      with go that(2) show ?thesis by blast
    next
      case False
      then show ?thesis using assms go t that(3,4) loop_step.exec [of s n a s words]
        by (cases "step s (words ! nat (a div 4))") (auto simp: loop_body_def)
    qed
  next
    fix v'
    assume "translate s (pc s) Fetch = page_fault s Fetch v'"
    then show ?thesis using assms go that(4) loop_step.fault [of s n _ words]
      by (auto simp: page_fault_def loop_body_def)
  qed
qed

lemma run_loop_step: "loop_step words (s, n) (s', n') \<Longrightarrow> n < mx \<Longrightarrow> run_loop words mx s n = run_loop words mx s' n'"
  by (subst run_loop_unfold) (auto elim!: loop_stepE simp: loop_body_def)

lemma run_loop_halt: "halts words (s, n) \<Longrightarrow> n < mx \<Longrightarrow> run_loop words mx s n = Some (Inr (n, s))"
  by (subst run_loop_unfold)
     (auto simp: halts_def loop_body_def dest: translate_Some split: option.splits prod.splits)

lemma counter_mono: "(loop_step words)\<^sup>*\<^sup>* c c' \<Longrightarrow> snd c \<le> snd c'"
  by (induction rule: rtranclp_induct) (auto elim!: loop_step.cases)

lemma run_loop_complete:
  "(loop_step words)\<^sup>*\<^sup>* c c' \<Longrightarrow> halts words c' \<Longrightarrow> snd c' < mx \<Longrightarrow>
     run_loop words mx (fst c) (snd c) = Some (Inr (snd c', fst c'))"
proof (induction rule: converse_rtranclp_induct)
  case base
  then show ?case using run_loop_halt [of words "fst c'" "snd c'" mx] by simp
next
  case (step c d)
  have "snd d \<le> snd c'" by (rule counter_mono [OF step.hyps(2)])
  moreover have "snd c \<le> snd d" using counter_mono [OF r_into_rtranclp [of "loop_step words", OF step.hyps(1)]] .
  ultimately have "snd c < mx" using step.prems by simp
  with step run_loop_step [of words "fst c" "snd c" "fst d" "snd d" mx] show ?case by simp
qed

text \<open>Partial correctness of the loop by induction on its iterations.\<close>

lemma run_loop_induct [consumes 1, case_names limit halt raise move]:
  assumes "run_loop words mx s n = Some r"
    and limit: "\<And>s n. mx \<le> n \<Longrightarrow> P s n (Inl RuntimeError)"
    and halt: "\<And>s n. n < mx \<Longrightarrow> halts words (s, n) \<Longrightarrow> P s n (Inr (n, s))"
    and raise: "\<And>s n a e. n < mx \<Longrightarrow> \<not> irq_due (s, n) \<Longrightarrow> translate s (pc s) Fetch = (Some a, s) \<Longrightarrow>
      \<not> fetch_stops words a \<Longrightarrow> step s (words ! nat (a div 4)) = Inl e \<Longrightarrow> P s n (Inl e)"
    and move: "\<And>s n s' n' r. n < mx \<Longrightarrow> loop_step words (s, n) (s', n') \<Longrightarrow> P s' n' r \<Longrightarrow> P s n r"
  shows "P s n r"
proof -
  define Q where "Q w x s n r \<longleftrightarrow> (w = words \<longrightarrow> x = mx \<longrightarrow> P s n r)" for w x s n r
  have "Q words mx s n r"
  proof (rule run_loop.raw_induct [where P = Q, OF _ assms(1)])
    fix f w x s n r
    assume IH: "\<And>w x s n r. f w x s n = Some r \<Longrightarrow> Q w x s n r"
    assume body: "(if n < x
        then if case pending_interrupt s of None \<Rightarrow> False
                | Some (after, cause) \<Rightarrow> after \<le> n \<and> drop_bit 3 (csr_at s CSR_MSTATUS) AND 1 \<noteq> 0
             then f w x ((trap s (snd (the (pending_interrupt s))) 0)\<lparr>pending_interrupt := None\<rparr>) n
             else case translate s (pc s) Fetch of (None, s') \<Rightarrow> f w x s' n
                  | (Some a, s') \<Rightarrow>
                      if 4 * int (length w) \<le> a then Some (Inr (n, s'))
                      else if is_self_loop (w ! nat (a div 4)) then Some (Inr (n, s'))
                      else case step s' (w ! nat (a div 4)) of Inl e \<Rightarrow> Some (Inl e) | Inr s'' \<Rightarrow> f w x s'' (n + 1)
        else Some (Inl RuntimeError)) = Some r"
    have "loop_body (f w x) w x s n = Some r"
      unfolding body [symmetric] loop_body_def irq_due_def take_irq_def fetch_stops_def
      by (simp split: option.split prod.split if_split)
    then show "Q w x s n r"
      by (cases rule: loop_body_cases) (use IH limit halt raise move in \<open>auto simp: Q_def\<close>)
  qed
  then show ?thesis by (simp add: Q_def)
qed

lemma run_loop_sound:
  "run_loop words mx s n = Some r \<Longrightarrow> r = Inr (n', s') \<Longrightarrow>
     (loop_step words)\<^sup>*\<^sup>* (s, n) (s', n') \<and> halts words (s', n') \<and> n' < mx"
  by (induction rule: run_loop_induct) (auto intro: converse_rtranclp_into_rtranclp)

lemma run_iff:
  "run s words mx = Some (Inr (n', s')) \<longleftrightarrow>
     (loop_step words)\<^sup>*\<^sup>* (s, 0) (s', n') \<and> halts words (s', n') \<and> n' < mx"
  using run_loop_sound [of words mx s 0] run_loop_complete [of words "(s, 0)" "(s', n')" mx]
  by (auto simp: run_def)

subsection \<open>When the loop returns\<close>

text \<open>
  Only an instruction page fault that is delegated to S-mode can keep the loop from making
  progress: a fault taken in M-mode is followed by an untranslated fetch, and a pending
  interrupt is taken once.
\<close>

definition fault_stays_in_s :: "iss \<Rightarrow> bool" where
  "fault_stays_in_s s \<longleftrightarrow> (\<exists>s'. translate s (pc s) Fetch = (None, s') \<and> priv_mode s' \<noteq> PRIV_M)"

lemma trap_target: "priv_mode (trap s c tv) = PRIV_M \<or> priv_mode (trap s c tv) = PRIV_S"
  by (simp add: trap_def Let_def)

lemma translate_M: "priv_mode s = PRIV_M \<Longrightarrow> translate s v acc = (Some (uxlen s v), s)"
  by (simp add: translate_def Let_def)

definition progress_rank :: "int \<Rightarrow> config \<Rightarrow> nat" where
  "progress_rank mx c = 3 * nat (mx - snd c) + (if pending_interrupt (fst c) = None then 0 else 3 * nat mx + 3) +
     (if priv_mode (fst c) = PRIV_M then 0 else 1)"

lemma frame_pending: "frame s' = frame s \<Longrightarrow> pending_interrupt s' = pending_interrupt s"
  by (simp add: frame_def)

lemma rank_decreases:
  assumes "loop_step words (s, n) (s', n')" "n < mx" "0 \<le> n" "\<not> fault_stays_in_s s"
  shows "progress_rank mx (s', n') < progress_rank mx (s, n)"
  using assms(1)
proof (rule loop_stepE)
  assume "(s', n') = (take_irq s, n)" "irq_due (s, n)"
  then show ?thesis
    using assms(2,3) trap_target [of s "snd (the (pending_interrupt s))" 0]
    by (auto simp: progress_rank_def take_irq_def irq_due_def split: option.splits)
next
  fix u
  assume u: "(s', n') = (u, n)" "translate s (pc s) Fetch = (None, u)"
  then have "priv_mode s \<noteq> PRIV_M" using translate_M [of s "pc s" Fetch] by auto
  moreover have "priv_mode u = PRIV_M" using u assms(4) by (auto simp: fault_stays_in_s_def)
  moreover have "pending_interrupt u = pending_interrupt s" using frame_pending [OF frame_translate [OF u(2)]] .
  ultimately show ?thesis using u(1) by (simp add: progress_rank_def)
next
  fix a u v
  assume u: "(s', n') = (v, n + 1)" "translate s (pc s) Fetch = (Some a, u)" "step u (words ! nat (a div 4)) = Inr v"
  have "pending_interrupt v = pending_interrupt s"
    using frame_pending [OF frame_translate [OF u(2)]] frame_pending [OF step_frame [OF u(3)]] by simp
  moreover have "nat (mx - n) = Suc (nat (mx - (n + 1)))" using assms(2) by simp
  ultimately show ?thesis using u(1) by (simp add: progress_rank_def)
qed

lemma loop_body_returns:
  assumes "\<And>s' n'. loop_step words (s, n) (s', n') \<Longrightarrow> n < mx \<Longrightarrow> \<exists>r. f s' n' = Some r"
  shows "\<exists>r. loop_body f words mx s n = Some r"
  using assms loop_step.intros [of s n] unfolding loop_body_def
  by (cases "translate s (pc s) Fetch") (auto split: option.split sum.split)

lemma run_loop_returns:
  assumes "\<And>s' n'. (loop_step words)\<^sup>*\<^sup>* (s, n) (s', n') \<Longrightarrow> \<not> fault_stays_in_s s'" "0 \<le> n"
  shows "\<exists>r. run_loop words mx s n = Some r"
  using assms
proof (induction "progress_rank mx (s, n)" arbitrary: s n rule: less_induct)
  case less
  have "\<exists>r. run_loop words mx s' n' = Some r" if st: "loop_step words (s, n) (s', n')" and "n < mx" for s' n'
  proof (rule less.hyps)
    show "progress_rank mx (s', n') < progress_rank mx (s, n)"
      using rank_decreases [OF st \<open>n < mx\<close> less.prems(2)] less.prems(1) by blast
    show "0 \<le> n'" using st less.prems(2) by (auto elim: loop_stepE)
    show "\<not> fault_stays_in_s u" if "(loop_step words)\<^sup>*\<^sup>* (s', n') (u, k)" for u k
      using less.prems(1) converse_rtranclp_into_rtranclp [of "loop_step words", OF st that] by blast
  qed
  then show ?case unfolding run_loop_unfold [of words mx s n] by (rule loop_body_returns)
qed

subsection \<open>A 64-bit core is never translated\<close>

lemma no_sv39:
  assumes "iss_wf s" "xlen s \<noteq> 32"
  shows "translate s v acc = (Some (uxlen s v), s)"
proof -
  have "0 \<le> csr_at s CSR_SATP" "csr_at s CSR_SATP < 2 ^ 32"
    using csr_at_nonneg [OF assms(1)] csr_at_u32 [OF assms(1)] by simp_all
  then have "drop_bit 60 (csr_at s CSR_SATP) = 0" by (simp add: drop_bit_eq_div)
  then show ?thesis using assms(2) by (simp add: translate_def Let_def)
qed

definition wide_wf :: "config \<Rightarrow> bool" where
  "wide_wf c \<longleftrightarrow> iss_wf (fst c) \<and> xlen (fst c) \<noteq> 32"

lemma frame_take_irq: "xlen (take_irq s) = xlen s"
  using frame_xlen [OF frame_ops(6)] by (simp add: take_irq_def)

lemma loop_step_xlen: "loop_step words (s, n) (s', n') \<Longrightarrow> xlen s' = xlen s"
  by (erule loop_stepE) (auto simp: frame_take_irq dest: frame_xlen [OF frame_translate],
      metis frame_xlen frame_translate step_frame)

interpretation wide_loop: transition_system "loop_step words" wide_wf "halts words" for words
proof
  fix x y z
  show "wide_wf x \<Longrightarrow> loop_step words x y \<Longrightarrow> wide_wf y"
    using fetch_loop.move_inv [of x words y] loop_step_xlen [of words "fst x" "snd x" "fst y" "snd y"]
    by (simp add: wide_wf_def config_wf_def)
qed (rule fetch_loop.move_det fetch_loop.final_stuck; assumption)+

lemma wide_run_returns:
  assumes "iss_wf s" "xlen s \<noteq> 32"
  shows "\<exists>r. run s words mx = Some r"
  unfolding run_def
proof (rule run_loop_returns)
  fix s' n'
  assume "(loop_step words)\<^sup>*\<^sup>* (s, 0) (s', n')"
  then have "wide_wf (s', n')" by (rule wide_loop.reach_inv) (simp add: wide_wf_def assms)
  then show "\<not> fault_stays_in_s s'"
    using no_sv39 [of s' "pc s'" Fetch] by (auto simp: wide_wf_def fault_stays_in_s_def)
qed simp

subsection \<open>A handler that faults itself\<close>

text \<open>
  S-mode under Sv32 with instruction page faults delegated to it and no valid page table
  entry anywhere: every fetch faults, the trap does not change that, and the step counter
  never moves.
\<close>

definition fault_storm :: "iss \<Rightarrow> bool" where
  "fault_storm s \<longleftrightarrow> xlen s = 32 \<and> priv_mode s = PRIV_S \<and> pending_interrupt s = None \<and>
     drop_bit SATP_MODE_BIT (csr_at s CSR_SATP) AND 1 = 1 \<and> drop_bit 12 (csr_at s CSR_MEDELEG) AND 1 = 1 \<and>
     (\<forall>a. load_mem_byte s a = 0)"

lemma trap_mem: "load_mem_byte (trap s c v) a = load_mem_byte s a" "xlen (trap s c v) = xlen s"
  "pending_interrupt (trap s c v) = pending_interrupt s"
  by (simp_all add: load_mem_byte_def trap_def Let_def)

lemma storm_faults:
  assumes "fault_storm s"
  obtains s' where "translate s (pc s) Fetch = (None, s')" "fault_storm s'"
proof -
  have z: "load_mem_byte s a = 0" for a using assms by (simp add: fault_storm_def)
  have t: "translate s (pc s) Fetch = page_fault s Fetch (u32 (pc s))"
    using assms unfolding translate_def translate_sv32_def Let_def
    by (simp add: fault_storm_def read_pte_def z Let_def)
  have "fault_storm (trap s 12 (u32 (pc s)))"
    using assms trap_mem [of s 12 "u32 (pc s)"] by (simp add: fault_storm_def) (simp add: trap_def Let_def csr_at_put)
  with t show ?thesis by (intro that) (simp_all add: page_fault_def fault_cause_def)
qed

lemma storm_never_returns: "run_loop words mx s n = Some r \<Longrightarrow> n < mx \<Longrightarrow> \<not> fault_storm s"
proof (induction rule: run_loop_induct)
  case (halt s n)
  show ?case
  proof
    assume "fault_storm s"
    then obtain u where "translate s (pc s) Fetch = (None, u)" by (rule storm_faults)
    with halt(2) show False by (simp add: halts_def)
  qed
next
  case (raise s n a e)
  show ?case
  proof
    assume "fault_storm s"
    then obtain u where "translate s (pc s) Fetch = (None, u)" by (rule storm_faults)
    with raise(3) show False by simp
  qed
next
  case (move s n s' n' r)
  show ?case
  proof
    assume "fault_storm s"
    then obtain u where u: "translate s (pc s) Fetch = (None, u)" "fault_storm u" by (rule storm_faults)
    moreover have "\<not> irq_due (s, n)" using \<open>fault_storm s\<close> by (simp add: irq_due_def fault_storm_def)
    ultimately have "(s', n') = (u, n)" using move(2) by (auto elim!: loop_stepE)
    with move u show False by simp
  qed
qed simp

lemma storm_run_diverges: "fault_storm s \<Longrightarrow> 0 < mx \<Longrightarrow> run s words mx = None"
  using storm_never_returns [of words mx s 0] by (cases "run_loop words mx s 0") (auto simp: run_def)

end
