(* ===== verification/Iss_Priv.thy ===== *)
theory Iss_Priv
  imports Iss_Run
begin

text \<open>
  The privileged architecture of \<open>sim/tools/iss.py\<close>: trap entry undone by the matching trap
  return, the write masks of the CSR file and the independence of its views, the
  instructions that a lower privilege mode cannot execute, and the reserved privilege
  mode that \<open>csr_write\<close> lets software enter.
\<close>

subsection \<open>Status bits\<close>

lemma low_bit: "drop_bit n x AND 1 = of_bool (bit x n)" for x :: int
  by (simp add: and_one_eq bit_iff_odd_drop_bit odd_iff_mod_2_eq_one)

lemma low_two: "drop_bit n x AND 3 = of_bool (bit x n) + 2 * of_bool (bit x (Suc n))" for x :: int
proof -
  have "y mod 4 = y mod 2 + 2 * (y div 2 mod 2)" for y :: int by presburger
  then show ?thesis
    unfolding and_mod_2 bit_iff_odd_drop_bit drop_bit_eq_div
    by (simp add: of_bool_odd_eq_mod_2 mult.commute flip: zdiv_zmult2_eq)
qed

lemma bit_u32: "bit (u32 x) n \<longleftrightarrow> n < 32 \<and> bit x n"
  unfolding u32_mod take_bit_eq_mod [symmetric] by (rule bit_take_bit_iff)

lemma bit_at:
  "bit (push_bit k (1::int)) n \<longleftrightarrow> n = k" "bit (push_bit k (0::int)) n \<longleftrightarrow> False"
  "bit (push_bit k (3::int)) n \<longleftrightarrow> n = k \<or> n = Suc k"
  "bit (push_bit k (2::int)) n \<longleftrightarrow> n = Suc k" "bit (push_bit k (of_bool P :: int)) n \<longleftrightarrow> n = k \<and> P"
proof -
  have 3: "bit (3::int) m \<longleftrightarrow> m = 0 \<or> m = 1" for m
    using bit_mask_iff [of 2 m, where 'a = int] by (auto simp: mask_eq_exp_minus_1)
  have 2: "bit (2::int) m \<longleftrightarrow> m = 1" for m using bit_exp_iff [of 1 m, where 'a = int] by auto
  show "bit (push_bit k (1::int)) n \<longleftrightarrow> n = k" "bit (push_bit k (0::int)) n \<longleftrightarrow> False"
    "bit (push_bit k (3::int)) n \<longleftrightarrow> n = k \<or> n = Suc k"
    "bit (push_bit k (2::int)) n \<longleftrightarrow> n = Suc k" "bit (push_bit k (of_bool P :: int)) n \<longleftrightarrow> n = k \<and> P"
    by (auto simp: bit_push_bit_iff 3 2 bit_1_iff bit_of_bool_iff bit_exp_iff)
qed

lemma bit_not_int: "bit (NOT x) n \<longleftrightarrow> \<not> bit x n" for x :: int
  by (simp add: bit_not_iff)

lemmas status_bits = low_bit low_two bit_u32 bit_and_iff bit_or_iff bit_not_int bit_at

definition takes_to_s :: "iss \<Rightarrow> int \<Rightarrow> bool" where
  "takes_to_s s cause \<longleftrightarrow> priv_mode s \<noteq> PRIV_M \<and>
     bit (csr_at s (if cause AND 0x80000000 \<noteq> 0 then CSR_MIDELEG else CSR_MEDELEG)) (nat (cause AND 0x1F))"

lemma trap_m_fields:
  assumes "\<not> takes_to_s s c"
  shows "priv_mode (trap s c tv) = PRIV_M" "pc (trap s c tv) = csr_at s CSR_MTVEC"
    "csr_at (trap s c tv) CSR_MEPC = pc s" "csr_at (trap s c tv) CSR_MCAUSE = u32 c"
    "csr_at (trap s c tv) CSR_MTVAL = u32 tv"
    "csr_at (trap s c tv) CSR_MSTATUS =
      u32 (csr_at s CSR_MSTATUS AND NOT (push_bit 3 1 OR push_bit 7 1 OR push_bit MSTATUS_MPP_LO 3) OR
           (push_bit 7 (drop_bit 3 (csr_at s CSR_MSTATUS) AND 1) OR push_bit MSTATUS_MPP_LO (priv_mode s)))"
    "regs (trap s c tv) = regs s" "mem (trap s c tv) = mem s" "fregs (trap s c tv) = fregs s"
  using assms by (auto simp: trap_def Let_def csr_at_put takes_to_s_def low_bit split: if_splits)

lemma trap_s_fields:
  assumes "takes_to_s s c"
  shows "priv_mode (trap s c tv) = PRIV_S" "pc (trap s c tv) = csr_at s CSR_STVEC"
    "csr_at (trap s c tv) CSR_SEPC = pc s" "csr_at (trap s c tv) CSR_SCAUSE = u32 c"
    "csr_at (trap s c tv) CSR_STVAL = u32 tv"
    "csr_at (trap s c tv) CSR_MSTATUS =
      u32 (csr_at s CSR_MSTATUS AND NOT (push_bit MSTATUS_SIE_BIT 1 OR push_bit MSTATUS_SPIE_BIT 1 OR push_bit MSTATUS_SPP_BIT 1) OR
           (push_bit MSTATUS_SPIE_BIT (drop_bit MSTATUS_SIE_BIT (csr_at s CSR_MSTATUS) AND 1) OR
            push_bit MSTATUS_SPP_BIT (priv_mode s AND 1)))"
    "regs (trap s c tv) = regs s" "mem (trap s c tv) = mem s" "fregs (trap s c tv) = fregs s"
  using assms by (auto simp: trap_def Let_def csr_at_put takes_to_s_def low_bit split: if_splits)

lemma mret_fields:
  "pc (mret s) = csr_at s CSR_MEPC" "priv_mode (mret s) = drop_bit MSTATUS_MPP_LO (csr_at s CSR_MSTATUS) AND 3"
  "csr_at (mret s) CSR_MSTATUS =
     u32 (csr_at s CSR_MSTATUS AND NOT (push_bit 3 1 OR push_bit 7 1 OR push_bit MSTATUS_MPP_LO 3) OR
          (push_bit 3 (drop_bit 7 (csr_at s CSR_MSTATUS) AND 1) OR push_bit 7 1))"
  "regs (mret s) = regs s" "mem (mret s) = mem s" "fregs (mret s) = fregs s"
  by (simp_all add: mret_def Let_def csr_at_put)

lemma sret_fields:
  "pc (sret s) = csr_at s CSR_SEPC" "priv_mode (sret s) = drop_bit MSTATUS_SPP_BIT (csr_at s CSR_MSTATUS) AND 1"
  "csr_at (sret s) CSR_MSTATUS =
     u32 (csr_at s CSR_MSTATUS AND NOT (push_bit MSTATUS_SIE_BIT 1 OR push_bit MSTATUS_SPIE_BIT 1 OR push_bit MSTATUS_SPP_BIT 1) OR
          (push_bit MSTATUS_SIE_BIT (drop_bit MSTATUS_SPIE_BIT (csr_at s CSR_MSTATUS) AND 1) OR push_bit MSTATUS_SPIE_BIT 1))"
  "regs (sret s) = regs s" "mem (sret s) = mem s" "fregs (sret s) = fregs s"
  unfolding sret_def Let_def by (simp_all only: csr_at_put csr_at_upd csr_put_sel iss.simps) simp_all

lemma priv_cases: "iss_wf s \<Longrightarrow> priv_mode s = 0 \<or> priv_mode s = 1 \<or> priv_mode s = 2 \<or> priv_mode s = 3"
  using wf_simps(8,9) [of s] by linarith

text \<open>Trap into M-mode and back: everything the handler was entered with is restored.\<close>

lemma mret_trap:
  assumes wf: "iss_wf s" and m: "\<not> takes_to_s s c"
  shows "pc (mret (trap s c tv)) = pc s" "priv_mode (mret (trap s c tv)) = priv_mode s"
    "bit (csr_at (mret (trap s c tv)) CSR_MSTATUS) n =
       (if n = 7 then True else if n = 11 \<or> n = 12 then False else bit (csr_at s CSR_MSTATUS) n)"
    "regs (mret (trap s c tv)) = regs s" "mem (mret (trap s c tv)) = mem s" "fregs (mret (trap s c tv)) = fregs s"
proof -
  note f = trap_m_fields [OF m, of tv]
  show "pc (mret (trap s c tv)) = pc s" "regs (mret (trap s c tv)) = regs s" "mem (mret (trap s c tv)) = mem s"
    "fregs (mret (trap s c tv)) = fregs s" by (simp_all add: mret_fields f)
  show "priv_mode (mret (trap s c tv)) = priv_mode s"
    unfolding mret_fields f using priv_cases [OF wf] by (auto simp: status_bits)
  have hi: "bit (csr_at s CSR_MSTATUS) n \<Longrightarrow> n < 32"
    using csr_at_nonneg [OF wf] csr_at_u32 [OF wf] by (intro bit_range [of "csr_at s CSR_MSTATUS"]) auto
  have pm: "bit (push_bit 11 (priv_mode s)) m \<Longrightarrow> m = 11 \<or> m = 12" for m
    using priv_cases [OF wf] bit_at(1-4) [of 11 m] by auto
  show "bit (csr_at (mret (trap s c tv)) CSR_MSTATUS) n =
       (if n = 7 then True else if n = 11 \<or> n = 12 then False else bit (csr_at s CSR_MSTATUS) n)"
    unfolding mret_fields f status_bits using hi pm [of n] pm [of 7] by auto
qed

lemma sret_trap:
  assumes wf: "iss_wf s" and t: "takes_to_s s c" and p: "priv_mode s < 2"
  shows "pc (sret (trap s c tv)) = pc s" "priv_mode (sret (trap s c tv)) = priv_mode s"
    "bit (csr_at (sret (trap s c tv)) CSR_MSTATUS) n =
       (if n = 5 then True else if n = 8 then False else bit (csr_at s CSR_MSTATUS) n)"
    "regs (sret (trap s c tv)) = regs s" "mem (sret (trap s c tv)) = mem s" "fregs (sret (trap s c tv)) = fregs s"
proof -
  note f = trap_s_fields [OF t, of tv]
  show "pc (sret (trap s c tv)) = pc s" "regs (sret (trap s c tv)) = regs s" "mem (sret (trap s c tv)) = mem s"
    "fregs (sret (trap s c tv)) = fregs s" by (simp_all add: sret_fields f)
  have p1: "priv_mode s = 0 \<or> priv_mode s = 1" using p priv_cases [OF wf] by auto
  then show "priv_mode (sret (trap s c tv)) = priv_mode s"
    unfolding sret_fields f by (auto simp: status_bits)
  have hi: "bit (csr_at s CSR_MSTATUS) n \<Longrightarrow> n < 32"
    using csr_at_nonneg [OF wf] csr_at_u32 [OF wf] by (intro bit_range [of "csr_at s CSR_MSTATUS"]) auto
  have pa: "priv_mode s AND 1 = of_bool (bit (priv_mode s) 0)" using low_bit [of 0 "priv_mode s"] by simp
  show "bit (csr_at (sret (trap s c tv)) CSR_MSTATUS) n =
       (if n = 5 then True else if n = 8 then False else bit (csr_at s CSR_MSTATUS) n)"
    unfolding sret_fields f pa status_bits using hi by auto
qed

subsection \<open>CSR writes\<close>

text \<open>The bits of each register that software can write; an unimplemented register has none.\<close>

definition writable :: "int \<Rightarrow> int" where
  "writable a =
     (if a = CSR_FFLAGS then 0x1F else if a = CSR_FRM then 0x7 else if a = CSR_FCSR then 0xFF
      else if a = CSR_MSTATUS then MSTATUS_MASK else if a = CSR_SSTATUS then SSTATUS_MASK
      else if a = CSR_MIE then MIE_MASK
      else if a = CSR_SIE \<or> a = CSR_MIP \<or> a = CSR_SIP then SIE_MASK
      else if a = CSR_MEDELEG then MEDELEG_MASK else if a = CSR_MIDELEG then MIDELEG_MASK
      else if a \<in> csr_keys then 0xFFFFFFFF else 0)"

definition fixed_bits :: "iss \<Rightarrow> int \<Rightarrow> int" where
  "fixed_bits s a =
     (if a = CSR_MSTATUS \<and> xlen s = 64 then push_bit MSTATUS_UXL_LO MXL_XLEN64 OR push_bit MSTATUS_SXL_LO MXL_XLEN64
      else 0)"

lemma csr_store_at: "iss_wf s \<Longrightarrow> a \<in> csr_keys \<Longrightarrow> csr_at (csr_store s a v) a = u32 v"
  using csr_some_key [of s a] by (simp add: csr_store_def csr_at_put)

lemma u32_masked: "0 \<le> m \<Longrightarrow> m < 2 ^ 32 \<Longrightarrow> u32 (v AND m) = v AND m"
  using and_range [of m 32 v] by (intro u32_id) auto

lemma and_twice: "(x AND m) AND k = x AND k" if "k AND m = k" for x m k :: int
  by (metis and.assoc and.commute that)

lemma bit_of_and: "push_bit n (drop_bit n v AND 1) = v AND push_bit n 1" for v :: int
  by (rule bit_eqI) (auto simp: bit_simps)

lemma csr_read_views:
  "csr_read s CSR_SSTATUS = csr_at s CSR_MSTATUS AND SSTATUS_MASK"
  "csr_read s CSR_SIE = csr_at s CSR_MIE AND SIE_MASK"
  "csr_read s CSR_SIP = csr_at s CSR_MIP AND SIE_MASK"
  unfolding csr_read_def Let_def bit_of_and by (simp_all only: bit.conj_disj_distrib) simp_all

lemma merge_view:
  assumes "0 \<le> k" "k < 2 ^ 32"
  shows "u32 (m AND NOT k OR v AND k) AND k = v AND k"
proof (rule bit_eqI)
  fix n
  have "bit k n \<Longrightarrow> n < 32" by (rule bit_range [OF _ assms])
  then show "bit (u32 (m AND NOT k OR v AND k) AND k) n = bit (v AND k) n"
    by (auto simp: bit_u32 bit_and_iff bit_or_iff bit_not_int)
qed

lemma fcsr_fields: "push_bit 5 ((drop_bit 5 v AND 7) AND 7) OR ((v AND 31) AND 31) = v AND 0xFF" for v :: int
proof -
  have "x AND 7 = take_bit 3 x" "x AND 31 = take_bit 5 x" "x AND 0xFF = take_bit 8 x" for x :: int
    by (simp_all add: and_mod_3 and_mod_5 and_mod_8 take_bit_eq_mod)
  then show ?thesis by (intro bit_eqI) (auto simp: bit_simps)
qed

lemma csr_read_plain:
  "a \<notin> {CSR_FFLAGS, CSR_FRM, CSR_FCSR, CSR_SSTATUS, CSR_SIE, CSR_SIP} \<Longrightarrow> csr_read s a = csr_at s a OR fixed_bits s a"
  by (auto simp: csr_read_def fixed_bits_def or.assoc)

lemma csr_at_unimplemented: "iss_wf s \<Longrightarrow> a \<notin> csr_keys \<Longrightarrow> csr_at s a = 0"
  using csr_some_key [of s a] by (simp add: csr_at_def)

lemma csr_xlen: "xlen (csr_write s a v) = xlen s"
  using frame_ops(5) [of s a v] by (simp add: frame_def)

lemma csr_write_plain:
  assumes wf: "iss_wf s" and a: "a \<notin> {CSR_FFLAGS, CSR_FRM, CSR_FCSR, CSR_SSTATUS, CSR_SIE, CSR_SIP}"
  shows "csr_at (csr_write s a v) a = v AND writable a"
proof (cases "a \<in> csr_keys")
  case False
  then have "csr_write s a v = s" using a csr_some_key [OF wf, of a] by (auto simp: csr_write_def csr_store_def csr_keys_def)
  then show ?thesis using False a csr_at_unimplemented [OF wf False] by (auto simp: writable_def csr_keys_def)
next
  case True
  consider "a = CSR_MIP" | "a \<in> {CSR_MSTATUS, CSR_MIE, CSR_MEDELEG, CSR_MIDELEG}"
    | "a \<notin> {CSR_MIP, CSR_MSTATUS, CSR_MIE, CSR_MEDELEG, CSR_MIDELEG}" by blast
  then show ?thesis
  proof cases
    case 1
    then show ?thesis by (simp add: csr_write_def csr_at_put writable_def u32_masked)
  next
    case 2
    then show ?thesis using csr_store_at [OF wf True] by (auto simp: csr_write_def writable_def u32_masked)
  next
    case 3
    have "csr_write s a v = csr_store s a v" unfolding csr_write_def using 3 a by simp
    moreover have "writable a = 0xFFFFFFFF" using 3 a True by (simp add: writable_def)
    ultimately show ?thesis using csr_store_at [OF wf True] by (simp add: u32_def)
  qed
qed

lemma csr_read_write:
  assumes wf: "iss_wf s"
  shows "csr_read (csr_write s a v) a = (v AND writable a) OR fixed_bits s a"
proof (cases "a \<in> {CSR_FFLAGS, CSR_FRM, CSR_FCSR, CSR_SSTATUS, CSR_SIE, CSR_SIP}")
  case False
  have "fixed_bits (csr_write s a v) a = fixed_bits s a" by (simp add: fixed_bits_def csr_xlen)
  then show ?thesis using csr_read_plain [OF False, of "csr_write s a v"] csr_write_plain [OF wf False] by simp
next
  case True
  then consider "a = CSR_FFLAGS" | "a = CSR_FRM" | "a = CSR_FCSR" | "a = CSR_SSTATUS" | "a = CSR_SIE" | "a = CSR_SIP" by blast
  then show ?thesis
  proof cases
    case 3
    then show ?thesis using fcsr_fields [of v] by (simp add: csr_write_def csr_read_def writable_def fixed_bits_def)
  next
    case 4
    show ?thesis unfolding 4 csr_read_views
      using merge_view [of SSTATUS_MASK "csr_at s CSR_MSTATUS" v]
      by (simp add: csr_write_def Let_def csr_at_put writable_def fixed_bits_def)
  next
    case 5
    show ?thesis unfolding 5 csr_read_views
      using merge_view [of SIE_MASK "csr_at s CSR_MIE" v]
      by (simp add: csr_write_def Let_def csr_at_put writable_def fixed_bits_def)
  next
    case 6
    show ?thesis unfolding 6 csr_read_views
      by (simp add: csr_write_def csr_at_put writable_def fixed_bits_def u32_masked)
  qed (simp_all add: csr_write_def csr_read_def writable_def fixed_bits_def)
qed

text \<open>Writing a supervisor view leaves every other bit of the machine register alone.\<close>

lemma sstatus_write_bits:
  assumes "iss_wf s"
  shows "bit (csr_at (csr_write s CSR_SSTATUS v) CSR_MSTATUS) n =
    (if n = 1 \<or> n = 5 \<or> n = 8 then bit v n else bit (csr_at s CSR_MSTATUS) n)"
proof -
  have hi: "bit (csr_at s CSR_MSTATUS) n \<Longrightarrow> n < 32"
    using csr_at_nonneg [OF assms] csr_at_u32 [OF assms] by (intro bit_range [of "csr_at s CSR_MSTATUS"]) auto
  have "csr_at (csr_write s CSR_SSTATUS v) CSR_MSTATUS =
      u32 (csr_at s CSR_MSTATUS AND NOT SSTATUS_MASK OR v AND SSTATUS_MASK)"
    by (simp add: csr_write_def Let_def csr_at_put)
  then show ?thesis using hi by (simp only: status_bits) auto
qed

subsection \<open>Privileged instructions\<close>

text \<open>
  The SYSTEM words that need more privilege than mode \<open>p\<close>: a CSR access below the level in
  bits 9:8 of the address, \<open>mret\<close> outside M-mode, \<open>sret\<close> and \<open>sfence.vma\<close> in U-mode.
\<close>

definition needs_more :: "int \<Rightarrow> int \<Rightarrow> bool" where
  "needs_more p w \<longleftrightarrow> op_of w = 0x73 \<and>
     (if f3_of w \<noteq> 0 then p < drop_bit 28 w AND 3
      else if f7_of w = 9 then p = PRIV_U
      else if drop_bit 20 w AND 0xFFF = 0x302 then p \<noteq> PRIV_M
      else drop_bit 20 w AND 0xFFF = 0x102 \<and> p = PRIV_U)"

lemma csr_level: "drop_bit 8 (drop_bit 20 w AND 0xFFF) AND 3 = drop_bit 28 w AND 3" for w :: int
proof -
  have "x AND 0xFFF = take_bit 12 x" "x AND 3 = take_bit 2 x" for x :: int
    by (simp_all add: and_mod_12 and_mod_2 take_bit_eq_mod)
  then show ?thesis by (intro bit_eqI) (auto simp: bit_simps)
qed

lemma step_needs_more:
  assumes "needs_more (priv_mode s) w"
  shows "step s w = Inr (trap s MCAUSE_ILLEGAL_INSTRUCTION 0)"
proof -
  have op: "op_of w = 0x73" using assms by (simp add: needs_more_def)
  then have "w \<noteq> 0" by (auto simp: op_of_def)
  then have "step s w = step_system s w" using op by (simp add: step_def Let_def)
  moreover have "step_system s w = Inr (trap s MCAUSE_ILLEGAL_INSTRUCTION 0)"
  proof (cases "f3_of w = 0")
    case True
    then show ?thesis using assms by (simp add: needs_more_def step_system_def step_priv_def Let_def split: if_splits)
  next
    case False
    then have "priv_mode s < drop_bit 28 w AND 3" using assms by (simp add: needs_more_def)
    then show ?thesis using False unfolding step_system_def step_csr_def Let_def csr_level by (simp only: if_False if_True)
  qed
  ultimately show ?thesis by simp
qed

subsection \<open>The reserved privilege mode\<close>

lemma mpp_two_reachable:
  assumes "iss_wf s"
  shows "priv_mode (mret (csr_write s CSR_MSTATUS 0x1000)) = 2"
proof -
  have "csr_at (csr_write s CSR_MSTATUS 0x1000) CSR_MSTATUS = 0x1000"
    using csr_write_plain [OF assms, of CSR_MSTATUS "0x1000"] by (simp add: writable_def)
  then show ?thesis by (simp add: mret_fields)
qed

lemma ecall_in_reserved: "priv_mode s = 2 \<Longrightarrow> step s 0x73 = Inl KeyError"
  by (simp add: step_def Let_def op_of_def step_system_def step_priv_def f3_of_def f7_of_def)

subsection \<open>Page tables\<close>

text \<open>
  The shape of a table walk in arithmetic form, with the page numbers of 20 bits that the source
  keeps and any valid entry with R, W or X as a leaf. \<open>read\<close> fetches an entry, an
  entry has \<open>2 ^ sz\<close> bytes, a level translates \<open>vb\<close> bits; \<open>level\<close> counts down to 0. A leaf
  above level 0 must be aligned to its superpage.
\<close>

fun page_walk :: "(int \<Rightarrow> int) \<Rightarrow> (int \<Rightarrow> bool) \<Rightarrow> nat \<Rightarrow> nat \<Rightarrow> nat \<Rightarrow> int \<Rightarrow> int \<Rightarrow> int option" where
  "page_walk read perm sz vb level table vaddr =
     (let vpn = vaddr div 2 ^ (12 + vb * level) mod 2 ^ vb;
          pte = read (table * 2 ^ 12 + vpn * 2 ^ sz);
          ppn = pte div 2 ^ 10 mod 2 ^ 20
      in if \<not> bit pte 0 then None
         else if bit pte 1 \<or> bit pte 2 \<or> bit pte 3 then
           (if ppn mod 2 ^ (vb * level) = 0 \<and> perm pte
            then Some (ppn * 2 ^ 12 + vaddr mod 2 ^ (12 + vb * level)) else None)
         else (case level of 0 \<Rightarrow> None | Suc l \<Rightarrow> page_walk read perm sz vb l ppn vaddr))"

declare page_walk.simps [simp del]

lemma page_walk_entry:
  assumes "read (table * 2 ^ 12 + (vaddr div 2 ^ (12 + vb * level) mod 2 ^ vb) * 2 ^ sz) = pte" "pte div 2 ^ 10 mod 2 ^ 20 = ppn"
  shows "page_walk read perm sz vb level table vaddr =
     (if \<not> bit pte 0 then None
      else if bit pte 1 \<or> bit pte 2 \<or> bit pte 3 then
        (if ppn mod 2 ^ (vb * level) = 0 \<and> perm pte
         then Some (ppn * 2 ^ 12 + vaddr mod 2 ^ (12 + vb * level)) else None)
      else (case level of 0 \<Rightarrow> None | Suc l \<Rightarrow> page_walk read perm sz vb l ppn vaddr))"
  by (subst page_walk.simps) (simp only: Let_def assms)

definition walk_result :: "iss \<Rightarrow> access \<Rightarrow> int \<Rightarrow> int option \<Rightarrow> int option \<times> iss" where
  "walk_result s acc v r = (case r of None \<Rightarrow> page_fault s acc v | Some pa \<Rightarrow> (Some pa, s))"

lemma pte_address: "push_bit 12 t OR push_bit sz i = t * 2 ^ 12 + i * 2 ^ sz"
  if "0 \<le> i" "i < 2 ^ vb" "vb + sz \<le> 12" for t i :: int
  using or_low [of "push_bit sz i" 12 t] push_range [OF that(1,2), of sz 12] that(3) by (simp add: push_bit_eq_mult)

lemma page_address: "push_bit 12 p OR (v AND 0xFFF) = p * 2 ^ 12 + v mod 2 ^ 12" for p v :: int
  using or_low [of "v mod 2 ^ 12" 12 p] by (simp add: push_bit_eq_mult and_mod_12)

lemma superpage: "push_bit k (drop_bit k p) OR (i mod 2 ^ k) = p - p mod 2 ^ k + i mod 2 ^ k" for p i :: int
  using or_low [of "i mod 2 ^ k" k "drop_bit k p"]
  by (simp add: push_bit_eq_mult drop_bit_eq_div minus_mod_eq_div_mult)

lemma split_offset: "(v div 2 ^ 12 mod 2 ^ k) * 2 ^ 12 + v mod 2 ^ 12 = v mod 2 ^ (12 + k)" for v :: int
  using zmod_zmult2_eq [of "2 ^ k" v "2 ^ 12"] by (simp add: power_add mult.commute)

lemma pa_range:
  fixes p v :: int
  assumes "0 \<le> p" "p < 2 ^ 20" "p mod 2 ^ k = 0" "k \<le> 20"
  shows "0 \<le> p * 2 ^ 12 + v mod 2 ^ (12 + k)" "p * 2 ^ 12 + v mod 2 ^ (12 + k) < 2 ^ 32"
proof -
  obtain q where q: "p = 2 ^ k * q" using assms(3) by auto
  have e: "(2::int) ^ 20 = 2 ^ k * 2 ^ (20 - k)" using assms(4) by (simp flip: power_add)
  have "2 ^ k * q < 2 ^ k * 2 ^ (20 - k)" using assms(2) unfolding q e .
  then have "q + 1 \<le> 2 ^ (20 - k)" by simp
  then have "2 ^ k * (q + 1) \<le> (2::int) ^ 20" unfolding e by (intro mult_left_mono) simp_all
  then have "p + 2 ^ k \<le> 2 ^ 20" by (simp add: q algebra_simps)
  moreover have "v mod 2 ^ (12 + k) < 2 ^ 12 * 2 ^ k" by (simp add: power_add)
  moreover have "0 \<le> v mod 2 ^ (12 + k)" by simp
  ultimately show "p * 2 ^ 12 + v mod 2 ^ (12 + k) < 2 ^ 32" by simp
  show "0 \<le> p * 2 ^ 12 + v mod 2 ^ (12 + k)" using assms(1) by simp
qed

lemma pte_bit_iff: "drop_bit n p AND 1 \<noteq> 0 \<longleftrightarrow> bit p n" for p :: int
  by (simp add: low_bit)

text \<open>Physical addresses of a leaf: the page number with the untranslated bits below it.\<close>

definition leaf_address :: "nat \<Rightarrow> int \<Rightarrow> int \<Rightarrow> int" where
  "leaf_address k p v = (p - p mod 2 ^ k) * 2 ^ 12 + v mod 2 ^ (12 + k)"

lemma leaf_aligned: "p mod 2 ^ k = 0 \<Longrightarrow> leaf_address k p v = p * 2 ^ 12 + v mod 2 ^ (12 + k)"
  by (simp add: leaf_address_def)

lemma leaf_page: "push_bit 12 p OR (v AND 0xFFF) = leaf_address 0 p v"
  by (simp add: page_address leaf_address_def)

lemma leaf_superpage:
  "push_bit 12 (push_bit k (p div 2 ^ k) OR (v div 2 ^ 12 mod 2 ^ k)) OR (v AND 0xFFF) = leaf_address k p v"
proof -
  have "(p - p mod 2 ^ k + v div 2 ^ 12 mod 2 ^ k) * 2 ^ 12 + v mod 2 ^ 12 =
      (p - p mod 2 ^ k) * 2 ^ 12 + ((v div 2 ^ 12 mod 2 ^ k) * 2 ^ 12 + v mod 2 ^ 12)"
    by (simp only: distrib_right add.assoc)
  moreover have "p div 2 ^ k = drop_bit k p" by (simp add: drop_bit_eq_div)
  ultimately show ?thesis unfolding page_address leaf_address_def split_offset by (simp only: superpage)
qed

lemma leaf_range:
  assumes "0 \<le> p" "p < 2 ^ 20" "k \<le> 20"
  shows "0 \<le> leaf_address k p v" "leaf_address k p v < 2 ^ 32"
proof -
  let ?q = "p - p mod 2 ^ k"
  have q: "?q = p div 2 ^ k * 2 ^ k" by (simp add: minus_mod_eq_div_mult)
  have "0 \<le> ?q" unfolding q using assms(1) by (simp add: pos_imp_zdiv_nonneg_iff)
  moreover have "?q \<le> p" by simp
  moreover have "?q mod 2 ^ k = 0" unfolding q by simp
  ultimately show "0 \<le> leaf_address k p v" "leaf_address k p v < 2 ^ 32"
    using pa_range [of ?q k v] assms(2,3) unfolding leaf_address_def by linarith+
qed

lemma sv32_walk:
  "translate_sv32 s v acc satp = walk_result s acc (u32 v)
     (page_walk (read_pte s) (\<lambda>pte. pte_perm_ok s pte acc) 2 10 1 (satp mod 2 ^ 20) (u32 v))"
proof -
  let ?perm = "\<lambda>pte. pte_perm_ok s pte acc"
  define V T where "V = u32 v" and "T = satp mod 2 ^ 20"
  define pte1 where "pte1 = read_pte s (T * 2 ^ 12 + (V div 2 ^ 22 mod 2 ^ 10) * 2 ^ 2)"
  define ppn1 where "ppn1 = pte1 div 2 ^ 10 mod 2 ^ 20"
  define pte0 where "pte0 = read_pte s (ppn1 * 2 ^ 12 + (V div 2 ^ 12 mod 2 ^ 10) * 2 ^ 2)"
  define ppn0 where "ppn0 = pte0 div 2 ^ 10 mod 2 ^ 20"
  have n: "x AND 0xFFFFF = x mod 2 ^ 20" "x AND 0x3FF = x mod 2 ^ 10" for x :: int
    by (simp_all add: and_mod_10 and_mod_20)
  have a: "push_bit 12 t OR push_bit 2 (x mod 2 ^ 10) = t * 2 ^ 12 + (x mod 2 ^ 10) * 2 ^ 2" for t x :: int
    by (rule pte_address [of _ 10]) simp_all
  have u: "u32 (leaf_address k ppn1 V) = leaf_address k ppn1 V" "u32 (leaf_address 0 ppn0 V) = leaf_address 0 ppn0 V"
    if "k \<le> 20" for k using leaf_range [of ppn1 k V] leaf_range [of ppn0 0 V] that
    by (simp_all add: u32_id ppn1_def ppn0_def)
  have ten: "10 \<le> (20::nat)" by simp
  have L: "translate_sv32 s v acc satp =
      (if \<not> bit pte1 0 then page_fault s acc V
       else if bit pte1 1 \<or> bit pte1 2 \<or> bit pte1 3 then
         (if ppn1 mod 2 ^ 10 \<noteq> 0 then page_fault s acc V
          else if \<not> pte_perm_ok s pte1 acc then page_fault s acc V else (Some (leaf_address 10 ppn1 V), s))
       else if \<not> bit pte0 0 then page_fault s acc V
       else if \<not> (bit pte0 1 \<or> bit pte0 2 \<or> bit pte0 3) then page_fault s acc V
       else if \<not> pte_perm_ok s pte0 acc then page_fault s acc V else (Some (leaf_address 0 ppn0 V), s))"
    unfolding translate_sv32_def Let_def pte_bit_iff V_def [symmetric] n a T_def [symmetric]
    unfolding drop_bit_eq_div pte1_def [symmetric]
    unfolding ppn1_def [symmetric]
    unfolding pte0_def [symmetric]
    unfolding ppn0_def [symmetric] leaf_superpage
    unfolding leaf_page u [OF ten] by (rule refl)
  have W0: "page_walk (read_pte s) (\<lambda>pte. pte_perm_ok s pte acc) 2 10 0 ppn1 V =
      (if \<not> bit pte0 0 then None else if bit pte0 1 \<or> bit pte0 2 \<or> bit pte0 3 then
         (if pte_perm_ok s pte0 acc then Some (leaf_address 0 ppn0 V) else None) else None)"
  proof -
    have "read_pte s (ppn1 * 2 ^ 12 + (V div 2 ^ (12 + 10 * 0) mod 2 ^ 10) * 2 ^ 2) = pte0" by (simp add: pte0_def)
    from page_walk_entry [where read = "read_pte s", OF this ppn0_def [symmetric], of ?perm] show ?thesis by (simp add: leaf_aligned)
  qed
  have W1: "page_walk (read_pte s) (\<lambda>pte. pte_perm_ok s pte acc) 2 10 1 T V =
      (if \<not> bit pte1 0 then None else if bit pte1 1 \<or> bit pte1 2 \<or> bit pte1 3 then
         (if ppn1 mod 2 ^ 10 = 0 \<and> pte_perm_ok s pte1 acc then Some (ppn1 * 2 ^ 12 + V mod 2 ^ 22) else None)
       else page_walk (read_pte s) (\<lambda>pte. pte_perm_ok s pte acc) 2 10 0 ppn1 V)"
  proof -
    have "read_pte s (T * 2 ^ 12 + (V div 2 ^ (12 + 10 * 1) mod 2 ^ 10) * 2 ^ 2) = pte1" by (simp add: pte1_def)
    from page_walk_entry [where read = "read_pte s", OF this ppn1_def [symmetric], of ?perm] show ?thesis by (simp)
  qed
  show ?thesis unfolding L W1 W0 V_def [symmetric] T_def [symmetric]
    using leaf_aligned [of ppn1 10 V] by (simp add: walk_result_def)
qed

text \<open>
  The same for the three levels of Sv39, whose page numbers the source truncates to 20
  bits as well; the mask to the register width is the identity on such addresses.
\<close>

lemma sv39_walk:
  assumes xl: "32 \<le> xlen s"
  shows "translate_sv39 s v acc satp = walk_result s acc v
     (page_walk (read_pte64 s) (\<lambda>pte. pte_perm_ok s pte acc) 3 9 2 (satp mod 2 ^ 20) v)"
proof -
  let ?perm = "\<lambda>pte. pte_perm_ok s pte acc" and ?pf = "page_fault s acc v"
  define T where "T = satp mod 2 ^ 20"
  define pte2 where "pte2 = read_pte64 s (T * 2 ^ 12 + (v div 2 ^ 30 mod 2 ^ 9) * 2 ^ 3)"
  define ppn2 where "ppn2 = pte2 div 2 ^ 10 mod 2 ^ 20"
  define pte1 where "pte1 = read_pte64 s (ppn2 * 2 ^ 12 + (v div 2 ^ 21 mod 2 ^ 9) * 2 ^ 3)"
  define ppn1 where "ppn1 = pte1 div 2 ^ 10 mod 2 ^ 20"
  define pte0 where "pte0 = read_pte64 s (ppn1 * 2 ^ 12 + (v div 2 ^ 12 mod 2 ^ 9) * 2 ^ 3)"
  define ppn0 where "ppn0 = pte0 div 2 ^ 10 mod 2 ^ 20"
  have n: "x AND 0xFFFFF = x mod 2 ^ 20" "x AND 0x1FF = x mod 2 ^ 9" "x AND 0x3FFFF = x mod 2 ^ 18" for x :: int
    by (simp_all add: and_mod_9 and_mod_18 and_mod_20)
  have a: "push_bit 12 t OR push_bit 3 (x mod 2 ^ 9) = t * 2 ^ 12 + (x mod 2 ^ 9) * 2 ^ 3" for t x :: int
    by (rule pte_address [of _ 9]) simp_all
  have vpn: "push_bit 18 q OR push_bit 9 (v div 2 ^ 21 mod 2 ^ 9) OR (v div 2 ^ 12 mod 2 ^ 9) =
      push_bit 18 q OR (v div 2 ^ 12 mod 2 ^ 18)" for q
  proof -
    have "v div 2 ^ 12 mod 2 ^ 18 = 2 ^ 9 * (v div 2 ^ 12 div 2 ^ 9 mod 2 ^ 9) + v div 2 ^ 12 mod 2 ^ 9"
      using zmod_zmult2_eq [of "2 ^ 9" "v div 2 ^ 12" "2 ^ 9"] by simp
    also have "v div 2 ^ 12 div 2 ^ 9 = v div 2 ^ 21" by (simp flip: zdiv_zmult2_eq)
    finally show ?thesis using or_low [of "v div 2 ^ 12 mod 2 ^ 9" 9 "v div 2 ^ 21 mod 2 ^ 9"]
      by (simp add: push_bit_eq_mult mult.commute)
  qed
  have u: "uxlen s (leaf_address k p v) = leaf_address k p v" if "0 \<le> p" "p < 2 ^ 20" "k \<le> 20" for k p
  proof -
    have "(2::int) ^ 32 \<le> 2 ^ xlen s" using xl by (intro power_increasing) simp_all
    then show ?thesis using leaf_range [OF that, of v] unfolding uxlen_def by (intro uXLEN_id) linarith+
  qed
  have us: "uxlen s (leaf_address 18 ppn2 v) = leaf_address 18 ppn2 v" "uxlen s (leaf_address 9 ppn1 v) = leaf_address 9 ppn1 v"
    "uxlen s (leaf_address 0 ppn0 v) = leaf_address 0 ppn0 v"
    by (rule u; simp add: ppn2_def ppn1_def ppn0_def)+
  have L: "translate_sv39 s v acc satp =
      (if \<not> bit pte2 0 then ?pf
       else if bit pte2 1 \<or> bit pte2 2 \<or> bit pte2 3 then
         (if ppn2 mod 2 ^ 18 \<noteq> 0 then ?pf else if \<not> ?perm pte2 then ?pf else (Some (leaf_address 18 ppn2 v), s))
       else if \<not> bit pte1 0 then ?pf
       else if bit pte1 1 \<or> bit pte1 2 \<or> bit pte1 3 then
         (if ppn1 mod 2 ^ 9 \<noteq> 0 then ?pf else if \<not> ?perm pte1 then ?pf else (Some (leaf_address 9 ppn1 v), s))
       else if \<not> bit pte0 0 then ?pf
       else if \<not> (bit pte0 1 \<or> bit pte0 2 \<or> bit pte0 3) then ?pf
       else if \<not> ?perm pte0 then ?pf else (Some (leaf_address 0 ppn0 v), s))"
    unfolding translate_sv39_def Let_def pte_bit_iff n a T_def [symmetric]
    unfolding drop_bit_eq_div pte2_def [symmetric]
    unfolding ppn2_def [symmetric]
    unfolding pte1_def [symmetric]
    unfolding ppn1_def [symmetric]
    unfolding pte0_def [symmetric]
    unfolding ppn0_def [symmetric] vpn leaf_superpage
    unfolding leaf_page us by (rule refl)
  have W0: "page_walk (read_pte64 s) ?perm 3 9 0 ppn1 v =
      (if \<not> bit pte0 0 then None else if bit pte0 1 \<or> bit pte0 2 \<or> bit pte0 3 then
         (if ?perm pte0 then Some (leaf_address 0 ppn0 v) else None) else None)"
  proof -
    have "read_pte64 s (ppn1 * 2 ^ 12 + (v div 2 ^ (12 + 9 * 0) mod 2 ^ 9) * 2 ^ 3) = pte0" by (simp add: pte0_def)
    from page_walk_entry [where read = "read_pte64 s", OF this ppn0_def [symmetric], of ?perm] show ?thesis by (simp add: leaf_aligned)
  qed
  have W1: "page_walk (read_pte64 s) ?perm 3 9 1 ppn2 v =
      (if \<not> bit pte1 0 then None else if bit pte1 1 \<or> bit pte1 2 \<or> bit pte1 3 then
         (if ppn1 mod 2 ^ 9 = 0 \<and> ?perm pte1 then Some (ppn1 * 2 ^ 12 + v mod 2 ^ 21) else None)
       else page_walk (read_pte64 s) ?perm 3 9 0 ppn1 v)"
  proof -
    have "read_pte64 s (ppn2 * 2 ^ 12 + (v div 2 ^ (12 + 9 * 1) mod 2 ^ 9) * 2 ^ 3) = pte1" by (simp add: pte1_def)
    from page_walk_entry [where read = "read_pte64 s", OF this ppn1_def [symmetric], of ?perm] show ?thesis by (simp)
  qed
  have W2: "page_walk (read_pte64 s) ?perm 3 9 2 T v =
      (if \<not> bit pte2 0 then None else if bit pte2 1 \<or> bit pte2 2 \<or> bit pte2 3 then
         (if ppn2 mod 2 ^ 18 = 0 \<and> ?perm pte2 then Some (ppn2 * 2 ^ 12 + v mod 2 ^ 30) else None)
       else page_walk (read_pte64 s) ?perm 3 9 1 ppn2 v)"
  proof -
    have "read_pte64 s (T * 2 ^ 12 + (v div 2 ^ (12 + 9 * 2) mod 2 ^ 9) * 2 ^ 3) = pte2" by (simp add: pte2_def)
    from page_walk_entry [where read = "read_pte64 s", OF this ppn2_def [symmetric], of ?perm] show ?thesis by (simp add: numeral_2_eq_2)
  qed
  show ?thesis unfolding L W2 W1 W0 T_def [symmetric]
    using leaf_aligned [of ppn2 18 v] leaf_aligned [of ppn1 9 v] by (simp add: walk_result_def)
qed

end
