(* ===== verification/Sv32_Spec.thy ===== *)
theory Sv32_Spec
  imports Iss_Priv
begin

text \<open>
  Sv32 page tables as the privileged architecture lays them out, and the proof that the walk of
  \<open>_translate_sv32\<close> computes what this description says. The description knows nothing of the
  accessed and dirty bits and of SUM and MXR, which the simulator does not have.
\<close>

subsection \<open>Entries and the walk over them\<close>

text \<open>
  The word at an address, the permission bits, and a walk written from the layout of an Sv32 entry:
  V, R, W, X and U are bits 0 to 4 and the 22 bits from bit 10 on are the page number. Addresses
  leave the walk with 34 bits; memory sees the low 32. A valid entry with W and without R is
  reserved: the walk reports it apart, with what its bits would give were it a leaf.
\<close>

definition word32_at :: "iss \<Rightarrow> int \<Rightarrow> int" where
  "word32_at s a = (\<Sum>i<4. load_mem_byte s (a mod 2 ^ 32 + int i) * 256 ^ i)"

definition entry_grants :: "access \<Rightarrow> bool \<Rightarrow> int \<Rightarrow> bool" where
  "entry_grants acc user pte \<longleftrightarrow>
     bit pte (case acc of Load \<Rightarrow> 1 | Store \<Rightarrow> 2 | Fetch \<Rightarrow> 3) \<and> (bit pte 4 \<longleftrightarrow> user)"

datatype sv32_outcome = SvFault | SvReserved "int option" | SvAddress int

definition sv32_visit :: "(int \<Rightarrow> int) \<Rightarrow> access \<Rightarrow> bool \<Rightarrow> nat \<Rightarrow> int \<Rightarrow> int \<Rightarrow> (int \<Rightarrow> sv32_outcome) \<Rightarrow> sv32_outcome" where
  "sv32_visit read acc user level table va descend =
     (let pte = read (table * 2 ^ 12 + va div 2 ^ (12 + 10 * level) mod 2 ^ 10 * 2 ^ 2);
          ppn = pte div 2 ^ 10 mod 2 ^ 22;
          leaf = (if ppn mod 2 ^ (10 * level) = 0 \<and> entry_grants acc user pte
                  then Some (ppn * 2 ^ 12 + va mod 2 ^ (12 + 10 * level)) else None)
      in if \<not> bit pte 0 then SvFault
         else if bit pte 2 \<and> \<not> bit pte 1 then SvReserved leaf
         else if bit pte 1 \<or> bit pte 3 then (case leaf of None \<Rightarrow> SvFault | Some pa \<Rightarrow> SvAddress pa)
         else descend ppn)"

primrec sv32_spec :: "(int \<Rightarrow> int) \<Rightarrow> access \<Rightarrow> bool \<Rightarrow> nat \<Rightarrow> int \<Rightarrow> int \<Rightarrow> sv32_outcome" where
  "sv32_spec read acc user 0 table va = sv32_visit read acc user 0 table va (\<lambda>_. SvFault)"
| "sv32_spec read acc user (Suc l) table va =
     sv32_visit read acc user (Suc l) table va (\<lambda>ppn. sv32_spec read acc user l ppn va)"

subsection \<open>The simulator's walk\<close>

text \<open>What the simulator makes of an outcome: a reserved entry counts as a leaf.\<close>

definition sv32_address :: "sv32_outcome \<Rightarrow> int option" where
  "sv32_address r = map_option (\<lambda>pa. pa mod 2 ^ 32) (case r of SvFault \<Rightarrow> None | SvReserved leaf \<Rightarrow> leaf | SvAddress pa \<Rightarrow> Some pa)"

lemma load_le_sum: "iss_wf s \<Longrightarrow> load_le s a n = (\<Sum>i<n. load_mem_byte s (a + int i) * 256 ^ i)"
proof (induction n)
  case (Suc n)
  have "load_le s a n OR push_bit (8 * n) b = load_le s a n + b * 2 ^ (8 * n)" for b
    using load_le_range [OF Suc.prems, of a n] or_low [of "load_le s a n" "8 * n" b]
    by (simp add: push_bit_eq_mult or.commute)
  moreover have "(2 :: int) ^ (8 * n) = 256 ^ n" by (simp add: power_mult)
  ultimately show ?case using Suc by simp
qed simp

lemma word32_read: "iss_wf s \<Longrightarrow> word32_at s a = read_pte s a"
proof -
  assume wf: "iss_wf s"
  have m: "a AND 0xFFFFFFFF = a mod 2 ^ 32" using and_mask_mod [of a 32] by simp
  show ?thesis using load_le_sum [OF wf, of "a mod 2 ^ 32" 4]
    by (simp add: word32_at_def read_pte_def Let_def load4_le m)
qed

lemma grants_perm: "pte_perm_ok s pte acc \<longleftrightarrow> entry_grants acc (priv_mode s = 0) pte"
proof -
  have z: "drop_bit n pte AND 1 = 0 \<longleftrightarrow> \<not> bit pte n" for n using pte_bit_iff [of n pte] by blast
  show ?thesis unfolding pte_perm_ok_def entry_grants_def Let_def z by (cases acc) auto
qed

lemma ppn_cut: "p mod 2 ^ 22 mod 2 ^ 20 = p mod 2 ^ 20" for p :: int
  by (simp add: mod_mod_cancel)

lemma page_cut: "(p * 2 ^ 12 + x) mod 2 ^ 32 = (p mod 2 ^ 20 * 2 ^ 12 + x) mod 2 ^ 32" for p x :: int
proof -
  have "p * 2 ^ 12 mod 2 ^ 32 = p mod 2 ^ 20 * 2 ^ 12" using mult_mod_right [of "2 ^ 12" p "2 ^ 20"] by (simp add: mult.commute)
  then show ?thesis by (metis mod_add_left_eq mod_mod_trivial)
qed

lemma aligned_cut: "k \<le> 20 \<Longrightarrow> p mod 2 ^ 22 mod 2 ^ k = 0 \<longleftrightarrow> p mod 2 ^ 20 mod 2 ^ k = 0" for p :: int
proof -
  assume "k \<le> 20"
  then have "(2 :: int) ^ k dvd 2 ^ 22" "(2 :: int) ^ k dvd 2 ^ 20" 
    using le_imp_power_dvd [of k 22 "2 :: int"] le_imp_power_dvd [of k 20 "2 :: int"] by simp_all
  then show ?thesis by (simp only: mod_mod_cancel)
qed

text \<open>The two walks agree level by level.\<close>

lemma visit_walk:
  assumes "iss_wf s" "10 * level \<le> 20"
    and down: "\<And>ppn. sv32_address (descend ppn) =
      (case level of 0 \<Rightarrow> None | Suc l \<Rightarrow> page_walk (read_pte s) (\<lambda>pte. pte_perm_ok s pte acc) 2 10 l (ppn mod 2 ^ 20) va)"
  shows "sv32_address (sv32_visit (word32_at s) acc (priv_mode s = 0) level table va descend) =
    page_walk (read_pte s) (\<lambda>pte. pte_perm_ok s pte acc) 2 10 level (table mod 2 ^ 20) va"
proof -
  let ?i = "va div 2 ^ (12 + 10 * level) mod 2 ^ 10 * 2 ^ 2"
  define pte where "pte = read_pte s (table mod 2 ^ 20 * 2 ^ 12 + ?i)"
  have r: "word32_at s (table * 2 ^ 12 + ?i) = pte"
    unfolding pte_def word32_read [OF assms(1), symmetric] word32_at_def page_cut [of table] by simp
  define ppn where "ppn = pte div 2 ^ 10 mod 2 ^ 20"
  have p: "pte div 2 ^ 10 mod 2 ^ 22 mod 2 ^ 20 = ppn" unfolding ppn_def by (rule ppn_cut)
  have al: "pte div 2 ^ 10 mod 2 ^ 22 mod 2 ^ (10 * level) = 0 \<longleftrightarrow> ppn mod 2 ^ (10 * level) = 0"
    unfolding ppn_def by (rule aligned_cut [OF assms(2)])
  have "0 \<le> ppn" "ppn < 2 ^ 20" by (simp_all add: ppn_def)
  then have pa: "(pte div 2 ^ 10 mod 2 ^ 22 * 2 ^ 12 + va mod 2 ^ (12 + 10 * level)) mod 2 ^ 32 =
      ppn * 2 ^ 12 + va mod 2 ^ (12 + 10 * level)" if "ppn mod 2 ^ (10 * level) = 0"
    using leaf_range [of ppn "10 * level" va] assms(2) that unfolding page_cut [of "pte div 2 ^ 10 mod 2 ^ 22"] p
    by (simp add: leaf_aligned)
  show ?thesis
    unfolding page_walk_entry [where read = "read_pte s", OF pte_def [symmetric] ppn_def [symmetric]]
    unfolding sv32_visit_def Let_def r al grants_perm
    using down [of "pte div 2 ^ 10 mod 2 ^ 22"] pa unfolding p grants_perm by (auto simp: sv32_address_def)
qed

lemma spec_walk:
  assumes "iss_wf s"
  shows "sv32_address (sv32_spec (word32_at s) acc (priv_mode s = 0) 1 table va) =
    page_walk (read_pte s) (\<lambda>pte. pte_perm_ok s pte acc) 2 10 1 (table mod 2 ^ 20) va"
proof -
  have "sv32_address (sv32_spec (word32_at s) acc (priv_mode s = 0) 0 t va) =
      page_walk (read_pte s) (\<lambda>pte. pte_perm_ok s pte acc) 2 10 0 (t mod 2 ^ 20) va" for t
    unfolding sv32_spec.simps by (rule visit_walk [OF assms]) (simp_all add: sv32_address_def)
  then show ?thesis unfolding One_nat_def sv32_spec.simps by (intro visit_walk [OF assms]) simp_all
qed

end
