(* ===== verification/Iss_Props.thy ===== *)
theory Iss_Props
  imports Iss_Arith Iss_Bytes Sv32_Spec
begin

text \<open>
  The properties of the instruction-set simulator, each with an instance on the machine
  of 16 or 64 bytes that \<open>ISS.__init__\<close> builds.
\<close>

lemma init32: "iss_wf (iss_init 16 32)"
  by (rule wf_init) simp_all

lemma init_sel: "pc (iss_init n x) = 0" "priv_mode (iss_init n x) = 3" "xlen (iss_init n x) = x"
  by (simp_all add: iss_init_def)

lemma init64: "iss_wf (iss_init 64 64)"
  by (rule wf_init) simp_all

text \<open>
  C1. Every instruction keeps the state well formed: 32 registers in the range of the
  register width with \<open>x0\<close> zero, bytes in a memory of the size the mask says, a program counter
  that is not negative, the fixed set of CSRs, none negative and all of them 32-bit values but
  \<open>mepc\<close> and \<open>sepc\<close> (a trap stores the program counter there as it is), a two-bit privilege mode
  (the reserved mode 2 included), 32-bit floating-point registers, \<open>frm\<close> and \<open>fflags\<close> of three and
  five bits.
\<close>

theorem step_preserves_wf:
  assumes "iss_wf s" "step s word = Inr s'"
  shows "iss_wf s'"
  using assms by (rule step_wf)

theorem step_preserves_wf_witness:
  "iss_wf (iss_init 16 32) \<and> step (iss_init 16 32) 0x00500093 = Inr ((wr (iss_init 16 32) 1 5)\<lparr>pc := 4\<rparr>) \<and>
   iss_wf ((wr (iss_init 16 32) 1 5)\<lparr>pc := 4\<rparr>)"
proof -
  have "step (iss_init 16 32) 0x00500093 = Inr ((wr (iss_init 16 32) 1 5)\<lparr>pc := 4\<rparr>)"
    by (simp add: step_def op_of_def step_op_imm_def alu_imm_def f3_of_def imm_i_of_def sext_def Let_def rd_of_def
        reg_a_def rs1_of_def uXLEN_def iss_init_def)
  with step_preserves_wf [OF init32 this] init32 show ?thesis by blast
qed

text \<open>
  C3. A step on a well-formed state raises exactly on the undefined encodings of the
  arithmetic, load, store and floating-point opcodes (\<open>ValueError\<close>; for loads and stores
  only after a successful translation) and on an environment call in the reserved
  privilege mode 2 (\<open>KeyError\<close>). No other exception and no divergence is possible.
\<close>

theorem step_errors_exactly:
  assumes "iss_wf s"
  shows "step s word = Inl e \<longleftrightarrow>
    (undefined_alu word \<or> undefined_mem s word) \<and> e = ValueError \<or> reserved_ecall s word \<and> e = KeyError"
  by (rule step_raises [OF assms])

theorem step_errors_exactly_witness:
  "iss_wf (iss_init 16 32) \<and> step (iss_init 16 32) 0x04000033 = Inl ValueError \<and>
   step (iss_init 16 32) 0x00000073 \<noteq> Inl KeyError"
proof -
  have "undefined_alu 0x04000033" by (simp add: undefined_alu_def op_of_def f3_of_def f7_of_def)
  moreover have "\<not> reserved_ecall (iss_init 16 32) 0x73" by (simp add: reserved_ecall_def iss_init_def)
  ultimately show ?thesis
    using init32 step_errors_exactly [OF init32, of "0x04000033" ValueError] step_errors_exactly [OF init32, of "0x73" KeyError]
    by simp
qed

text \<open>
  C32. A load of the same size right after a store returns the value stored, sign-extended
  by \<open>lb\<close>, \<open>lh\<close> and \<open>lw\<close>, zero-extended by \<open>lbu\<close>, \<open>lhu\<close> and \<open>lwu\<close> (little-endian, over a
  memory of \<open>2 ^ k\<close> bytes at least as large as the access, also when the access wraps around its
  end). Of an access that reaches the MMIO range at \<open>0x10000000\<close> only the bytes below it count: the
  others are not stored and read as zero, and a store that starts there changes nothing.
\<close>

theorem load_after_store:
  assumes "iss_wf s" "mem_mask s = 2 ^ k - 1" "2 ^ nat f3 \<le> (2 ^ k :: nat)" "0 \<le> f3" "f3 < 4"
  shows "let v = B mod 2 ^ (8 * ram_bytes a (2 ^ nat f3))
    in \<exists>s'. store_value s f3 a B = Inr s' \<and> (0x10000000 \<le> a \<longrightarrow> s' = s) \<and>
    load_value s' f3 a = Inr (if f3 = 3 then v else sext v (8 * 2 ^ nat f3)) \<and>
    (f3 < 3 \<longrightarrow> load_value s' (f3 + 4) a = Inr v)"
proof -
  define v where "v = B mod 2 ^ (8 * ram_bytes a (2 ^ nat f3))"
  define s' where "s' = store_le s a B (2 ^ nat f3)"
  have wf: "iss_wf s'" unfolding s'_def by (rule wf_store_le [OF assms(1)])
  have l: "load_le s' a (2 ^ nat f3) = v"
    unfolding s'_def v_def by (rule load_store_ram [OF assms(1,2,3)])
  from assms(4,5) consider "f3 = 0" | "f3 = 1" | "f3 = 2" | "f3 = 3" by linarith
  then have "load_value s' f3 a = Inr (if f3 = 3 then v else sext v (8 * 2 ^ nat f3)) \<and>
      (f3 < 3 \<longrightarrow> load_value s' (f3 + 4) a = Inr v)"
    by cases (use l load_value_le [OF wf, of a] in simp_all)
  moreover have "0x10000000 \<le> a \<Longrightarrow> s' = s" using access_cut(1) [of a 0 s B] by (simp add: s'_def)
  ultimately show ?thesis using store_value_le [OF assms(4,5), of s a B] by (auto simp: Let_def v_def s'_def)
qed

theorem load_after_store_witness:
  "(\<exists>s'. store_value (iss_init 16 32) 1 14 0x18001 = Inr s' \<and> load_value s' 1 14 = Inr (- 32767) \<and>
     load_value s' 5 14 = Inr 0x8001) \<and>
   (\<exists>s'. store_value (iss_init 16 32) 2 0xFFFFFFE 0x12345678 = Inr s' \<and> load_value s' 2 0xFFFFFFE = Inr 0x5678) \<and>
   store_value (iss_init 16 32) 2 0x10000000 7 = Inr (iss_init 16 32) \<and> load_value (iss_init 16 32) 2 0x10000000 = Inr 0"
proof -
  have m: "mem_mask (iss_init 16 32) = 2 ^ 4 - 1" by (simp add: iss_init_def)
  show ?thesis
    using load_after_store [OF init32 m, of 1 "0x18001" 14] load_after_store [OF init32 m, of 2 "0x12345678" "0xFFFFFFE"]
      load_after_store [OF init32 m, of 2 7 "0x10000000"]
    by (simp add: ram_bytes_def sext_def Let_def) auto
qed

text \<open>
  C33. A trap taken in M-mode followed by \<open>mret\<close> resumes the interrupted context: program
  counter, privilege mode, registers and memory are those before the trap, and of
  \<open>mstatus\<close> only MPIE (now set) and MPP (now zero) may differ.
\<close>

theorem mret_undoes_trap:
  assumes "iss_wf s" "\<not> takes_to_s s cause"
  shows "let s' = mret (trap s cause tval)
         in pc s' = pc s \<and> priv_mode s' = priv_mode s \<and> regs s' = regs s \<and> mem s' = mem s \<and> fregs s' = fregs s \<and>
            {n. bit (csr_at s' 0x300) n} - {7, 11, 12} = {n. bit (csr_at s 0x300) n} - {7, 11, 12} \<and>
            bit (csr_at s' 0x300) 7 \<and> \<not> bit (csr_at s' 0x300) 11 \<and> \<not> bit (csr_at s' 0x300) 12"
  unfolding Let_def set_eq_iff by (simp add: mret_trap [OF assms])

theorem mret_undoes_trap_witness:
  "iss_wf (iss_init 16 32) \<and> \<not> takes_to_s (iss_init 16 32) 11 \<and>
   pc (mret (trap (iss_init 16 32) 11 0)) = 0 \<and> priv_mode (mret (trap (iss_init 16 32) 11 0)) = 3"
proof -
  have "\<not> takes_to_s (iss_init 16 32) 11" by (simp add: takes_to_s_def init_sel)
  moreover from mret_undoes_trap [OF init32 this, of 0]
  have "pc (mret (trap (iss_init 16 32) 11 0)) = pc (iss_init 16 32)"
    "priv_mode (mret (trap (iss_init 16 32) 11 0)) = priv_mode (iss_init 16 32)" unfolding Let_def by blast+
  ultimately show ?thesis using init32 by (simp only: init_sel simp_thms)
qed

text \<open>
  A trap delegated to S-mode from U-mode or S-mode followed by \<open>sret\<close> resumes the
  interrupted context; of \<open>mstatus\<close> only SPIE (now set) and SPP (now clear) may differ.
\<close>

lemma sret_undoes_trap:
  assumes "iss_wf s" "takes_to_s s cause" "priv_mode s < 2"
  shows "let s' = sret (trap s cause tval)
         in pc s' = pc s \<and> priv_mode s' = priv_mode s \<and> regs s' = regs s \<and> mem s' = mem s \<and> fregs s' = fregs s \<and>
            {n. bit (csr_at s' 0x300) n} - {5, 8} = {n. bit (csr_at s 0x300) n} - {5, 8} \<and>
            bit (csr_at s' 0x300) 5 \<and> \<not> bit (csr_at s' 0x300) 8"
  unfolding Let_def set_eq_iff by (simp add: sret_trap [OF assms])

definition user_state :: iss where
  "user_state = (csr_write (iss_init 16 32) 0x302 0x100)\<lparr>priv_mode := 0, pc := 8\<rparr>"

lemma user_state_wf: "iss_wf user_state"
  unfolding user_state_def by (intro wf_intro init32) simp_all

lemma user_state_csr: "csr_at user_state 0x302 = 0x100"
  using csr_write_plain [OF init32, of "0x302" "0x100"] by (simp add: user_state_def writable_def)

text \<open>
  C34. Reading any CSR address right after writing it returns the value masked to the
  writable bits of that register, with the read-only XLEN fields of \<open>mstatus\<close> on a 64-bit
  core; an unimplemented address reads as zero. This covers the supervisor views
  (\<open>sstatus\<close>, \<open>sie\<close>, \<open>sip\<close>) and \<open>fcsr\<close> with its two halves.
\<close>

theorem csr_read_after_write:
  assumes "iss_wf s"
  shows "csr_read (csr_write s addr val) addr = (val AND writable addr) OR fixed_bits s addr"
  by (rule csr_read_write [OF assms])

theorem csr_read_after_write_witness:
  "csr_read (csr_write (iss_init 16 32) 0x100 0xFFFFFFFF) 0x100 = 0x122 \<and>
   csr_read (csr_write (iss_init 16 32) 0x300 0xFFFFFFFF) 0x300 = 0x19AA"
  using csr_read_after_write [OF init32, of "0x100" "0xFFFFFFFF"] csr_read_after_write [OF init32, of "0x300" "0xFFFFFFFF"]
  by (simp add: writable_def fixed_bits_def init_sel)

text \<open>
  C35. An instruction that needs more privilege than the current mode has (a CSR access
  above its level, \<open>mret\<close> outside M-mode, \<open>sret\<close> or \<open>sfence.vma\<close> in U-mode) has no effect
  other than the illegal-instruction trap.
\<close>

theorem privileged_instructions_trap:
  assumes "needs_more (priv_mode s) word"
  shows "step s word = Inr (trap s 2 0)"
  by (rule step_needs_more [OF assms])

theorem privileged_instructions_trap_witness:
  "needs_more 0 0x30200073 \<and> step user_state 0x30200073 = Inr (trap user_state 2 0) \<and>
   step user_state 0x30051073 = Inr (trap user_state 2 0)"
proof -
  have p: "priv_mode user_state = 0" by (simp add: user_state_def)
  have n: "needs_more 0 0x30200073" "needs_more 0 0x30051073"
    by (simp_all add: needs_more_def op_of_def f3_of_def f7_of_def)
  show ?thesis
    using n privileged_instructions_trap [of user_state "0x30200073"] privileged_instructions_trap [of user_state "0x30051073"] p
    by simp
qed

text \<open>
  C36. The Sv32 translation is the two-level walk over the tables of the entry format: entries of
  four little-endian bytes, the valid, permission and user bits, page numbers of 22 bits, aligned
  superpages, physical addresses cut to the 32 bits of this core, page-fault causes 12, 13 and 15
  with the address as the trap value, and no other effect. It has no accessed and dirty bits and
  neither SUM nor MXR, and it departs from the architecture in one case: an entry that is writable
  and not readable, which is reserved and must fault, is taken as a leaf that grants what its bits say.
\<close>

theorem sv32_implements_walk:
  assumes "iss_wf s"
  shows "translate_sv32 s vaddr acc satp =
    (case sv32_address (sv32_spec (word32_at s) acc (priv_mode s = 0) 1 (satp mod 2 ^ 22) (vaddr mod 2 ^ 32)) of
       Some pa \<Rightarrow> (Some pa, s)
     | None \<Rightarrow> (None, trap s (case acc of Fetch \<Rightarrow> 12 | Load \<Rightarrow> 13 | Store \<Rightarrow> 15) (vaddr mod 2 ^ 32)))"
proof -
  have "satp mod 2 ^ 22 mod 2 ^ 20 = satp mod 2 ^ 20" by (rule ppn_cut)
  then show ?thesis
    unfolding spec_walk [OF assms] sv32_walk u32_mod
    by (cases acc) (simp_all add: walk_result_def page_fault_def fault_cause_def split: option.split)
qed

definition paged_state :: "int \<Rightarrow> iss" where
  "paged_state pte = (iss_init 16 32)\<lparr>mem := pte # replicate 15 0, priv_mode := 0\<rparr>"

lemma paged_state_wf: "0 \<le> pte \<Longrightarrow> pte < 256 \<Longrightarrow> iss_wf (paged_state pte)"
  using init32 by (simp add: paged_state_def iss_wf_def iss_init_def list_all_iff)

theorem sv32_implements_walk_witness:
  "translate_sv32 (paged_state 0x1F) 0x1234 Store 0 = (Some 0x1234, paged_state 0x1F) \<and>
   translate_sv32 (paged_state 0x0F) 0x1234 Store 0 = (None, trap (paged_state 0x0F) 15 0x1234) \<and>
   translate_sv32 (paged_state 0x15) 0x1234 Store 0 = (Some 0x1234, paged_state 0x15)"
proof -
  have w: "word32_at (paged_state pte) 0 = pte" for pte
  proof -
    have "{..<4 :: nat} = {0, 1, 2, 3}" by auto
    then show ?thesis by (simp add: word32_at_def load_mem_byte_def paged_state_def iss_init_def and_mod_4)
  qed
  have b: "bit (0x1F :: int) 0" "bit (0x1F :: int) 2" "bit (0x1F :: int) 1" "bit (0x1F :: int) 4"
    "bit (0x0F :: int) 0" "bit (0x0F :: int) 1" "\<not> bit (0x0F :: int) 4"
    "bit (0x15 :: int) 0" "\<not> bit (0x15 :: int) 1" "bit (0x15 :: int) 2" "bit (0x15 :: int) 4" by simp_all
  have p: "priv_mode (paged_state pte) = 0" for pte by (simp add: paged_state_def)
  show ?thesis
    using sv32_implements_walk [OF paged_state_wf, of "0x1F" "0x1234" Store 0]
      sv32_implements_walk [OF paged_state_wf, of "0x0F" "0x1234" Store 0]
      sv32_implements_walk [OF paged_state_wf, of "0x15" "0x1234" Store 0]
    by (simp add: sv32_visit_def Let_def w p b entry_grants_def sv32_address_def)
qed

text \<open>
  C37. The Sv39 translation is the three-level walk with 8-byte entries and 9-bit levels.
\<close>

theorem sv39_implements_walk:
  assumes "32 \<le> xlen s"
  shows "translate_sv39 s vaddr acc satp = walk_result s acc vaddr
     (page_walk (read_pte64 s) (\<lambda>pte. pte_perm_ok s pte acc) 3 9 2 (satp mod 2 ^ 20) vaddr)"
  by (rule sv39_walk [OF assms])

theorem sv39_implements_walk_witness:
  "translate_sv39 (iss_init 64 64) 0x1234 Load 0 = walk_result (iss_init 64 64) Load 0x1234
     (page_walk (read_pte64 (iss_init 64 64)) (\<lambda>pte. pte_perm_ok (iss_init 64 64) pte Load) 3 9 2 (0 mod 2 ^ 20) 0x1234)"
  by (rule sv39_implements_walk) (simp add: iss_init_def)

text \<open>
  C38. On a core whose register width is not 32 the simulation always returns: with a
  step count, with the exception of an instruction, or with the budget exceeded.
\<close>

theorem wide_run_terminates:
  assumes "iss_wf s" "xlen s \<noteq> 32"
  shows "\<exists>r. run s words max_steps = Some r"
  by (rule wide_run_returns [OF assms])

theorem wide_run_terminates_witness: "\<exists>r. run (iss_init 64 64) [0x00500093, 0x0000006F] 20000 = Some r"
  by (rule wide_run_terminates [OF init64]) (simp add: iss_init_def)

text \<open>
  C39. With instruction page faults delegated to S-mode and no valid page-table entry in
  memory, \<open>run\<close> of a 32-bit core in S-mode never returns, whatever the step budget: the
  faulting fetch is retried without counting a step.
\<close>

theorem delegated_fault_loops_forever:
  assumes "fault_storm s" "0 < max_steps"
  shows "run s words max_steps = None"
  by (rule storm_run_diverges [OF assms])

definition storm_state :: iss where
  "storm_state = (csr_write (csr_write (iss_init 16 32) 0x302 0x1000) 0x180 0x80000000)\<lparr>priv_mode := 1\<rparr>"

theorem delegated_fault_loops_forever_witness: "fault_storm storm_state \<and> run storm_state [0x0000006F] 20000 = None"
proof -
  have l: "load_mem_byte storm_state a = 0" for a
  proof -
    have "a mod 16 < 16" "0 \<le> a mod 16" by simp_all
    then have "nat (a mod 16) < 16" by linarith
    then show ?thesis
      by (simp add: load_mem_byte_def storm_state_def csr_write_def csr_store_def csr_put_def iss_init_def and_mod_4)
  qed
  have "fault_storm storm_state"
    unfolding fault_storm_def using l
    by (simp add: storm_state_def csr_write_def csr_store_def csr_put_def csr_at_def iss_init_def csr_reset_def u32_def)
  then show ?thesis using delegated_fault_loops_forever [of storm_state 20000 "[0x0000006F]"] by simp
qed

text \<open>
  No reachable state of a core wider than 32 bits translates an address: \<open>satp\<close> is
  stored as a 32-bit value, so its mode field is always zero and the Sv39 walk is never
  entered.
\<close>

lemma wide_core_never_translates:
  assumes "iss_wf s" "xlen s \<noteq> 32"
  shows "translate (csr_write s 0x180 satp) vaddr acc =
    (Some (uxlen s vaddr), csr_write s 0x180 satp)"
proof -
  have "xlen (csr_write s 0x180 satp) = xlen s" by (rule csr_xlen)
  then show ?thesis
    using no_sv39 [OF wf_csr_write [OF assms(1)], of "0x180" satp vaddr acc] assms(2) by (simp add: uxlen_def)
qed

text \<open>
  Software in M-mode can enter the reserved privilege mode 2: writing 2 to the MPP
  field of \<open>mstatus\<close> is not rejected, \<open>mret\<close> then sets mode 2, and an environment call
  there raises a \<open>KeyError\<close> instead of trapping.
\<close>

lemma reserved_mode_crashes:
  assumes "iss_wf s"
  shows "priv_mode (mret (csr_write s 0x300 0x1000)) = 2 \<and>
    step (mret (csr_write s 0x300 0x1000)) 0x73 = Inl KeyError"
  using mpp_two_reachable [OF assms] ecall_in_reserved by simp

end
