(* ===== verification/Asm.thy ===== *)
theory Asm
  imports Prelude
begin

text \<open>
  The instruction encoders of \<open>sim/tools/asm.py\<close>: its tables, the range check of immediates
  and one definition per encoder. An operand is an integer or a token of the source text
  (\<open>imm\<close> accepts both); reading a token as a number is Python's \<open>int(tok, 0)\<close>. Tokens are
  ASCII. A missing table key is \<open>KeyError\<close>, an immediate out of range \<open>ValueError\<close>.
\<close>

subsection \<open>Python strings\<close>

definition py_space :: "char \<Rightarrow> bool" where
  "py_space c \<longleftrightarrow> (let n = of_char c :: nat in n = 32 \<or> (9 \<le> n \<and> n \<le> 13) \<or> (28 \<le> n \<and> n \<le> 31))"

definition py_strip :: "string \<Rightarrow> string" where
  "py_strip s = rev (dropWhile py_space (rev (dropWhile py_space s)))"

definition py_digit :: "char \<Rightarrow> bool" where
  "py_digit c \<longleftrightarrow> (let n = of_char c :: nat in 48 \<le> n \<and> n \<le> 57)"

definition py_upper :: "char \<Rightarrow> bool" where
  "py_upper c \<longleftrightarrow> (let n = of_char c :: nat in 65 \<le> n \<and> n \<le> 90)"

definition py_lower_char :: "char \<Rightarrow> char" where
  "py_lower_char c = (if py_upper c then char_of (of_char c + 32 :: nat) else c)"

definition py_lower :: "string \<Rightarrow> string" where
  "py_lower s = map py_lower_char s"

definition py_alnum :: "char \<Rightarrow> bool" where
  "py_alnum c \<longleftrightarrow> py_digit c \<or> py_upper c \<or> (let n = of_char c :: nat in 97 \<le> n \<and> n \<le> 122)"

definition py_word :: "char \<Rightarrow> bool" where
  "py_word c \<longleftrightarrow> py_alnum c \<or> c = CHR ''_''"

text \<open>The value of a digit in bases up to 36; 36 for any other character.\<close>

definition digit_val :: "char \<Rightarrow> nat" where
  "digit_val c =
     (let n = of_char c :: nat
      in if 48 \<le> n \<and> n \<le> 57 then n - 48
         else if 97 \<le> n \<and> n \<le> 122 then n - 87
         else if 65 \<le> n \<and> n \<le> 90 then n - 55 else 36)"

text \<open>Digits of a base with single underscores between them; \<open>us\<close> allows one right here.\<close>

fun int_digits :: "nat \<Rightarrow> bool \<Rightarrow> string \<Rightarrow> int \<Rightarrow> int option" where
  "int_digits b us [] acc = None"
| "int_digits b us (c # cs) acc =
     (if c = CHR ''_'' then
        (if us then int_digits b False cs acc else None)
      else if digit_val c < b then
        (if cs = [] then Some (acc * int b + int (digit_val c))
         else int_digits b True cs (acc * int b + int (digit_val c)))
      else None)"

definition int_body :: "string \<Rightarrow> int option" where
  "int_body s =
     (case s of
        c # d # rest \<Rightarrow>
          (if c = CHR ''0'' \<and> py_lower_char d = CHR ''x'' then int_digits 16 True rest 0
           else if c = CHR ''0'' \<and> py_lower_char d = CHR ''o'' then int_digits 8 True rest 0
           else if c = CHR ''0'' \<and> py_lower_char d = CHR ''b'' then int_digits 2 True rest 0
           else (case int_digits 10 False s 0 of None \<Rightarrow> None
                 | Some v \<Rightarrow> if c = CHR ''0'' \<and> v \<noteq> 0 then None else Some v))
      | _ \<Rightarrow> int_digits 10 False s 0)"

text \<open>\<open>int(tok, 0)\<close>: surrounding whitespace, a sign, then a literal in any of Python's bases.\<close>

definition py_int0 :: "string \<Rightarrow> int result" where
  "py_int0 tok =
     (case py_strip tok of
        [] \<Rightarrow> Inl ValueError
      | c # cs \<Rightarrow>
          (case (if c = CHR ''-'' then map_option uminus (int_body cs)
                 else if c = CHR ''+'' then int_body cs else int_body (c # cs)) of
             None \<Rightarrow> Inl ValueError | Some v \<Rightarrow> Inr v))"

text \<open>\<open>int(digits)\<close> on the digits the register patterns match.\<close>

fun dec_val :: "string \<Rightarrow> int \<Rightarrow> int" where
  "dec_val [] acc = acc"
| "dec_val (c # cs) acc = dec_val cs (acc * 10 + int (digit_val c))"

subsection \<open>Registers and immediates\<close>

definition numbered :: "char \<Rightarrow> string \<Rightarrow> int result" where
  "numbered k tok =
     (case py_strip tok of
        [] \<Rightarrow> Inl ValueError
      | c # cs \<Rightarrow>
          if c = k \<and> cs \<noteq> [] \<and> list_all py_digit cs
          then (if dec_val cs 0 \<le> 31 then Inr (dec_val cs 0) else Inl ValueError)
          else Inl ValueError)"

definition asm_reg :: "string \<Rightarrow> int result" where "asm_reg tok = numbered CHR ''x'' tok"
definition asm_freg :: "string \<Rightarrow> int result" where "asm_freg tok = numbered CHR ''f'' tok"

datatype operand = Num int | Tok string

definition operand_int :: "operand \<Rightarrow> int result" where
  "operand_int t = (case t of Num v \<Rightarrow> Inr v | Tok s \<Rightarrow> py_int0 (py_strip s))"

definition asm_imm :: "operand \<Rightarrow> nat \<Rightarrow> bool \<Rightarrow> int result" where
  "asm_imm tok bits signed =
     rbind (operand_int tok) (\<lambda>v.
       let lo = (if signed then - push_bit (bits - 1) 1 else 0);
           hi = (if signed then push_bit (bits - 1) 1 - 1 else push_bit bits 1 - 1)
       in if lo \<le> v \<and> v \<le> hi then Inr (v AND (push_bit bits 1 - 1)) else Inl ValueError)"

definition asm_u :: "int \<Rightarrow> nat \<Rightarrow> int" where
  "asm_u v bits = v AND (push_bit bits 1 - 1)"

subsection \<open>Tables\<close>

abbreviation (input) OP_R :: int where "OP_R \<equiv> 0x33"
abbreviation (input) OP_I :: int where "OP_I \<equiv> 0x13"
abbreviation (input) OP_LOAD :: int where "OP_LOAD \<equiv> 0x03"
abbreviation (input) OP_STORE :: int where "OP_STORE \<equiv> 0x23"
abbreviation (input) OP_BRANCH :: int where "OP_BRANCH \<equiv> 0x63"
abbreviation (input) OP_JAL :: int where "OP_JAL \<equiv> 0x6F"
abbreviation (input) OP_JALR :: int where "OP_JALR \<equiv> 0x67"
abbreviation (input) OP_LUI :: int where "OP_LUI \<equiv> 0x37"
abbreviation (input) OP_AUIPC :: int where "OP_AUIPC \<equiv> 0x17"
abbreviation (input) OP_CUSTOM :: int where "OP_CUSTOM \<equiv> 0x2A"
abbreviation (input) OP_SYSTEM :: int where "OP_SYSTEM \<equiv> 0x73"
abbreviation (input) OP_MISC_MEM :: int where "OP_MISC_MEM \<equiv> 0x0F"
abbreviation (input) OP_32 :: int where "OP_32 \<equiv> 0x3B"
abbreviation (input) OP_IMM_32 :: int where "OP_IMM_32 \<equiv> 0x1B"
abbreviation (input) OP_FP :: int where "OP_FP \<equiv> 0x53"
abbreviation (input) OP_LOAD_FP :: int where "OP_LOAD_FP \<equiv> 0x07"
abbreviation (input) OP_STORE_FP :: int where "OP_STORE_FP \<equiv> 0x27"
abbreviation (input) FUNCT7_ALT :: int where "FUNCT7_ALT \<equiv> 0x20"
abbreviation (input) FUNCT7_SFENCE_VMA :: int where "FUNCT7_SFENCE_VMA \<equiv> 9"

definition CSR_ADDR :: "(string \<times> int) list" where
  "CSR_ADDR = [(''mstatus'', 0x300), (''mie'', 0x304), (''mtvec'', 0x305), (''mscratch'', 0x340),
     (''mepc'', 0x341), (''mcause'', 0x342), (''mip'', 0x344)]"

definition CSR_OP :: "(string \<times> int) list" where
  "CSR_OP = [(''csrrw'', 1), (''csrrs'', 2), (''csrrc'', 3), (''csrrwi'', 5), (''csrrsi'', 6), (''csrrci'', 7)]"

definition SYSTEM_IMM12 :: "(string \<times> int) list" where
  "SYSTEM_IMM12 = [(''ecall'', 0), (''ebreak'', 1), (''mret'', 0x302), (''sret'', 0x102)]"

definition R_TYPE :: "(string \<times> int \<times> int) list" where
  "R_TYPE = [(''add'', 0, 0), (''sub'', 0x20, 0), (''sll'', 0, 1), (''slt'', 0, 2), (''sltu'', 0, 3),
     (''xor'', 0, 4), (''srl'', 0, 5), (''sra'', 0x20, 5), (''or'', 0, 6), (''and'', 0, 7),
     (''mul'', 1, 0), (''mulh'', 1, 1), (''mulhsu'', 1, 2), (''mulhu'', 1, 3),
     (''div'', 1, 4), (''divu'', 1, 5), (''rem'', 1, 6), (''remu'', 1, 7)]"

definition I_TYPE :: "(string \<times> int) list" where
  "I_TYPE = [(''addi'', 0), (''slli'', 1), (''slti'', 2), (''sltiu'', 3), (''xori'', 4), (''srli'', 5),
     (''srai'', 5), (''ori'', 6), (''andi'', 7)]"

definition BRANCH :: "(string \<times> int) list" where
  "BRANCH = [(''beq'', 0), (''bne'', 1), (''blt'', 4), (''bge'', 5), (''ble'', 2), (''bgt'', 3),
     (''bltu'', 6), (''bgeu'', 7)]"

definition LOAD :: "(string \<times> int) list" where
  "LOAD = [(''lb'', 0), (''lh'', 1), (''lw'', 2), (''lbu'', 4), (''lhu'', 5), (''ld'', 3), (''lwu'', 6)]"

definition STORE :: "(string \<times> int) list" where
  "STORE = [(''sb'', 0), (''sh'', 1), (''sw'', 2), (''sd'', 3)]"

definition R_TYPE_W :: "(string \<times> int \<times> int) list" where
  "R_TYPE_W = [(''addw'', 0, 0), (''subw'', 0x20, 0), (''sllw'', 0, 1), (''srlw'', 0, 5), (''sraw'', 0x20, 5),
     (''mulw'', 1, 0), (''divw'', 1, 4), (''divuw'', 1, 5), (''remw'', 1, 6), (''remuw'', 1, 7)]"

definition I_TYPE_W :: "(string \<times> int) list" where
  "I_TYPE_W = [(''addiw'', 0), (''slliw'', 1), (''srliw'', 5), (''sraiw'', 5)]"

definition MADD_OPCODES :: "(string \<times> int) list" where
  "MADD_OPCODES = [(''fmadd.s'', 0x43), (''fmsub.s'', 0x47), (''fnmsub.s'', 0x4B), (''fnmadd.s'', 0x4F)]"

definition FP_ARITH :: "(string \<times> int) list" where
  "FP_ARITH = [(''fadd.s'', 0), (''fsub.s'', 1), (''fmul.s'', 2), (''fdiv.s'', 3)]"

definition FP_SGNJ :: "(string \<times> int) list" where
  "FP_SGNJ = [(''fsgnj.s'', 0), (''fsgnjn.s'', 1), (''fsgnjx.s'', 2)]"

definition FP_MINMAX :: "(string \<times> int) list" where
  "FP_MINMAX = [(''fmin.s'', 0), (''fmax.s'', 1)]"

definition FP_CMP :: "(string \<times> int) list" where
  "FP_CMP = [(''fle.s'', 0), (''flt.s'', 1), (''feq.s'', 2)]"

definition RM_NAMES :: "(string \<times> int) list" where
  "RM_NAMES = [(''rne'', 0), (''rtz'', 1), (''rdn'', 2), (''rup'', 3), (''rmm'', 4), (''dyn'', 7)]"

text \<open>\<open>table[key]\<close>.\<close>

definition lookup :: "(string \<times> 'v) list \<Rightarrow> string \<Rightarrow> 'v result" where
  "lookup t k = (case map_of t k of None \<Rightarrow> Inl KeyError | Some v \<Rightarrow> Inr v)"

subsection \<open>Encoders\<close>

definition r_type :: "string \<Rightarrow> int \<Rightarrow> int \<Rightarrow> int \<Rightarrow> int result" where
  "r_type mn rd rs1 rs2 =
     rbind (lookup R_TYPE mn) (\<lambda>(f7, f3).
       Inr (push_bit 25 f7 OR push_bit 20 rs2 OR push_bit 15 rs1 OR push_bit 12 f3 OR push_bit 7 rd OR OP_R))"

definition i_type :: "string \<Rightarrow> int \<Rightarrow> int \<Rightarrow> operand \<Rightarrow> nat \<Rightarrow> int result" where
  "i_type mn rd rs1 immv xl =
     rbind (lookup I_TYPE mn) (\<lambda>f3.
     rbind (if mn \<in> {''slli'', ''srli'', ''srai''} then
              (if xl \<ge> 64 then
                 rbind (asm_imm immv 6 False) (\<lambda>shamt.
                   let f6 = (if mn = ''srai'' then 0x10 else 0) in Inr (push_bit 6 f6 OR shamt))
               else
                 rbind (asm_imm immv 5 False) (\<lambda>shamt.
                   let f7 = (if mn = ''srai'' then FUNCT7_ALT else 0) in Inr (push_bit 5 f7 OR shamt)))
            else asm_imm immv 12 True) (\<lambda>imm12.
       Inr (push_bit 20 (asm_u imm12 12) OR push_bit 15 rs1 OR push_bit 12 f3 OR push_bit 7 rd OR OP_I)))"

definition r_type_w :: "string \<Rightarrow> int \<Rightarrow> int \<Rightarrow> int \<Rightarrow> int result" where
  "r_type_w mn rd rs1 rs2 =
     rbind (lookup R_TYPE_W mn) (\<lambda>(f7, f3).
       Inr (push_bit 25 f7 OR push_bit 20 rs2 OR push_bit 15 rs1 OR push_bit 12 f3 OR push_bit 7 rd OR OP_32))"

definition i_type_w :: "string \<Rightarrow> int \<Rightarrow> int \<Rightarrow> operand \<Rightarrow> int result" where
  "i_type_w mn rd rs1 immv =
     rbind (lookup I_TYPE_W mn) (\<lambda>f3.
     rbind (if mn \<in> {''slliw'', ''srliw'', ''sraiw''} then
              rbind (asm_imm immv 5 False) (\<lambda>shamt.
                let f7 = (if mn = ''sraiw'' then FUNCT7_ALT else 0) in Inr (push_bit 5 f7 OR shamt))
            else asm_imm immv 12 True) (\<lambda>imm12.
       Inr (push_bit 20 (asm_u imm12 12) OR push_bit 15 rs1 OR push_bit 12 f3 OR push_bit 7 rd OR OP_IMM_32)))"

definition load_enc :: "string \<Rightarrow> int \<Rightarrow> operand \<Rightarrow> int \<Rightarrow> int result" where
  "load_enc mn rd offs rs1 =
     rbind (asm_imm offs 12 True) (\<lambda>imm12. rbind (lookup LOAD mn) (\<lambda>f3.
       Inr (push_bit 20 (asm_u imm12 12) OR push_bit 15 rs1 OR push_bit 12 f3 OR push_bit 7 rd OR OP_LOAD)))"

definition store_enc :: "string \<Rightarrow> int \<Rightarrow> operand \<Rightarrow> int \<Rightarrow> int result" where
  "store_enc mn rs2 offs rs1 =
     rbind (asm_imm offs 12 True) (\<lambda>imm12.
       let hi = drop_bit 5 imm12 AND 0x7F; lo = imm12 AND 0x1F
       in rbind (lookup STORE mn) (\<lambda>f3.
            Inr (push_bit 25 hi OR push_bit 20 rs2 OR push_bit 15 rs1 OR push_bit 12 f3 OR push_bit 7 lo OR OP_STORE)))"

definition jalr_enc :: "int \<Rightarrow> operand \<Rightarrow> int \<Rightarrow> int result" where
  "jalr_enc rd offs rs1 =
     rbind (asm_imm offs 12 True) (\<lambda>imm12.
       Inr (push_bit 20 (asm_u imm12 12) OR push_bit 15 rs1 OR push_bit 7 rd OR OP_JALR))"

definition u_type :: "int \<Rightarrow> int \<Rightarrow> operand \<Rightarrow> int result" where
  "u_type opcode rd imm20 =
     rbind (asm_imm imm20 20 False) (\<lambda>v. Inr (push_bit 12 v OR push_bit 7 rd OR opcode))"

definition branch_enc :: "string \<Rightarrow> int \<Rightarrow> int \<Rightarrow> int \<Rightarrow> int result" where
  "branch_enc mn rs1 rs2 offset_bytes =
     rbind (lookup BRANCH mn) (\<lambda>f3. rbind (asm_imm (Num offset_bytes) 13 True) (\<lambda>v.
       if v AND 1 \<noteq> 0 then Inl ValueError
       else
         (let b12 = drop_bit 12 v AND 1; b11 = drop_bit 11 v AND 1;
              b10_5 = drop_bit 5 v AND 0x3F; b4_1 = drop_bit 1 v AND 0xF
          in Inr (push_bit 31 b12 OR push_bit 25 b10_5 OR push_bit 20 rs2 OR push_bit 15 rs1 OR push_bit 12 f3 OR
                  push_bit 7 b11 OR push_bit 8 b4_1 OR OP_BRANCH))))"

definition jal_enc :: "int \<Rightarrow> int \<Rightarrow> int result" where
  "jal_enc rd offset_bytes =
     rbind (asm_imm (Num offset_bytes) 21 True) (\<lambda>v.
       if v AND 1 \<noteq> 0 then Inl ValueError
       else
         (let b20 = drop_bit 20 v AND 1; b10_1 = drop_bit 1 v AND 0x3FF;
              b11 = drop_bit 11 v AND 1; b19_12 = drop_bit 12 v AND 0xFF
          in Inr (push_bit 31 b20 OR push_bit 12 b19_12 OR push_bit 20 b11 OR push_bit 21 b10_1 OR
                  push_bit 7 rd OR OP_JAL)))"

definition ctz_enc :: "int \<Rightarrow> int \<Rightarrow> int" where
  "ctz_enc rd rs1 =
     push_bit 25 FUNCT7_ALT OR push_bit 20 0 OR push_bit 15 rs1 OR push_bit 12 7 OR push_bit 7 rd OR OP_CUSTOM"

definition fp_r_type :: "int \<Rightarrow> int \<Rightarrow> int \<Rightarrow> int \<Rightarrow> int \<Rightarrow> int" where
  "fp_r_type funct5 rd rs1 rs2 rm =
     push_bit 27 funct5 OR push_bit 20 rs2 OR push_bit 15 rs1 OR push_bit 12 rm OR push_bit 7 rd OR OP_FP"

definition fp_sqrt :: "int \<Rightarrow> int \<Rightarrow> int \<Rightarrow> int" where
  "fp_sqrt rd rs1 rm =
     push_bit 27 11 OR push_bit 20 0 OR push_bit 15 rs1 OR push_bit 12 rm OR push_bit 7 rd OR OP_FP"

definition fp_sgnj :: "string \<Rightarrow> int \<Rightarrow> int \<Rightarrow> int \<Rightarrow> int result" where
  "fp_sgnj mn rd rs1 rs2 = rbind (lookup FP_SGNJ mn) (\<lambda>f3.
     Inr (push_bit 27 4 OR push_bit 20 rs2 OR push_bit 15 rs1 OR push_bit 12 f3 OR push_bit 7 rd OR OP_FP))"

definition fp_minmax :: "string \<Rightarrow> int \<Rightarrow> int \<Rightarrow> int \<Rightarrow> int result" where
  "fp_minmax mn rd rs1 rs2 = rbind (lookup FP_MINMAX mn) (\<lambda>f3.
     Inr (push_bit 27 5 OR push_bit 20 rs2 OR push_bit 15 rs1 OR push_bit 12 f3 OR push_bit 7 rd OR OP_FP))"

definition fp_cmp :: "string \<Rightarrow> int \<Rightarrow> int \<Rightarrow> int \<Rightarrow> int result" where
  "fp_cmp mn rd rs1 rs2 = rbind (lookup FP_CMP mn) (\<lambda>f3.
     Inr (push_bit 27 20 OR push_bit 20 rs2 OR push_bit 15 rs1 OR push_bit 12 f3 OR push_bit 7 rd OR OP_FP))"

definition fp_cvt_w_s :: "bool \<Rightarrow> int \<Rightarrow> int \<Rightarrow> int \<Rightarrow> int" where
  "fp_cvt_w_s unsigned rd rs1 rm =
     (let rs2 = (if unsigned then 1 else 0)
      in push_bit 27 24 OR push_bit 20 rs2 OR push_bit 15 rs1 OR push_bit 12 rm OR push_bit 7 rd OR OP_FP)"

definition fp_cvt_s_w :: "bool \<Rightarrow> int \<Rightarrow> int \<Rightarrow> int \<Rightarrow> int" where
  "fp_cvt_s_w unsigned rd rs1 rm =
     (let rs2 = (if unsigned then 1 else 0)
      in push_bit 27 26 OR push_bit 20 rs2 OR push_bit 15 rs1 OR push_bit 12 rm OR push_bit 7 rd OR OP_FP)"

definition fp_mv_x_w :: "int \<Rightarrow> int \<Rightarrow> int" where
  "fp_mv_x_w rd rs1 = push_bit 27 28 OR push_bit 15 rs1 OR push_bit 12 0 OR push_bit 7 rd OR OP_FP"

definition fp_class :: "int \<Rightarrow> int \<Rightarrow> int" where
  "fp_class rd rs1 = push_bit 27 28 OR push_bit 15 rs1 OR push_bit 12 1 OR push_bit 7 rd OR OP_FP"

definition fp_mv_w_x :: "int \<Rightarrow> int \<Rightarrow> int" where
  "fp_mv_w_x rd rs1 = push_bit 27 30 OR push_bit 15 rs1 OR push_bit 7 rd OR OP_FP"

definition flw_enc :: "int \<Rightarrow> operand \<Rightarrow> int \<Rightarrow> int result" where
  "flw_enc rd offs rs1 =
     rbind (asm_imm offs 12 True) (\<lambda>imm12.
       Inr (push_bit 20 (asm_u imm12 12) OR push_bit 15 rs1 OR push_bit 12 2 OR push_bit 7 rd OR OP_LOAD_FP))"

definition fsw_enc :: "int \<Rightarrow> operand \<Rightarrow> int \<Rightarrow> int result" where
  "fsw_enc rs2 offs rs1 =
     rbind (asm_imm offs 12 True) (\<lambda>imm12.
       let hi = drop_bit 5 imm12 AND 0x7F; lo = imm12 AND 0x1F
       in Inr (push_bit 25 hi OR push_bit 20 rs2 OR push_bit 15 rs1 OR push_bit 12 2 OR push_bit 7 lo OR OP_STORE_FP))"

definition fp_r4_type :: "int \<Rightarrow> int \<Rightarrow> int \<Rightarrow> int \<Rightarrow> int \<Rightarrow> int \<Rightarrow> int" where
  "fp_r4_type opcode rd rs1 rs2 rs3 rm =
     push_bit 27 rs3 OR push_bit 20 rs2 OR push_bit 15 rs1 OR push_bit 12 rm OR push_bit 7 rd OR opcode"

definition csr_lookup :: "string \<Rightarrow> int result" where
  "csr_lookup csr = (case map_of CSR_ADDR csr of Some a \<Rightarrow> Inr a | None \<Rightarrow> py_int0 csr)"

definition csr_reg :: "string \<Rightarrow> int \<Rightarrow> string \<Rightarrow> int \<Rightarrow> int result" where
  "csr_reg mn rd csr rs1 =
     rbind (csr_lookup csr) (\<lambda>csr_addr. rbind (lookup CSR_OP mn) (\<lambda>f3.
       Inr (push_bit 20 (asm_u csr_addr 12) OR push_bit 15 rs1 OR push_bit 12 f3 OR push_bit 7 rd OR OP_SYSTEM)))"

definition csr_imm :: "string \<Rightarrow> int \<Rightarrow> string \<Rightarrow> operand \<Rightarrow> int result" where
  "csr_imm mn rd csr uimm =
     rbind (csr_lookup csr) (\<lambda>csr_addr. rbind (asm_imm uimm 5 False) (\<lambda>uimm5. rbind (lookup CSR_OP mn) (\<lambda>f3.
       Inr (push_bit 20 (asm_u csr_addr 12) OR push_bit 15 uimm5 OR push_bit 12 f3 OR push_bit 7 rd OR OP_SYSTEM))))"

definition system_noarg :: "string \<Rightarrow> int result" where
  "system_noarg mn = rbind (lookup SYSTEM_IMM12 mn) (\<lambda>i. Inr (push_bit 20 i OR OP_SYSTEM))"

definition sfence_vma :: "int \<Rightarrow> int \<Rightarrow> int" where
  "sfence_vma rs1 rs2 = push_bit 25 FUNCT7_SFENCE_VMA OR push_bit 20 rs2 OR push_bit 15 rs1 OR OP_SYSTEM"

definition fence_enc :: int where
  "fence_enc = push_bit 20 0xFF OR OP_MISC_MEM"

end
