(* ===== verification/Asm_Text.thy ===== *)
theory Asm_Text
  imports Asm
begin

text \<open>
  The text side of \<open>sim/tools/asm.py\<close>: comment and label handling, tokens, the dispatch on the
  mnemonic, the two passes of \<open>assemble\<close> and the memory image of \<open>write_mem\<close>; and the reader
  \<open>load_words\<close> of \<open>debugger.py\<close>, \<open>run_random_tests.py\<close> and \<open>bench_runner.py\<close>. Source text is
  ASCII, so \<open>\s\<close>, \<open>\w\<close> and \<open>\d\<close> are decided per character. The regular expressions of the source
  are deterministic on such text (no two adjacent parts can match the same character), so each
  is a left-to-right scan.
\<close>

subsection \<open>Tokens\<close>

definition sep_char :: "char \<Rightarrow> bool" where
  "sep_char c \<longleftrightarrow> c = CHR '','' \<or> py_space c"

text \<open>\<open>re.split(r"[,\s]+", s)\<close>.\<close>

function re_split :: "string \<Rightarrow> string list" where
  "re_split s =
     (let tok = takeWhile (\<lambda>c. \<not> sep_char c) s; rest = dropWhile (\<lambda>c. \<not> sep_char c) s
      in if rest = [] then [tok] else tok # re_split (dropWhile sep_char rest))"
  by pat_completeness auto

lemma drop_separators_shorter:
  "dropWhile (\<lambda>c. \<not> P c) s \<noteq> [] \<Longrightarrow> length (dropWhile P (dropWhile (\<lambda>c. \<not> P c) s)) < length s"
proof (induction s)
  case (Cons a s)
  have "length (dropWhile P s) \<le> length s" by (rule length_dropWhile_le)
  then show ?case using Cons by (auto split: if_splits)
qed simp

termination re_split
  by (relation "measure length") (auto intro: drop_separators_shorter)

declare re_split.simps [simp del]

text \<open>\<open>re.match(r"(-?\w+)\((x\d+)\)", s)\<close>: the two groups, or \<open>None\<close>.\<close>

definition word_prefix :: "string \<Rightarrow> (string \<times> string) option" where
  "word_prefix s =
     (let (sign, body) = (case s of c # cs \<Rightarrow> if c = CHR ''-'' then ([c], cs) else ([], s) | [] \<Rightarrow> ([], []));
          w = takeWhile py_word body
      in if w = [] then None else Some (sign @ w, dropWhile py_word body))"

definition mem_operand :: "string \<Rightarrow> (string \<times> string) option" where
  "mem_operand s =
     (case word_prefix s of
        Some (w, p # x # rest) \<Rightarrow>
          (let ds = takeWhile py_digit rest
           in if p = CHR ''('' \<and> x = CHR ''x'' \<and> ds \<noteq> [] \<and> take 1 (dropWhile py_digit rest) = '')''
              then Some (w, x # ds) else None)
      | _ \<Rightarrow> None)"

subsection \<open>Operands of a statement\<close>

text \<open>\<open>args[i]\<close>, and the operand readers on it.\<close>

definition arg :: "string list \<Rightarrow> nat \<Rightarrow> string result" where
  "arg args i = (if i < length args then Inr (args ! i) else Inl IndexError)"

definition reg_arg :: "string list \<Rightarrow> nat \<Rightarrow> int result" where
  "reg_arg args i = rbind (arg args i) asm_reg"

definition freg_arg :: "string list \<Rightarrow> nat \<Rightarrow> int result" where
  "freg_arg args i = rbind (arg args i) asm_freg"

text \<open>\<open>m = re.match(...)\<close> followed by \<open>m.group(1), reg(m.group(2))\<close>.\<close>

definition mem_arg :: "string list \<Rightarrow> nat \<Rightarrow> (operand \<times> int) result" where
  "mem_arg args i =
     rbind (arg args i) (\<lambda>s. case mem_operand s of
       None \<Rightarrow> Inl AttributeError
     | Some (offs, r) \<Rightarrow> rbind (asm_reg r) (\<lambda>rs1. Inr (Tok offs, rs1)))"

definition parse_rm :: "string list \<Rightarrow> nat \<Rightarrow> int result" where
  "parse_rm args idx =
     (if length args > idx \<and> py_strip (args ! idx) \<noteq> [] then
        (case map_of RM_NAMES (py_lower (py_strip (args ! idx))) of
           None \<Rightarrow> Inl ValueError | Some rm \<Rightarrow> Inr rm)
      else lookup RM_NAMES ''dyn'')"

type_synonym label_map = "string \<rightharpoonup> int"

definition resolve :: "label_map \<Rightarrow> string \<Rightarrow> int \<Rightarrow> int result" where
  "resolve labels tok cur_addr =
     (case labels (py_strip tok) of
        Some a \<Rightarrow> Inr (a - cur_addr)
      | None \<Rightarrow> py_int0 (py_strip tok))"

subsection \<open>One statement\<close>

definition has_key :: "(string \<times> 'v) list \<Rightarrow> string \<Rightarrow> bool" where
  "has_key t k \<longleftrightarrow> map_of t k \<noteq> None"

text \<open>The mnemonics of the integer, control and system instructions; \<open>None\<close> passes to the rest of the chain.\<close>

definition assemble_int :: "label_map \<Rightarrow> nat \<Rightarrow> int \<Rightarrow> string \<Rightarrow> string list \<Rightarrow> int result option" where
  "assemble_int labels xl cur_addr mn args =
     (if mn = ''nop'' then Some (i_type ''addi'' 0 0 (Num 0) 32)
      else if has_key R_TYPE mn then
        Some (rbind (reg_arg args 0) (\<lambda>rd. rbind (reg_arg args 1) (\<lambda>rs1. rbind (reg_arg args 2) (\<lambda>rs2.
          r_type mn rd rs1 rs2))))
      else if mn = ''ctz'' then
        Some (rbind (reg_arg args 0) (\<lambda>rd. rbind (reg_arg args 1) (\<lambda>rs1. Inr (ctz_enc rd rs1))))
      else if has_key I_TYPE mn then
        Some (rbind (reg_arg args 0) (\<lambda>rd. rbind (reg_arg args 1) (\<lambda>rs1. rbind (arg args 2) (\<lambda>v.
          i_type mn rd rs1 (Tok v) xl))))
      else if has_key R_TYPE_W mn then
        Some (rbind (reg_arg args 0) (\<lambda>rd. rbind (reg_arg args 1) (\<lambda>rs1. rbind (reg_arg args 2) (\<lambda>rs2.
          r_type_w mn rd rs1 rs2))))
      else if has_key I_TYPE_W mn then
        Some (rbind (reg_arg args 0) (\<lambda>rd. rbind (reg_arg args 1) (\<lambda>rs1. rbind (arg args 2) (\<lambda>v.
          i_type_w mn rd rs1 (Tok v)))))
      else if has_key LOAD mn then
        Some (rbind (reg_arg args 0) (\<lambda>rd. rbind (mem_arg args 1) (\<lambda>(offs, rs1). load_enc mn rd offs rs1)))
      else if has_key STORE mn then
        Some (rbind (reg_arg args 0) (\<lambda>rs2. rbind (mem_arg args 1) (\<lambda>(offs, rs1). store_enc mn rs2 offs rs1)))
      else if has_key BRANCH mn then
        Some (rbind (reg_arg args 0) (\<lambda>rs1. rbind (reg_arg args 1) (\<lambda>rs2. rbind (arg args 2) (\<lambda>t.
          rbind (resolve labels t cur_addr) (branch_enc mn rs1 rs2)))))
      else if mn = ''jal'' then
        Some (rbind (reg_arg args 0) (\<lambda>rd. rbind (arg args 1) (\<lambda>t.
          rbind (resolve labels t cur_addr) (jal_enc rd))))
      else if mn = ''jalr'' then
        Some (rbind (reg_arg args 0) (\<lambda>rd. rbind (mem_arg args 1) (\<lambda>(offs, rs1). jalr_enc rd offs rs1)))
      else if mn = ''lui'' then
        Some (rbind (reg_arg args 0) (\<lambda>rd. rbind (arg args 1) (\<lambda>v. u_type OP_LUI rd (Tok v))))
      else if mn = ''auipc'' then
        Some (rbind (reg_arg args 0) (\<lambda>rd. rbind (arg args 1) (\<lambda>v. u_type OP_AUIPC rd (Tok v))))
      else if mn \<in> {''csrrw'', ''csrrs'', ''csrrc''} then
        Some (rbind (reg_arg args 0) (\<lambda>rd. rbind (arg args 1) (\<lambda>csr. rbind (reg_arg args 2) (\<lambda>rs1.
          csr_reg mn rd csr rs1))))
      else if mn \<in> {''csrrwi'', ''csrrsi'', ''csrrci''} then
        Some (rbind (reg_arg args 0) (\<lambda>rd. rbind (arg args 1) (\<lambda>csr. rbind (arg args 2) (\<lambda>v.
          csr_imm mn rd csr (Tok v)))))
      else if mn \<in> {''ecall'', ''ebreak'', ''mret'', ''sret''} then Some (system_noarg mn)
      else if mn = ''sfence.vma'' then
        Some (rbind (if length args > 0 then reg_arg args 0 else Inr 0) (\<lambda>rs1.
          rbind (if length args > 1 then reg_arg args 1 else Inr 0) (\<lambda>rs2. Inr (sfence_vma rs1 rs2))))
      else if mn = ''fence'' then Some (Inr fence_enc)
      else if mn = ''word'' then
        Some (rbind (arg args 0) (\<lambda>t. rbind (py_int0 t) (\<lambda>v. Inr (asm_u v 32))))
      else None)"

definition assemble_fp :: "string \<Rightarrow> string list \<Rightarrow> int result" where
  "assemble_fp mn args =
     (if mn = ''flw'' then
        rbind (freg_arg args 0) (\<lambda>rd. rbind (mem_arg args 1) (\<lambda>(offs, rs1). flw_enc rd offs rs1))
      else if mn = ''fsw'' then
        rbind (freg_arg args 0) (\<lambda>rs2. rbind (mem_arg args 1) (\<lambda>(offs, rs1). fsw_enc rs2 offs rs1))
      else if has_key FP_ARITH mn then
        rbind (freg_arg args 0) (\<lambda>rd. rbind (freg_arg args 1) (\<lambda>rs1. rbind (freg_arg args 2) (\<lambda>rs2.
          rbind (parse_rm args 3) (\<lambda>rm. rbind (lookup FP_ARITH mn) (\<lambda>f5. Inr (fp_r_type f5 rd rs1 rs2 rm))))))
      else if mn = ''fsqrt.s'' then
        rbind (freg_arg args 0) (\<lambda>rd. rbind (freg_arg args 1) (\<lambda>rs1. rbind (parse_rm args 2) (\<lambda>rm.
          Inr (fp_sqrt rd rs1 rm))))
      else if has_key FP_SGNJ mn then
        rbind (freg_arg args 0) (\<lambda>rd. rbind (freg_arg args 1) (\<lambda>rs1. rbind (freg_arg args 2) (\<lambda>rs2.
          fp_sgnj mn rd rs1 rs2)))
      else if has_key FP_MINMAX mn then
        rbind (freg_arg args 0) (\<lambda>rd. rbind (freg_arg args 1) (\<lambda>rs1. rbind (freg_arg args 2) (\<lambda>rs2.
          fp_minmax mn rd rs1 rs2)))
      else if has_key FP_CMP mn then
        rbind (reg_arg args 0) (\<lambda>rd. rbind (freg_arg args 1) (\<lambda>rs1. rbind (freg_arg args 2) (\<lambda>rs2.
          fp_cmp mn rd rs1 rs2)))
      else if mn \<in> {''fcvt.w.s'', ''fcvt.wu.s''} then
        rbind (reg_arg args 0) (\<lambda>rd. rbind (freg_arg args 1) (\<lambda>rs1. rbind (parse_rm args 2) (\<lambda>rm.
          Inr (fp_cvt_w_s (mn = ''fcvt.wu.s'') rd rs1 rm))))
      else if mn \<in> {''fcvt.s.w'', ''fcvt.s.wu''} then
        rbind (freg_arg args 0) (\<lambda>rd. rbind (reg_arg args 1) (\<lambda>rs1. rbind (parse_rm args 2) (\<lambda>rm.
          Inr (fp_cvt_s_w (mn = ''fcvt.s.wu'') rd rs1 rm))))
      else if mn = ''fmv.x.w'' then
        rbind (reg_arg args 0) (\<lambda>rd. rbind (freg_arg args 1) (\<lambda>rs1. Inr (fp_mv_x_w rd rs1)))
      else if mn = ''fclass.s'' then
        rbind (reg_arg args 0) (\<lambda>rd. rbind (freg_arg args 1) (\<lambda>rs1. Inr (fp_class rd rs1)))
      else if mn = ''fmv.w.x'' then
        rbind (freg_arg args 0) (\<lambda>rd. rbind (reg_arg args 1) (\<lambda>rs1. Inr (fp_mv_w_x rd rs1)))
      else if has_key MADD_OPCODES mn then
        rbind (freg_arg args 0) (\<lambda>rd. rbind (freg_arg args 1) (\<lambda>rs1. rbind (freg_arg args 2) (\<lambda>rs2.
          rbind (freg_arg args 3) (\<lambda>rs3. rbind (parse_rm args 4) (\<lambda>rm. rbind (lookup MADD_OPCODES mn) (\<lambda>opcode.
            Inr (fp_r4_type opcode rd rs1 rs2 rs3 rm)))))))
      else Inl ValueError)"

definition assemble_stmt :: "label_map \<Rightarrow> nat \<Rightarrow> int \<times> string \<Rightarrow> int result" where
  "assemble_stmt labels xl st =
     (let (cur_addr, line) = st; parts = re_split (py_strip line);
          mn = py_lower (hd parts); args = tl parts
      in case assemble_int labels xl cur_addr mn args of
           Some r \<Rightarrow> r
         | None \<Rightarrow> assemble_fp mn args)"

subsection \<open>The two passes\<close>

definition clean_line :: "string \<Rightarrow> string" where
  "clean_line raw = py_strip (takeWhile (\<lambda>c. c \<noteq> CHR ''#'') raw)"

fun scan_lines :: "string list \<Rightarrow> int \<Rightarrow> label_map \<Rightarrow> (int \<times> string) list \<times> label_map" where
  "scan_lines [] addr labels = ([], labels)"
| "scan_lines (raw # lines) addr labels =
     (let line = clean_line raw
      in if line = [] then scan_lines lines addr labels
         else if last line = CHR '':'' then scan_lines lines addr (labels(py_strip (butlast line) \<mapsto> addr))
         else (case scan_lines lines (addr + 4) labels of (stmts, ls) \<Rightarrow> ((addr, line) # stmts, ls)))"

fun assemble_stmts :: "label_map \<Rightarrow> nat \<Rightarrow> (int \<times> string) list \<Rightarrow> int list result" where
  "assemble_stmts labels xl [] = Inr []"
| "assemble_stmts labels xl (st # stmts) =
     rbind (assemble_stmt labels xl st) (\<lambda>w. rbind (assemble_stmts labels xl stmts) (\<lambda>ws. Inr (w # ws)))"

definition assemble :: "string list \<Rightarrow> nat \<Rightarrow> int list result" where
  "assemble lines xl =
     (case scan_lines lines 0 Map.empty of (stmts, labels) \<Rightarrow> assemble_stmts labels xl stmts)"

subsection \<open>Memory images\<close>

definition store_word :: "int list \<Rightarrow> nat \<Rightarrow> int \<Rightarrow> int list" where
  "store_word data off w =
     data[off := w AND 0xFF, off + 1 := drop_bit 8 w AND 0xFF, off + 2 := drop_bit 16 w AND 0xFF,
          off + 3 := drop_bit 24 w AND 0xFF]"

fun fill_words :: "int list \<Rightarrow> nat \<Rightarrow> int list \<Rightarrow> int list result" where
  "fill_words data i [] = Inr data"
| "fill_words data i (w # ws) =
     (if i * 4 + 4 > length data then Inl ValueError
      else fill_words (store_word data (i * 4) w) (i + 1) ws)"

text \<open>\<open>f"{b:08b}"\<close> on a byte.\<close>

definition bin8 :: "int \<Rightarrow> string" where
  "bin8 b = map (\<lambda>i. if bit b i then CHR ''1'' else CHR ''0'') [7, 6, 5, 4, 3, 2, 1, 0]"

definition newline :: char where "newline = char_of (10 :: nat)"

definition write_mem :: "int list \<Rightarrow> int \<Rightarrow> string result" where
  "write_mem words size_bytes =
     (if size_bytes < 0 then Inl ValueError
      else rbind (fill_words (replicate (nat size_bytes) 0) 0 words) (\<lambda>data.
        Inr (concat (map (\<lambda>b. bin8 b @ [newline]) data))))"

text \<open>
  How \<open>main\<close> ends: the image is written, \<open>sys.exit(1)\<close> after an assembly error, or an exception
  that is not caught (only \<open>ValueError\<close> from \<open>assemble\<close> is).
\<close>

datatype asm_exit = Written string | Exit int | Uncaught py_error

definition asm_main :: "string list \<Rightarrow> int \<Rightarrow> nat \<Rightarrow> asm_exit" where
  "asm_main lines size_bytes xl =
     (case assemble lines xl of
        Inl e \<Rightarrow> if e = ValueError then Exit 1 else Uncaught e
      | Inr words \<Rightarrow> (case write_mem words size_bytes of Inl e \<Rightarrow> Uncaught e | Inr text \<Rightarrow> Written text))"

text \<open>Iterating over an open text file: its lines, each with its newline.\<close>

fun file_lines_aux :: "string \<Rightarrow> string \<Rightarrow> string list" where
  "file_lines_aux [] cur = (if cur = [] then [] else [rev cur])"
| "file_lines_aux (c # cs) cur =
     (if c = newline then rev (c # cur) # file_lines_aux cs [] else file_lines_aux cs (c # cur))"

definition file_lines :: "string \<Rightarrow> string list" where
  "file_lines s = file_lines_aux s []"

text \<open>\<open>int(s, 2)\<close>.\<close>

definition bin_body :: "string \<Rightarrow> int option" where
  "bin_body s =
     (case s of
        c # d # rest \<Rightarrow>
          if c = CHR ''0'' \<and> py_lower_char d = CHR ''b'' then int_digits 2 True rest 0 else int_digits 2 False s 0
      | _ \<Rightarrow> int_digits 2 False s 0)"

definition py_int2 :: "string \<Rightarrow> int result" where
  "py_int2 tok =
     (case py_strip tok of
        [] \<Rightarrow> Inl ValueError
      | c # cs \<Rightarrow>
          (case (if c = CHR ''-'' then map_option uminus (bin_body cs)
                 else if c = CHR ''+'' then bin_body cs else bin_body (c # cs)) of
             None \<Rightarrow> Inl ValueError | Some v \<Rightarrow> Inr v))"

fun group_words :: "string list \<Rightarrow> int list result" where
  "group_words (a # b # c # d # rest) =
     rbind (py_int2 (a @ b @ c @ d)) (\<lambda>w. rbind (group_words rest) (\<lambda>ws. Inr (w # ws)))"
| "group_words _ = Inr []"

definition load_words :: "string \<Rightarrow> int list result" where
  "load_words text = group_words (filter (\<lambda>l. l \<noteq> []) (map py_strip (file_lines text)))"

end
