(* ===== verification/Asm_Decode.thy ===== *)
theory Asm_Decode
  imports Asm_Text Iss_Arith
begin

text \<open>
  The encoders of the assembler against the decoder of the simulator: which operands the
  assembler accepts, the fields that \<open>ISS.step\<close> extracts from an encoded word, and the effect
  of executing it. An encoded word is a disjunction of shifted fields; the rules of the
  collection \<open>fields\<close> push \<^const>\<open>drop_bit\<close> and \<^const>\<open>take_bit\<close> through it.
\<close>

subsection \<open>Fields\<close>

definition fits :: "int \<Rightarrow> nat \<Rightarrow> bool" where
  "fits v n \<longleftrightarrow> 0 \<le> v \<and> v < 2 ^ n"

lemma fits_take_bit: "fits v n \<longleftrightarrow> take_bit n v = v"
  by (auto simp: fits_def take_bit_int_eq_self_iff)

lemma fits_drop: "fits v m \<Longrightarrow> m \<le> n \<Longrightarrow> drop_bit n v = 0"
  by (metis drop_bit_take_bit fits_take_bit diff_is_0_eq' take_bit_0)

lemma fits_take: "fits v m \<Longrightarrow> m \<le> n \<Longrightarrow> take_bit n v = v"
  by (metis fits_take_bit min.absorb2 take_bit_take_bit)

lemma fits_mono: "fits v m \<Longrightarrow> m \<le> n \<Longrightarrow> fits v n"
  using fits_take fits_take_bit by blast

lemma fits_mod [simp]: "fits (v mod 2 ^ n) n"
  by (simp add: fits_def)

lemma fits_take_self [simp]: "fits (take_bit n v) n"
  by (simp add: fits_take_bit)

lemma fits_or: "fits a n \<Longrightarrow> fits b n \<Longrightarrow> fits (a OR b) n"
  by (simp add: fits_take_bit)

lemma fits_push: "fits v m \<Longrightarrow> m + k \<le> n \<Longrightarrow> fits (push_bit k v) n"
  using push_range unfolding fits_def by blast

lemma fits_numeral: "(numeral k :: int) < 2 ^ n \<Longrightarrow> fits (numeral k) n"
  by (simp add: fits_def)

lemma fits_0_1 [simp]: "fits 0 n" "0 < n \<Longrightarrow> fits 1 n"
  by (simp_all add: fits_def)

lemma field_take:
  "op_of w = take_bit 7 w" "rd_of w = take_bit 5 (drop_bit 7 w)" "f3_of w = take_bit 3 (drop_bit 12 w)"
  "rs1_of w = take_bit 5 (drop_bit 15 w)" "rs2_of w = take_bit 5 (drop_bit 20 w)" "f7_of w = take_bit 7 (drop_bit 25 w)"
  by (simp_all add: op_of_def rd_of_def f3_of_def rs1_of_def rs2_of_def f7_of_def bit_norm take_bit_eq_mod)

lemma mask_take:
  "x AND 1 = take_bit 1 x" "x AND 0xF = take_bit 4 x" "x AND 0x1F = take_bit 5 x" "x AND 0x3F = take_bit 6 x"
  "x AND 0x7F = take_bit 7 x" "x AND 0xFF = take_bit 8 x" "x AND 0x3FF = take_bit 10 x"
  "x AND 0xFFF = take_bit 12 x" for x :: int
  by (simp_all add: bit_norm take_bit_eq_mod)

lemmas [fields] = drop_bit_or take_bit_or take_bit_push_bit drop_bit_push_bit drop_bit_take_bit fits_drop fits_take

lemma word_fields:
  assumes "fits f7 7" "fits rs2 5" "fits rs1 5" "fits f3 3" "fits rd 5" "fits op 7"
  defines "w \<equiv> push_bit 25 f7 OR push_bit 20 rs2 OR push_bit 15 rs1 OR push_bit 12 f3 OR push_bit 7 rd OR op"
  shows "op_of w = op" "rd_of w = rd" "f3_of w = f3" "rs1_of w = rs1" "rs2_of w = rs2" "f7_of w = f7"
    "drop_bit 20 w = push_bit 5 f7 OR rs2" "drop_bit 25 w = f7" "drop_bit 7 w AND 0x1F = rd" "fits w 32"
  using assms(1-6) unfolding w_def field_take mask_take
  by (simp_all add: fields fits_take_bit)

lemma imm_fields:
  assumes "fits i 12" "fits rs1 5" "fits f3 3" "fits rd 5" "fits op 7"
  defines "w \<equiv> push_bit 20 i OR push_bit 15 rs1 OR push_bit 12 f3 OR push_bit 7 rd OR op"
  shows "op_of w = op" "rd_of w = rd" "f3_of w = f3" "rs1_of w = rs1" "drop_bit 20 w = i" "fits w 32"
    "drop_bit 25 w = drop_bit 5 i" "drop_bit 26 w = drop_bit 6 i" "imm_i_of w = sext i 12"
  using assms(1-5) unfolding w_def field_take mask_take imm_i_of_def
  by (simp_all add: fields fits_take_bit)

lemma bit_piece: "bit (push_bit k (take_bit m (drop_bit k v))) n \<longleftrightarrow> k \<le> n \<and> n < k + m \<and> bit v n" for v :: int
  by (auto simp: bit_simps)

lemma branch_fields:
  assumes "fits v 13" "even v" "fits rs2 5" "fits rs1 5" "fits f3 3"
  defines "w \<equiv> push_bit 31 (take_bit 1 (drop_bit 12 v)) OR push_bit 25 (take_bit 6 (drop_bit 5 v)) OR push_bit 20 rs2 OR
    push_bit 15 rs1 OR push_bit 12 f3 OR push_bit 7 (take_bit 1 (drop_bit 11 v)) OR push_bit 8 (take_bit 4 (drop_bit 1 v)) OR 0x63"
  shows "op_of w = 0x63" "f3_of w = f3" "rs1_of w = rs1" "rs2_of w = rs2" "branch_off w = sext v 13" "fits w 32"
proof -
  have op: "fits (0x63 :: int) 7" "fits (drop_bit 11 v mod 2) 1" by (simp_all add: fits_def)
  have j: "push_bit 12 (take_bit 1 (drop_bit 12 v)) OR push_bit 11 (take_bit 1 (drop_bit 11 v)) OR
    push_bit 5 (take_bit 6 (drop_bit 5 v)) OR push_bit 1 (take_bit 4 (drop_bit 1 v)) = v"
  proof (rule bit_eqI)
    fix n
    have b: "bit v n \<Longrightarrow> n < 13" "\<not> bit v 0"
      using assms(1,2) bit_range [of v n 13] by (auto simp: fits_def bit_0)
    show "bit (push_bit 12 (take_bit 1 (drop_bit 12 v)) OR push_bit 11 (take_bit 1 (drop_bit 11 v)) OR
      push_bit 5 (take_bit 6 (drop_bit 5 v)) OR push_bit 1 (take_bit 4 (drop_bit 1 v))) n = bit v n"
      using b unfolding bit_or_iff bit_piece by (cases "n = 0") auto
  qed
  show "op_of w = 0x63" "f3_of w = f3" "rs1_of w = rs1" "rs2_of w = rs2" "fits w 32"
    using assms(3-5) op unfolding w_def field_take by (simp_all add: fields fits_take_bit [of _ 32])
  show "branch_off w = sext v 13"
    using assms(3-5) op j unfolding w_def branch_off_def mask_take Let_def by (simp add: fields)
qed

lemma jal_fields:
  assumes "fits v 21" "even v" "fits rd 5"
  defines "w \<equiv> push_bit 31 (take_bit 1 (drop_bit 20 v)) OR push_bit 12 (take_bit 8 (drop_bit 12 v)) OR
    push_bit 20 (take_bit 1 (drop_bit 11 v)) OR push_bit 21 (take_bit 10 (drop_bit 1 v)) OR push_bit 7 rd OR 0x6F"
  shows "op_of w = 0x6F" "rd_of w = rd" "jal_off w = sext v 21" "fits w 32"
proof -
  have op: "fits (0x6F :: int) 7" "fits (drop_bit 11 v mod 2) 1" by (simp_all add: fits_def)
  have j: "push_bit 20 (take_bit 1 (drop_bit 20 v)) OR push_bit 12 (take_bit 8 (drop_bit 12 v)) OR
    push_bit 11 (take_bit 1 (drop_bit 11 v)) OR push_bit 1 (take_bit 10 (drop_bit 1 v)) = v"
  proof (rule bit_eqI)
    fix n
    have b: "bit v n \<Longrightarrow> n < 21" "\<not> bit v 0"
      using assms(1,2) bit_range [of v n 21] by (auto simp: fits_def bit_0)
    show "bit (push_bit 20 (take_bit 1 (drop_bit 20 v)) OR push_bit 12 (take_bit 8 (drop_bit 12 v)) OR
      push_bit 11 (take_bit 1 (drop_bit 11 v)) OR push_bit 1 (take_bit 10 (drop_bit 1 v))) n = bit v n"
      using b unfolding bit_or_iff bit_piece by (cases "n = 0") auto
  qed
  show "op_of w = 0x6F" "rd_of w = rd" "fits w 32"
    using assms(3) op unfolding w_def field_take by (simp_all add: fields fits_take_bit [of _ 32])
  show "jal_off w = sext v 21"
    using assms(3) op j unfolding w_def jal_off_def mask_take Let_def by (simp add: fields)
qed

subsection \<open>Operands\<close>

lemma rbind_Inr: "rbind r f = Inr y \<longleftrightarrow> (\<exists>x. r = Inr x \<and> f x = Inr y)"
  by (cases r) auto

lemma dec_val_nonneg: "0 \<le> acc \<Longrightarrow> 0 \<le> dec_val ds acc"
  by (induction ds arbitrary: acc) auto

lemma numbered_fits: "numbered k tok = Inr r \<Longrightarrow> fits r 5"
  using dec_val_nonneg [of 0] by (auto simp: numbered_def fits_def split: list.splits if_splits)

lemma reg_fits: "asm_reg tok = Inr r \<Longrightarrow> fits r 5" "asm_freg tok = Inr r \<Longrightarrow> fits r 5"
  by (simp_all add: asm_reg_def asm_freg_def numbered_fits)

lemma asm_u_mod: "asm_u v n = v mod 2 ^ n"
  by (simp add: asm_u_def push_bit_eq_mult and_mask_mod)

lemma asm_u_take: "asm_u v n = take_bit n v"
  by (simp add: asm_u_mod take_bit_eq_mod)

lemma asm_imm_signed:
  "asm_imm t n True = Inr e \<longleftrightarrow>
     (\<exists>v. operand_int t = Inr v \<and> - (2 ^ (n - 1)) \<le> v \<and> v < 2 ^ (n - 1) \<and> e = v mod 2 ^ n)"
  by (auto simp: asm_imm_def rbind_Inr push_bit_eq_mult and_mask_mod)

lemma asm_imm_unsigned:
  "asm_imm t n False = Inr e \<longleftrightarrow> operand_int t = Inr e \<and> 0 \<le> e \<and> e < 2 ^ n"
  by (auto simp: asm_imm_def rbind_Inr push_bit_eq_mult and_mask_mod)

lemma signed_imm:
  assumes "asm_imm t n True = Inr e" "0 < n"
  obtains v where "operand_int t = Inr v" "fits e n" "sext e n = v" "asm_u e n = e" "e = v mod 2 ^ n"
    "- (2 ^ (n - 1)) \<le> v" "v < 2 ^ (n - 1)"
proof -
  from assms(1) obtain v where v: "operand_int t = Inr v" "- (2 ^ (n - 1)) \<le> v" "v < 2 ^ (n - 1)" "e = v mod 2 ^ n"
    by (auto simp: asm_imm_signed)
  have "sext e n = sext v n" by (rule sext_cong) (simp add: v(4))
  then have "sext e n = v" using sext_id [OF assms(2) v(2,3)] by simp
  with v that show ?thesis by (simp add: asm_u_mod fits_def)
qed

lemma unsigned_imm: "asm_imm t n False = Inr e \<Longrightarrow> operand_int t = Inr e \<and> fits e n"
  by (simp add: asm_imm_unsigned fits_def)

subsection \<open>Tables\<close>

lemma lookup_Inr: "lookup t k = Inr v \<longleftrightarrow> map_of t k = Some v"
  by (simp add: lookup_def split: option.splits)

lemma lookup_all: "lookup t k = Inr v \<Longrightarrow> list_all (\<lambda>e. P (snd e)) t \<Longrightarrow> P v"
  by (auto simp: lookup_Inr list_all_iff dest!: map_of_SomeD)

lemma pair_fits:
  "list_all (\<lambda>e. (\<lambda>(f7, f3). fits f7 7 \<and> fits f3 3) (snd e)) R_TYPE"
  "list_all (\<lambda>e. (\<lambda>(f7, f3). fits f7 7 \<and> fits f3 3) (snd e)) R_TYPE_W"
  by (simp_all add: R_TYPE_def R_TYPE_W_def fits_def)

lemma f3_fits:
  "list_all (\<lambda>e. fits (snd e) 3) I_TYPE" "list_all (\<lambda>e. fits (snd e) 3) I_TYPE_W"
  "list_all (\<lambda>e. fits (snd e) 3) BRANCH" "list_all (\<lambda>e. fits (snd e) 3) LOAD"
  "list_all (\<lambda>e. fits (snd e) 3) STORE" "list_all (\<lambda>e. fits (snd e) 3) CSR_OP"
  "list_all (\<lambda>e. fits (snd e) 3) FP_SGNJ" "list_all (\<lambda>e. fits (snd e) 3) FP_MINMAX"
  "list_all (\<lambda>e. fits (snd e) 3) FP_CMP" "list_all (\<lambda>e. fits (snd e) 3) RM_NAMES"
  by (simp_all add: I_TYPE_def I_TYPE_W_def BRANCH_def LOAD_def STORE_def CSR_OP_def FP_SGNJ_def
      FP_MINMAX_def FP_CMP_def RM_NAMES_def fits_def)

lemma other_fits:
  "list_all (\<lambda>e. fits (snd e) 5) FP_ARITH" "list_all (\<lambda>e. fits (snd e) 7) MADD_OPCODES"
  "list_all (\<lambda>e. fits (snd e) 12) SYSTEM_IMM12" "list_all (\<lambda>e. fits (snd e) 12) CSR_ADDR"
  by (simp_all add: FP_ARITH_def MADD_OPCODES_def SYSTEM_IMM12_def CSR_ADDR_def fits_def)

lemmas f3_lookup = f3_fits [THEN lookup_all [where P = "\<lambda>v. fits v 3", rotated]]
lemmas pair_lookup = pair_fits [THEN lookup_all [where P = "\<lambda>(f7, f3). fits f7 7 \<and> fits f3 3", rotated]]

lemma op_fits:
  "fits (0x33 :: int) 7" "fits (0x13 :: int) 7" "fits (0x03 :: int) 7" "fits (0x23 :: int) 7" "fits (0x67 :: int) 7"
  "fits (0x37 :: int) 7" "fits (0x17 :: int) 7" "fits (0x2A :: int) 7" "fits (0x73 :: int) 7" "fits (0x0F :: int) 7"
  "fits (0x3B :: int) 7" "fits (0x1B :: int) 7" "fits (0x53 :: int) 7" "fits (0x07 :: int) 7" "fits (0x27 :: int) 7"
  by (simp_all add: fits_def)

subsection \<open>The fields of encoded instructions\<close>

lemma r_type_fields:
  assumes "r_type mn rd rs1 rs2 = Inr w" "fits rd 5" "fits rs1 5" "fits rs2 5"
  shows "map_of R_TYPE mn = Some (f7_of w, f3_of w)" "op_of w = 0x33" "rd_of w = rd" "rs1_of w = rs1" "rs2_of w = rs2"
    "fits w 32"
proof -
  from assms(1) obtain f7 f3 where t: "lookup R_TYPE mn = Inr (f7, f3)"
    and w: "w = push_bit 25 f7 OR push_bit 20 rs2 OR push_bit 15 rs1 OR push_bit 12 f3 OR push_bit 7 rd OR 0x33"
    by (auto simp: r_type_def rbind_Inr)
  have "fits f7 7" "fits f3 3" using pair_lookup(1) [OF t] by simp_all
  note f = word_fields [OF this(1) assms(4,3) this(2) assms(2) op_fits(1), folded w]
  show "map_of R_TYPE mn = Some (f7_of w, f3_of w)" "op_of w = 0x33" "rd_of w = rd" "rs1_of w = rs1" "rs2_of w = rs2"
    "fits w 32" using t f by (simp_all add: lookup_Inr)
qed

lemma r_type_w_fields:
  assumes "r_type_w mn rd rs1 rs2 = Inr w" "fits rd 5" "fits rs1 5" "fits rs2 5"
  shows "map_of R_TYPE_W mn = Some (f7_of w, f3_of w)" "op_of w = 0x3B" "rd_of w = rd" "rs1_of w = rs1" "rs2_of w = rs2"
    "fits w 32"
proof -
  from assms(1) obtain f7 f3 where t: "lookup R_TYPE_W mn = Inr (f7, f3)"
    and w: "w = push_bit 25 f7 OR push_bit 20 rs2 OR push_bit 15 rs1 OR push_bit 12 f3 OR push_bit 7 rd OR 0x3B"
    by (auto simp: r_type_w_def rbind_Inr)
  have "fits f7 7" "fits f3 3" using pair_lookup(2) [OF t] by simp_all
  note f = word_fields [OF this(1) assms(4,3) this(2) assms(2) op_fits(11), folded w]
  show "map_of R_TYPE_W mn = Some (f7_of w, f3_of w)" "op_of w = 0x3B" "rd_of w = rd" "rs1_of w = rs1" "rs2_of w = rs2"
    "fits w 32" using t f by (simp_all add: lookup_Inr)
qed

lemma i_type_fields:
  assumes "i_type mn rd rs1 t xl = Inr w" "fits rd 5" "fits rs1 5" "mn \<notin> {''slli'', ''srli'', ''srai''}"
  obtains v where "operand_int t = Inr v" "map_of I_TYPE mn = Some (f3_of w)" "op_of w = 0x13" "rd_of w = rd" "rs1_of w = rs1"
    "imm_i_of w = v" "fits w 32" "- 2048 \<le> v" "v < 2048"
proof -
  from assms(1,4) obtain f3 e where t: "lookup I_TYPE mn = Inr f3" "asm_imm t 12 True = Inr e"
    and w: "w = push_bit 20 (asm_u e 12) OR push_bit 15 rs1 OR push_bit 12 f3 OR push_bit 7 rd OR 0x13"
    by (auto simp: i_type_def rbind_Inr)
  from signed_imm [OF t(2)] obtain v where v: "operand_int t = Inr v" "fits e 12" "sext e 12 = v" "asm_u e 12 = e"
    "- 2048 \<le> v" "v < 2048" by auto
  note f = imm_fields [OF v(2) assms(3) f3_lookup(1) [OF t(1)] assms(2) op_fits(2), folded w [unfolded v(4)]]
  show ?thesis by (rule that [of v]) (use t f v in \<open>simp_all add: lookup_Inr\<close>)
qed

lemma shift_imm_fields:
  assumes "i_type mn rd rs1 t xl = Inr w" "fits rd 5" "fits rs1 5" "mn \<in> {''slli'', ''srli'', ''srai''}" "xl = 32 \<or> xl = 64"
  obtains v where "operand_int t = Inr v" "0 \<le> v" "v < int xl" "map_of I_TYPE mn = Some (f3_of w)" "op_of w = 0x13"
    "rd_of w = rd" "rs1_of w = rs1" "fits w 32"
    "drop_bit 20 w AND (if xl \<ge> 64 then 0x3F else 0x1F) = v"
    "(if xl \<ge> 64 then drop_bit 26 w AND 0x3F = 0x10 else f7_of w = 0x20) = (mn = ''srai'')"
proof -
  define k :: nat where "k = (if xl \<ge> 64 then 6 else 5)"
  define a :: int where "a = (if mn = ''srai'' then (if xl \<ge> 64 then 0x10 else 0x20) else 0)"
  from assms(1,4) obtain f3 v where t: "lookup I_TYPE mn = Inr f3" "asm_imm t k False = Inr v"
    and w: "w = push_bit 20 (asm_u (push_bit k a OR v) 12) OR push_bit 15 rs1 OR push_bit 12 f3 OR push_bit 7 rd OR 0x13"
    by (auto simp: i_type_def rbind_Inr Let_def k_def a_def split: if_splits)
  have v: "operand_int t = Inr v" "fits v k" using unsigned_imm [OF t(2)] by simp_all
  have a: "fits a (12 - k)" by (simp add: a_def k_def fits_def)
  have e: "fits (push_bit k a OR v) 12"
    by (intro fits_or fits_push [OF a] fits_mono [OF v(2)]) (simp_all add: k_def)
  then have u: "asm_u (push_bit k a OR v) 12 = push_bit k a OR v"
    by (simp add: asm_u_mod fits_take_bit take_bit_eq_mod)
  note f = imm_fields [OF e assms(3) f3_lookup(1) [OF t(1)] assms(2) op_fits(2), folded w [unfolded u]]
  have d: "drop_bit 20 w AND (if xl \<ge> 64 then 0x3F else 0x1F) = v"
    using v(2) a f(5) assms(5) unfolding mask_take k_def by (auto simp: fields mask_take)
  have b: "(if xl \<ge> 64 then drop_bit 26 w AND 0x3F = 0x10 else f7_of w = 0x20) = (mn = ''srai'')"
    using v(2) a f(7,8) assms(5) unfolding k_def field_take by (auto simp: fields mask_take a_def)
  have "0 \<le> v" "v < int xl" using v(2) assms(5) by (auto simp: fits_def k_def)
  then show ?thesis by (rule that [of v, OF v(1)]) (use t f d b in \<open>simp_all add: lookup_Inr\<close>)
qed

lemma branch_enc_fields:
  assumes "branch_enc mn rs1 rs2 off = Inr w" "fits rs1 5" "fits rs2 5"
  shows "map_of BRANCH mn = Some (f3_of w)" "op_of w = 0x63" "rs1_of w = rs1" "rs2_of w = rs2" "branch_off w = off"
    "fits w 32" "- 4096 \<le> off" "off < 4096" "even off"
proof -
  from assms(1) obtain f3 e where t: "lookup BRANCH mn = Inr f3" "asm_imm (Num off) 13 True = Inr e" "e AND 1 = 0"
    and w: "w = push_bit 31 (take_bit 1 (drop_bit 12 e)) OR push_bit 25 (take_bit 6 (drop_bit 5 e)) OR push_bit 20 rs2 OR
    push_bit 15 rs1 OR push_bit 12 f3 OR push_bit 7 (take_bit 1 (drop_bit 11 e)) OR push_bit 8 (take_bit 4 (drop_bit 1 e)) OR 0x63"
    by (auto simp only: branch_enc_def rbind_Inr Let_def mask_take sum.inject split: if_splits)
  from signed_imm [OF t(2)] obtain v where v: "v = off" "fits e 13" "sext e 13 = v" "- 4096 \<le> v" "v < 4096" "e = v mod 8192"
    by (auto simp: operand_int_def)
  have "even e" using t(3) by (simp add: and_mod_1 even_iff_mod_2_eq_zero)
  moreover have "even off" using \<open>even e\<close> v(1,6) by presburger
  ultimately show "map_of BRANCH mn = Some (f3_of w)" "op_of w = 0x63" "rs1_of w = rs1" "rs2_of w = rs2" "branch_off w = off"
    "fits w 32" "- 4096 \<le> off" "off < 4096" "even off"
    using branch_fields [OF v(2) _ assms(3,2) f3_lookup(3) [OF t(1)], folded w] t v by (simp_all add: lookup_Inr)
qed

lemma jal_enc_fields:
  assumes "jal_enc rd off = Inr w" "fits rd 5"
  shows "op_of w = 0x6F" "rd_of w = rd" "jal_off w = off" "fits w 32"
proof -
  from assms(1) obtain e where t: "asm_imm (Num off) 21 True = Inr e" "e AND 1 = 0"
    and w: "w = push_bit 31 (take_bit 1 (drop_bit 20 e)) OR push_bit 12 (take_bit 8 (drop_bit 12 e)) OR
    push_bit 20 (take_bit 1 (drop_bit 11 e)) OR push_bit 21 (take_bit 10 (drop_bit 1 e)) OR push_bit 7 rd OR 0x6F"
    by (auto simp only: jal_enc_def rbind_Inr Let_def mask_take sum.inject split: if_splits)
  from signed_imm [OF t(1)] obtain v where v: "v = off" "fits e 21" "sext e 21 = v"
    by (auto simp: operand_int_def)
  have "even e" using t(2) by (simp add: and_mod_1 even_iff_mod_2_eq_zero)
  then show "op_of w = 0x6F" "rd_of w = rd" "jal_off w = off" "fits w 32"
    using jal_fields [OF v(2) _ assms(2), folded w] v by simp_all
qed

lemma load_enc_fields:
  assumes "load_enc mn rd t rs1 = Inr w" "fits rd 5" "fits rs1 5"
  obtains v where "operand_int t = Inr v" "map_of LOAD mn = Some (f3_of w)" "op_of w = 0x03" "rd_of w = rd"
    "rs1_of w = rs1" "imm_i_of w = v" "fits w 32"
proof -
  from assms(1) obtain f3 e where t: "lookup LOAD mn = Inr f3" "asm_imm t 12 True = Inr e"
    and w: "w = push_bit 20 (asm_u e 12) OR push_bit 15 rs1 OR push_bit 12 f3 OR push_bit 7 rd OR 0x03"
    by (auto simp: load_enc_def rbind_Inr)
  from signed_imm [OF t(2)] obtain v where v: "operand_int t = Inr v" "fits e 12" "sext e 12 = v" "asm_u e 12 = e"
    by auto
  note f = imm_fields [OF v(2) assms(3) f3_lookup(4) [OF t(1)] assms(2) op_fits(3), folded w [unfolded v(4)]]
  show ?thesis by (rule that [of v]) (use t f v in \<open>simp_all add: lookup_Inr\<close>)
qed

lemma split_imm: "fits e 12 \<Longrightarrow> push_bit 5 (take_bit 7 (drop_bit 5 e)) OR take_bit 5 e = e"
proof (rule bit_eqI)
  fix n assume "fits e 12"
  then show "bit (push_bit 5 (take_bit 7 (drop_bit 5 e)) OR take_bit 5 e) n = bit e n"
    using bit_range [of e n 12] unfolding bit_or_iff bit_piece bit_take_bit_iff by (auto simp: fits_def)
qed

lemma store_enc_fields:
  assumes "store_enc mn rs2 t rs1 = Inr w" "fits rs2 5" "fits rs1 5"
  obtains v where "operand_int t = Inr v" "map_of STORE mn = Some (f3_of w)" "op_of w = 0x23" "rs2_of w = rs2"
    "rs1_of w = rs1" "imm_s_of w = v" "fits w 32"
proof -
  from assms(1) obtain f3 e where t: "lookup STORE mn = Inr f3" "asm_imm t 12 True = Inr e"
    and w: "w = push_bit 25 (take_bit 7 (drop_bit 5 e)) OR push_bit 20 rs2 OR push_bit 15 rs1 OR push_bit 12 f3 OR
      push_bit 7 (take_bit 5 e) OR 0x23"
    by (auto simp: store_enc_def rbind_Inr mask_take)
  from signed_imm [OF t(2)] obtain v where v: "operand_int t = Inr v" "fits e 12" "sext e 12 = v" by auto
  note f = word_fields [OF fits_take_self [of 7 "drop_bit 5 e"] assms(2,3) f3_lookup(5) [OF t(1)]
      fits_take_self [of 5 e] op_fits(4), folded w]
  have "imm_s_of w = v" unfolding imm_s_of_def f(8,9) split_imm [OF v(2)] by (rule v(3))
  then show ?thesis by (intro that [of v]) (use t f v in \<open>simp_all add: lookup_Inr\<close>)
qed

subsection \<open>Every encoded word has 32 bits\<close>

lemma field_or_fits:
  "fits a 7 \<Longrightarrow> fits r2 5 \<Longrightarrow> fits r1 5 \<Longrightarrow> fits f3 3 \<Longrightarrow> fits rd 5 \<Longrightarrow> fits op 7 \<Longrightarrow>
     fits (push_bit 25 a OR push_bit 20 r2 OR push_bit 15 r1 OR push_bit 12 f3 OR push_bit 7 rd OR op) 32"
  "fits b 12 \<Longrightarrow> fits r1 5 \<Longrightarrow> fits f3 3 \<Longrightarrow> fits rd 5 \<Longrightarrow> fits op 7 \<Longrightarrow>
     fits (push_bit 20 b OR push_bit 15 r1 OR push_bit 12 f3 OR push_bit 7 rd OR op) 32"
  "fits c 5 \<Longrightarrow> fits r2 5 \<Longrightarrow> fits r1 5 \<Longrightarrow> fits f3 3 \<Longrightarrow> fits rd 5 \<Longrightarrow> fits op 7 \<Longrightarrow>
     fits (push_bit 27 c OR push_bit 20 r2 OR push_bit 15 r1 OR push_bit 12 f3 OR push_bit 7 rd OR op) 32"
  "fits c 5 \<Longrightarrow> fits r1 5 \<Longrightarrow> fits f3 3 \<Longrightarrow> fits rd 5 \<Longrightarrow> fits op 7 \<Longrightarrow>
     fits (push_bit 27 c OR push_bit 15 r1 OR push_bit 12 f3 OR push_bit 7 rd OR op) 32"
  "fits c 5 \<Longrightarrow> fits r1 5 \<Longrightarrow> fits rd 5 \<Longrightarrow> fits op 7 \<Longrightarrow>
     fits (push_bit 27 c OR push_bit 15 r1 OR push_bit 7 rd OR op) 32"
  "fits b 12 \<Longrightarrow> fits r1 5 \<Longrightarrow> fits rd 5 \<Longrightarrow> fits op 7 \<Longrightarrow>
     fits (push_bit 20 b OR push_bit 15 r1 OR push_bit 7 rd OR op) 32"
  "fits d 20 \<Longrightarrow> fits rd 5 \<Longrightarrow> fits op 7 \<Longrightarrow> fits (push_bit 12 d OR push_bit 7 rd OR op) 32"
  "fits b 12 \<Longrightarrow> fits op 7 \<Longrightarrow> fits (push_bit 20 b OR op) 32"
  "fits a 7 \<Longrightarrow> fits r2 5 \<Longrightarrow> fits r1 5 \<Longrightarrow> fits op 7 \<Longrightarrow>
     fits (push_bit 25 a OR push_bit 20 r2 OR push_bit 15 r1 OR op) 32"
  by (simp_all add: fields fits_take_bit [of _ 32])

lemma fits_const: "fits (0x20 :: int) 7" "fits (9 :: int) 7" "fits (7 :: int) 3" "fits (2 :: int) 3"
  "fits (11 :: int) 5" "fits (4 :: int) 5" "fits (5 :: int) 5" "fits (20 :: int) 5" "fits (24 :: int) 5"
  "fits (26 :: int) 5" "fits (28 :: int) 5" "fits (30 :: int) 5" "fits (0xFF :: int) 12"
  by (simp_all add: fits_def)

lemma asm_u_fits [simp]: "fits (asm_u v n) n"
  by (simp add: asm_u_mod)

lemma imm_fits: "asm_imm t n sg = Inr e \<Longrightarrow> fits e n"
  by (cases sg) (auto simp: asm_imm_signed asm_imm_unsigned fits_def)

lemma jalr_fits: "jalr_enc rd t rs1 = Inr w \<Longrightarrow> fits rd 5 \<Longrightarrow> fits rs1 5 \<Longrightarrow> fits w 32"
  by (auto simp: jalr_enc_def rbind_Inr op_fits field_or_fits)

lemma u_fits: "u_type op rd t = Inr w \<Longrightarrow> fits rd 5 \<Longrightarrow> fits op 7 \<Longrightarrow> fits w 32"
  by (auto simp: u_type_def rbind_Inr op_fits field_or_fits dest: imm_fits)

lemma i_type_fits: "i_type mn rd rs1 t xl = Inr w \<Longrightarrow> fits rd 5 \<Longrightarrow> fits rs1 5 \<Longrightarrow> fits w 32"
  by (auto simp del: insert_iff simp: i_type_def rbind_Inr op_fits field_or_fits f3_lookup)

lemma i_type_w_fits: "i_type_w mn rd rs1 t = Inr w \<Longrightarrow> fits rd 5 \<Longrightarrow> fits rs1 5 \<Longrightarrow> fits w 32"
  by (auto simp del: insert_iff simp: i_type_w_def rbind_Inr op_fits field_or_fits f3_lookup)

lemma csr_fits:
  "csr_reg mn rd cs rs1 = Inr w \<Longrightarrow> fits rd 5 \<Longrightarrow> fits rs1 5 \<Longrightarrow> fits w 32"
  "csr_imm mn rd cs t = Inr w \<Longrightarrow> fits rd 5 \<Longrightarrow> fits w 32"
  by (auto simp: csr_reg_def csr_imm_def rbind_Inr op_fits field_or_fits f3_lookup dest: imm_fits)

lemma system_fits: "system_noarg mn = Inr w \<Longrightarrow> fits w 32"
  by (auto simp: system_noarg_def rbind_Inr op_fits field_or_fits other_fits(3) [THEN lookup_all [where P = "\<lambda>v. fits v 12", rotated]])

lemma fp_mem_fits:
  "flw_enc rd t rs1 = Inr w \<Longrightarrow> fits rd 5 \<Longrightarrow> fits rs1 5 \<Longrightarrow> fits w 32"
  "fsw_enc rd t rs1 = Inr w \<Longrightarrow> fits rd 5 \<Longrightarrow> fits rs1 5 \<Longrightarrow> fits w 32"
  by (auto simp: flw_enc_def fsw_enc_def rbind_Inr mask_take asm_u_take fields fits_take_bit [of _ 32])

lemma fp_op_fits:
  "fp_sgnj mn rd rs1 rs2 = Inr w \<Longrightarrow> fits rd 5 \<Longrightarrow> fits rs1 5 \<Longrightarrow> fits rs2 5 \<Longrightarrow> fits w 32"
  "fp_minmax mn rd rs1 rs2 = Inr w \<Longrightarrow> fits rd 5 \<Longrightarrow> fits rs1 5 \<Longrightarrow> fits rs2 5 \<Longrightarrow> fits w 32"
  "fp_cmp mn rd rs1 rs2 = Inr w \<Longrightarrow> fits rd 5 \<Longrightarrow> fits rs1 5 \<Longrightarrow> fits rs2 5 \<Longrightarrow> fits w 32"
  by (auto simp: fp_sgnj_def fp_minmax_def fp_cmp_def rbind_Inr fields fits_take_bit [of _ 32] dest!: f3_lookup(7-9))

lemma fp_direct_fits:
  assumes "fits rd 5" "fits rs1 5" "fits rs2 5" "fits rs3 5" "fits rm 3"
  shows "fits f5 5 \<Longrightarrow> fits (fp_r_type f5 rd rs1 rs2 rm) 32" "fits (fp_sqrt rd rs1 rm) 32"
    "fits (fp_cvt_w_s sg rd rs1 rm) 32" "fits (fp_cvt_s_w sg rd rs1 rm) 32" "fits (fp_mv_x_w rd rs1) 32"
    "fits (fp_class rd rs1) 32" "fits (fp_mv_w_x rd rs1) 32" "fits op 7 \<Longrightarrow> fits (fp_r4_type op rd rs1 rs2 rs3 rm) 32"
    "fits (ctz_enc rd rs1) 32" "fits (sfence_vma rs1 rs2) 32" "fits fence_enc 32"
proof -
  note d = fp_r_type_def fp_sqrt_def fp_cvt_w_s_def fp_cvt_s_w_def fp_mv_x_w_def fp_class_def fp_mv_w_x_def
    fp_r4_type_def ctz_enc_def sfence_vma_def fence_enc_def Let_def
  show "fits f5 5 \<Longrightarrow> fits (fp_r_type f5 rd rs1 rs2 rm) 32" "fits (fp_sqrt rd rs1 rm) 32"
    "fits (fp_cvt_w_s sg rd rs1 rm) 32" "fits (fp_cvt_s_w sg rd rs1 rm) 32" "fits (fp_mv_x_w rd rs1) 32"
    "fits (fp_class rd rs1) 32" "fits (fp_mv_w_x rd rs1) 32" "fits op 7 \<Longrightarrow> fits (fp_r4_type op rd rs1 rs2 rs3 rm) 32"
    "fits (ctz_enc rd rs1) 32" "fits (sfence_vma rs1 rs2) 32" "fits fence_enc 32"
    unfolding d using assms by (intro field_or_fits fits_const op_fits; simp add: fits_const)+
qed

end
