(* ===== verification/Asm_Exec.thy ===== *)
theory Asm_Exec
  imports Asm_Decode Iss_Inv
begin

text \<open>
  Whole statements and programs of the assembler: which arm of the dispatch a mnemonic selects,
  the exceptions a statement can raise, the two passes, and what \<open>ISS.step\<close> does on the words
  of a program, stated against the meaning of the mnemonics on machine words.
\<close>

subsection \<open>Dispatch\<close>

lemma has_key_iff: "has_key t k \<longleftrightarrow> k \<in> fst ` set t"
  by (simp add: has_key_def map_of_eq_None_iff)

lemmas table_defs = R_TYPE_def I_TYPE_def R_TYPE_W_def I_TYPE_W_def LOAD_def STORE_def BRANCH_def

lemma dispatch_r:
  "has_key R_TYPE mn \<Longrightarrow> assemble_int ls xl a mn args =
     Some (rbind (reg_arg args 0) (\<lambda>rd. rbind (reg_arg args 1) (\<lambda>rs1. rbind (reg_arg args 2) (\<lambda>rs2.
       r_type mn rd rs1 rs2))))"
  by (auto simp: assemble_int_def has_key_iff table_defs)

lemma dispatch_i:
  assumes "has_key I_TYPE mn"
  shows "assemble_int ls xl a mn args =
     Some (rbind (reg_arg args 0) (\<lambda>rd. rbind (reg_arg args 1) (\<lambda>rs1. rbind (arg args 2) (\<lambda>v.
       i_type mn rd rs1 (Tok v) xl))))"
proof -
  have "mn \<noteq> ''nop''" "\<not> has_key R_TYPE mn" "mn \<noteq> ''ctz''"
    using assms by (auto simp: has_key_iff table_defs)
  then show ?thesis using assms by (simp add: assemble_int_def)
qed

lemma dispatch_r_w:
  assumes "has_key R_TYPE_W mn"
  shows "assemble_int ls xl a mn args =
     Some (rbind (reg_arg args 0) (\<lambda>rd. rbind (reg_arg args 1) (\<lambda>rs1. rbind (reg_arg args 2) (\<lambda>rs2.
       r_type_w mn rd rs1 rs2))))"
proof -
  have "mn \<noteq> ''nop''" "\<not> has_key R_TYPE mn" "mn \<noteq> ''ctz''" "\<not> has_key I_TYPE mn"
    using assms by (auto simp: has_key_iff table_defs)
  then show ?thesis using assms by (simp add: assemble_int_def)
qed

lemma dispatch_mem:
  "has_key LOAD mn \<Longrightarrow> assemble_int ls xl a mn args =
     Some (rbind (reg_arg args 0) (\<lambda>rd. rbind (mem_arg args 1) (\<lambda>(offs, rs1). load_enc mn rd offs rs1)))"
  "has_key STORE mn \<Longrightarrow> assemble_int ls xl a mn args =
     Some (rbind (reg_arg args 0) (\<lambda>rs2. rbind (mem_arg args 1) (\<lambda>(offs, rs1). store_enc mn rs2 offs rs1)))"
proof -
  have l: "mn \<noteq> ''nop''" "\<not> has_key R_TYPE mn" "mn \<noteq> ''ctz''" "\<not> has_key I_TYPE mn" "\<not> has_key R_TYPE_W mn"
    "\<not> has_key I_TYPE_W mn" if "has_key LOAD mn \<or> has_key STORE mn"
    using that by (auto simp: has_key_iff table_defs)
  have s: "\<not> has_key LOAD mn" if "has_key STORE mn" using that by (auto simp: has_key_iff table_defs)
  show "has_key LOAD mn \<Longrightarrow> assemble_int ls xl a mn args =
     Some (rbind (reg_arg args 0) (\<lambda>rd. rbind (mem_arg args 1) (\<lambda>(offs, rs1). load_enc mn rd offs rs1)))"
    using l by (simp add: assemble_int_def)
  show "has_key STORE mn \<Longrightarrow> assemble_int ls xl a mn args =
     Some (rbind (reg_arg args 0) (\<lambda>rs2. rbind (mem_arg args 1) (\<lambda>(offs, rs1). store_enc mn rs2 offs rs1)))"
    using l s by (simp add: assemble_int_def)
qed

lemma dispatch_branch:
  assumes "has_key BRANCH mn"
  shows "assemble_int ls xl a mn args =
     Some (rbind (reg_arg args 0) (\<lambda>rs1. rbind (reg_arg args 1) (\<lambda>rs2. rbind (arg args 2) (\<lambda>t.
       rbind (resolve ls t a) (branch_enc mn rs1 rs2)))))"
proof -
  have "mn \<noteq> ''nop''" "\<not> has_key R_TYPE mn" "mn \<noteq> ''ctz''" "\<not> has_key I_TYPE mn" "\<not> has_key R_TYPE_W mn"
    "\<not> has_key I_TYPE_W mn" "\<not> has_key LOAD mn" "\<not> has_key STORE mn"
    using assms by (auto simp: has_key_iff table_defs)
  then show ?thesis using assms by (simp add: assemble_int_def)
qed

lemma dispatch_jal:
  "assemble_int ls xl a ''jal'' args =
     Some (rbind (reg_arg args 0) (\<lambda>rd. rbind (arg args 1) (\<lambda>t. rbind (resolve ls t a) (jal_enc rd))))"
  by (simp add: assemble_int_def has_key_iff table_defs)

subsection \<open>Every assembled word has 32 bits\<close>

lemma arg_fits: "reg_arg args i = Inr r \<Longrightarrow> fits r 5" "freg_arg args i = Inr r \<Longrightarrow> fits r 5"
  "mem_arg args i = Inr (t, r) \<Longrightarrow> fits r 5"
  by (auto simp: reg_arg_def freg_arg_def mem_arg_def rbind_Inr reg_fits split: option.splits)

lemma parse_rm_fits: "parse_rm args i = Inr r \<Longrightarrow> fits r 3"
  by (auto simp: parse_rm_def f3_lookup lookup_Inr [symmetric] split: if_splits option.splits)

lemma enc_fits:
  "r_type mn rd rs1 rs2 = Inr w \<Longrightarrow> fits rd 5 \<Longrightarrow> fits rs1 5 \<Longrightarrow> fits rs2 5 \<Longrightarrow> fits w 32"
  "r_type_w mn rd rs1 rs2 = Inr w \<Longrightarrow> fits rd 5 \<Longrightarrow> fits rs1 5 \<Longrightarrow> fits rs2 5 \<Longrightarrow> fits w 32"
  "load_enc mn rd t rs1 = Inr w \<Longrightarrow> fits rd 5 \<Longrightarrow> fits rs1 5 \<Longrightarrow> fits w 32"
  "store_enc mn rs2 t rs1 = Inr w \<Longrightarrow> fits rs2 5 \<Longrightarrow> fits rs1 5 \<Longrightarrow> fits w 32"
  "branch_enc mn rs1 rs2 off = Inr w \<Longrightarrow> fits rs1 5 \<Longrightarrow> fits rs2 5 \<Longrightarrow> fits w 32"
  "jal_enc rd off = Inr w \<Longrightarrow> fits rd 5 \<Longrightarrow> fits w 32"
  by (rule r_type_fields(6), assumption+) (rule r_type_w_fields(6), assumption+,
      (erule load_enc_fields; assumption), (erule store_enc_fields; assumption),
      rule branch_enc_fields(6), assumption+, rule jal_enc_fields(4), assumption+)

text \<open>The exceptions and the results of a computation, with the rule for sequencing.\<close>

definition outcome :: "('e \<Rightarrow> bool) \<Rightarrow> ('a \<Rightarrow> bool) \<Rightarrow> 'e + 'a \<Rightarrow> bool" where
  "outcome E P r \<longleftrightarrow> (case r of Inl e \<Rightarrow> E e | Inr x \<Rightarrow> P x)"

lemma outcome_simps [simp]: "outcome E P (Inl e) = E e" "outcome E P (Inr x) = P x"
  by (simp_all add: outcome_def)

lemma outcome_rbind: "outcome E Q r \<Longrightarrow> (\<And>x. Q x \<Longrightarrow> outcome E P (f x)) \<Longrightarrow> outcome E P (rbind r f)"
  by (cases r) simp_all

lemma outcomeI: "(\<And>e. r = Inl e \<Longrightarrow> E e) \<Longrightarrow> (\<And>x. r = Inr x \<Longrightarrow> P x) \<Longrightarrow> outcome E P r"
  by (cases r) simp_all

lemma rbind_Inl: "rbind r f = Inl e \<longleftrightarrow> r = Inl e \<or> (\<exists>x. r = Inr x \<and> f x = Inl e)"
  by (cases r) auto

definition asm_error :: "py_error \<Rightarrow> bool" where
  "asm_error e \<longleftrightarrow> e = ValueError \<or> e = IndexError \<or> e = AttributeError"

lemma asm_error_simps [simp]: "asm_error ValueError" "asm_error IndexError" "asm_error AttributeError"
  by (simp_all add: asm_error_def)

lemma value_errors [dest!]:
  "py_int0 t = Inl e \<Longrightarrow> e = ValueError" "numbered k t = Inl e \<Longrightarrow> e = ValueError"
  "asm_reg t = Inl e \<Longrightarrow> e = ValueError" "asm_freg t = Inl e \<Longrightarrow> e = ValueError"
  "operand_int o' = Inl e \<Longrightarrow> e = ValueError" "asm_imm o' n sg = Inl e \<Longrightarrow> e = ValueError"
  "csr_lookup c = Inl e \<Longrightarrow> e = ValueError" "resolve ls t a = Inl e \<Longrightarrow> e = ValueError"
proof -
  show i: "py_int0 t = Inl e \<Longrightarrow> e = ValueError" for t e by (auto simp: py_int0_def split: list.splits option.splits)
  show n: "numbered k t = Inl e \<Longrightarrow> e = ValueError" for k t e by (auto simp: numbered_def split: list.splits if_splits)
  show "asm_reg t = Inl e \<Longrightarrow> e = ValueError" "asm_freg t = Inl e \<Longrightarrow> e = ValueError"
    using n by (auto simp: asm_reg_def asm_freg_def)
  show o: "operand_int o' = Inl e \<Longrightarrow> e = ValueError" for o' e
    using i by (auto simp: operand_int_def split: operand.splits)
  show "asm_imm o' n sg = Inl e \<Longrightarrow> e = ValueError"
    using o by (auto simp: asm_imm_def rbind_Inl Let_def split: if_splits)
  show "csr_lookup c = Inl e \<Longrightarrow> e = ValueError" "resolve ls t a = Inl e \<Longrightarrow> e = ValueError"
    using i by (auto simp: csr_lookup_def resolve_def split: option.splits)
qed

lemma lookup_has_key [simp]: "has_key t k \<Longrightarrow> lookup t k \<noteq> Inl e"
  by (auto simp: has_key_def lookup_def)

lemma outcome_args [wf_intro]:
  "outcome asm_error (\<lambda>_. True) (arg args i)"
  "outcome asm_error (\<lambda>r. fits r 5) (reg_arg args i)" "outcome asm_error (\<lambda>r. fits r 5) (freg_arg args i)"
  "outcome asm_error (\<lambda>(t, r). fits r 5) (mem_arg args i)" "outcome asm_error (\<lambda>r. fits r 3) (parse_rm args i)"
  "outcome asm_error (\<lambda>_. True) (resolve ls t a)" "outcome asm_error (\<lambda>_. True) (py_int0 t)"
proof -
  have d: "has_key RM_NAMES ''dyn''" by (simp add: has_key_iff RM_NAMES_def)
  show "outcome asm_error (\<lambda>_. True) (arg args i)" by (simp add: arg_def)
  show "outcome asm_error (\<lambda>r. fits r 5) (reg_arg args i)"
    by (rule outcomeI) (auto simp: arg_fits, auto simp: reg_arg_def arg_def rbind_Inl split: if_splits)
  show "outcome asm_error (\<lambda>r. fits r 5) (freg_arg args i)"
    by (rule outcomeI) (auto simp: arg_fits, auto simp: freg_arg_def arg_def rbind_Inl split: if_splits)
  show "outcome asm_error (\<lambda>(t, r). fits r 5) (mem_arg args i)"
    by (rule outcomeI) (auto simp: arg_fits, auto simp: mem_arg_def arg_def rbind_Inl split: if_splits option.splits)
  show "outcome asm_error (\<lambda>r. fits r 3) (parse_rm args i)"
    by (rule outcomeI) (auto simp: parse_rm_fits, auto simp: parse_rm_def d split: if_splits option.splits)
  show "outcome asm_error (\<lambda>_. True) (resolve ls t a)" "outcome asm_error (\<lambda>_. True) (py_int0 t)"
    by (auto intro!: outcomeI)
qed

lemma outcome_enc [wf_intro]:
  assumes "fits rd 5" "fits rs1 5" "fits rs2 5"
  shows "has_key R_TYPE mn \<Longrightarrow> outcome asm_error (\<lambda>w. fits w 32) (r_type mn rd rs1 rs2)"
    "has_key R_TYPE_W mn \<Longrightarrow> outcome asm_error (\<lambda>w. fits w 32) (r_type_w mn rd rs1 rs2)"
    "has_key I_TYPE mn \<Longrightarrow> outcome asm_error (\<lambda>w. fits w 32) (i_type mn rd rs1 t xl)"
    "has_key I_TYPE_W mn \<Longrightarrow> outcome asm_error (\<lambda>w. fits w 32) (i_type_w mn rd rs1 t)"
    "has_key LOAD mn \<Longrightarrow> outcome asm_error (\<lambda>w. fits w 32) (load_enc mn rd t rs1)"
    "has_key STORE mn \<Longrightarrow> outcome asm_error (\<lambda>w. fits w 32) (store_enc mn rs2 t rs1)"
    "has_key BRANCH mn \<Longrightarrow> outcome asm_error (\<lambda>w. fits w 32) (branch_enc mn rs1 rs2 off)"
    "outcome asm_error (\<lambda>w. fits w 32) (jal_enc rd off)" "outcome asm_error (\<lambda>w. fits w 32) (jalr_enc rd t rs1)"
    "fits op 7 \<Longrightarrow> outcome asm_error (\<lambda>w. fits w 32) (u_type op rd t)"
    "has_key CSR_OP mn \<Longrightarrow> outcome asm_error (\<lambda>w. fits w 32) (csr_reg mn rd c rs1)"
    "has_key CSR_OP mn \<Longrightarrow> outcome asm_error (\<lambda>w. fits w 32) (csr_imm mn rd c t)"
    "has_key SYSTEM_IMM12 mn \<Longrightarrow> outcome asm_error (\<lambda>w. fits w 32) (system_noarg mn)"
    "outcome asm_error (\<lambda>w. fits w 32) (flw_enc rd t rs1)" "outcome asm_error (\<lambda>w. fits w 32) (fsw_enc rs2 t rs1)"
    "has_key FP_SGNJ mn \<Longrightarrow> outcome asm_error (\<lambda>w. fits w 32) (fp_sgnj mn rd rs1 rs2)"
    "has_key FP_MINMAX mn \<Longrightarrow> outcome asm_error (\<lambda>w. fits w 32) (fp_minmax mn rd rs1 rs2)"
    "has_key FP_CMP mn \<Longrightarrow> outcome asm_error (\<lambda>w. fits w 32) (fp_cmp mn rd rs1 rs2)"
proof -
  note e = enc_fits i_type_fits i_type_w_fits jalr_fits u_fits csr_fits system_fits fp_mem_fits fp_op_fits
  note d = r_type_def r_type_w_def load_enc_def store_enc_def branch_enc_def jal_enc_def jalr_enc_def u_type_def csr_reg_def
    csr_imm_def system_noarg_def flw_enc_def fsw_enc_def fp_sgnj_def fp_minmax_def fp_cmp_def
  show "has_key R_TYPE mn \<Longrightarrow> outcome asm_error (\<lambda>w. fits w 32) (r_type mn rd rs1 rs2)"
    "has_key R_TYPE_W mn \<Longrightarrow> outcome asm_error (\<lambda>w. fits w 32) (r_type_w mn rd rs1 rs2)"
    "has_key LOAD mn \<Longrightarrow> outcome asm_error (\<lambda>w. fits w 32) (load_enc mn rd t rs1)"
    "has_key STORE mn \<Longrightarrow> outcome asm_error (\<lambda>w. fits w 32) (store_enc mn rs2 t rs1)"
    "has_key BRANCH mn \<Longrightarrow> outcome asm_error (\<lambda>w. fits w 32) (branch_enc mn rs1 rs2 off)"
    "outcome asm_error (\<lambda>w. fits w 32) (jal_enc rd off)" "outcome asm_error (\<lambda>w. fits w 32) (jalr_enc rd t rs1)"
    "fits op 7 \<Longrightarrow> outcome asm_error (\<lambda>w. fits w 32) (u_type op rd t)"
    "has_key CSR_OP mn \<Longrightarrow> outcome asm_error (\<lambda>w. fits w 32) (csr_reg mn rd c rs1)"
    "has_key CSR_OP mn \<Longrightarrow> outcome asm_error (\<lambda>w. fits w 32) (csr_imm mn rd c t)"
    "has_key SYSTEM_IMM12 mn \<Longrightarrow> outcome asm_error (\<lambda>w. fits w 32) (system_noarg mn)"
    "outcome asm_error (\<lambda>w. fits w 32) (flw_enc rd t rs1)" "outcome asm_error (\<lambda>w. fits w 32) (fsw_enc rs2 t rs1)"
    "has_key FP_SGNJ mn \<Longrightarrow> outcome asm_error (\<lambda>w. fits w 32) (fp_sgnj mn rd rs1 rs2)"
    "has_key FP_MINMAX mn \<Longrightarrow> outcome asm_error (\<lambda>w. fits w 32) (fp_minmax mn rd rs1 rs2)"
    "has_key FP_CMP mn \<Longrightarrow> outcome asm_error (\<lambda>w. fits w 32) (fp_cmp mn rd rs1 rs2)"
    using assms by (auto intro!: outcomeI elim: e, auto simp: d rbind_Inl split: if_splits)
  show "has_key I_TYPE mn \<Longrightarrow> outcome asm_error (\<lambda>w. fits w 32) (i_type mn rd rs1 t xl)"
    "has_key I_TYPE_W mn \<Longrightarrow> outcome asm_error (\<lambda>w. fits w 32) (i_type_w mn rd rs1 t)"
    using assms by (auto intro!: outcomeI elim: e, auto simp del: insert_iff simp: i_type_def i_type_w_def rbind_Inl Let_def split: if_splits)
qed

lemma pred_option_if: "(b \<Longrightarrow> P x) \<Longrightarrow> (\<not> b \<Longrightarrow> pred_option P y) \<Longrightarrow> pred_option P (if b then Some x else y)"
  by simp

lemma outcome_if: "(b \<Longrightarrow> outcome E P x) \<Longrightarrow> (\<not> b \<Longrightarrow> outcome E P y) \<Longrightarrow> outcome E P (if b then x else y)"
  by simp

lemma outcome_pair: "(\<lambda>(t, r). Q r) z \<Longrightarrow> (\<And>t r. Q r \<Longrightarrow> outcome E P (f t r)) \<Longrightarrow> outcome E P (case z of (t, r) \<Rightarrow> f t r)"
  by auto

lemma outcome_lookup [wf_intro]:
  "has_key FP_ARITH mn \<Longrightarrow> outcome asm_error (\<lambda>v. fits v 5) (lookup FP_ARITH mn)"
  "has_key MADD_OPCODES mn \<Longrightarrow> outcome asm_error (\<lambda>v. fits v 7) (lookup MADD_OPCODES mn)"
  by (auto intro!: outcomeI other_fits(1) [THEN lookup_all [where P = "\<lambda>v. fits v 5", rotated]]
      other_fits(2) [THEN lookup_all [where P = "\<lambda>v. fits v 7", rotated]])

lemma key_members:
  "mn \<in> {''csrrw'', ''csrrs'', ''csrrc''} \<Longrightarrow> has_key CSR_OP mn"
  "mn \<in> {''csrrwi'', ''csrrsi'', ''csrrci''} \<Longrightarrow> has_key CSR_OP mn"
  "mn \<in> {''ecall'', ''ebreak'', ''mret'', ''sret''} \<Longrightarrow> has_key SYSTEM_IMM12 mn"
  "has_key I_TYPE ''addi''"
  by (auto simp: has_key_iff CSR_OP_def SYSTEM_IMM12_def I_TYPE_def)

lemma outcome_Inr: "P x \<Longrightarrow> outcome E P (Inr x)" by simp

lemma outcome_default_reg [wf_intro]: "outcome asm_error (\<lambda>r. fits r 5) (if b then reg_arg args i else Inr 0)"
  using outcome_args(2) [of args i] by simp

lemmas short_fits = fp_direct_fits(5-7,9) [OF _ _ fits_0_1(1) fits_0_1(1) fits_0_1(1)]
  fp_direct_fits(10) [OF fits_0_1(1) _ _ fits_0_1(1) fits_0_1(1)]
  fp_direct_fits(11) [OF fits_0_1(1) fits_0_1(1) fits_0_1(1) fits_0_1(1) fits_0_1(1)]

lemma assemble_int_outcome: "pred_option (outcome asm_error (\<lambda>w. fits w 32)) (assemble_int ls xl a mn args)"
  unfolding assemble_int_def
  by (intro pred_option_if; ((rule outcome_rbind, (rule outcome_args | rule outcome_default_reg))+)?;
      (erule outcome_pair)?; (rule outcome_enc | rule outcome_Inr)?;
      (assumption | rule fits_0_1(1) | simp add: op_fits key_members short_fits del: insert_iff))

lemma assemble_fp_outcome: "outcome asm_error (\<lambda>w. fits w 32) (assemble_fp mn args)"
  unfolding assemble_fp_def
  by (intro outcome_if; ((rule outcome_rbind, (rule outcome_args | (rule outcome_lookup, assumption)))+)?;
      (erule outcome_pair)?; (rule outcome_enc | rule outcome_Inr)?;
      (assumption | rule fits_0_1(1) | simp add: fp_direct_fits short_fits))

lemma assemble_stmt_outcome: "outcome asm_error (\<lambda>w. fits w 32) (assemble_stmt ls xl st)"
proof -
  have "outcome asm_error (\<lambda>w. fits w 32) r" if "assemble_int ls xl a mn args = Some r" for a mn args r
    using assemble_int_outcome [of ls xl a mn args] that by simp
  then show ?thesis
    using assemble_fp_outcome by (auto simp: assemble_stmt_def Let_def split: prod.splits option.splits)
qed

end
