(* ===== verification/Asm_Sem.thy ===== *)
theory Asm_Sem
  imports Asm_Exec Iss_Bytes
begin

text \<open>
  Assembled programs: what the first pass collects (the statements with their addresses, the
  label addresses), how the second pass maps statements to words, and the effect of \<open>ISS.step\<close>
  on the word of a statement, by mnemonic.
\<close>

subsection \<open>The first pass\<close>

definition is_stmt :: "string \<Rightarrow> bool" where
  "is_stmt raw \<longleftrightarrow> clean_line raw \<noteq> [] \<and> last (clean_line raw) \<noteq> CHR '':''"

definition defines_label :: "string \<Rightarrow> string \<Rightarrow> bool" where
  "defines_label raw l \<longleftrightarrow> clean_line raw \<noteq> [] \<and> last (clean_line raw) = CHR '':'' \<and> py_strip (butlast (clean_line raw)) = l"

text \<open>The address a label has at the end of the text: that of the next statement after its last definition.\<close>

fun label_address :: "string list \<Rightarrow> int \<Rightarrow> string \<Rightarrow> int option" where
  "label_address [] a l = None"
| "label_address (raw # lines) a l =
     (case label_address lines (if is_stmt raw then a + 4 else a) l of
        Some b \<Rightarrow> Some b
      | None \<Rightarrow> if defines_label raw l then Some a else None)"

lemma scan_stmts: "map snd (fst (scan_lines lines a ls)) = map clean_line (filter is_stmt lines)"
  by (induction lines arbitrary: a ls) (auto simp: Let_def is_stmt_def split: prod.splits, metis fst_conv)

lemma scan_addresses: "i < length (fst (scan_lines lines a ls)) \<Longrightarrow> fst (fst (scan_lines lines a ls) ! i) = a + 4 * int i"
proof (induction lines arbitrary: i a ls)
  case (Cons raw lines)
  obtain stmts ls' where s: "scan_lines lines (a + 4) ls = (stmts, ls')" by (cases "scan_lines lines (a + 4) ls")
  show ?case using Cons.IH [of _ "a + 4" ls] Cons.IH [of i a] Cons.prems s
    by (cases i) (auto simp: Let_def split: if_splits)
qed simp

lemma scan_labels:
  "snd (scan_lines lines a ls) l = (case label_address lines a l of Some b \<Rightarrow> Some b | None \<Rightarrow> ls l)"
proof (induction lines arbitrary: a ls)
  case (Cons raw lines)
  obtain stmts ls' where s: "scan_lines lines (a + 4) ls = (stmts, ls')" by (cases "scan_lines lines (a + 4) ls")
  show ?case using Cons.IH [of a] Cons.IH [of "a + 4" ls] s
    by (auto simp: Let_def is_stmt_def defines_label_def split: option.splits)
qed simp

lemma label_address_append:
  "label_address (xs @ ys) a l =
     (case label_address ys (a + 4 * int (length (filter is_stmt xs))) l of
        Some b \<Rightarrow> Some b | None \<Rightarrow> label_address xs a l)"
  by (induction xs arbitrary: a) (auto simp: algebra_simps split: option.splits)

lemma label_address_bounds:
  "label_address lines a l = Some b \<Longrightarrow> \<exists>k \<le> length (filter is_stmt lines). b = a + 4 * int k"
proof (induction lines arbitrary: a b)
  case (Cons raw lines)
  show ?case
  proof (cases "label_address lines (if is_stmt raw then a + 4 else a) l")
    case None
    with Cons.prems show ?thesis by (auto split: if_splits intro: exI [of _ 0])
  next
    case (Some c)
    from Cons.IH [OF this] obtain k where "k \<le> length (filter is_stmt lines)" "c = (if is_stmt raw then a + 4 else a) + 4 * int k"
      by blast
    with Cons.prems Some show ?thesis by (intro exI [of _ "if is_stmt raw then Suc k else k"]) auto
  qed
qed simp

subsection \<open>The second pass\<close>

lemma assemble_stmts_words:
  "assemble_stmts ls xl stmts = Inr ws \<longleftrightarrow> list_all2 (\<lambda>st w. assemble_stmt ls xl st = Inr w) stmts ws"
  by (induction stmts arbitrary: ws) (auto simp: rbind_Inr list_all2_Cons1)

lemma assemble_stmts_outcome: "outcome asm_error (list_all (\<lambda>w. fits w 32)) (assemble_stmts ls xl stmts)"
proof (induction stmts)
  case (Cons st stmts)
  show ?case unfolding assemble_stmts.simps
    by (rule outcome_rbind [OF assemble_stmt_outcome], rule outcome_rbind [OF Cons.IH]) simp
qed simp

abbreviation labels_of :: "string list \<Rightarrow> label_map" where
  "labels_of lines \<equiv> label_address lines 0"

lemma assemble_words:
  "assemble lines xl = Inr ws \<longleftrightarrow>
     length ws = length (filter is_stmt lines) \<and>
     (\<forall>i < length ws. assemble_stmt (labels_of lines) xl (4 * int i, clean_line (filter is_stmt lines ! i)) = Inr (ws ! i))"
proof -
  obtain stmts ls where s: "scan_lines lines 0 Map.empty = (stmts, ls)" by (cases "scan_lines lines 0 Map.empty")
  have ls: "ls = labels_of lines"
    using scan_labels [of lines 0 Map.empty] s by (auto split: option.splits)
  have m: "map snd stmts = map clean_line (filter is_stmt lines)" using scan_stmts [of lines 0 Map.empty] s by simp
  then have l: "length stmts = length (filter is_stmt lines)" by (metis length_map)
  have "stmts ! i = (4 * int i, clean_line (filter is_stmt lines ! i))" if "i < length stmts" for i
    using scan_addresses [of i lines 0 Map.empty] s that l arg_cong [OF m, of "\<lambda>xs. xs ! i"] by (auto simp: prod_eq_iff)
  then show ?thesis unfolding assemble_def s ls prod.case assemble_stmts_words list_all2_conv_all_nth
    using l by auto
qed

subsection \<open>The meaning of mnemonics on machine words\<close>

definition isa_word :: "string \<Rightarrow> 'a::len word \<Rightarrow> 'a word \<Rightarrow> 'a word" where
  "isa_word mn a b =
     (let sh = nat (uint b AND (int LENGTH('a) - 1))
      in if mn = ''add'' then a + b
         else if mn = ''sub'' then a - b
         else if mn = ''sll'' then push_bit sh a
         else if mn = ''slt'' then of_bool (a <s b)
         else if mn = ''sltu'' then of_bool (a < b)
         else if mn = ''xor'' then a XOR b
         else if mn = ''srl'' then drop_bit sh a
         else if mn = ''sra'' then signed_drop_bit sh a
         else if mn = ''or'' then a OR b
         else if mn = ''and'' then a AND b
         else if mn = ''mul'' then a * b
         else if mn = ''mulh'' then word_of_int (drop_bit LENGTH('a) (sint a * sint b))
         else if mn = ''mulhsu'' then word_of_int (drop_bit LENGTH('a) (sint a * uint b))
         else if mn = ''mulhu'' then word_of_int (drop_bit LENGTH('a) (uint a * uint b))
         else if mn = ''div'' then (if b = 0 then - 1 else word_of_int (sint a sdiv sint b))
         else if mn = ''divu'' then (if b = 0 then - 1 else a div b)
         else if mn = ''rem'' then (if b = 0 then a else word_of_int (sint a smod sint b))
         else a mod b)"

definition isa_branch :: "string \<Rightarrow> 'a::len word \<Rightarrow> 'a word \<Rightarrow> bool" where
  "isa_branch mn a b =
     (if mn = ''beq'' then a = b else if mn = ''bne'' then a \<noteq> b
      else if mn = ''blt'' then a <s b else if mn = ''bge'' then b \<le>s a
      else if mn = ''ble'' then a \<le>s b else if mn = ''bgt'' then b <s a
      else if mn = ''bltu'' then a < b else b \<le> a)"

lemma r_type_table:
  "list_all (\<lambda>(mn, f7, f3). if f7 = 1 then muldiv_word f3 a b = isa_word mn a b
     else alu_word f3 f7 a b = Some (isa_word mn a b) \<and> \<not> (f7 = 0x20 \<and> f3 = 7)) R_TYPE" for a b :: "'a::len word"
  unfolding R_TYPE_def by (simp add: isa_word_def alu_word_def muldiv_word_def Let_def)

lemma alu_by_name:
  fixes a b :: "'a::len word"
  assumes "map_of R_TYPE mn = Some (f7, f3)"
  shows "f7 = 1 \<Longrightarrow> muldiv LENGTH('a) f3 (uint a) (uint b) = uint (isa_word mn a b)"
    "f7 \<noteq> 1 \<Longrightarrow> alu LENGTH('a) f3 f7 (uint a) (uint b) = Inr (uint (isa_word mn a b))"
    "\<not> (f7 = 0x20 \<and> f3 = 7)"
  using bspec [OF r_type_table [of a b, unfolded list_all_iff] map_of_SomeD [OF assms]]
  by (auto simp: muldiv_refines alu_refines word_result_def split: if_splits)

lemma branch_by_name:
  fixes a b :: "'a::len word"
  shows "map_of BRANCH mn = Some f3 \<Longrightarrow> branch_taken LENGTH('a) f3 (uint a) (uint b) = isa_branch mn a b"
  unfolding branch_refines by (auto simp: BRANCH_def isa_branch_def branch_word_def split: if_splits)

subsection \<open>Registers as words\<close>

definition xreg :: "iss \<Rightarrow> int \<Rightarrow> 'a::len word" where
  "xreg s r = word_of_int (regs s ! nat r)"

lemma uint_xreg:
  assumes "iss_wf s" "xlen s = LENGTH('a)" "fits r 5"
  shows "uint (xreg s r :: 'a::len word) = regs s ! nat r"
proof -
  have "0 \<le> regs s ! nat r \<and> regs s ! nat r < 2 ^ xlen s"
    by (rule list_all_nth_nat) (use assms in \<open>auto simp: iss_wf_def fits_def\<close>)
  then show ?thesis using assms(2) by (simp add: xreg_def flip: uXLEN_word) (simp add: uXLEN_id)
qed

lemma step_by_op:
  "op_of w = 0x33 \<Longrightarrow> step s w = step_op s w" "op_of w = 0x3B \<Longrightarrow> step s w = step_op_32 s w"
  "op_of w = 0x13 \<Longrightarrow> step s w = step_op_imm s w" "op_of w = 0x03 \<Longrightarrow> step s w = step_load s w"
  "op_of w = 0x23 \<Longrightarrow> step s w = step_store s w" "op_of w = 0x63 \<Longrightarrow> step s w = step_branch s w"
  "op_of w = 0x6F \<Longrightarrow> step s w = step_jal s w"
  by (auto simp: step_def op_of_def)

text \<open>The tokens of a statement.\<close>

definition mnemonic :: "string \<Rightarrow> string" where
  "mnemonic line = py_lower (hd (re_split (py_strip line)))"

definition operands :: "string \<Rightarrow> string list" where
  "operands line = tl (re_split (py_strip line))"

lemma stmt_int:
  "assemble_int ls xl a (mnemonic line) (operands line) = Some r \<Longrightarrow> assemble_stmt ls xl (a, line) = r"
  by (simp add: assemble_stmt_def mnemonic_def operands_def Let_def)

lemma stmt_intD:
  "assemble_stmt ls xl (a, line) = Inr w \<Longrightarrow> assemble_int ls xl a (mnemonic line) (operands line) = Some r \<Longrightarrow> r = Inr w"
  using stmt_int by fastforce

lemma exec_r_type:
  assumes "iss_wf s" "xlen s = LENGTH('a::len)" "assemble_stmt ls xl (a, line) = Inr w" "has_key R_TYPE (mnemonic line)"
  shows "\<exists>rd rs1 rs2. reg_arg (operands line) 0 = Inr rd \<and> reg_arg (operands line) 1 = Inr rs1 \<and>
    reg_arg (operands line) 2 = Inr rs2 \<and>
    step s w = Inr ((wr s rd (uint (isa_word (mnemonic line) (xreg s rs1 :: 'a word) (xreg s rs2))))\<lparr>pc := pc s + 4\<rparr>)"
proof -
  from stmt_intD [OF assms(3) dispatch_r [OF assms(4)]] obtain rd rs1 rs2 where
    r: "reg_arg (operands line) 0 = Inr rd" "reg_arg (operands line) 1 = Inr rs1" "reg_arg (operands line) 2 = Inr rs2"
      "r_type (mnemonic line) rd rs1 rs2 = Inr w" by (auto simp: rbind_Inr)
  note fit = arg_fits(1) [OF r(1)] arg_fits(1) [OF r(2)] arg_fits(1) [OF r(3)]
  note f = r_type_fields [OF r(4) fit]
  note sem = alu_by_name(3) [OF f(1)] alu_by_name(1,2) [OF f(1), where a = "xreg s rs1 :: 'a word" and b = "xreg s rs2"]
  have "step s w = Inr ((wr s rd (uint (isa_word (mnemonic line) (xreg s rs1 :: 'a word) (xreg s rs2))))\<lparr>pc := pc s + 4\<rparr>)"
    using sem uint_xreg [OF assms(1,2) fit(2)] uint_xreg [OF assms(1,2) fit(3)] assms(2)
    by (auto simp: step_by_op(1) [OF f(2)] step_op_def reg_a_def reg_b_def f(3-5) Let_def)
  with r show ?thesis by blast
qed

lemma r_type_w_table:
  "list_all (\<lambda>(mn, f7, f3). if f7 = 1 then muldiv_word f3 a b = isa_word (butlast mn) a b \<and> (f3 = 0 \<or> 4 \<le> f3)
     else alu_word f3 f7 a b = Some (isa_word (butlast mn) a b) \<and> (f3 = 0 \<or> f3 = 1 \<or> f3 = 5)) R_TYPE_W" for a b :: "32 word"
  unfolding R_TYPE_W_def by (simp add: isa_word_def alu_word_def muldiv_word_def Let_def)

lemma s32_uint: "s32 (uint a) = sint a" for a :: "32 word"
  by (simp add: s32_word)

lemma exec_r_type_w:
  assumes "assemble_stmt ls xl (a, line) = Inr w" "has_key R_TYPE_W (mnemonic line)"
  shows "\<exists>rd rs1 rs2. reg_arg (operands line) 0 = Inr rd \<and> reg_arg (operands line) 1 = Inr rs1 \<and>
    reg_arg (operands line) 2 = Inr rs2 \<and>
    step s w = Inr ((wr s rd (sint (isa_word (butlast (mnemonic line)) (xreg s rs1 :: 32 word) (xreg s rs2))))\<lparr>pc := pc s + 4\<rparr>)"
proof -
  from stmt_intD [OF assms(1) dispatch_r_w [OF assms(2)]] obtain rd rs1 rs2 where
    r: "reg_arg (operands line) 0 = Inr rd" "reg_arg (operands line) 1 = Inr rs1" "reg_arg (operands line) 2 = Inr rs2"
      "r_type_w (mnemonic line) rd rs1 rs2 = Inr w" by (auto simp: rbind_Inr)
  note f = r_type_w_fields [OF r(4) arg_fits(1) [OF r(1)] arg_fits(1) [OF r(2)] arg_fits(1) [OF r(3)]]
  let ?a = "xreg s rs1 :: 32 word" and ?b = "xreg s rs2 :: 32 word"
  have "(if f7_of w = 1 then Inr (muldiv_w (f3_of w) (regs s ! nat rs1) (regs s ! nat rs2))
      else alu_w (f3_of w) (f7_of w) (regs s ! nat rs1) (regs s ! nat rs2)) = Inr (uint (isa_word (butlast (mnemonic line)) ?a ?b))"
    using bspec [OF r_type_w_table [of ?a ?b, unfolded list_all_iff] map_of_SomeD [OF f(1)]]
    by (auto simp: muldiv_w_refines alu_w_refines word_result_def xreg_def split: if_splits)
  then have "step s w = Inr ((wr s rd (sint (isa_word (butlast (mnemonic line)) ?a ?b)))\<lparr>pc := pc s + 4\<rparr>)"
    by (simp add: step_by_op(2) [OF f(2)] step_op_32_def reg_a_def reg_b_def f(3-5) Let_def s32_uint)
  with r show ?thesis by blast
qed

subsection \<open>Immediate operations\<close>

lemma i_type_table:
  "list_all (\<lambda>(mn, f3). mn \<in> {''slli'', ''srli'', ''srai''} \<or>
     alu_word f3 0 a b = Some (isa_word (remove1 (CHR ''i'') mn) a b) \<and> f3 \<noteq> 1 \<and> f3 \<noteq> 5) I_TYPE" for a b :: "'a::len word"
  unfolding I_TYPE_def by (simp add: isa_word_def alu_word_def Let_def)

lemma imm_by_name:
  fixes a :: "'a::len word"
  assumes "map_of I_TYPE mn = Some (f3_of w)" "mn \<notin> {''slli'', ''srli'', ''srai''}" "12 \<le> LENGTH('a)"
  shows "alu_imm LENGTH('a) w (uint a) = Inr (uint (isa_word (remove1 (CHR ''i'') mn) a (word_of_int (imm_i_of w))))"
proof -
  let ?b = "word_of_int (imm_i_of w) :: 'a word"
  have t: "alu_word (f3_of w) 0 a ?b = Some (isa_word (remove1 (CHR ''i'') mn) a ?b)" "f3_of w \<noteq> 1" "f3_of w \<noteq> 5"
    using bspec [OF i_type_table [of a ?b, unfolded list_all_iff] map_of_SomeD [OF assms(1)]] assms(2) by auto
  show ?thesis
    unfolding alu_imm_reg [OF t(2,3) assms(3)] uXLEN_word alu_refines t(1) by (simp add: word_result_def)
qed

lemma shift_amount:
  assumes "0 \<le> v" "v < int LENGTH('a::len)" "LENGTH('a) = 32 \<or> LENGTH('a) = 64"
  shows "nat (uint (word_of_int v :: 'a word) AND (int LENGTH('a) - 1)) = nat v"
proof -
  have "uint (word_of_int v :: 'a word) = v"
    using assms unfolding uXLEN_word [symmetric] by (intro uXLEN_id) auto
  moreover have "v AND (int LENGTH('a) - 1) = v" using assms by (auto simp: bit_norm)
  ultimately show ?thesis by simp
qed

lemma shift_by_name:
  fixes a :: "'a::len word"
  assumes "map_of I_TYPE mn = Some (f3_of w)" "mn \<in> {''slli'', ''srli'', ''srai''}" "LENGTH('a) = 32 \<or> LENGTH('a) = 64"
    "0 \<le> v" "v < int LENGTH('a)" "drop_bit 20 w AND (if LENGTH('a) \<ge> 64 then 0x3F else 0x1F) = v"
    "(if LENGTH('a) \<ge> 64 then drop_bit 26 w AND 0x3F = 0x10 else f7_of w = 0x20) = (mn = ''srai'')"
  shows "alu_imm LENGTH('a) w (uint a) = Inr (uint (isa_word (remove1 (CHR ''i'') mn) a (word_of_int v)))"
proof -
  have d: "(if LENGTH('a) \<ge> 64 then drop_bit 20 w AND 0x3F else drop_bit 20 w AND 0x1F) = v" using assms(6) by presburger
  have f3: "f3_of w = (if mn = ''slli'' then 1 else 5)" using assms(1,2) by (auto simp: I_TYPE_def)
  have alu: "alu_imm LENGTH('a) w (uint a) =
      Inr (if mn = ''slli'' then uXLEN (push_bit (nat v) (uint a)) LENGTH('a)
           else if mn = ''srai'' then uXLEN (drop_bit (nat v) (sXLEN (uint a) LENGTH('a))) LENGTH('a)
           else drop_bit (nat v) (uXLEN (uint a) LENGTH('a)))"
    unfolding alu_imm_def Let_def d assms(7) f3 by simp
  consider "mn = ''slli''" | "mn = ''srli''" | "mn = ''srai''" using assms(2) by auto
  then show ?thesis
    unfolding alu
    by cases (simp_all only: isa_word_def Let_def shift_amount [OF assms(4,5,3)] uXLEN_word sXLEN_word uXLEN_uint
        word_of_int_push uint_sdrop, simp_all add: uint_drop)
qed

lemma exec_i_type:
  assumes "iss_wf s" "xlen s = LENGTH('a::len)" "LENGTH('a) = 32 \<or> LENGTH('a) = 64"
    "assemble_stmt ls (xlen s) (a, line) = Inr w" "has_key I_TYPE (mnemonic line)"
  shows "\<exists>rd rs1 t v. reg_arg (operands line) 0 = Inr rd \<and> reg_arg (operands line) 1 = Inr rs1 \<and>
    arg (operands line) 2 = Inr t \<and> py_int0 (py_strip t) = Inr v \<and>
    step s w = Inr ((wr s rd (uint (isa_word (remove1 (CHR ''i'') (mnemonic line)) (xreg s rs1 :: 'a word) (word_of_int v))))
      \<lparr>pc := pc s + 4\<rparr>)"
proof -
  from stmt_intD [OF assms(4) dispatch_i [OF assms(5)]] obtain rd rs1 t where
    r: "reg_arg (operands line) 0 = Inr rd" "reg_arg (operands line) 1 = Inr rs1" "arg (operands line) 2 = Inr t"
      "i_type (mnemonic line) rd rs1 (Tok t) (xlen s) = Inr w" by (auto simp: rbind_Inr)
  note fit = arg_fits(1) [OF r(1)] arg_fits(1) [OF r(2)]
  have *: "\<exists>v. py_int0 (py_strip t) = Inr v \<and> op_of w = 0x13 \<and> rd_of w = rd \<and> rs1_of w = rs1 \<and>
    alu_imm LENGTH('a) w (uint (xreg s rs1 :: 'a word)) =
      Inr (uint (isa_word (remove1 (CHR ''i'') (mnemonic line)) (xreg s rs1 :: 'a word) (word_of_int v)))"
  proof (cases "mnemonic line \<in> {''slli'', ''srli'', ''srai''}")
    case True
    from shift_imm_fields [OF r(4) fit True, unfolded assms(2), OF assms(3)] obtain v where
      v: "operand_int (Tok t) = Inr v" "0 \<le> v" "v < int LENGTH('a)" "map_of I_TYPE (mnemonic line) = Some (f3_of w)"
        "op_of w = 0x13" "rd_of w = rd" "rs1_of w = rs1" and
      sh: "drop_bit 20 w AND (if LENGTH('a) \<ge> 64 then 0x3F else 0x1F) = v"
        "(if LENGTH('a) \<ge> 64 then drop_bit 26 w AND 0x3F = 0x10 else f7_of w = 0x20) = (mnemonic line = ''srai'')" .
    from shift_by_name [OF v(4) True assms(3) v(2,3) sh] v show ?thesis by (auto simp: operand_int_def)
  next
    case False
    from i_type_fields [OF r(4) fit False] obtain v where
      v: "operand_int (Tok t) = Inr v" "map_of I_TYPE (mnemonic line) = Some (f3_of w)"
        "op_of w = 0x13" "rd_of w = rd" "rs1_of w = rs1" "imm_i_of w = v" .
    have "12 \<le> LENGTH('a)" using assms(3) by auto
    from imm_by_name [OF v(2) False this] v show ?thesis by (auto simp: operand_int_def)
  qed
  then show ?thesis using r uint_xreg [OF assms(1,2) fit(2)] assms(2)
    by (auto simp: step_by_op(3) step_op_imm_def reg_a_def)
qed

subsection \<open>Jumps to labels\<close>

abbreviation stmt_at :: "string list \<Rightarrow> nat \<Rightarrow> string" where
  "stmt_at lines i \<equiv> clean_line (filter is_stmt lines ! i)"

lemma resolve_label:
  assumes "labels_of lines (py_strip (operands line ! k)) = Some target" "arg (operands line) k = Inr t"
  shows "resolve (labels_of lines) t a = Inr (target - a)" "0 \<le> target"
proof -
  have "t = operands line ! k" using assms(2) by (simp add: arg_def split: if_splits)
  then show "resolve (labels_of lines) t a = Inr (target - a)" using assms(1) by (simp add: resolve_def)
  show "0 \<le> target" using label_address_bounds [OF assms(1)] by auto
qed

lemma exec_branch:
  fixes lines i
  defines "line \<equiv> stmt_at lines i"
  assumes "iss_wf s" "xlen s = LENGTH('a::len)" "assemble lines xl = Inr ws" "i < length ws" "has_key BRANCH (mnemonic line)"
    "labels_of lines (py_strip (operands line ! 2)) = Some target" "target < 2 ^ xlen s" "pc s = 4 * int i"
  shows "\<exists>rs1 rs2. reg_arg (operands line) 0 = Inr rs1 \<and> reg_arg (operands line) 1 = Inr rs2 \<and>
    step s (ws ! i) = Inr (s\<lparr>pc := if isa_branch (mnemonic line) (xreg s rs1 :: 'a word) (xreg s rs2) then target else pc s + 4\<rparr>)"
proof -
  have "assemble_stmt (labels_of lines) xl (4 * int i, line) = Inr (ws ! i)"
    using assms(4,5) by (simp add: assemble_words line_def)
  from stmt_intD [OF this dispatch_branch [OF assms(6)]] obtain rs1 rs2 t off where
    r: "reg_arg (operands line) 0 = Inr rs1" "reg_arg (operands line) 1 = Inr rs2" "arg (operands line) 2 = Inr t"
      "resolve (labels_of lines) t (4 * int i) = Inr off" "branch_enc (mnemonic line) rs1 rs2 off = Inr (ws ! i)"
    by (auto simp: rbind_Inr)
  note fit = arg_fits(1) [OF r(1)] arg_fits(1) [OF r(2)]
  note f = branch_enc_fields [OF r(5) fit]
  have o: "off = target - pc s" "0 \<le> target"
    using resolve_label(1) [OF assms(7) r(3), of "4 * int i"] resolve_label(2) [OF assms(7) r(3)] r(4) assms(9) by simp_all
  have "step s (ws ! i) = Inr (s\<lparr>pc := if isa_branch (mnemonic line) (xreg s rs1 :: 'a word) (xreg s rs2) then target else pc s + 4\<rparr>)"
    using branch_by_name [OF f(1), of "xreg s rs1 :: 'a word" "xreg s rs2"] uint_xreg [OF assms(2,3) fit(1)]
      uint_xreg [OF assms(2,3) fit(2)] o assms(3,8)
    by (simp add: step_by_op(6) [OF f(2)] step_branch_def reg_a_def reg_b_def f(3-5) uxlen_def uXLEN_id)
  with r show ?thesis by blast
qed

lemma exec_jal:
  fixes lines i
  defines "line \<equiv> stmt_at lines i"
  assumes "assemble lines xl = Inr ws" "i < length ws" "mnemonic line = ''jal''"
    "labels_of lines (py_strip (operands line ! 1)) = Some target" "target < 2 ^ xlen s" "pc s = 4 * int i"
  shows "\<exists>rd. reg_arg (operands line) 0 = Inr rd \<and> step s (ws ! i) = Inr ((wr s rd (pc s + 4))\<lparr>pc := target\<rparr>)"
proof -
  have "assemble_stmt (labels_of lines) xl (4 * int i, line) = Inr (ws ! i)"
    using assms(2,3) by (simp add: assemble_words line_def)
  from stmt_intD [OF this, unfolded assms(4), OF dispatch_jal] obtain rd t off where
    r: "reg_arg (operands line) 0 = Inr rd" "arg (operands line) 1 = Inr t"
      "resolve (labels_of lines) t (4 * int i) = Inr off" "jal_enc rd off = Inr (ws ! i)"
    by (auto simp: rbind_Inr)
  note f = jal_enc_fields [OF r(4) arg_fits(1) [OF r(1)]]
  have o: "off = target - pc s" "0 \<le> target"
    using resolve_label(1) [OF assms(5) r(2), of "4 * int i"] resolve_label(2) [OF assms(5) r(2)] r(3) assms(7) by simp_all
  have "step s (ws ! i) = Inr ((wr s rd (pc s + 4))\<lparr>pc := target\<rparr>)"
    using o assms(6) by (simp add: step_by_op(7) [OF f(1)] step_jal_def f(2,3) uxlen_def uXLEN_id)
  with r show ?thesis by blast
qed

subsection \<open>Loads and stores\<close>

text \<open>Size in bytes and extension of each load; size of each store.\<close>

definition isa_load :: "string \<Rightarrow> iss \<Rightarrow> int \<Rightarrow> int" where
  "isa_load mn s a =
     (if mn = ''lb'' then sext (load_le s a 1) 8 else if mn = ''lh'' then sext (load_le s a 2) 16
      else if mn = ''lw'' then sext (load_le s a 4) 32 else if mn = ''lbu'' then load_le s a 1
      else if mn = ''lhu'' then load_le s a 2 else if mn = ''lwu'' then load_le s a 4 else load_le s a 8)"

definition isa_store :: "string \<Rightarrow> nat" where
  "isa_store mn = (if mn = ''sb'' then 1 else if mn = ''sh'' then 2 else if mn = ''sw'' then 4 else 8)"

lemma load_by_name: "map_of LOAD mn = Some f3 \<Longrightarrow> iss_wf s \<Longrightarrow> load_value s f3 a = Inr (isa_load mn s a)"
  by (auto simp: LOAD_def isa_load_def load_value_le split: if_splits)

lemma store_by_name: "map_of STORE mn = Some f3 \<Longrightarrow> store_value s f3 a v = Inr (store_le s a v (isa_store mn))"
  by (auto simp: STORE_def isa_store_def store_value_le split: if_splits)

lemma exec_load:
  assumes "iss_wf s" "assemble_stmt ls xl (a, line) = Inr w" "has_key LOAD (mnemonic line)"
  shows "\<exists>rd rs1 t off. reg_arg (operands line) 0 = Inr rd \<and> mem_arg (operands line) 1 = Inr (t, rs1) \<and> operand_int t = Inr off \<and>
    step s w = Inr (case translate s (uxlen s (regs s ! nat rs1 + off)) Load of
      (None, s') \<Rightarrow> s' | (Some addr, s') \<Rightarrow> (wr s' rd (isa_load (mnemonic line) s' addr))\<lparr>pc := pc s + 4\<rparr>)"
proof -
  from stmt_intD [OF assms(2) dispatch_mem(1) [OF assms(3)]] obtain rd t rs1 where
    r: "reg_arg (operands line) 0 = Inr rd" "mem_arg (operands line) 1 = Inr (t, rs1)"
      "load_enc (mnemonic line) rd t rs1 = Inr w" by (auto simp: rbind_Inr)
  from load_enc_fields [OF r(3) arg_fits(1) [OF r(1)] arg_fits(3) [OF r(2)]] obtain off where
    f: "operand_int t = Inr off" "map_of LOAD (mnemonic line) = Some (f3_of w)" "op_of w = 0x03" "rd_of w = rd"
      "rs1_of w = rs1" "imm_i_of w = off" .
  have "iss_wf s'" if "translate s va Load = (p, s')" for va p s' using wf_translate [OF assms(1), of va Load] that by simp
  then show ?thesis using r f load_by_name [OF f(2)]
    by (auto simp: step_by_op(4) step_load_def reg_a_def split: prod.splits option.splits)
qed

lemma exec_store:
  assumes "assemble_stmt ls xl (a, line) = Inr w" "has_key STORE (mnemonic line)"
  shows "\<exists>rs2 rs1 t off. reg_arg (operands line) 0 = Inr rs2 \<and> mem_arg (operands line) 1 = Inr (t, rs1) \<and> operand_int t = Inr off \<and>
    step s w = Inr (case translate s (uxlen s (regs s ! nat rs1 + off)) Store of
      (None, s') \<Rightarrow> s' | (Some addr, s') \<Rightarrow> (store_le s' addr (regs s ! nat rs2) (isa_store (mnemonic line)))\<lparr>pc := pc s + 4\<rparr>)"
proof -
  from stmt_intD [OF assms(1) dispatch_mem(2) [OF assms(2)]] obtain rs2 t rs1 where
    r: "reg_arg (operands line) 0 = Inr rs2" "mem_arg (operands line) 1 = Inr (t, rs1)"
      "store_enc (mnemonic line) rs2 t rs1 = Inr w" by (auto simp: rbind_Inr)
  from store_enc_fields [OF r(3) arg_fits(1) [OF r(1)] arg_fits(3) [OF r(2)]] obtain off where
    f: "operand_int t = Inr off" "map_of STORE (mnemonic line) = Some (f3_of w)" "op_of w = 0x23" "rs2_of w = rs2"
      "rs1_of w = rs1" "imm_s_of w = off" .
  then show ?thesis using r store_by_name [OF f(2)]
    by (auto simp: step_by_op(5) step_store_def reg_a_def reg_b_def split: prod.splits option.splits)
qed

end
