(* ===== verification/Asm_Image.thy ===== *)
theory Asm_Image
  imports Asm_Decode
begin

text \<open>
  Memory images: the bytes that \<open>write_mem\<close> lays out and when it refuses a program, the text
  lines it prints, and what \<open>load_words\<close> reads back from them.
\<close>

subsection \<open>Byte layout\<close>

definition le_bytes4 :: "int \<Rightarrow> int list" where
  "le_bytes4 w = [w AND 0xFF, drop_bit 8 w AND 0xFF, drop_bit 16 w AND 0xFF, drop_bit 24 w AND 0xFF]"

lemma length_le_bytes4 [simp]: "length (le_bytes4 w) = 4"
  by (simp add: le_bytes4_def)

lemma length_store_word [simp]: "length (store_word data off w) = length data"
  by (simp add: store_word_def)

lemma store_word_append: "length xs = off \<Longrightarrow> length ys = 4 \<Longrightarrow> store_word (xs @ ys @ zs) off w = xs @ le_bytes4 w @ zs"
  by (auto simp: store_word_def le_bytes4_def list_update_append length_Suc_conv numeral_eq_Suc)

lemma split_at4: "4 \<le> length xs \<Longrightarrow> \<exists>ys zs. xs = ys @ zs \<and> length ys = 4"
  by (metis append_take_drop_id length_take min.absorb2)

lemma fill_words_layout:
  "length xs = 4 * i \<Longrightarrow>
     fill_words (xs @ rest) i ws =
       (if ws = [] \<or> 4 * length ws \<le> length rest then Inr (xs @ concat (map le_bytes4 ws) @ drop (4 * length ws) rest)
        else Inl ValueError)"
proof (induction ws arbitrary: xs i rest)
  case (Cons w ws)
  show ?case
  proof (cases "4 \<le> length rest")
    case True
    then obtain ys zs where r: "rest = ys @ zs" "length ys = 4" using split_at4 by blast
    have s: "store_word (xs @ rest) (i * 4) w = (xs @ le_bytes4 w) @ zs"
      using store_word_append [of xs "i * 4" ys zs w] Cons.prems r by simp
    have "fill_words (xs @ rest) i (w # ws) = fill_words ((xs @ le_bytes4 w) @ zs) (i + 1) ws"
      using Cons.prems True by (simp add: s del: append_assoc)
    then show ?thesis using Cons.IH [of "xs @ le_bytes4 w" "i + 1" zs] Cons.prems r by auto
  next
    case False
    then show ?thesis using Cons.prems by simp
  qed
qed simp

lemma concat_zero_words: "concat (replicate k (le_bytes4 0)) = replicate (4 * k) 0"
  by (induction k) (simp_all add: le_bytes4_def numeral_eq_Suc replicate_append_same [symmetric] replicate_add [symmetric])

lemma zero_rest: "4 * length ws \<le> n \<Longrightarrow>
    concat (map le_bytes4 ws) @ replicate (n - 4 * length ws) 0 =
    concat (map le_bytes4 (ws @ replicate (n div 4 - length ws) 0)) @ replicate (n mod 4) 0"
proof -
  assume "4 * length ws \<le> n"
  then have "n - 4 * length ws = 4 * (n div 4 - length ws) + n mod 4" by presburger
  then show ?thesis by (simp add: concat_zero_words replicate_add)
qed

definition image_bytes :: "int list \<Rightarrow> nat \<Rightarrow> int list" where
  "image_bytes ws n = concat (map le_bytes4 ws) @ replicate (n - 4 * length ws) 0"

lemma write_mem_layout:
  "write_mem ws sz =
     (if 0 \<le> sz \<and> 4 * int (length ws) \<le> sz
      then Inr (concat (map (\<lambda>b. bin8 b @ [newline]) (image_bytes ws (nat sz)))) else Inl ValueError)"
  using fill_words_layout [of "[]" 0 "replicate (nat sz) 0" ws]
  by (auto simp: write_mem_def image_bytes_def nat_le_iff)

lemma le_bytes4_range: "b \<in> set (le_bytes4 w) \<Longrightarrow> fits b 8"
  by (auto simp: le_bytes4_def mask_take)

lemma image_bytes_range: "b \<in> set (image_bytes ws n) \<Longrightarrow> fits b 8"
  by (auto simp: image_bytes_def dest: le_bytes4_range)

subsection \<open>Text lines\<close>

lemma file_lines_append: "newline \<notin> set l \<Longrightarrow> file_lines_aux (l @ newline # rest) cur = (rev cur @ l @ [newline]) # file_lines_aux rest []"
  by (induction l arbitrary: cur) auto

lemma file_lines_concat:
  "(\<And>l. l \<in> set ls \<Longrightarrow> newline \<notin> set l) \<Longrightarrow> file_lines (concat (map (\<lambda>l. l @ [newline]) ls)) = map (\<lambda>l. l @ [newline]) ls"
  unfolding file_lines_def
  by (induction ls) (auto simp: file_lines_append)

lemma bit_char: "c \<in> set (bin8 b) \<Longrightarrow> c = CHR ''0'' \<or> c = CHR ''1''"
  by (auto simp: bin8_def)

lemma newline_space: "py_space newline" "newline \<noteq> CHR ''0''" "newline \<noteq> CHR ''1''"
  by code_simp+

lemma bit_char_space: "\<not> py_space (CHR ''0'')" "\<not> py_space (CHR ''1'')"
  by (simp_all add: py_space_def)

lemma dropWhile_hd: "xs \<noteq> [] \<Longrightarrow> \<not> P (hd xs) \<Longrightarrow> dropWhile P xs = xs"
  by (cases xs) simp_all

lemma strip_id: "(\<And>c. c \<in> set l \<Longrightarrow> \<not> py_space c) \<Longrightarrow> py_strip l = l"
  unfolding py_strip_def by (cases "l = []") (auto simp: dropWhile_hd hd_rev)

lemma strip_line: "(\<And>c. c \<in> set l \<Longrightarrow> \<not> py_space c) \<Longrightarrow> py_strip (l @ [newline]) = l"
proof (cases "l = []")
  case False
  assume "\<And>c. c \<in> set l \<Longrightarrow> \<not> py_space c"
  with False have "dropWhile py_space (l @ [newline]) = l @ [newline]" "dropWhile py_space (rev l) = rev l"
    by (auto simp: dropWhile_hd hd_rev)
  then show ?thesis by (simp add: py_strip_def newline_space)
qed (simp add: py_strip_def newline_space)

subsection \<open>Binary numerals\<close>

definition bit_chars :: "bool list \<Rightarrow> string" where
  "bit_chars bs = map (\<lambda>b. if b then CHR ''1'' else CHR ''0'') bs"

fun bits_value :: "int \<Rightarrow> bool list \<Rightarrow> int" where
  "bits_value acc [] = acc"
| "bits_value acc (b # bs) = bits_value (acc * 2 + of_bool b) bs"

lemma int_digits_bits:
  "bs \<noteq> [] \<Longrightarrow> int_digits 2 us (bit_chars bs) acc = Some (bits_value acc bs)"
proof (induction bs arbitrary: us acc)
  case (Cons b bs)
  then show ?case by (cases bs) (auto simp: bit_chars_def digit_val_def)
qed simp

lemma py_int2_bits:
  assumes "bs \<noteq> []"
  shows "py_int2 (bit_chars bs) = Inr (bits_value 0 bs)"
proof -
  have "py_strip (bit_chars bs) = bit_chars bs"
    by (rule strip_id) (auto simp: bit_chars_def bit_char_space split: if_splits)
  moreover have "bin_body (bit_chars bs) = int_digits 2 False (bit_chars bs) 0"
    by (cases bs; cases "tl bs") (auto simp: bin_body_def bit_chars_def py_lower_char_def py_upper_def)
  ultimately show ?thesis using int_digits_bits [OF assms] assms
    by (cases bs) (auto simp: py_int2_def bit_chars_def split: if_splits)
qed

definition byte_bits :: "int \<Rightarrow> bool list" where
  "byte_bits b = map (bit b) [7, 6, 5, 4, 3, 2, 1, 0]"

lemma bin8_bits: "bin8 b = bit_chars (byte_bits b)"
  by (simp add: bin8_def bit_chars_def byte_bits_def)

lemma bits_value_append: "bits_value acc (xs @ ys) = bits_value (bits_value acc xs) ys"
  by (induction xs arbitrary: acc) simp_all

lemma bits_value_byte: "fits b 8 \<Longrightarrow> bits_value acc (byte_bits b) = acc * 256 + b"
proof -
  assume "fits b 8"
  then have "take_bit 8 b = b" by (simp add: fits_take_bit)
  moreover have "take_bit 8 b = of_bool (bit b 7) * 128 + of_bool (bit b 6) * 64 + of_bool (bit b 5) * 32 +
    of_bool (bit b 4) * 16 + of_bool (bit b 3) * 8 + of_bool (bit b 2) * 4 + of_bool (bit b 1) * 2 + of_bool (bit b 0)"
    by (simp add: numeral_eq_Suc take_bit_Suc_from_most)
  ultimately show ?thesis by (simp add: byte_bits_def numeral_eq_Suc)
qed

subsection \<open>Reading an image\<close>

definition byte_swap :: "int \<Rightarrow> int" where
  "byte_swap w = (w mod 256) * 2 ^ 24 + (w div 2 ^ 8 mod 256) * 2 ^ 16 + (w div 2 ^ 16 mod 256) * 2 ^ 8 + w div 2 ^ 24 mod 256"

lemma int2_word: "py_int2 (concat (map bin8 (le_bytes4 w))) = Inr (byte_swap w)"
proof -
  have "concat (map bin8 (le_bytes4 w)) = bit_chars (concat (map byte_bits (le_bytes4 w)))"
    by (simp add: bin8_bits bit_chars_def le_bytes4_def)
  moreover have "concat (map byte_bits (le_bytes4 w)) \<noteq> []" by (simp add: le_bytes4_def byte_bits_def)
  moreover have "fits (w AND 0xFF) 8" "fits (drop_bit 8 w AND 0xFF) 8" "fits (drop_bit 16 w AND 0xFF) 8" "fits (drop_bit 24 w AND 0xFF) 8"
    by (simp_all add: mask_take)
  ultimately show ?thesis
    by (simp add: py_int2_bits le_bytes4_def bits_value_append bits_value_byte byte_swap_def bit_norm)
qed

lemma group_words_image:
  "length rest < 4 \<Longrightarrow> group_words (map bin8 (concat (map le_bytes4 ws)) @ rest) = Inr (map byte_swap ws)"
proof (induction ws)
  case Nil
  then show ?case by (auto simp: numeral_eq_Suc less_Suc_eq length_Suc_conv)
next
  case (Cons w ws)
  then show ?case using int2_word [of w] by (simp add: le_bytes4_def)
qed

lemma load_words_image:
  assumes "4 * length ws \<le> n"
  shows "load_words (concat (map (\<lambda>b. bin8 b @ [newline]) (image_bytes ws n))) =
    Inr (map byte_swap (ws @ replicate (n div 4 - length ws) 0))"
proof -
  let ?ls = "map bin8 (image_bytes ws n)"
  have f: "file_lines (concat (map (\<lambda>b. bin8 b @ [newline]) (image_bytes ws n))) = map (\<lambda>l. l @ [newline]) ?ls"
    using file_lines_concat [of ?ls] newline_space bit_char by (fastforce simp: comp_def)
  have s: "map py_strip (map (\<lambda>l. l @ [newline]) ?ls) = ?ls"
    by (auto simp: comp_def intro!: strip_line dest!: bit_char simp: bit_char_space)
  have n: "filter (\<lambda>l. l \<noteq> []) ?ls = ?ls" by (auto simp: filter_id_conv bin8_def)
  have i: "image_bytes ws n = concat (map le_bytes4 (ws @ replicate (n div 4 - length ws) 0)) @ replicate (n mod 4) 0"
    using zero_rest [OF assms] by (simp add: image_bytes_def)
  show ?thesis unfolding load_words_def f s n unfolding i map_append
    using group_words_image [of "map bin8 (replicate (n mod 4) 0)" "ws @ replicate (n div 4 - length ws) 0"] by simp
qed

end
