(* ===== verification/Asm_Props.thy ===== *)
theory Asm_Props
  imports Asm_Sem Asm_Image Iss_Props
begin

text \<open>
  The properties of the assembler together with the simulator: a statement of the source text
  and the effect of executing the word it becomes; the two passes; the memory image.
\<close>

text \<open>
  C4. Executing the word of a register-register statement (\<open>add\<close> to \<open>and\<close>, \<open>mul\<close> to \<open>remu\<close>)
  writes to the destination named first the result of the operation that the mnemonic names,
  on machine words of the register width, applied to the two registers named next, and
  advances the program counter.
\<close>

theorem assembled_op_executes:
  assumes "iss_wf s" "xlen s = LENGTH('a::len)" "assemble_stmt labels xl (addr, line) = Inr w" "has_key R_TYPE (mnemonic line)"
  shows "\<exists>rd rs1 rs2. reg_arg (operands line) 0 = Inr rd \<and> reg_arg (operands line) 1 = Inr rs1 \<and>
    reg_arg (operands line) 2 = Inr rs2 \<and>
    step s w = Inr ((wr s rd (uint (isa_word (mnemonic line) (xreg s rs1 :: 'a word) (xreg s rs2))))\<lparr>pc := pc s + 4\<rparr>)"
  by (rule exec_r_type [OF assms])

theorem assembled_op_executes_witness:
  "\<exists>rd rs1 rs2. reg_arg (operands ''MULH x3, x1,x2'') 0 = Inr rd \<and> reg_arg (operands ''MULH x3, x1,x2'') 1 = Inr rs1 \<and>
    reg_arg (operands ''MULH x3, x1,x2'') 2 = Inr rs2 \<and>
    step (iss_init 16 32) 0x022091B3 =
      Inr ((wr (iss_init 16 32) rd (uint (isa_word ''mulh'' (xreg (iss_init 16 32) rs1 :: 32 word) (xreg (iss_init 16 32) rs2))))
        \<lparr>pc := pc (iss_init 16 32) + 4\<rparr>)"
proof -
  have a: "assemble_stmt Map.empty 32 (0, ''MULH x3, x1,x2'') = Inr 0x022091B3" by code_simp
  have m: "mnemonic ''MULH x3, x1,x2'' = ''mulh''" by code_simp
  have k: "has_key R_TYPE ''mulh''" by code_simp
  have l: "xlen (iss_init 16 32) = LENGTH(32)" by (simp add: init_sel)
  show ?thesis using assembled_op_executes [OF init32 l a] unfolding m using k by blast
qed

text \<open>
  C2. Executing the word of a 32-bit register-register statement of the 64-bit instruction set
  (\<open>addw\<close> to \<open>sraw\<close>, \<open>mulw\<close> to \<open>remuw\<close>) writes to the destination the sign-extended result of the
  operation named without the \<open>w\<close>, on the low 32 bits of the two source registers taken as machine
  words, and advances the program counter.
\<close>

theorem assembled_op32_executes:
  assumes "assemble_stmt labels xl (addr, line) = Inr w" "has_key R_TYPE_W (mnemonic line)"
  shows "\<exists>rd rs1 rs2. reg_arg (operands line) 0 = Inr rd \<and> reg_arg (operands line) 1 = Inr rs1 \<and>
    reg_arg (operands line) 2 = Inr rs2 \<and>
    step s w = Inr ((wr s rd (sint (isa_word (butlast (mnemonic line)) (xreg s rs1 :: 32 word) (xreg s rs2))))\<lparr>pc := pc s + 4\<rparr>)"
  by (rule exec_r_type_w [OF assms])

theorem assembled_op32_executes_witness:
  "\<exists>rd rs1 rs2. reg_arg (operands ''divw x3, x1, x2'') 0 = Inr rd \<and> reg_arg (operands ''divw x3, x1, x2'') 1 = Inr rs1 \<and>
    reg_arg (operands ''divw x3, x1, x2'') 2 = Inr rs2 \<and>
    step (iss_init 64 64) 0x0220C1BB =
      Inr ((wr (iss_init 64 64) rd (sint (isa_word ''div'' (xreg (iss_init 64 64) rs1 :: 32 word) (xreg (iss_init 64 64) rs2))))
        \<lparr>pc := pc (iss_init 64 64) + 4\<rparr>)"
proof -
  have a: "assemble_stmt Map.empty 64 (0, ''divw x3, x1, x2'') = Inr 0x0220C1BB" by code_simp
  have m: "mnemonic ''divw x3, x1, x2'' = ''divw''" "butlast ''divw'' = ''div''" "has_key R_TYPE_W ''divw''" by code_simp+
  show ?thesis using assembled_op32_executes [OF a, of "iss_init 64 64"] unfolding m(1,2) using m(3) by blast
qed

text \<open>
  C5. Executing the word of a register-immediate statement (\<open>addi\<close> to \<open>andi\<close>, and the shifts by
  a constant) assembled for the width of the core writes the result of the operation without
  the \<open>i\<close> on the source register and the immediate as written, sign-extended.
\<close>

theorem assembled_imm_executes:
  assumes "iss_wf s" "xlen s = LENGTH('a::len)" "LENGTH('a) = 32 \<or> LENGTH('a) = 64"
    "assemble_stmt labels (xlen s) (addr, line) = Inr w" "has_key I_TYPE (mnemonic line)"
  shows "\<exists>rd rs1 t v. reg_arg (operands line) 0 = Inr rd \<and> reg_arg (operands line) 1 = Inr rs1 \<and>
    arg (operands line) 2 = Inr t \<and> py_int0 (py_strip t) = Inr v \<and>
    step s w = Inr ((wr s rd (uint (isa_word (remove1 (CHR ''i'') (mnemonic line)) (xreg s rs1 :: 'a word) (word_of_int v))))
      \<lparr>pc := pc s + 4\<rparr>)"
  by (rule exec_i_type [OF assms])

theorem assembled_imm_executes_witness:
  "\<exists>rd rs1 t v. reg_arg (operands ''slti x1, x2, -0x10'') 0 = Inr rd \<and> reg_arg (operands ''slti x1, x2, -0x10'') 1 = Inr rs1 \<and>
    arg (operands ''slti x1, x2, -0x10'') 2 = Inr t \<and> py_int0 (py_strip t) = Inr v \<and>
    step (iss_init 16 32) 0xFF012093 =
      Inr ((wr (iss_init 16 32) rd (uint (isa_word ''slt'' (xreg (iss_init 16 32) rs1 :: 32 word) (word_of_int v))))
        \<lparr>pc := pc (iss_init 16 32) + 4\<rparr>)"
proof -
  have "assemble_stmt Map.empty 32 (0, ''slti x1, x2, -0x10'') = Inr 0xFF012093" by code_simp
  then have a: "assemble_stmt Map.empty (xlen (iss_init 16 32)) (0, ''slti x1, x2, -0x10'') = Inr 0xFF012093"
    by (simp only: init_sel)
  have m: "mnemonic ''slti x1, x2, -0x10'' = ''slti''" "remove1 (CHR ''i'') ''slti'' = ''slt''" by code_simp+
  have k: "has_key I_TYPE ''slti''" by code_simp
  have l: "xlen (iss_init 16 32) = LENGTH(32)" by (simp add: init_sel)
  show ?thesis using assembled_imm_executes [OF init32 l _ a] unfolding m using k by simp
qed

text \<open>
  C6. Jumps reach their labels. In an assembled program, at the address of the statement, a
  branch to a label continues at the address of the label exactly when the condition its
  mnemonic names holds on machine words, and with the next statement otherwise; a \<open>jal\<close> to a
  label continues there and leaves the return address in its register.
\<close>

theorem jumps_reach_labels:
  assumes "iss_wf s" "xlen s = LENGTH('a::len)" "assemble lines xl = Inr ws" "i < length ws" "pc s = 4 * int i"
    "labels_of lines l = Some target" "target < 2 ^ xlen s" "line = stmt_at lines i"
  shows "(has_key BRANCH (mnemonic line) \<and> py_strip (operands line ! 2) = l \<longrightarrow>
      (\<exists>rs1 rs2. reg_arg (operands line) 0 = Inr rs1 \<and> reg_arg (operands line) 1 = Inr rs2 \<and>
        step s (ws ! i) =
          Inr (s\<lparr>pc := if isa_branch (mnemonic line) (xreg s rs1 :: 'a word) (xreg s rs2) then target else pc s + 4\<rparr>))) \<and>
    (mnemonic line = ''jal'' \<and> py_strip (operands line ! 1) = l \<longrightarrow>
      (\<exists>rd. reg_arg (operands line) 0 = Inr rd \<and> step s (ws ! i) = Inr ((wr s rd (pc s + 4))\<lparr>pc := target\<rparr>)))"
  using exec_branch [OF assms(1-4), of target] exec_jal [OF assms(3,4), of target s] assms(5-8) by blast

lemma loop_program:
  "assemble [''loop:  # start'', ''  addi x1, x1, 1'', ''  bne x1, x2, loop'', ''jal x0, loop''] 32 =
     Inr [0x00108093, 0xFE209EE3, 0xFF9FF06F]"
  "stmt_at [''loop:  # start'', ''  addi x1, x1, 1'', ''  bne x1, x2, loop'', ''jal x0, loop''] 1 = ''bne x1, x2, loop''"
  "labels_of [''loop:  # start'', ''  addi x1, x1, 1'', ''  bne x1, x2, loop'', ''jal x0, loop''] ''loop'' = Some 0"
  "mnemonic ''bne x1, x2, loop'' = ''bne''" "py_strip (operands ''bne x1, x2, loop'' ! 2) = ''loop''" "has_key BRANCH ''bne''"
  by code_simp+

theorem jumps_reach_labels_witness:
  "\<exists>rs1 rs2. reg_arg (operands ''bne x1, x2, loop'') 0 = Inr rs1 \<and> reg_arg (operands ''bne x1, x2, loop'') 1 = Inr rs2 \<and>
     step ((iss_init 16 32)\<lparr>pc := 4\<rparr>) 0xFE209EE3 =
       Inr ((iss_init 16 32)\<lparr>pc := if isa_branch ''bne'' (xreg (iss_init 16 32) rs1 :: 32 word) (xreg (iss_init 16 32) rs2) then 0 else 8\<rparr>)"
proof -
  have w: "iss_wf ((iss_init 16 32)\<lparr>pc := 4\<rparr>)" using init32 by (simp add: iss_wf_def)
  have x: "xlen ((iss_init 16 32)\<lparr>pc := 4\<rparr>) = LENGTH(32)" by (simp add: init_sel)
  show ?thesis
    using jumps_reach_labels [OF w x loop_program(1), of 1 "''loop''" 0] loop_program(2-6)
    by (simp add: init_sel xreg_def cong: if_cong)
qed

text \<open>
  C7. Executing the word of a load statement reads, at the address register plus offset (after
  translation), the number of bytes its mnemonic names, little-endian and sign- or
  zero-extended; a store statement writes the low bytes of its first operand there; a page
  fault leaves only the trap.
\<close>

theorem loads_and_stores_execute:
  assumes "iss_wf s" "assemble_stmt labels xl (addr, line) = Inr w"
  shows "(has_key LOAD (mnemonic line) \<longrightarrow>
      (\<exists>rd rs1 t off. reg_arg (operands line) 0 = Inr rd \<and> mem_arg (operands line) 1 = Inr (t, rs1) \<and> operand_int t = Inr off \<and>
        step s w = Inr (case translate s (uxlen s (regs s ! nat rs1 + off)) Load of
          (None, s') \<Rightarrow> s' | (Some a, s') \<Rightarrow> (wr s' rd (isa_load (mnemonic line) s' a))\<lparr>pc := pc s + 4\<rparr>))) \<and>
    (has_key STORE (mnemonic line) \<longrightarrow>
      (\<exists>rs2 rs1 t off. reg_arg (operands line) 0 = Inr rs2 \<and> mem_arg (operands line) 1 = Inr (t, rs1) \<and> operand_int t = Inr off \<and>
        step s w = Inr (case translate s (uxlen s (regs s ! nat rs1 + off)) Store of
          (None, s') \<Rightarrow> s' | (Some a, s') \<Rightarrow> (store_le s' a (regs s ! nat rs2) (isa_store (mnemonic line)))\<lparr>pc := pc s + 4\<rparr>)))"
  using exec_load [OF assms] exec_store [OF assms(2)] by blast

theorem loads_and_stores_execute_witness:
  "(\<exists>rd rs1 t off. reg_arg (operands ''lhu x5, -4(x2)'') 0 = Inr rd \<and> mem_arg (operands ''lhu x5, -4(x2)'') 1 = Inr (t, rs1) \<and>
      operand_int t = Inr off \<and>
      step (iss_init 16 32) 0xFFC15283 = Inr (case translate (iss_init 16 32) (uxlen (iss_init 16 32) (regs (iss_init 16 32) ! nat rs1 + off)) Load of
          (None, s') \<Rightarrow> s' | (Some a, s') \<Rightarrow> (wr s' rd (isa_load ''lhu'' s' a))\<lparr>pc := pc (iss_init 16 32) + 4\<rparr>)) \<and>
   (\<exists>rs2 rs1 t off. reg_arg (operands ''sh x5, 6(x0)'') 0 = Inr rs2 \<and> mem_arg (operands ''sh x5, 6(x0)'') 1 = Inr (t, rs1) \<and>
      operand_int t = Inr off \<and>
      step (iss_init 16 32) 0x00501323 = Inr (case translate (iss_init 16 32) (uxlen (iss_init 16 32) (regs (iss_init 16 32) ! nat rs1 + off)) Store of
          (None, s') \<Rightarrow> s' | (Some a, s') \<Rightarrow> (store_le s' a (regs (iss_init 16 32) ! nat rs2) (isa_store ''sh''))\<lparr>pc := pc (iss_init 16 32) + 4\<rparr>))"
proof -
  have a: "assemble_stmt Map.empty 32 (0, ''lhu x5, -4(x2)'') = Inr 0xFFC15283"
    "assemble_stmt Map.empty 32 (0, ''sh x5, 6(x0)'') = Inr 0x00501323" by code_simp+
  have m: "mnemonic ''lhu x5, -4(x2)'' = ''lhu''" "mnemonic ''sh x5, 6(x0)'' = ''sh''" by code_simp+
  have k: "has_key LOAD ''lhu''" "has_key STORE ''sh''" by code_simp+
  show ?thesis
    using loads_and_stores_execute [OF init32 a(1)] loads_and_stores_execute [OF init32 a(2)]
    unfolding m using k by blast
qed

text \<open>
  C40. Whatever the text, \<open>assemble\<close> returns 32-bit words or raises \<open>ValueError\<close>, \<open>IndexError\<close> (a
  missing operand) or \<open>AttributeError\<close> (a malformed memory operand); no table lookup raises
  \<open>KeyError\<close>.
\<close>

theorem assemble_outcomes:
  "outcome (\<lambda>e. e \<in> {ValueError, IndexError, AttributeError}) (list_all (\<lambda>w. 0 \<le> w \<and> w < 2 ^ 32)) (assemble lines xl)"
proof -
  have "outcome asm_error (list_all (\<lambda>w. fits w 32)) (assemble lines xl)"
    using assemble_stmts_outcome by (auto simp: assemble_def split: prod.splits)
  moreover have "asm_error = (\<lambda>e. e \<in> {ValueError, IndexError, AttributeError})" by (auto simp: asm_error_def)
  ultimately show ?thesis by (simp add: fits_def)
qed

text \<open>
  \<open>write_mem\<close> refuses a program exactly when it does not fit into the image; otherwise it
  prints one line per byte, the words in order, each with its low byte first, then zeros up to
  the size.
\<close>

lemma write_mem_little_endian:
  "write_mem ws sz =
     (if 0 \<le> sz \<and> 4 * int (length ws) \<le> sz
      then Inr (concat (map (\<lambda>b. bin8 b @ [newline]) (concat (map le_bytes4 ws) @ replicate (nat sz - 4 * length ws) 0)))
      else Inl ValueError)"
  by (simp only: write_mem_layout image_bytes_def)

text \<open>
  \<open>load_words\<close> (of the debugger, the random test driver and the benchmark runner) reads from
  an image of \<open>write_mem\<close> every word with its bytes in reverse order: the reader takes the first
  byte as the most significant one, the writer emits the least significant one first.
\<close>

lemma load_words_swaps_bytes:
  assumes "write_mem ws sz = Inr text"
  shows "load_words text = Inr (map byte_swap (ws @ replicate (nat sz div 4 - length ws) 0))"
  using assms load_words_image [of ws "nat sz"] by (auto simp: write_mem_layout split: if_splits)

end
