(* ===== verification/Disasm.thy ===== *)
theory Disasm
  imports Prelude
begin

text \<open>
  The disassembler \<open>sim/tools/disasm.py\<close>: the number formats of its f-strings and \<open>disasm\<close>, one
  definition per opcode group in the order of the source. Words are Python integers. The dash
  printed for the zero word is the three bytes of its UTF-8 encoding.
\<close>

subsection \<open>Number formats\<close>

definition digit_char :: "nat \<Rightarrow> char" where
  "digit_char d = (if d < 10 then char_of (48 + d) else char_of (87 + d))"

function show_base :: "int \<Rightarrow> int \<Rightarrow> string" where
  "show_base b n = (if b < 2 \<or> n < b then [digit_char (nat n)] else show_base b (n div b) @ [digit_char (nat (n mod b))])"
  by pat_completeness auto

termination show_base
  by (relation "measure (\<lambda>(b, n). nat n)") (auto simp: int_div_less_self)

declare show_base.simps [simp del]

definition zfill :: "nat \<Rightarrow> string \<Rightarrow> string" where
  "zfill k s = replicate (k - length s) (CHR ''0'') @ s"

text \<open>\<open>{v}\<close>, \<open>{v:+d}\<close>, \<open>{v:x}\<close>, \<open>{v:03x}\<close> and the like; \<open>zhex k\<close> pads to \<open>k\<close> characters, sign included.\<close>

definition show_int :: "int \<Rightarrow> string" where
  "show_int v = (if v < 0 then ''-'' @ show_base 10 (- v) else show_base 10 v)"

definition show_signed :: "int \<Rightarrow> string" where
  "show_signed v = (if v < 0 then show_int v else ''+'' @ show_int v)"

definition show_hex :: "int \<Rightarrow> string" where
  "show_hex v = (if v < 0 then ''-'' @ show_base 16 (- v) else show_base 16 v)"

definition zhex :: "nat \<Rightarrow> int \<Rightarrow> string" where
  "zhex k v = (if v < 0 then ''-'' @ zfill (k - 1) (show_base 16 (- v)) else zfill k (show_base 16 v))"

subsection \<open>Names\<close>

definition get_name :: "(int \<times> string) list \<Rightarrow> int \<Rightarrow> string \<Rightarrow> string" where
  "get_name t k d = (case map_of t k of Some n \<Rightarrow> n | None \<Rightarrow> d)"

definition DIS_RM_NAMES :: "(int \<times> string) list" where
  "DIS_RM_NAMES = [(0, ''rne''), (1, ''rtz''), (2, ''rdn''), (3, ''rup''), (4, ''rmm''), (7, ''dyn'')]"

definition CSR_NAMES :: "(int \<times> string) list" where
  "CSR_NAMES = [(0x300, ''mstatus''), (0x305, ''mtvec''), (0x340, ''mscratch''), (0x341, ''mepc''), (0x342, ''mcause''),
     (1, ''fflags''), (2, ''frm''), (3, ''fcsr'')]"

definition MADD_NAMES :: "(int \<times> string) list" where
  "MADD_NAMES = [(0x43, ''fmadd.s''), (0x47, ''fmsub.s''), (0x4B, ''fnmsub.s''), (0x4F, ''fnmadd.s'')]"

definition rm_name :: "int \<Rightarrow> string" where
  "rm_name rm = get_name DIS_RM_NAMES rm (''rm?'' @ show_int rm)"

definition dis_sext :: "int \<Rightarrow> nat \<Rightarrow> int" where
  "dis_sext v0 bits =
     (let v = v0 AND (push_bit bits 1 - 1)
      in if v AND push_bit (bits - 1) 1 \<noteq> 0 then v - push_bit bits 1 else v)"

definition csr_name :: "int \<Rightarrow> string" where
  "csr_name addr = get_name CSR_NAMES addr (''0x'' @ zhex 3 addr)"

subsection \<open>Fields\<close>

definition xr :: "int \<Rightarrow> string" where "xr n = ''x'' @ show_int n"
definition fr :: "int \<Rightarrow> string" where "fr n = ''f'' @ show_int n"
definition d_op :: "int \<Rightarrow> int" where "d_op word = word AND 0x7F"
definition d_rd :: "int \<Rightarrow> int" where "d_rd word = drop_bit 7 word AND 0x1F"
definition d_f3 :: "int \<Rightarrow> int" where "d_f3 word = drop_bit 12 word AND 0x7"
definition d_rs1 :: "int \<Rightarrow> int" where "d_rs1 word = drop_bit 15 word AND 0x1F"
definition d_rs2 :: "int \<Rightarrow> int" where "d_rs2 word = drop_bit 20 word AND 0x1F"
definition d_f7 :: "int \<Rightarrow> int" where "d_f7 word = drop_bit 25 word AND 0x7F"
definition d_imm_i :: "int \<Rightarrow> int" where "d_imm_i word = dis_sext (drop_bit 20 word) 12"

definition d_imm_s :: "int \<Rightarrow> int" where
  "d_imm_s word = dis_sext (push_bit 5 (drop_bit 25 word) OR (drop_bit 7 word AND 0x1F)) 12"

definition d_branch_off :: "int \<Rightarrow> int" where
  "d_branch_off word =
     (let b12 = drop_bit 31 word AND 1; b11 = drop_bit 7 word AND 1;
          b10_5 = drop_bit 25 word AND 0x3F; b4_1 = drop_bit 8 word AND 0xF
      in dis_sext (push_bit 12 b12 OR push_bit 11 b11 OR push_bit 5 b10_5 OR push_bit 1 b4_1) 13)"

definition d_jal_off :: "int \<Rightarrow> int" where
  "d_jal_off word =
     (let b20 = drop_bit 31 word AND 1; b19_12 = drop_bit 12 word AND 0xFF;
          b11 = drop_bit 20 word AND 1; b10_1 = drop_bit 21 word AND 0x3FF
      in dis_sext (push_bit 20 b20 OR push_bit 12 b19_12 OR push_bit 11 b11 OR push_bit 1 b10_1) 21)"

text \<open>A mnemonic, a space and the operands with commas between them.\<close>

fun commas :: "string list \<Rightarrow> string" where
  "commas [] = []"
| "commas [a] = a"
| "commas (a # b # rest) = a @ '','' @ commas (b # rest)"

definition line_text :: "string \<Rightarrow> string list \<Rightarrow> string" where
  "line_text mn ops = mn @ '' '' @ commas ops"

definition mem_text :: "int \<Rightarrow> int \<Rightarrow> string" where
  "mem_text off r = show_int off @ ''('' @ xr r @ '')''"

subsection \<open>Opcode groups\<close>

definition disasm_r :: "int \<Rightarrow> string" where
  "disasm_r word =
     (let f7 = d_f7 word; f3 = d_f3 word; regs3 = [xr (d_rd word), xr (d_rs1 word), xr (d_rs2 word)]
      in if f7 = 1 then
           line_text (get_name [(0, ''mul''), (1, ''mulh''), (2, ''mulhsu''), (3, ''mulhu''), (4, ''div''), (5, ''divu''),
             (6, ''rem''), (7, ''remu'')] f3 []) regs3
         else if f7 = 0x20 \<and> f3 = 7 then line_text ''ctz'' [xr (d_rd word), xr (d_rs1 word)]
         else line_text
           (case map_of [((0, 0), ''add''), ((0x20, 0), ''sub''), ((0, 1), ''sll''), ((0, 2), ''slt''), ((0, 3), ''sltu''),
              ((0, 4), ''xor''), ((0, 5), ''srl''), ((0x20, 5), ''sra''), ((0, 6), ''or''), ((0, 7), ''and'')] (f7, f3) of
              Some mn \<Rightarrow> mn
            | None \<Rightarrow> ''r-type?(f7=0x'' @ zhex 2 f7 @ '',f3='' @ show_int f3 @ '')'') regs3)"

definition disasm_i :: "int \<Rightarrow> nat \<Rightarrow> string" where
  "disasm_i word xl =
     (let f3 = d_f3 word; rd = d_rd word; rs1 = d_rs1 word
      in if f3 = 1 \<or> f3 = 5 then
           (if xl \<ge> 64 then
              (let shamt = drop_bit 20 word AND 0x3F; f6 = drop_bit 26 word AND 0x3F
               in line_text (if f3 = 1 then ''slli'' else if f6 = 0x10 then ''srai'' else ''srli'') [xr rd, xr rs1, show_int shamt])
            else
              (let shamt = drop_bit 20 word AND 0x1F
               in line_text (if f3 = 1 then ''slli'' else if d_f7 word = 0x20 then ''srai'' else ''srli'')
                    [xr rd, xr rs1, show_int shamt]))
         else line_text (get_name [(0, ''addi''), (2, ''slti''), (3, ''sltiu''), (4, ''xori''), (6, ''ori''), (7, ''andi'')] f3 ''i-type?'')
                [xr rd, xr rs1, show_int (d_imm_i word)])"

definition disasm_op32 :: "int \<Rightarrow> string" where
  "disasm_op32 word =
     (let f7 = d_f7 word; f3 = d_f3 word; regs3 = [xr (d_rd word), xr (d_rs1 word), xr (d_rs2 word)]
      in if f7 = 1 then
           line_text (get_name [(0, ''mulw''), (4, ''divw''), (5, ''divuw''), (6, ''remw''), (7, ''remuw'')] f3 ''op32muldiv?'') regs3
         else line_text
           (case map_of [((0, 0), ''addw''), ((0x20, 0), ''subw''), ((0, 1), ''sllw''), ((0, 5), ''srlw''), ((0x20, 5), ''sraw'')] (f7, f3) of
              Some mn \<Rightarrow> mn
            | None \<Rightarrow> ''op32?(f7=0x'' @ zhex 2 f7 @ '',f3='' @ show_int f3 @ '')'') regs3)"

definition disasm_opimm32 :: "int \<Rightarrow> string" where
  "disasm_opimm32 word =
     (let f3 = d_f3 word; rd = d_rd word; rs1 = d_rs1 word
      in if f3 = 1 \<or> f3 = 5 then
           line_text (if f3 = 1 then ''slliw'' else if d_f7 word = 0x20 then ''sraiw'' else ''srliw'')
             [xr rd, xr rs1, show_int (drop_bit 20 word AND 0x1F)]
         else line_text (get_name [(0, ''addiw'')] f3 ''opimm32?'') [xr rd, xr rs1, show_int (d_imm_i word)])"

definition disasm_system :: "int \<Rightarrow> string" where
  "disasm_system word =
     (let csr_addr = drop_bit 20 word AND 0xFFF; f3 = d_f3 word
      in if f3 = 0 then get_name [(0, ''ecall''), (1, ''ebreak''), (0x302, ''mret'')] csr_addr (''system?(imm12=0x'' @ show_hex csr_addr @ '')'')
         else
           (let mn = get_name [(1, ''csrrw''), (2, ''csrrs''), (3, ''csrrc''), (5, ''csrrwi''), (6, ''csrrsi''), (7, ''csrrci'')] f3 ''csr?''
            in if f3 AND 4 \<noteq> 0 then line_text mn [xr (d_rd word), csr_name csr_addr, show_int (d_rs1 word)]
               else line_text mn [xr (d_rd word), csr_name csr_addr, xr (d_rs1 word)]))"

definition disasm_fp :: "int \<Rightarrow> string" where
  "disasm_fp word =
     (let funct5 = drop_bit 27 word AND 0x1F; f3 = d_f3 word; rd = d_rd word; rs1 = d_rs1 word; rs2 = d_rs2 word
      in if funct5 = 0 \<or> funct5 = 1 \<or> funct5 = 2 \<or> funct5 = 3 then
           line_text (get_name [(0, ''fadd.s''), (1, ''fsub.s''), (2, ''fmul.s''), (3, ''fdiv.s'')] funct5 [])
             [fr rd, fr rs1, fr rs2, rm_name f3]
         else if funct5 = 11 then line_text ''fsqrt.s'' [fr rd, fr rs1, rm_name f3]
         else if funct5 = 4 then
           line_text (get_name [(0, ''fsgnj.s''), (1, ''fsgnjn.s''), (2, ''fsgnjx.s'')] f3 ''fsgnj?'') [fr rd, fr rs1, fr rs2]
         else if funct5 = 5 then
           line_text (get_name [(0, ''fmin.s''), (1, ''fmax.s'')] f3 ''fminmax?'') [fr rd, fr rs1, fr rs2]
         else if funct5 = 20 then
           line_text (get_name [(0, ''fle.s''), (1, ''flt.s''), (2, ''feq.s'')] f3 ''fcmp?'') [xr rd, fr rs1, fr rs2]
         else if funct5 = 24 then
           line_text (if rs2 = 1 then ''fcvt.wu.s'' else ''fcvt.w.s'') [xr rd, fr rs1, rm_name f3]
         else if funct5 = 26 then
           line_text (if rs2 = 1 then ''fcvt.s.wu'' else ''fcvt.s.w'') [fr rd, xr rs1, rm_name f3]
         else if funct5 = 28 then
           (if f3 = 1 then line_text ''fclass.s'' [xr rd, fr rs1] else line_text ''fmv.x.w'' [xr rd, fr rs1])
         else if funct5 = 30 then line_text ''fmv.w.x'' [fr rd, xr rs1]
         else ''op-fp?(funct5=0b'' @ zfill 5 (show_base 2 funct5) @ '')'')"

subsection \<open>Dispatch\<close>

definition disasm :: "int \<Rightarrow> nat \<Rightarrow> string" where
  "disasm word xl =
     (let op = d_op word; rd = d_rd word; rs1 = d_rs1 word; rs2 = d_rs2 word; f3 = d_f3 word
      in if word = 0x13 then ''nop''
         else if word = 0 then [char_of (0xE2 :: nat), char_of (0x80 :: nat), char_of (0x94 :: nat)]
         else if op = 0x33 then disasm_r word
         else if op = 0x13 then disasm_i word xl
         else if op = 0x3B then disasm_op32 word
         else if op = 0x1B then disasm_opimm32 word
         else if op = 0x03 then
           line_text (get_name [(0, ''lb''), (1, ''lh''), (2, ''lw''), (3, ''ld''), (4, ''lbu''), (5, ''lhu''), (6, ''lwu'')] f3 ''load?'')
             [xr rd, mem_text (d_imm_i word) rs1]
         else if op = 0x23 then
           line_text (get_name [(0, ''sb''), (1, ''sh''), (2, ''sw''), (3, ''sd'')] f3 ''store?'') [xr rs2, mem_text (d_imm_s word) rs1]
         else if op = 0x63 then
           line_text (get_name [(0, ''beq''), (1, ''bne''), (2, ''ble''), (3, ''bgt''), (4, ''blt''), (5, ''bge''), (6, ''bltu''),
             (7, ''bgeu'')] f3 ''branch?'') [xr rs1, xr rs2, show_signed (d_branch_off word)]
         else if op = 0x6F then line_text ''jal'' [xr rd, show_signed (d_jal_off word)]
         else if op = 0x67 then line_text ''jalr'' [xr rd, mem_text (d_imm_i word) rs1]
         else if op = 0x37 then line_text ''lui'' [xr rd, ''0x'' @ show_hex (drop_bit 12 word AND 0xFFFFF)]
         else if op = 0x17 then line_text ''auipc'' [xr rd, ''0x'' @ show_hex (drop_bit 12 word AND 0xFFFFF)]
         else if op = 0x2A then line_text ''ctz'' [xr rd, xr rs1]
         else if op = 0x73 then disasm_system word
         else if op = 0x07 then line_text ''flw'' [fr rd, mem_text (d_imm_i word) rs1]
         else if op = 0x27 then line_text ''fsw'' [fr rs2, mem_text (d_imm_s word) rs1]
         else if map_of MADD_NAMES op \<noteq> None then
           (let rs3 = drop_bit 27 word AND 0x1F
            in line_text (get_name MADD_NAMES op []) [fr rd, fr rs1, fr rs2, fr rs3, rm_name f3])
         else if op = 0x53 then disasm_fp word
         else ''0x'' @ zhex 8 word @ ''?'')"

end
