(* ===== verification/Disasm_Text.thy ===== *)
theory Disasm_Text
  imports Disasm Asm_Sem Asm_Image
begin

text \<open>
  Reading back what the disassembler prints: numbers in every format, registers, memory
  operands and whole lines are parsed by the assembler's readers to the values printed.
\<close>

subsection \<open>Digits\<close>

definition is_digit :: "int \<Rightarrow> char \<Rightarrow> bool" where
  "is_digit b c \<longleftrightarrow> int (digit_val c) < b \<and> py_alnum c"

lemma digit_char_val: "d < 16 \<Longrightarrow> digit_val (digit_char d) = d" "d < 16 \<Longrightarrow> py_alnum (digit_char d)"
  "d < 10 \<Longrightarrow> py_digit (digit_char d)" "digit_char d = CHR ''0'' \<Longrightarrow> d < 16 \<Longrightarrow> d = 0"
proof -
  have t: "list_all (\<lambda>d. digit_val (digit_char d) = d \<and> py_alnum (digit_char d) \<and> (d < 10 \<longrightarrow> py_digit (digit_char d)) \<and>
    (digit_char d = CHR ''0'' \<longrightarrow> d = 0)) (map nat [0..15])"
    by (simp add: digit_char_def upto_rec1, simp add: char_of_def, simp add: bit_0,
        simp add: digit_val_def py_alnum_def py_digit_def py_upper_def)
  have l: "digit_val (digit_char d) = d \<and> py_alnum (digit_char d) \<and> (d < 10 \<longrightarrow> py_digit (digit_char d)) \<and>
    (digit_char d = CHR ''0'' \<longrightarrow> d = 0)" if "d < 16" for d
  proof -
    have "nat (int d) \<in> set (map nat [0..15])" using that unfolding set_map by (intro imageI) simp
    from bspec [OF t [unfolded list_all_iff] this] show ?thesis unfolding nat_int .
  qed
  show "d < 16 \<Longrightarrow> digit_val (digit_char d) = d" "d < 16 \<Longrightarrow> py_alnum (digit_char d)"
    "digit_char d = CHR ''0'' \<Longrightarrow> d < 16 \<Longrightarrow> d = 0" using l by blast+
  show "d < 10 \<Longrightarrow> py_digit (digit_char d)" using l [of d] by simp
qed

lemma show_base_digits:
  assumes "2 \<le> b" "b \<le> 16" "0 \<le> n"
  shows "show_base b n \<noteq> [] \<and> list_all (is_digit b) (show_base b n) \<and> (b \<le> 10 \<longrightarrow> list_all py_digit (show_base b n)) \<and>
    foldl (\<lambda>a c. a * b + int (digit_val c)) 0 (show_base b n) = n \<and> (0 < n \<longrightarrow> hd (show_base b n) \<noteq> CHR ''0'')"
  using assms
proof (induction b n rule: show_base.induct)
  case (1 b n)
  have d: "is_digit b (digit_char (nat k)) \<and> int (digit_val (digit_char (nat k))) = k \<and> (b \<le> 10 \<longrightarrow> py_digit (digit_char (nat k)))"
    if "0 \<le> k" "k < b" for k
    using that 1(2,3) digit_char_val [of "nat k"] by (auto simp: is_digit_def)
  show ?case
  proof (cases "n < b")
    case True
    with d [of n] 1(2,3,4) digit_char_val(4) [of "nat n"] show ?thesis by (subst (1 2 3 4 5) show_base.simps) auto
  next
    case False
    have s: "show_base b n = show_base b (n div b) @ [digit_char (nat (n mod b))]"
      using False 1(2) by (subst show_base.simps) simp
    have q: "0 < n div b" using False 1(2,4) by (simp add: pos_imp_zdiv_pos_iff)
    have m: "0 \<le> n mod b" "n mod b < b" using 1(2) by simp_all
    from 1(1) [OF _ 1(2,3)] False q 1(2) d [OF m] show ?thesis unfolding s by auto
  qed
qed

lemmas show_base_facts = show_base_digits [THEN conjunct1] show_base_digits [THEN conjunct2, THEN conjunct1]
  show_base_digits [THEN conjunct2, THEN conjunct2, THEN conjunct1, rule_format]
  show_base_digits [THEN conjunct2, THEN conjunct2, THEN conjunct2, THEN conjunct1]
  show_base_digits [THEN conjunct2, THEN conjunct2, THEN conjunct2, THEN conjunct2, rule_format]

lemma int_digits_foldl:
  "s \<noteq> [] \<Longrightarrow> list_all (is_digit (int b)) s \<Longrightarrow> int_digits b us s acc = Some (foldl (\<lambda>a c. a * int b + int (digit_val c)) acc s)"
proof (induction s arbitrary: us acc)
  case (Cons c s)
  have "c \<noteq> CHR ''_''" using Cons.prems by (auto simp: is_digit_def py_alnum_def py_digit_def py_upper_def)
  then show ?case using Cons by (cases s) (auto simp: is_digit_def)
qed simp

lemma int_digits_show:
  "0 \<le> n \<Longrightarrow> 2 \<le> b \<Longrightarrow> b \<le> 16 \<Longrightarrow> int_digits b us (show_base (int b) n) 0 = Some n"
  using int_digits_foldl [of "show_base (int b) n" b us 0] show_base_facts(1,2,4) [of "int b" n] by simp

lemma dec_val_foldl: "dec_val s acc = foldl (\<lambda>a c. a * 10 + int (digit_val c)) acc s"
  by (induction s arbitrary: acc) simp_all

subsection \<open>Numbers\<close>

lemma alnum_plain: "py_alnum c \<Longrightarrow> \<not> py_space c \<and> \<not> sep_char c \<and> c \<noteq> CHR ''#'' \<and> c \<noteq> CHR '':'' \<and> py_word c \<and> c \<noteq> CHR ''-'' \<and> c \<noteq> CHR ''+''"
  by (auto simp: py_alnum_def py_digit_def py_upper_def py_space_def sep_char_def py_word_def Let_def)

lemma show_base_chars: "c \<in> set (show_base b n) \<Longrightarrow> 2 \<le> b \<Longrightarrow> b \<le> 16 \<Longrightarrow> 0 \<le> n \<Longrightarrow> py_alnum c"
  using show_base_facts(2) [of b n] by (auto simp: list_all_iff is_digit_def)

lemma dec_chars: "c \<in> set (show_base 10 n) \<Longrightarrow> 0 \<le> n \<Longrightarrow> py_digit c"
  using show_base_facts(3) [of 10 n] by (auto simp: list_all_iff)

lemma digit_not_letter: "py_digit d \<Longrightarrow> py_lower_char d \<noteq> CHR ''x'' \<and> py_lower_char d \<noteq> CHR ''o'' \<and> py_lower_char d \<noteq> CHR ''b''"
  by (auto simp: py_digit_def py_lower_char_def py_upper_def Let_def)

lemma int_body_dec: "0 \<le> n \<Longrightarrow> int_body (show_base 10 n) = Some n"
proof -
  assume n: "0 \<le> n"
  let ?s = "show_base 10 n"
  have d: "int_digits 10 False ?s 0 = Some n" using int_digits_show [OF n, of 10] by simp
  have h: "n = 0 \<or> hd ?s \<noteq> CHR ''0''" using show_base_facts(5) [of 10 n] n by (cases "n = 0") auto
  show ?thesis
  proof (cases ?s)
    case (Cons c cs)
    show ?thesis
    proof (cases cs)
      case (Cons e rest)
      with \<open>?s = c # cs\<close> have "py_digit e" using dec_chars [OF _ n, of e] by simp
      from digit_not_letter [OF this] show ?thesis
        using d h n \<open>?s = c # cs\<close> Cons by (auto simp: int_body_def)
    qed (use d \<open>?s = c # cs\<close> in \<open>simp add: int_body_def\<close>)
  qed (use d in simp)
qed

lemma int_body_hex: "0 \<le> n \<Longrightarrow> int_body (CHR ''0'' # CHR ''x'' # replicate k (CHR ''0'') @ show_base 16 n) = Some n"
proof -
  assume n: "0 \<le> n"
  have z: "foldl (\<lambda>a c. a * 16 + int (digit_val c)) 0 (replicate k (CHR ''0'')) = 0"
    by (induction k) (simp_all add: digit_val_def)
  have "is_digit 16 (CHR ''0'')" by code_simp
  then have "list_all (is_digit (int 16)) (replicate k (CHR ''0'') @ show_base 16 n)"
    using show_base_facts(2) [of 16 n] n by (auto simp: list_all_iff)
  then have "int_digits 16 True (replicate k (CHR ''0'') @ show_base 16 n) 0 = Some n"
    using int_digits_foldl [of "replicate k (CHR ''0'') @ show_base 16 n" 16 True 0] show_base_facts(1,4) [of 16 n] n z by simp
  then show ?thesis by (simp add: int_body_def py_lower_char_def py_upper_def)
qed

lemma plain_consts: "\<not> py_space (CHR ''-'')" "\<not> py_space (CHR ''+'')" "\<not> py_space (CHR ''0'')" "\<not> py_space (CHR ''x'')"
  "\<not> py_space (CHR ''f'')"
  by (simp_all add: py_space_def)

lemma strip_no_space: "list_all (\<lambda>c. \<not> py_space c) s \<Longrightarrow> py_strip s = s"
  by (rule strip_id) (simp add: list_all_iff)

lemma show_base_no_space: "2 \<le> b \<Longrightarrow> b \<le> 16 \<Longrightarrow> 0 \<le> n \<Longrightarrow> list_all (\<lambda>c. \<not> py_space c) (show_base b n)"
  using show_base_chars alnum_plain by (auto simp: list_all_iff)

lemma first_digit: "0 \<le> n \<Longrightarrow> 2 \<le> b \<Longrightarrow> b \<le> 16 \<Longrightarrow> \<exists>c cs. show_base b n = c # cs \<and> c \<noteq> CHR ''-'' \<and> c \<noteq> CHR ''+''"
  using show_base_facts(1) [of b n] show_base_chars [of "hd (show_base b n)" b n] alnum_plain
  by (cases "show_base b n") auto

lemma read_int: "py_int0 (show_int v) = Inr v" "py_strip (show_int v) = show_int v"
proof -
  have s: "py_strip (show_int v) = show_int v"
    by (rule strip_no_space) (auto simp: show_int_def show_base_no_space plain_consts)
  show "py_int0 (show_int v) = Inr v"
    using int_body_dec [of v] int_body_dec [of "- v"] first_digit [of v 10]
    unfolding py_int0_def s by (auto simp: show_int_def)
  show "py_strip (show_int v) = show_int v" by (rule s)
qed

lemma read_signed: "py_int0 (show_signed v) = Inr v" "py_strip (show_signed v) = show_signed v"
proof -
  have s: "py_strip (show_signed v) = show_signed v"
    by (rule strip_no_space) (auto simp: show_signed_def show_int_def show_base_no_space plain_consts)
  show "py_int0 (show_signed v) = Inr v"
    using int_body_dec [of v] int_body_dec [of "- v"]
    unfolding py_int0_def s by (auto simp: show_signed_def show_int_def)
  show "py_strip (show_signed v) = show_signed v" by (rule s)
qed

lemma read_hex:
  assumes "0 \<le> n"
  shows "py_int0 (''0x'' @ replicate k (CHR ''0'') @ show_base 16 n) = Inr n"
    "py_strip (''0x'' @ replicate k (CHR ''0'') @ show_base 16 n) = ''0x'' @ replicate k (CHR ''0'') @ show_base 16 n"
proof -
  show s: "py_strip (''0x'' @ replicate k (CHR ''0'') @ show_base 16 n) = ''0x'' @ replicate k (CHR ''0'') @ show_base 16 n"
    by (rule strip_no_space) (use show_base_no_space [of 16 n] assms in \<open>auto simp: list_all_iff plain_consts\<close>)
  show "py_int0 (''0x'' @ replicate k (CHR ''0'') @ show_base 16 n) = Inr n"
    using int_body_hex [OF assms, of k] unfolding py_int0_def s by simp
qed

subsection \<open>Tokens and lines\<close>

text \<open>A token the assembler's scanner leaves in one piece.\<close>

definition plain :: "string \<Rightarrow> bool" where
  "plain t \<longleftrightarrow> t \<noteq> [] \<and> list_all (\<lambda>c. \<not> sep_char c \<and> c \<noteq> CHR ''#'' \<and> c \<noteq> CHR '':'') t"

lemma plain_append [simp]: "t \<noteq> [] \<Longrightarrow> u \<noteq> [] \<Longrightarrow> plain (t @ u) \<longleftrightarrow> plain t \<and> plain u"
  by (auto simp: plain_def)

lemma plain_alnum: "s \<noteq> [] \<Longrightarrow> list_all py_alnum s \<Longrightarrow> plain s"
  using alnum_plain by (auto simp: plain_def list_all_iff)

lemma plain_space: "plain t \<Longrightarrow> c \<in> set t \<Longrightarrow> \<not> py_space c"
  by (auto simp: plain_def list_all_iff sep_char_def)

lemma plain_strip: "plain t \<Longrightarrow> py_strip t = t"
  by (rule strip_id) (rule plain_space)

lemma show_base_plain: "2 \<le> b \<Longrightarrow> b \<le> 16 \<Longrightarrow> 0 \<le> n \<Longrightarrow> plain (show_base b n)"
  using show_base_facts(1) [of b n] show_base_chars [of _ b n] by (auto intro!: plain_alnum simp: list_all_iff)

lemma plain_char: "plain [c] \<longleftrightarrow> \<not> sep_char c \<and> c \<noteq> CHR ''#'' \<and> c \<noteq> CHR '':''"
  by (simp add: plain_def)

lemma plain_Cons: "u \<noteq> [] \<Longrightarrow> plain (c # u) \<longleftrightarrow> plain [c] \<and> plain u"
  by (simp add: plain_def)

lemma show_int_plain: "plain (show_int v)" and show_signed_plain: "plain (show_signed v)"
  using show_base_plain [of 10 v] show_base_plain [of 10 "- v"] show_base_facts(1) [of 10]
  by (auto simp: show_int_def show_signed_def plain_def sep_char_def plain_consts)

lemma reg_plain: "plain (xr n)" "plain (fr n)"
  using show_int_plain [of n] by (auto simp: xr_def fr_def plain_def sep_char_def plain_consts)

lemma read_reg: "fits n 5 \<Longrightarrow> asm_reg (xr n) = Inr n" "fits n 5 \<Longrightarrow> asm_freg (fr n) = Inr n"
proof -
  assume n: "fits n 5"
  then have p: "0 \<le> n" "n \<le> 31" by (simp_all add: fits_def)
  have d: "dec_val (show_base 10 n) 0 = n" "list_all py_digit (show_base 10 n)" "show_base 10 n \<noteq> []"
    using show_base_facts(1,3,4) [of 10 n] p by (simp_all add: dec_val_foldl)
  have s: "show_int n = show_base 10 n" using p by (simp add: show_int_def)
  show "asm_reg (xr n) = Inr n" "asm_freg (fr n) = Inr n"
    using d p plain_strip [OF reg_plain(1) [of n]] plain_strip [OF reg_plain(2) [of n]]
    by (simp_all add: asm_reg_def asm_freg_def numbered_def xr_def fr_def s)
qed

lemma takeWhile_dropWhile_append:
  "list_all P xs \<Longrightarrow> ys = [] \<or> \<not> P (hd ys) \<Longrightarrow> takeWhile P (xs @ ys) = xs \<and> dropWhile P (xs @ ys) = ys"
  by (induction xs) (auto, (cases ys; auto)+)

lemma split_plain: "plain t \<Longrightarrow> re_split t = [t]"
  using takeWhile_dropWhile_append [of "\<lambda>c. \<not> sep_char c" t "[]"]
  by (subst re_split.simps) (auto simp: plain_def list_all_iff)

lemma split_sep:
  assumes "plain t" "sep_char c" "s \<noteq> []" "\<not> sep_char (hd s)"
  shows "re_split (t @ c # s) = t # re_split s"
proof -
  have a: "takeWhile (\<lambda>c. \<not> sep_char c) (t @ c # s) = t \<and> dropWhile (\<lambda>c. \<not> sep_char c) (t @ c # s) = c # s"
    by (rule takeWhile_dropWhile_append) (use assms in \<open>auto simp: plain_def list_all_iff\<close>)
  have "dropWhile sep_char (c # s) = s" using assms by (cases s) auto
  then show ?thesis by (subst re_split.simps) (simp add: a)
qed

lemma hd_commas: "ops \<noteq> [] \<Longrightarrow> list_all plain ops \<Longrightarrow> commas ops \<noteq> [] \<and> \<not> sep_char (hd (commas ops))"
  by (induction ops rule: commas.induct) (auto simp: plain_def list_all_iff hd_append)

lemma split_commas: "ops \<noteq> [] \<Longrightarrow> list_all plain ops \<Longrightarrow> re_split (commas ops) = ops"
proof (induction ops rule: commas.induct)
  case (3 a b rest)
  then show ?case using split_sep [of a "CHR '',''" "commas (b # rest)"] hd_commas [of "b # rest"]
    by (simp add: sep_char_def)
qed (simp_all add: split_plain)

lemma split_line: "plain mn \<Longrightarrow> ops \<noteq> [] \<Longrightarrow> list_all plain ops \<Longrightarrow> re_split (line_text mn ops) = mn # ops"
  using split_sep [of mn "CHR '' ''" "commas ops"] hd_commas [of ops] split_commas [of ops]
  by (simp add: line_text_def sep_char_def py_space_def)

lemma set_commas: "set (commas ops) \<subseteq> {CHR '',''} \<union> \<Union> (set ` set ops)"
  by (induction ops rule: commas.induct) auto

lemma last_commas: "ops \<noteq> [] \<Longrightarrow> list_all plain ops \<Longrightarrow> last (commas ops) \<in> set (last ops)"
proof (induction ops rule: commas.induct)
  case (3 a b rest)
  then show ?case using hd_commas [of "b # rest"] by simp
qed (auto simp: plain_def)

lemma clean_text:
  assumes "l \<noteq> []" "\<not> py_space (hd l)" "\<not> py_space (last l)" "CHR ''#'' \<notin> set l"
  shows "clean_line l = l" "py_strip l = l" "last l \<noteq> CHR '':'' \<Longrightarrow> is_stmt l"
proof -
  show s: "py_strip l = l" unfolding py_strip_def using assms by (simp add: dropWhile_hd hd_rev)
  have "takeWhile (\<lambda>c. c \<noteq> CHR ''#'') l = l" using assms(4) by (auto simp: takeWhile_eq_all_conv)
  then show "clean_line l = l" by (simp only: clean_line_def s)
  then show "last l \<noteq> CHR '':'' \<Longrightarrow> is_stmt l" using assms(1) by (simp add: is_stmt_def)
qed

lemma line_clean:
  assumes "plain mn" "ops \<noteq> []" "list_all plain ops"
  shows "clean_line (line_text mn ops) = line_text mn ops" "py_strip (line_text mn ops) = line_text mn ops"
    "is_stmt (line_text mn ops)"
proof -
  let ?l = "line_text mn ops"
  have h: "CHR ''#'' \<notin> set ?l"
    using set_commas [of ops] assms by (fastforce simp: line_text_def plain_def list_all_iff)
  have p: "plain (last ops)" using assms(2,3) by (simp add: list_all_iff)
  have "last ?l \<in> set (last ops)" using last_commas [OF assms(2,3)] hd_commas [OF assms(2,3)] by (simp add: line_text_def)
  then have e: "\<not> py_space (last ?l)" "last ?l \<noteq> CHR '':''"
    using plain_space [OF p] p unfolding plain_def list_all_iff by blast+
  have f: "?l \<noteq> []" "\<not> py_space (hd ?l)"
    using assms(1) plain_space [of mn "hd mn"] by (auto simp: line_text_def plain_def)
  show "clean_line ?l = ?l" "py_strip ?l = ?l" "is_stmt ?l"
    using clean_text [OF f e(1) h] e(2) by blast+
qed

text \<open>Assembling a printed line.\<close>

definition assemble_ops :: "nat \<Rightarrow> string \<Rightarrow> string list \<Rightarrow> int result" where
  "assemble_ops xl mn ops = (case assemble_int Map.empty xl 0 mn ops of Some r \<Rightarrow> r | None \<Rightarrow> assemble_fp mn ops)"

lemma assemble_line:
  assumes "plain mn" "ops \<noteq> []" "list_all plain ops" "py_lower mn = mn" "assemble_ops xl mn ops = Inr w"
  shows "assemble [line_text mn ops] xl = Inr [w]"
proof -
  have "assemble_stmt Map.empty xl (0, line_text mn ops) = Inr w"
    using assms by (simp add: assemble_stmt_def assemble_ops_def line_clean split_line)
  moreover have "labels_of [line_text mn ops] = Map.empty"
    using line_clean [OF assms(1-3)] by (auto simp: defines_label_def is_stmt_def)
  ultimately show ?thesis
    using line_clean [OF assms(1-3)] by (simp add: assemble_words)
qed

end
