(* ===== verification/Disasm_Round.thy ===== *)
theory Disasm_Round
  imports Disasm_Text
begin

text \<open>
  Assembling what the disassembler prints for an encoded word gives the word back, for every
  encoder of the assembler that the disassembler knows.
\<close>

subsection \<open>The two decoders agree\<close>

lemma dis_sext: "dis_sext v n = sext v n"
  by (simp add: dis_sext_def sext_def)

lemma d_fields:
  "d_op w = op_of w" "d_rd w = rd_of w" "d_f3 w = f3_of w" "d_rs1 w = rs1_of w" "d_rs2 w = rs2_of w" "d_f7 w = f7_of w"
  "d_imm_i w = imm_i_of w" "d_imm_s w = imm_s_of w" "d_branch_off w = branch_off w" "d_jal_off w = jal_off w"
proof -
  have "sext (drop_bit 20 w) 12 = sext (drop_bit 20 w AND 0xFFF) 12" by (rule sext_cong) (simp add: bit_norm)
  then show "d_imm_i w = imm_i_of w" by (simp add: d_imm_i_def imm_i_of_def dis_sext)
qed (simp_all add: d_op_def op_of_def d_rd_def rd_of_def d_f3_def f3_of_def d_rs1_def rs1_of_def d_rs2_def rs2_of_def d_f7_def
    f7_of_def d_imm_s_def imm_s_of_def d_branch_off_def branch_off_def d_jal_off_def jal_off_def dis_sext)

lemma op_not_special: "op_of w \<noteq> 0x13 \<Longrightarrow> w \<noteq> 0x13" "op_of w \<noteq> 0 \<Longrightarrow> w \<noteq> 0"
  by (auto simp: op_of_def)

lemma disasm_by_op:
  "op_of w = 0x33 \<Longrightarrow> disasm w xl = disasm_r w"
  "op_of w = 0x13 \<Longrightarrow> w \<noteq> 0x13 \<Longrightarrow> disasm w xl = disasm_i w xl"
  "op_of w = 0x3B \<Longrightarrow> disasm w xl = disasm_op32 w" "op_of w = 0x1B \<Longrightarrow> disasm w xl = disasm_opimm32 w"
  "op_of w = 0x73 \<Longrightarrow> disasm w xl = disasm_system w" "op_of w = 0x53 \<Longrightarrow> disasm w xl = disasm_fp w"
  using op_not_special [of w] by (auto simp: disasm_def d_fields MADD_NAMES_def)

subsection \<open>Operands printed and read\<close>

definition good_name :: "string \<Rightarrow> bool" where
  "good_name mn \<longleftrightarrow> plain mn \<and> py_lower mn = mn"

lemma good_names:
  "list_all good_name (map fst R_TYPE)"
  "list_all good_name (map fst R_TYPE_W)"
  "list_all good_name (map fst I_TYPE)"
  "list_all good_name (map fst I_TYPE_W)"
  "list_all good_name (map fst LOAD)"
  "list_all good_name (map fst STORE)"
  "list_all good_name (map fst BRANCH)"
  "list_all good_name (map fst CSR_OP)"
  "list_all good_name (map fst FP_ARITH)"
  "list_all good_name (map fst FP_SGNJ)"
  "list_all good_name (map fst FP_MINMAX)"
  "list_all good_name (map fst FP_CMP)"
  "list_all good_name (map fst MADD_OPCODES)"
  by code_simp+

lemma good_names_single:
  "list_all good_name [''jal'', ''jalr'', ''lui'', ''auipc'', ''ctz'', ''flw'', ''fsw'', ''fsqrt.s'', ''fcvt.w.s'', ''fcvt.wu.s'',
     ''fcvt.s.w'', ''fcvt.s.wu'', ''fmv.x.w'', ''fclass.s'', ''fmv.w.x'']"
  by code_simp

lemma good_lookup: "list_all good_name (map fst t) \<Longrightarrow> lookup t mn = Inr v \<Longrightarrow> good_name mn"
  by (auto simp: lookup_Inr list_all_iff dest!: map_of_SomeD)

lemmas table_good = good_names [THEN good_lookup]

lemma lookup_key: "lookup t k = Inr v \<Longrightarrow> has_key t k"
  by (simp add: lookup_Inr has_key_def)

lemma assemble_good_line:
  "good_name mn \<Longrightarrow> ops \<noteq> [] \<Longrightarrow> list_all plain ops \<Longrightarrow> assemble_ops xl mn ops = Inr w \<Longrightarrow> assemble [line_text mn ops] xl = Inr [w]"
  by (simp add: good_name_def assemble_line)

lemma operand_show: "operand_int (Tok (show_int v)) = Inr v"
  by (simp add: operand_int_def read_int)

lemma asm_imm_cong: "operand_int t = operand_int t' \<Longrightarrow> asm_imm t n sg = asm_imm t' n sg"
  by (simp add: asm_imm_def)

lemma mem_text_plain: "plain (mem_text off r)"
  using show_int_plain [of off] reg_plain(1) [of r]
  by (auto simp: mem_text_def plain_def sep_char_def py_space_def)

lemma show_int_word: "\<exists>sign body. show_int v = sign @ body \<and> body \<noteq> [] \<and> list_all py_word body \<and>
    (sign = ''-'' \<or> sign = [] \<and> hd body \<noteq> CHR ''-'')"
proof -
  have b: "show_base 10 n \<noteq> [] \<and> list_all py_word (show_base 10 n) \<and> hd (show_base 10 n) \<noteq> CHR ''-''" if "0 \<le> n" for n
    using show_base_facts(1) [of 10 n] show_base_chars [of _ 10 n] alnum_plain that by (auto simp: list_all_iff)
  show ?thesis
  proof (cases "v < 0")
    case True
    with b [of "- v"] show ?thesis by (intro exI [of _ "''-''"] exI [of _ "show_base 10 (- v)"]) (simp add: show_int_def)
  next
    case False
    with b [of v] show ?thesis by (intro exI [of _ "[]"] exI [of _ "show_base 10 v"]) (simp add: show_int_def)
  qed
qed

lemma mem_operand_text: "fits r 5 \<Longrightarrow> mem_operand (mem_text off r) = Some (show_int off, xr r)"
proof -
  assume r: "fits r 5"
  obtain sign body where b: "show_int off = sign @ body" "body \<noteq> []" "list_all py_word body"
    "sign = ''-'' \<or> sign = [] \<and> hd body \<noteq> CHR ''-''" using show_int_word by blast
  define rest where "rest = ''('' @ xr r @ '')''"
  have t: "mem_text off r = sign @ body @ rest" by (simp add: mem_text_def b(1) rest_def)
  have w: "takeWhile py_word (body @ rest) = body \<and> dropWhile py_word (body @ rest) = rest"
    by (rule takeWhile_dropWhile_append [OF b(3)]) (simp add: rest_def py_word_def py_alnum_def py_digit_def py_upper_def)
  have p: "word_prefix (mem_text off r) = Some (show_int off, rest)"
    using b(2,4) w unfolding t word_prefix_def b(1) by (cases body) (auto simp: Let_def)
  have n: "0 \<le> r" using r by (simp add: fits_def)
  have d: "takeWhile py_digit (show_base 10 r @ '')'') = show_base 10 r \<and> dropWhile py_digit (show_base 10 r @ '')'') = '')''"
    by (rule takeWhile_dropWhile_append) (use show_base_facts(3) [of 10 r] n in \<open>simp_all add: py_digit_def\<close>)
  show ?thesis unfolding mem_operand_def p rest_def xr_def
    using d n show_base_facts(1) [of 10 r] by (simp add: show_int_def)
qed

lemma read_args:
  "fits r 5 \<Longrightarrow> i < length ops \<Longrightarrow> ops ! i = xr r \<Longrightarrow> reg_arg ops i = Inr r"
  "fits r 5 \<Longrightarrow> i < length ops \<Longrightarrow> ops ! i = fr r \<Longrightarrow> freg_arg ops i = Inr r"
  "fits r 5 \<Longrightarrow> i < length ops \<Longrightarrow> ops ! i = mem_text off r \<Longrightarrow> mem_arg ops i = Inr (Tok (show_int off), r)"
  by (simp_all add: reg_arg_def freg_arg_def mem_arg_def arg_def read_reg mem_operand_text)

lemmas token_rules = reg_plain show_int_plain show_signed_plain mem_text_plain

subsection \<open>Register and immediate operations\<close>

lemma reassemble_r:
  assumes "r_type mn rd rs1 rs2 = Inr w" "fits rd 5" "fits rs1 5" "fits rs2 5"
  shows "assemble [disasm w xl] xl = Inr [w]"
proof -
  note f = r_type_fields [OF assms]
  have k: "lookup R_TYPE mn = Inr (f7_of w, f3_of w)" using f(1) by (simp add: lookup_Inr)
  have "disasm w xl = line_text mn [xr rd, xr rs1, xr rs2]"
    using map_of_SomeD [OF f(1)] unfolding disasm_by_op(1) [OF f(2)] R_TYPE_def disasm_r_def Let_def d_fields f(3-5)
    by (auto simp: get_name_def)
  moreover have "assemble_ops xl mn [xr rd, xr rs1, xr rs2] = Inr w"
    using assms by (simp add: assemble_ops_def dispatch_r [OF lookup_key [OF k]] read_args)
  ultimately show ?thesis using table_good(1) [OF k] by (simp add: assemble_good_line token_rules)
qed

lemma reassemble_r_w:
  assumes "r_type_w mn rd rs1 rs2 = Inr w" "fits rd 5" "fits rs1 5" "fits rs2 5"
  shows "assemble [disasm w xl] xl = Inr [w]"
proof -
  note f = r_type_w_fields [OF assms]
  have k: "lookup R_TYPE_W mn = Inr (f7_of w, f3_of w)" using f(1) by (simp add: lookup_Inr)
  have "disasm w xl = line_text mn [xr rd, xr rs1, xr rs2]"
    using map_of_SomeD [OF f(1)] unfolding disasm_by_op(3) [OF f(2)] R_TYPE_W_def disasm_op32_def Let_def d_fields f(3-5)
    by (auto simp: get_name_def)
  moreover have "assemble_ops xl mn [xr rd, xr rs1, xr rs2] = Inr w"
    using assms by (simp add: assemble_ops_def dispatch_r_w [OF lookup_key [OF k]] read_args)
  ultimately show ?thesis using table_good(2) [OF k] by (simp add: assemble_good_line token_rules)
qed

lemma imm_text_cong: "operand_int t = Inr v \<Longrightarrow> asm_imm (Tok (show_int v)) n sg = asm_imm t n sg"
  by (rule asm_imm_cong) (simp add: operand_show)

lemma imm_names:
  "list_all (\<lambda>(mn, f3). mn \<in> {''slli'', ''srli'', ''srai''} \<or> f3 \<noteq> 1 \<and> f3 \<noteq> 5 \<and>
     get_name [(0, ''addi''), (2, ''slti''), (3, ''sltiu''), (4, ''xori''), (6, ''ori''), (7, ''andi'')] f3 ''i-type?'' = mn) I_TYPE"
  by code_simp

lemma reassemble_i:
  assumes "i_type mn rd rs1 t xl = Inr w" "fits rd 5" "fits rs1 5" "xl = 32 \<or> xl = 64"
  shows "assemble [disasm w xl] xl = Inr [w]"
proof (cases "w = 0x13")
  case True
  have "assemble [''nop''] 32 = Inr [0x13]" "assemble [''nop''] 64 = Inr [0x13]" by code_simp+
  with True assms(4) show ?thesis by (auto simp: disasm_def)
next
  case False
  have "\<exists>v. operand_int t = Inr v \<and> op_of w = 0x13 \<and> disasm w xl = line_text mn [xr rd, xr rs1, show_int v] \<and>
    lookup I_TYPE mn = Inr (f3_of w)"
  proof (cases "mn \<in> {''slli'', ''srli'', ''srai''}")
    case True
    from shift_imm_fields [OF assms(1-3) True assms(4)] obtain v where
      v: "operand_int t = Inr v" "map_of I_TYPE mn = Some (f3_of w)" "op_of w = 0x13" "rd_of w = rd" "rs1_of w = rs1" and
      sh: "drop_bit 20 w AND (if xl \<ge> 64 then 0x3F else 0x1F) = v"
        "(if xl \<ge> 64 then drop_bit 26 w AND 0x3F = 0x10 else f7_of w = 0x20) = (mn = ''srai'')" .
    have "f3_of w = (if mn = ''slli'' then 1 else 5)" using v(2) True by (auto simp: I_TYPE_def)
    then have "disasm w xl = line_text mn [xr rd, xr rs1, show_int v]"
      using True sh assms(4) unfolding disasm_by_op(2) [OF v(3) False] disasm_i_def Let_def d_fields v(4,5) by (auto split: if_splits)
    with v show ?thesis by (auto simp: lookup_Inr)
  next
    case ns: False
    from i_type_fields [OF assms(1-3) ns] obtain v where
      v: "operand_int t = Inr v" "map_of I_TYPE mn = Some (f3_of w)" "op_of w = 0x13" "rd_of w = rd" "rs1_of w = rs1"
        "imm_i_of w = v" .
    have "f3_of w \<noteq> 1 \<and> f3_of w \<noteq> 5 \<and>
        get_name [(0, ''addi''), (2, ''slti''), (3, ''sltiu''), (4, ''xori''), (6, ''ori''), (7, ''andi'')] (f3_of w) ''i-type?'' = mn"
      using bspec [OF imm_names [unfolded list_all_iff] map_of_SomeD [OF v(2)]] ns by simp
    then have "disasm w xl = line_text mn [xr rd, xr rs1, show_int v]"
      unfolding disasm_by_op(2) [OF v(3) False] disasm_i_def Let_def d_fields v(4-6) by simp
    with v show ?thesis by (auto simp: lookup_Inr)
  qed
  then obtain v where v: "operand_int t = Inr v" "disasm w xl = line_text mn [xr rd, xr rs1, show_int v]"
    "lookup I_TYPE mn = Inr (f3_of w)" by blast
  have "i_type mn rd rs1 (Tok (show_int v)) xl = Inr w"
    using assms(1) unfolding i_type_def imm_text_cong [OF v(1)] .
  then have "assemble_ops xl mn [xr rd, xr rs1, show_int v] = Inr w"
    using assms(2,3) by (simp add: assemble_ops_def dispatch_i [OF lookup_key [OF v(3)]] read_args arg_def)
  then show ?thesis using table_good(3) [OF v(3)] v(2) by (simp add: assemble_good_line token_rules)
qed

subsection \<open>Memory operations and jumps\<close>

lemma reassemble_load:
  assumes "load_enc mn rd t rs1 = Inr w" "fits rd 5" "fits rs1 5"
  shows "assemble [disasm w xl] xl = Inr [w]"
proof -
  from load_enc_fields [OF assms] obtain v where
    v: "operand_int t = Inr v" "map_of LOAD mn = Some (f3_of w)" "op_of w = 0x03" "rd_of w = rd" "rs1_of w = rs1" "imm_i_of w = v" .
  have k: "lookup LOAD mn = Inr (f3_of w)" using v(2) by (simp add: lookup_Inr)
  have d: "disasm w xl = line_text mn [xr rd, mem_text v rs1]"
    using map_of_SomeD [OF v(2)] v(3-6) op_not_special [of w] by (auto simp: disasm_def d_fields LOAD_def get_name_def)
  have "load_enc mn rd (Tok (show_int v)) rs1 = Inr w" using assms(1) by (simp add: load_enc_def imm_text_cong [OF v(1)])
  then have "assemble_ops xl mn [xr rd, mem_text v rs1] = Inr w"
    using assms(2,3) by (simp add: assemble_ops_def dispatch_mem(1) [OF lookup_key [OF k]] read_args)
  then show ?thesis using table_good(5) [OF k] d by (simp add: assemble_good_line token_rules)
qed

lemma reassemble_store:
  assumes "store_enc mn rs2 t rs1 = Inr w" "fits rs2 5" "fits rs1 5"
  shows "assemble [disasm w xl] xl = Inr [w]"
proof -
  from store_enc_fields [OF assms] obtain v where
    v: "operand_int t = Inr v" "map_of STORE mn = Some (f3_of w)" "op_of w = 0x23" "rs2_of w = rs2" "rs1_of w = rs1" "imm_s_of w = v" .
  have k: "lookup STORE mn = Inr (f3_of w)" using v(2) by (simp add: lookup_Inr)
  have d: "disasm w xl = line_text mn [xr rs2, mem_text v rs1]"
    using map_of_SomeD [OF v(2)] v(3-6) op_not_special [of w] by (auto simp: disasm_def d_fields STORE_def get_name_def)
  have "store_enc mn rs2 (Tok (show_int v)) rs1 = Inr w" using assms(1) by (simp add: store_enc_def imm_text_cong [OF v(1)])
  then have "assemble_ops xl mn [xr rs2, mem_text v rs1] = Inr w"
    using assms(2,3) by (simp add: assemble_ops_def dispatch_mem(2) [OF lookup_key [OF k]] read_args)
  then show ?thesis using table_good(6) [OF k] d by (simp add: assemble_good_line token_rules)
qed

lemma resolve_number: "resolve Map.empty (show_signed v) a = Inr v"
  by (simp add: resolve_def read_signed)

lemma reassemble_branch:
  assumes "branch_enc mn rs1 rs2 off = Inr w" "fits rs1 5" "fits rs2 5"
  shows "assemble [disasm w xl] xl = Inr [w]"
proof -
  note f = branch_enc_fields [OF assms]
  have k: "lookup BRANCH mn = Inr (f3_of w)" using f(1) by (simp add: lookup_Inr)
  have d: "disasm w xl = line_text mn [xr rs1, xr rs2, show_signed off]"
    using map_of_SomeD [OF f(1)] f(2-5) op_not_special [of w] by (auto simp: disasm_def d_fields BRANCH_def get_name_def)
  have "assemble_ops xl mn [xr rs1, xr rs2, show_signed off] = Inr w"
    using assms by (simp add: assemble_ops_def dispatch_branch [OF lookup_key [OF k]] read_args arg_def resolve_number)
  then show ?thesis using table_good(7) [OF k] d by (simp add: assemble_good_line token_rules)
qed

lemma reassemble_jal:
  assumes "jal_enc rd off = Inr w" "fits rd 5"
  shows "assemble [disasm w xl] xl = Inr [w]"
proof -
  note f = jal_enc_fields [OF assms]
  have d: "disasm w xl = line_text ''jal'' [xr rd, show_signed off]"
    using f op_not_special [of w] by (auto simp: disasm_def d_fields)
  have "assemble_ops xl ''jal'' [xr rd, show_signed off] = Inr w"
    using assms by (simp add: assemble_ops_def dispatch_jal read_args arg_def resolve_number)
  then show ?thesis using good_names_single d by (simp add: assemble_good_line token_rules)
qed

subsection \<open>Word immediates, upper immediates and system instructions\<close>

lemma dispatch_i_w:
  assumes "has_key I_TYPE_W mn"
  shows "assemble_int ls xl a mn args =
     Some (rbind (reg_arg args 0) (\<lambda>rd. rbind (reg_arg args 1) (\<lambda>rs1. rbind (arg args 2) (\<lambda>v. i_type_w mn rd rs1 (Tok v)))))"
proof -
  have "mn \<noteq> ''nop''" "\<not> has_key R_TYPE mn" "mn \<noteq> ''ctz''" "\<not> has_key I_TYPE mn" "\<not> has_key R_TYPE_W mn"
    using assms by (auto simp: has_key_iff table_defs)
  then show ?thesis using assms by (simp add: assemble_int_def)
qed

lemma dispatch_single:
  "assemble_int ls xl a ''jalr'' args =
     Some (rbind (reg_arg args 0) (\<lambda>rd. rbind (mem_arg args 1) (\<lambda>(offs, rs1). jalr_enc rd offs rs1)))"
  "assemble_int ls xl a ''lui'' args = Some (rbind (reg_arg args 0) (\<lambda>rd. rbind (arg args 1) (\<lambda>v. u_type OP_LUI rd (Tok v))))"
  "assemble_int ls xl a ''auipc'' args = Some (rbind (reg_arg args 0) (\<lambda>rd. rbind (arg args 1) (\<lambda>v. u_type OP_AUIPC rd (Tok v))))"
  "assemble_int ls xl a ''ctz'' args = Some (rbind (reg_arg args 0) (\<lambda>rd. rbind (reg_arg args 1) (\<lambda>rs1. Inr (ctz_enc rd rs1))))"
  by (simp_all add: assemble_int_def has_key_iff table_defs)

lemma reassemble_i_w:
  assumes "i_type_w mn rd rs1 t = Inr w" "fits rd 5" "fits rs1 5"
  shows "assemble [disasm w xl] xl = Inr [w]"
proof -
  let ?shift = "mn \<in> {''slliw'', ''srliw'', ''sraiw''}"
  define a :: int where "a = (if mn = ''sraiw'' then 0x20 else 0)"
  from assms(1) obtain f3 e where t: "lookup I_TYPE_W mn = Inr f3" "if ?shift then asm_imm t 5 False = Inr e else asm_imm t 12 True = Inr e"
    and w: "w = push_bit 20 (asm_u (if ?shift then push_bit 5 a OR e else e) 12) OR push_bit 15 rs1 OR push_bit 12 f3 OR push_bit 7 rd OR 0x1B"
    by (auto simp del: insert_iff simp: i_type_w_def rbind_Inr Let_def a_def split: if_splits)
  have a: "fits a 7" by (simp add: a_def fits_def)
  define i where "i = (if ?shift then push_bit 5 a OR e else e)"
  have i: "fits i 12"
    using t(2) unsigned_imm [of t 5 e] imm_fits [of t 12 True e] a
    by (auto simp del: insert_iff simp: i_def intro!: fits_or fits_push [OF a] intro: fits_mono split: if_splits)
  then have u: "asm_u i 12 = i" by (simp add: asm_u_mod fits_take_bit take_bit_eq_mod)
  note f = imm_fields [OF i assms(3) f3_lookup(2) [OF t(1)] assms(2) op_fits(12), folded w [folded i_def, unfolded u]]
  have "\<exists>v. operand_int t = Inr v \<and> disasm w xl = line_text mn [xr rd, xr rs1, show_int v]"
  proof (cases ?shift)
    case True
    then have e: "operand_int t = Inr e" "fits e 5" using t(2) unsigned_imm [of t 5 e] by auto
    have "drop_bit 20 w AND 0x1F = e" "f7_of w = a"
      using e(2) a f(5,7) True unfolding field_take mask_take i_def by (auto simp: fields)
    moreover have "f3 = (if mn = ''slliw'' then 1 else 5)" using t(1) True by (auto simp: lookup_Inr I_TYPE_W_def)
    ultimately have "disasm w xl = line_text mn [xr rd, xr rs1, show_int e]"
      using True unfolding disasm_by_op(4) [OF f(1)] disasm_opimm32_def Let_def d_fields f(2-4) by (auto simp: a_def)
    with e show ?thesis by blast
  next
    case False
    with t have m: "mn = ''addiw''" "f3 = 0" by (auto simp: lookup_Inr I_TYPE_W_def split: if_splits)
    obtain v where v: "operand_int t = Inr v" "sext e 12 = v" using signed_imm [of t 12 e] t(2) False by auto
    have "disasm w xl = line_text mn [xr rd, xr rs1, show_int v]"
      using False v(2) unfolding disasm_by_op(4) [OF f(1)] disasm_opimm32_def Let_def d_fields f(2-4,9) m i_def
      by (simp add: get_name_def)
    with v show ?thesis by blast
  qed
  then obtain v where v: "operand_int t = Inr v" "disasm w xl = line_text mn [xr rd, xr rs1, show_int v]" by blast
  have "i_type_w mn rd rs1 (Tok (show_int v)) = Inr w"
    using assms(1) unfolding i_type_w_def imm_text_cong [OF v(1)] .
  then have "assemble_ops xl mn [xr rd, xr rs1, show_int v] = Inr w"
    using assms(2,3) by (simp add: assemble_ops_def dispatch_i_w [OF lookup_key [OF t(1)]] read_args arg_def)
  then show ?thesis using table_good(4) [OF t(1)] v(2) by (simp add: assemble_good_line token_rules)
qed

lemma reassemble_jalr:
  assumes "jalr_enc rd t rs1 = Inr w" "fits rd 5" "fits rs1 5"
  shows "assemble [disasm w xl] xl = Inr [w]"
proof -
  from assms(1) obtain e where e: "asm_imm t 12 True = Inr e"
    and w: "w = push_bit 20 (asm_u e 12) OR push_bit 15 rs1 OR push_bit 12 0 OR push_bit 7 rd OR 0x67"
    by (auto simp: jalr_enc_def rbind_Inr)
  from signed_imm [OF e] obtain v where v: "operand_int t = Inr v" "fits e 12" "sext e 12 = v" "asm_u e 12 = e" by auto
  note f = imm_fields [OF v(2) assms(3) fits_0_1(1) assms(2) op_fits(5), folded w [unfolded v(4)]]
  have d: "disasm w xl = line_text ''jalr'' [xr rd, mem_text v rs1]"
    using f v op_not_special [of w] by (auto simp: disasm_def d_fields)
  have "jalr_enc rd (Tok (show_int v)) rs1 = Inr w" using assms(1) unfolding jalr_enc_def imm_text_cong [OF v(1)] .
  then have "assemble_ops xl ''jalr'' [xr rd, mem_text v rs1] = Inr w"
    using assms(2,3) by (simp add: assemble_ops_def dispatch_single read_args)
  then show ?thesis using good_names_single d by (simp add: assemble_good_line token_rules)
qed

lemma hex_token: "0 \<le> v \<Longrightarrow> plain (''0x'' @ show_hex v)" "0 \<le> v \<Longrightarrow> operand_int (Tok (''0x'' @ show_hex v)) = Inr v"
  using read_hex [of v 0] show_base_plain [of 16 v]
  by (auto simp: show_hex_def operand_int_def plain_def sep_char_def py_space_def)

lemma reassemble_u:
  assumes "u_type op rd t = Inr w" "fits rd 5" "op = 0x37 \<or> op = 0x17"
  shows "assemble [disasm w xl] xl = Inr [w]"
proof -
  from assms(1) obtain v where v: "operand_int t = Inr v" "fits v 20" "w = push_bit 12 v OR push_bit 7 rd OR op"
    by (auto simp: u_type_def rbind_Inr dest!: unsigned_imm)
  have op: "fits op 7" using assms(3) by (auto simp: fits_def)
  have m: "x AND 0xFFFFF = take_bit 20 x" for x :: int by (simp add: bit_norm take_bit_eq_mod)
  have f: "op_of w = op" "rd_of w = rd" "drop_bit 12 w AND 0xFFFFF = v"
    using v(2) assms(2) op unfolding v(3) field_take m by (simp_all add: fields)
  have p: "0 \<le> v" using v(2) by (simp add: fits_def)
  let ?mn = "if op = 0x37 then ''lui'' else ''auipc''"
  have d: "disasm w xl = line_text ?mn [xr rd, ''0x'' @ show_hex v]"
    using f assms(3) op_not_special [of w] by (auto simp: disasm_def d_fields)
  have "asm_imm (Tok (''0x'' @ show_hex v)) 20 False = asm_imm t 20 False"
    by (rule asm_imm_cong) (simp only: hex_token(2) [OF p] v(1))
  then have "u_type op rd (Tok (''0x'' @ show_hex v)) = Inr w" using assms(1) by (simp add: u_type_def)
  then have "assemble_ops xl ?mn [xr rd, ''0x'' @ show_hex v] = Inr w"
    using assms(2,3) by (auto simp: assemble_ops_def dispatch_single read_args arg_def)
  then show ?thesis using good_names_single d assms(3) hex_token(1) [OF p] by (auto simp: assemble_good_line token_rules)
qed

lemma reassemble_ctz:
  assumes "fits rd 5" "fits rs1 5"
  shows "assemble [disasm (ctz_enc rd rs1) xl] xl = Inr [ctz_enc rd rs1]"
proof -
  note f = word_fields [OF fits_const(1) fits_0_1(1) assms(2) fits_const(3) assms(1) op_fits(8), folded ctz_enc_def]
  have d: "disasm (ctz_enc rd rs1) xl = line_text ''ctz'' [xr rd, xr rs1]"
    using f op_not_special [of "ctz_enc rd rs1"] by (auto simp: disasm_def d_fields)
  have "assemble_ops xl ''ctz'' [xr rd, xr rs1] = Inr (ctz_enc rd rs1)"
    using assms by (simp add: assemble_ops_def dispatch_single read_args)
  then show ?thesis using good_names_single d by (simp add: assemble_good_line token_rules)
qed

subsection \<open>CSR instructions\<close>

lemma hex_plain: "0 \<le> a \<Longrightarrow> plain (''0x'' @ replicate k (CHR ''0'') @ show_base 16 a)"
proof (rule plain_alnum)
  assume a: "0 \<le> a"
  have "py_alnum (CHR ''0'')" "py_alnum (CHR ''x'')" by code_simp+
  then show "list_all py_alnum (''0x'' @ replicate k (CHR ''0'') @ show_base 16 a)"
    using show_base_chars [of _ 16 a] a by (auto simp: list_all_iff)
qed simp

lemma csr_name_read:
  assumes "fits a 12" "a \<notin> {1, 2, 3}"
  shows "csr_lookup (csr_name a) = Inr a" "plain (csr_name a)"
proof -
  have n: "0 \<le> a" using assms(1) by (simp add: fits_def)
  have h: "csr_name a = ''0x'' @ replicate (3 - length (show_base 16 a)) (CHR ''0'') @ show_base 16 a"
    if "a \<notin> {0x300, 0x305, 0x340, 0x341, 0x342}"
    using that assms(2) n by (auto simp: csr_name_def get_name_def CSR_NAMES_def zhex_def zfill_def)
  have "csr_lookup (csr_name a) = Inr a \<and> plain (csr_name a)"
  proof (cases "a \<in> {0x300, 0x305, 0x340, 0x341, 0x342}")
    case True
    have "list_all (\<lambda>a. csr_lookup (csr_name a) = Inr a \<and> plain (csr_name a)) [0x300, 0x305, 0x340, 0x341, 0x342]" by code_simp
    with True show ?thesis by auto
  next
    case False
    have "csr_lookup (csr_name a) = Inr a"
      using read_hex(1) [OF n] unfolding h [OF False] by (simp add: csr_lookup_def CSR_ADDR_def)
    moreover have "plain (csr_name a)"
      unfolding h [OF False] by (rule hex_plain [OF n])
    ultimately show ?thesis by blast
  qed
  then show "csr_lookup (csr_name a) = Inr a" "plain (csr_name a)" by simp_all
qed

lemma dispatch_csr:
  "mn \<in> {''csrrw'', ''csrrs'', ''csrrc''} \<Longrightarrow> assemble_int ls xl a mn args =
     Some (rbind (reg_arg args 0) (\<lambda>rd. rbind (arg args 1) (\<lambda>c. rbind (reg_arg args 2) (\<lambda>rs1. csr_reg mn rd c rs1))))"
  "mn \<in> {''csrrwi'', ''csrrsi'', ''csrrci''} \<Longrightarrow> assemble_int ls xl a mn args =
     Some (rbind (reg_arg args 0) (\<lambda>rd. rbind (arg args 1) (\<lambda>c. rbind (arg args 2) (\<lambda>v. csr_imm mn rd c (Tok v)))))"
  by (elim insertE emptyE; simp add: assemble_int_def has_key_iff table_defs)+

lemma csr_fields:
  assumes "lookup CSR_OP mn = Inr f3" "fits a 12" "fits r 5" "fits rd 5"
    and w: "w = push_bit 20 a OR push_bit 15 r OR push_bit 12 f3 OR push_bit 7 rd OR 0x73"
  shows "disasm w xl = line_text mn [xr rd, csr_name a, if mn \<in> {''csrrw'', ''csrrs'', ''csrrc''} then xr r else show_int r]"
proof -
  note f = imm_fields [OF assms(2,3) f3_lookup(6) [OF assms(1)] assms(4) op_fits(9), folded w]
  have "drop_bit 20 w AND 0xFFF = a" using f(5) assms(2) unfolding mask_take by (simp add: fields)
  then show ?thesis
    using map_of_SomeD [OF assms(1) [unfolded lookup_Inr]]
    unfolding disasm_by_op(5) [OF f(1)] disasm_system_def Let_def d_fields f(2-4) CSR_OP_def
    by (auto simp: get_name_def)
qed

lemma reassemble_csr_reg:
  assumes "csr_reg mn rd c rs1 = Inr w" "fits rd 5" "fits rs1 5" "mn \<in> {''csrrw'', ''csrrs'', ''csrrc''}"
    "drop_bit 20 w \<notin> {1, 2, 3}"
  shows "assemble [disasm w xl] xl = Inr [w]"
proof -
  from assms(1) obtain b f3 where t: "lookup CSR_OP mn = Inr f3"
    and w: "w = push_bit 20 (asm_u b 12) OR push_bit 15 rs1 OR push_bit 12 f3 OR push_bit 7 rd OR 0x73"
    by (auto simp: csr_reg_def rbind_Inr)
  define a where "a = asm_u b 12"
  have a: "fits a 12" "asm_u a 12 = a" by (simp_all add: a_def asm_u_take)
  have "drop_bit 20 w = a" using imm_fields(5) [OF a(1) assms(3) f3_lookup(6) [OF t] assms(2) op_fits(9)] w by (simp add: a_def)
  with assms(5) have n: "a \<notin> {1, 2, 3}" by simp
  have d: "disasm w xl = line_text mn [xr rd, csr_name a, xr rs1]"
    using csr_fields [OF t a(1) assms(3,2) w [folded a_def]] assms(4) by simp
  have "csr_reg mn rd (csr_name a) rs1 = Inr w"
    using csr_name_read(1) [OF a(1) n] t w [folded a_def] a(2) by (simp add: csr_reg_def)
  then have "assemble_ops xl mn [xr rd, csr_name a, xr rs1] = Inr w"
    using assms(2,3) by (simp add: assemble_ops_def dispatch_csr(1) [OF assms(4)] read_args arg_def)
  then show ?thesis using table_good(8) [OF t] d csr_name_read(2) [OF a(1) n] by (simp add: assemble_good_line token_rules)
qed

lemma reassemble_csr_imm:
  assumes "csr_imm mn rd c t = Inr w" "fits rd 5" "mn \<in> {''csrrwi'', ''csrrsi'', ''csrrci''}" "drop_bit 20 w \<notin> {1, 2, 3}"
  shows "assemble [disasm w xl] xl = Inr [w]"
proof -
  from assms(1) obtain b f3 e where e: "lookup CSR_OP mn = Inr f3" "asm_imm t 5 False = Inr e"
    and w: "w = push_bit 20 (asm_u b 12) OR push_bit 15 e OR push_bit 12 f3 OR push_bit 7 rd OR 0x73"
    by (auto simp: csr_imm_def rbind_Inr)
  have v: "operand_int t = Inr e" "fits e 5" using unsigned_imm [OF e(2)] by simp_all
  define a where "a = asm_u b 12"
  have a: "fits a 12" "asm_u a 12 = a" by (simp_all add: a_def asm_u_take)
  have "drop_bit 20 w = a" using imm_fields(5) [OF a(1) v(2) f3_lookup(6) [OF e(1)] assms(2) op_fits(9)] w by (simp add: a_def)
  with assms(4) have n: "a \<notin> {1, 2, 3}" by simp
  have d: "disasm w xl = line_text mn [xr rd, csr_name a, show_int e]"
    using csr_fields [OF e(1) a(1) v(2) assms(2) w [folded a_def]] assms(3) by auto
  have "csr_imm mn rd (csr_name a) (Tok (show_int e)) = Inr w"
    using csr_name_read(1) [OF a(1) n] e w [folded a_def] a(2) by (simp add: csr_imm_def imm_text_cong [OF v(1)])
  then have "assemble_ops xl mn [xr rd, csr_name a, show_int e] = Inr w"
    using assms(2) by (simp add: assemble_ops_def dispatch_csr(2) [OF assms(3)] read_args arg_def)
  then show ?thesis using table_good(8) [OF e(1)] d csr_name_read(2) [OF a(1) n] by (simp add: assemble_good_line token_rules)
qed

lemma reassemble_system:
  assumes "mn \<in> {''ecall'', ''ebreak'', ''mret''}" "xl = 32 \<or> xl = 64" "system_noarg mn = Inr w"
  shows "assemble [disasm w xl] xl = Inr [w]"
proof -
  have "list_all (\<lambda>mn. list_all (\<lambda>xl. rbind (system_noarg mn) (\<lambda>w. assemble [disasm w xl] xl) = rbind (system_noarg mn) (\<lambda>w. Inr [w]))
    [32, 64]) [''ecall'', ''ebreak'', ''mret'']" by code_simp
  with assms show ?thesis by auto
qed

end
