(* ===== verification/Disasm_Fp.thy ===== *)
theory Disasm_Fp
  imports Disasm_Round
begin

text \<open>
  The floating-point instructions of the round trip, and the statement of it over all
  mnemonics: assembling a statement, disassembling the word and assembling the text again
  gives the same word.
\<close>

subsection \<open>Fields\<close>

lemma fp_fields:
  assumes "fits f5 5" "fits rs2 5" "fits rs1 5" "fits f3 3" "fits rd 5" "fits op 7"
  defines "w \<equiv> push_bit 27 f5 OR push_bit 20 rs2 OR push_bit 15 rs1 OR push_bit 12 f3 OR push_bit 7 rd OR op"
  shows "op_of w = op" "rd_of w = rd" "f3_of w = f3" "rs1_of w = rs1" "rs2_of w = rs2" "drop_bit 27 w AND 0x1F = f5"
  using assms(1-6) unfolding w_def field_take mask_take by (simp_all add: fields)

lemma rm_values: "parse_rm args i = Inr rm \<Longrightarrow> rm \<in> {0, 1, 2, 3, 4, 7}"
  by (auto simp: parse_rm_def RM_NAMES_def lookup_def split: if_splits option.splits)

lemma rm_read:
  assumes "rm \<in> {0, 1, 2, 3, 4, 7}"
  shows "i < length ops \<Longrightarrow> ops ! i = rm_name rm \<Longrightarrow> parse_rm ops i = Inr rm" "plain (rm_name rm)" "fits rm 3"
proof -
  have "list_all (\<lambda>rm. plain (rm_name rm) \<and> py_strip (rm_name rm) = rm_name rm \<and> rm_name rm \<noteq> [] \<and>
    map_of RM_NAMES (py_lower (rm_name rm)) = Some rm) [0, 1, 2, 3, 4, 7]" by code_simp
  with assms have r: "plain (rm_name rm)" "py_strip (rm_name rm) = rm_name rm" "rm_name rm \<noteq> []"
    "map_of RM_NAMES (py_lower (rm_name rm)) = Some rm" by (auto simp: list_all_iff)
  then show "i < length ops \<Longrightarrow> ops ! i = rm_name rm \<Longrightarrow> parse_rm ops i = Inr rm" "plain (rm_name rm)"
    by (simp_all add: parse_rm_def)
  show "fits rm 3" using assms by (auto simp: fits_def)
qed

subsection \<open>Dispatch\<close>

definition fp_mnemonics :: "string list" where
  "fp_mnemonics = [''flw'', ''fsw'', ''fadd.s'', ''fsub.s'', ''fmul.s'', ''fdiv.s'', ''fsqrt.s'', ''fsgnj.s'', ''fsgnjn.s'', ''fsgnjx.s'',
     ''fmin.s'', ''fmax.s'', ''fle.s'', ''flt.s'', ''feq.s'', ''fcvt.w.s'', ''fcvt.wu.s'', ''fcvt.s.w'', ''fcvt.s.wu'', ''fmv.x.w'',
     ''fclass.s'', ''fmv.w.x'', ''fmadd.s'', ''fmsub.s'', ''fnmsub.s'', ''fnmadd.s'']"

lemma not_int_keys: "list_all (\<lambda>mn. \<not> has_key R_TYPE mn \<and> \<not> has_key I_TYPE mn \<and> \<not> has_key R_TYPE_W mn \<and> \<not> has_key I_TYPE_W mn \<and>
    \<not> has_key LOAD mn \<and> \<not> has_key STORE mn \<and> \<not> has_key BRANCH mn \<and>
    mn \<notin> {''nop'', ''ctz'', ''jal'', ''jalr'', ''lui'', ''auipc'', ''sfence.vma'', ''fence'', ''word'', ''csrrw'', ''csrrs'', ''csrrc'',
      ''csrrwi'', ''csrrsi'', ''csrrci'', ''ecall'', ''ebreak'', ''mret'', ''sret''}) fp_mnemonics"
  by code_simp

lemma dispatch_fp: "mn \<in> set fp_mnemonics \<Longrightarrow> assemble_ops xl mn ops = assemble_fp mn ops"
proof -
  assume "mn \<in> set fp_mnemonics"
  from bspec [OF not_int_keys [unfolded list_all_iff] this] have "assemble_int Map.empty xl 0 mn ops = None"
    by (simp add: assemble_int_def)
  then show ?thesis by (simp add: assemble_ops_def)
qed

lemma fp_keys:
  "lookup FP_ARITH mn = Inr f \<Longrightarrow> mn \<in> set fp_mnemonics" "lookup FP_SGNJ mn = Inr f \<Longrightarrow> mn \<in> set fp_mnemonics"
  "lookup FP_MINMAX mn = Inr f \<Longrightarrow> mn \<in> set fp_mnemonics" "lookup FP_CMP mn = Inr f \<Longrightarrow> mn \<in> set fp_mnemonics"
  "lookup MADD_OPCODES mn = Inr f \<Longrightarrow> mn \<in> set fp_mnemonics"
proof -
  have *: "lookup t mn = Inr f \<Longrightarrow> list_all (\<lambda>m. m \<in> set fp_mnemonics) (map fst t) \<Longrightarrow> mn \<in> set fp_mnemonics" for t :: "(string \<times> int) list"
    by (auto simp: lookup_Inr list_all_iff dest!: map_of_SomeD)
  show "lookup FP_ARITH mn = Inr f \<Longrightarrow> mn \<in> set fp_mnemonics" "lookup FP_SGNJ mn = Inr f \<Longrightarrow> mn \<in> set fp_mnemonics"
    "lookup FP_MINMAX mn = Inr f \<Longrightarrow> mn \<in> set fp_mnemonics" "lookup FP_CMP mn = Inr f \<Longrightarrow> mn \<in> set fp_mnemonics"
    "lookup MADD_OPCODES mn = Inr f \<Longrightarrow> mn \<in> set fp_mnemonics"
    by (erule *, code_simp)+
qed

lemmas fp_table_defs = FP_ARITH_def FP_SGNJ_def FP_MINMAX_def FP_CMP_def MADD_OPCODES_def

lemma fp_disjoint:
  "list_all (\<lambda>mn. mn \<noteq> ''flw'' \<and> mn \<noteq> ''fsw'') (map fst FP_ARITH)"
  "list_all (\<lambda>mn. mn \<noteq> ''flw'' \<and> mn \<noteq> ''fsw'' \<and> mn \<noteq> ''fsqrt.s'' \<and> \<not> has_key FP_ARITH mn) (map fst FP_SGNJ)"
  "list_all (\<lambda>mn. mn \<noteq> ''flw'' \<and> mn \<noteq> ''fsw'' \<and> mn \<noteq> ''fsqrt.s'' \<and> \<not> has_key FP_ARITH mn \<and> \<not> has_key FP_SGNJ mn) (map fst FP_MINMAX)"
  "list_all (\<lambda>mn. mn \<noteq> ''flw'' \<and> mn \<noteq> ''fsw'' \<and> mn \<noteq> ''fsqrt.s'' \<and> \<not> has_key FP_ARITH mn \<and> \<not> has_key FP_SGNJ mn \<and>
     \<not> has_key FP_MINMAX mn) (map fst FP_CMP)"
  "list_all (\<lambda>mn. mn \<noteq> ''flw'' \<and> mn \<noteq> ''fsw'' \<and> mn \<noteq> ''fsqrt.s'' \<and> \<not> has_key FP_ARITH mn \<and> \<not> has_key FP_SGNJ mn \<and>
     \<not> has_key FP_MINMAX mn \<and> \<not> has_key FP_CMP mn \<and> mn \<noteq> ''fcvt.w.s'' \<and> mn \<noteq> ''fcvt.wu.s'' \<and> mn \<noteq> ''fcvt.s.w'' \<and>
     mn \<noteq> ''fcvt.s.wu'' \<and> mn \<noteq> ''fmv.x.w'' \<and> mn \<noteq> ''fclass.s'' \<and> mn \<noteq> ''fmv.w.x'') (map fst MADD_OPCODES)"
  by code_simp+

lemma lookup_fst: "lookup t k = Inr v \<Longrightarrow> list_all P (map fst t) \<Longrightarrow> P k"
  by (auto simp: lookup_Inr list_all_iff dest!: map_of_SomeD)

lemma fp_table_arms:
  "lookup FP_ARITH mn = Inr f5 \<Longrightarrow> assemble_fp mn args =
     rbind (freg_arg args 0) (\<lambda>rd. rbind (freg_arg args 1) (\<lambda>rs1. rbind (freg_arg args 2) (\<lambda>rs2.
       rbind (parse_rm args 3) (\<lambda>rm. Inr (fp_r_type f5 rd rs1 rs2 rm)))))"
  "lookup FP_SGNJ mn = Inr f3 \<Longrightarrow> assemble_fp mn args =
     rbind (freg_arg args 0) (\<lambda>rd. rbind (freg_arg args 1) (\<lambda>rs1. rbind (freg_arg args 2) (\<lambda>rs2. fp_sgnj mn rd rs1 rs2)))"
  "lookup FP_MINMAX mn = Inr f3 \<Longrightarrow> assemble_fp mn args =
     rbind (freg_arg args 0) (\<lambda>rd. rbind (freg_arg args 1) (\<lambda>rs1. rbind (freg_arg args 2) (\<lambda>rs2. fp_minmax mn rd rs1 rs2)))"
  "lookup FP_CMP mn = Inr f3 \<Longrightarrow> assemble_fp mn args =
     rbind (reg_arg args 0) (\<lambda>rd. rbind (freg_arg args 1) (\<lambda>rs1. rbind (freg_arg args 2) (\<lambda>rs2. fp_cmp mn rd rs1 rs2)))"
  "lookup MADD_OPCODES mn = Inr opcode \<Longrightarrow> assemble_fp mn args =
     rbind (freg_arg args 0) (\<lambda>rd. rbind (freg_arg args 1) (\<lambda>rs1. rbind (freg_arg args 2) (\<lambda>rs2. rbind (freg_arg args 3) (\<lambda>rs3.
       rbind (parse_rm args 4) (\<lambda>rm. Inr (fp_r4_type opcode rd rs1 rs2 rs3 rm))))))"
  using lookup_fst [OF _ fp_disjoint(1), of mn] lookup_fst [OF _ fp_disjoint(2), of mn] lookup_fst [OF _ fp_disjoint(3), of mn]
    lookup_fst [OF _ fp_disjoint(4), of mn] lookup_fst [OF _ fp_disjoint(5), of mn]
  by (simp_all add: assemble_fp_def lookup_key)

lemma fp_single_arms:
  "assemble_fp ''flw'' args = rbind (freg_arg args 0) (\<lambda>rd. rbind (mem_arg args 1) (\<lambda>(offs, rs1). flw_enc rd offs rs1))"
  "assemble_fp ''fsw'' args = rbind (freg_arg args 0) (\<lambda>rs2. rbind (mem_arg args 1) (\<lambda>(offs, rs1). fsw_enc rs2 offs rs1))"
  "assemble_fp ''fsqrt.s'' args = rbind (freg_arg args 0) (\<lambda>rd. rbind (freg_arg args 1) (\<lambda>rs1. rbind (parse_rm args 2) (\<lambda>rm.
     Inr (fp_sqrt rd rs1 rm))))"
  "mn = (if u then ''fcvt.wu.s'' else ''fcvt.w.s'') \<Longrightarrow> assemble_fp mn args =
     rbind (reg_arg args 0) (\<lambda>rd. rbind (freg_arg args 1) (\<lambda>rs1. rbind (parse_rm args 2) (\<lambda>rm. Inr (fp_cvt_w_s u rd rs1 rm))))"
  "mn = (if u then ''fcvt.s.wu'' else ''fcvt.s.w'') \<Longrightarrow> assemble_fp mn args =
     rbind (freg_arg args 0) (\<lambda>rd. rbind (reg_arg args 1) (\<lambda>rs1. rbind (parse_rm args 2) (\<lambda>rm. Inr (fp_cvt_s_w u rd rs1 rm))))"
  "assemble_fp ''fmv.x.w'' args = rbind (reg_arg args 0) (\<lambda>rd. rbind (freg_arg args 1) (\<lambda>rs1. Inr (fp_mv_x_w rd rs1)))"
  "assemble_fp ''fclass.s'' args = rbind (reg_arg args 0) (\<lambda>rd. rbind (freg_arg args 1) (\<lambda>rs1. Inr (fp_class rd rs1)))"
  "assemble_fp ''fmv.w.x'' args = rbind (freg_arg args 0) (\<lambda>rd. rbind (reg_arg args 1) (\<lambda>rs1. Inr (fp_mv_w_x rd rs1)))"
  by (simp_all add: assemble_fp_def has_key_iff fp_table_defs)

subsection \<open>Round trips\<close>

text \<open>The common step: the printed line has the expected form and its operands give the word back.\<close>

lemma reassemble_fp:
  assumes "disasm w xl = line_text mn ops" "mn \<in> set fp_mnemonics" "good_name mn" "ops \<noteq> []" "list_all plain ops" "assemble_fp mn ops = Inr w"
  shows "assemble [disasm w xl] xl = Inr [w]"
  using assms by (simp add: assemble_good_line dispatch_fp)

lemma single_names: "mn \<in> {''flw'', ''fsw'', ''fsqrt.s'', ''fcvt.w.s'', ''fcvt.wu.s'', ''fcvt.s.w'', ''fcvt.s.wu'', ''fmv.x.w'', ''fclass.s'', ''fmv.w.x''} \<Longrightarrow>
    mn \<in> set fp_mnemonics \<and> good_name mn"
  using good_names_single by (auto simp: fp_mnemonics_def)

lemmas arith_fits = other_fits(1) [THEN lookup_all [where P = "\<lambda>v. fits v 5", rotated]]
lemmas madd_fits = other_fits(2) [THEN lookup_all [where P = "\<lambda>v. fits v 7", rotated]]

lemma reassemble_arith:
  assumes "lookup FP_ARITH mn = Inr f5" "fits rd 5" "fits rs1 5" "fits rs2 5" "rm \<in> {0, 1, 2, 3, 4, 7}"
  shows "assemble [disasm (fp_r_type f5 rd rs1 rs2 rm) xl] xl = Inr [fp_r_type f5 rd rs1 rs2 rm]"
proof (rule reassemble_fp [OF _ fp_keys(1) [OF assms(1)] table_good(9) [OF assms(1)], where ops = "[fr rd, fr rs1, fr rs2, rm_name rm]"])
  have f5: "fits f5 5" "map_of FP_ARITH mn = Some f5" using assms(1) arith_fits by (simp_all add: lookup_Inr)
  note f = fp_fields [OF f5(1) assms(4,3) rm_read(3) [OF assms(5)] assms(2) op_fits(13), folded fp_r_type_def]
  show "disasm (fp_r_type f5 rd rs1 rs2 rm) xl = line_text mn [fr rd, fr rs1, fr rs2, rm_name rm]"
    using map_of_SomeD [OF f5(2)] unfolding disasm_by_op(6) [OF f(1)] disasm_fp_def Let_def d_fields f(2-6) FP_ARITH_def
    by (auto simp: get_name_def)
  show "assemble_fp mn [fr rd, fr rs1, fr rs2, rm_name rm] = Inr (fp_r_type f5 rd rs1 rs2 rm)"
    using assms by (simp add: fp_table_arms(1) [OF assms(1)] read_args rm_read)
qed (use assms in \<open>simp_all add: token_rules rm_read\<close>)

lemma reassemble_sgnj:
  assumes "fp_sgnj mn rd rs1 rs2 = Inr w" "fits rd 5" "fits rs1 5" "fits rs2 5"
  shows "assemble [disasm w xl] xl = Inr [w]"
proof -
  from assms(1) obtain f3 where t: "lookup FP_SGNJ mn = Inr f3"
    and w: "w = push_bit 27 4 OR push_bit 20 rs2 OR push_bit 15 rs1 OR push_bit 12 f3 OR push_bit 7 rd OR 0x53"
    by (auto simp only: fp_sgnj_def rbind_Inr sum.inject)
  note f = fp_fields [OF fits_const(6) assms(4,3) f3_lookup(7) [OF t] assms(2) op_fits(13), folded w]
  have d: "disasm w xl = line_text mn [fr rd, fr rs1, fr rs2]"
    using map_of_SomeD [OF t [unfolded lookup_Inr]] unfolding disasm_by_op(6) [OF f(1)] disasm_fp_def Let_def d_fields f(2-6) FP_SGNJ_def
    by (auto simp: get_name_def)
  have "assemble_fp mn [fr rd, fr rs1, fr rs2] = Inr w"
    using assms by (simp add: fp_table_arms(2) [OF t] read_args)
  then show ?thesis
    by (intro reassemble_fp [OF d fp_keys(2) [OF t] table_good(10) [OF t]]) (simp_all add: token_rules)
qed

lemma reassemble_minmax:
  assumes "fp_minmax mn rd rs1 rs2 = Inr w" "fits rd 5" "fits rs1 5" "fits rs2 5"
  shows "assemble [disasm w xl] xl = Inr [w]"
proof -
  from assms(1) obtain f3 where t: "lookup FP_MINMAX mn = Inr f3"
    and w: "w = push_bit 27 5 OR push_bit 20 rs2 OR push_bit 15 rs1 OR push_bit 12 f3 OR push_bit 7 rd OR 0x53"
    by (auto simp only: fp_minmax_def rbind_Inr sum.inject)
  note f = fp_fields [OF fits_const(7) assms(4,3) f3_lookup(8) [OF t] assms(2) op_fits(13), folded w]
  have d: "disasm w xl = line_text mn [fr rd, fr rs1, fr rs2]"
    using map_of_SomeD [OF t [unfolded lookup_Inr]] unfolding disasm_by_op(6) [OF f(1)] disasm_fp_def Let_def d_fields f(2-6) FP_MINMAX_def
    by (auto simp: get_name_def)
  have "assemble_fp mn [fr rd, fr rs1, fr rs2] = Inr w"
    using assms by (simp add: fp_table_arms(3) [OF t] read_args)
  then show ?thesis
    by (intro reassemble_fp [OF d fp_keys(3) [OF t] table_good(11) [OF t]]) (simp_all add: token_rules)
qed

lemma reassemble_cmp:
  assumes "fp_cmp mn rd rs1 rs2 = Inr w" "fits rd 5" "fits rs1 5" "fits rs2 5"
  shows "assemble [disasm w xl] xl = Inr [w]"
proof -
  from assms(1) obtain f3 where t: "lookup FP_CMP mn = Inr f3"
    and w: "w = push_bit 27 20 OR push_bit 20 rs2 OR push_bit 15 rs1 OR push_bit 12 f3 OR push_bit 7 rd OR 0x53"
    by (auto simp only: fp_cmp_def rbind_Inr sum.inject)
  note f = fp_fields [OF fits_const(8) assms(4,3) f3_lookup(9) [OF t] assms(2) op_fits(13), folded w]
  have d: "disasm w xl = line_text mn [xr rd, fr rs1, fr rs2]"
    using map_of_SomeD [OF t [unfolded lookup_Inr]] unfolding disasm_by_op(6) [OF f(1)] disasm_fp_def Let_def d_fields f(2-6) FP_CMP_def
    by (auto simp: get_name_def)
  have "assemble_fp mn [xr rd, fr rs1, fr rs2] = Inr w"
    using assms by (simp add: fp_table_arms(4) [OF t] read_args)
  then show ?thesis
    by (intro reassemble_fp [OF d fp_keys(4) [OF t] table_good(12) [OF t]]) (simp_all add: token_rules)
qed

lemma madd_names: "list_all (\<lambda>(mn, op). map_of MADD_NAMES op = Some mn) MADD_OPCODES"
  by code_simp

lemma disasm_madd:
  assumes "map_of MADD_NAMES (op_of w) = Some mn"
  shows "disasm w xl = line_text mn [fr (rd_of w), fr (rs1_of w), fr (rs2_of w), fr (drop_bit 27 w AND 0x1F), rm_name (f3_of w)]"
proof -
  have "op_of w \<in> {0x43, 0x47, 0x4B, 0x4F}" using map_of_SomeD [OF assms] by (auto simp: MADD_NAMES_def)
  then have n: "op_of w \<notin> {0x33, 0x13, 0x3B, 0x1B, 0x03, 0x23, 0x63, 0x6F, 0x67, 0x37, 0x17, 0x2A, 0x73, 0x07, 0x27}" "w \<noteq> 0x13" "w \<noteq> 0"
    using op_not_special [of w] by auto
  show ?thesis unfolding disasm_def Let_def d_fields using n assms by (simp add: get_name_def)
qed

lemma reassemble_madd:
  assumes "lookup MADD_OPCODES mn = Inr op" "fits rd 5" "fits rs1 5" "fits rs2 5" "fits rs3 5" "rm \<in> {0, 1, 2, 3, 4, 7}"
  shows "assemble [disasm (fp_r4_type op rd rs1 rs2 rs3 rm) xl] xl = Inr [fp_r4_type op rd rs1 rs2 rs3 rm]"
proof (rule reassemble_fp [OF _ fp_keys(5) [OF assms(1)] table_good(13) [OF assms(1)], where ops = "[fr rd, fr rs1, fr rs2, fr rs3, rm_name rm]"])
  note f = fp_fields [OF assms(5,4,3) rm_read(3) [OF assms(6)] assms(2) madd_fits [OF assms(1)], folded fp_r4_type_def]
  show "disasm (fp_r4_type op rd rs1 rs2 rs3 rm) xl = line_text mn [fr rd, fr rs1, fr rs2, fr rs3, rm_name rm]"
    using bspec [OF madd_names [unfolded list_all_iff] map_of_SomeD [OF assms(1) [unfolded lookup_Inr]]]
    by (subst disasm_madd [where mn = mn]) (simp_all add: f)
  show "assemble_fp mn [fr rd, fr rs1, fr rs2, fr rs3, rm_name rm] = Inr (fp_r4_type op rd rs1 rs2 rs3 rm)"
    using assms by (simp add: fp_table_arms(5) [OF assms(1)] read_args rm_read)
qed (use assms in \<open>simp_all add: token_rules rm_read\<close>)

lemma reassemble_sqrt:
  assumes "fits rd 5" "fits rs1 5" "rm \<in> {0, 1, 2, 3, 4, 7}"
  shows "assemble [disasm (fp_sqrt rd rs1 rm) xl] xl = Inr [fp_sqrt rd rs1 rm]"
proof (rule reassemble_fp [where mn = "''fsqrt.s''" and ops = "[fr rd, fr rs1, rm_name rm]"])
  note f = fp_fields [OF fits_const(5) fits_0_1(1) assms(2) rm_read(3) [OF assms(3)] assms(1) op_fits(13), folded fp_sqrt_def]
  show "disasm (fp_sqrt rd rs1 rm) xl = line_text ''fsqrt.s'' [fr rd, fr rs1, rm_name rm]"
    unfolding disasm_by_op(6) [OF f(1)] disasm_fp_def Let_def d_fields f(2-6) by simp
  show "assemble_fp ''fsqrt.s'' [fr rd, fr rs1, rm_name rm] = Inr (fp_sqrt rd rs1 rm)"
    using assms by (simp add: fp_single_arms read_args rm_read)
qed (use assms single_names in \<open>simp_all add: token_rules rm_read\<close>)

lemma reassemble_cvt:
  assumes "fits rd 5" "fits rs1 5" "rm \<in> {0, 1, 2, 3, 4, 7}"
  shows "assemble [disasm (fp_cvt_w_s u rd rs1 rm) xl] xl = Inr [fp_cvt_w_s u rd rs1 rm]"
    "assemble [disasm (fp_cvt_s_w u rd rs1 rm) xl] xl = Inr [fp_cvt_s_w u rd rs1 rm]"
proof -
  have u: "fits (if u then 1 else 0) 5" by simp
  note f = fp_fields [OF fits_const(9) u assms(2) rm_read(3) [OF assms(3)] assms(1) op_fits(13), folded fp_cvt_w_s_def [unfolded Let_def]]
  note g = fp_fields [OF fits_const(10) u assms(2) rm_read(3) [OF assms(3)] assms(1) op_fits(13), folded fp_cvt_s_w_def [unfolded Let_def]]
  let ?m = "if u then ''fcvt.wu.s'' else ''fcvt.w.s''" and ?n = "if u then ''fcvt.s.wu'' else ''fcvt.s.w''"
  have d: "disasm (fp_cvt_w_s u rd rs1 rm) xl = line_text ?m [xr rd, fr rs1, rm_name rm]"
    unfolding disasm_by_op(6) [OF f(1)] disasm_fp_def Let_def d_fields f(2-6) by simp
  have e: "disasm (fp_cvt_s_w u rd rs1 rm) xl = line_text ?n [fr rd, xr rs1, rm_name rm]"
    unfolding disasm_by_op(6) [OF g(1)] disasm_fp_def Let_def d_fields g(2-6) by simp
  show "assemble [disasm (fp_cvt_w_s u rd rs1 rm) xl] xl = Inr [fp_cvt_w_s u rd rs1 rm]"
    by (rule reassemble_fp [OF d]) (use assms single_names in \<open>simp_all add: fp_single_arms(4) [OF refl] read_args token_rules rm_read\<close>)
  show "assemble [disasm (fp_cvt_s_w u rd rs1 rm) xl] xl = Inr [fp_cvt_s_w u rd rs1 rm]"
    by (rule reassemble_fp [OF e]) (use assms single_names in \<open>simp_all add: fp_single_arms(5) [OF refl] read_args token_rules rm_read\<close>)
qed

lemma move_forms:
  "fp_mv_x_w rd rs1 = push_bit 27 28 OR push_bit 20 0 OR push_bit 15 rs1 OR push_bit 12 0 OR push_bit 7 rd OR 0x53"
  "fp_class rd rs1 = push_bit 27 28 OR push_bit 20 0 OR push_bit 15 rs1 OR push_bit 12 1 OR push_bit 7 rd OR 0x53"
  "fp_mv_w_x rd rs1 = push_bit 27 30 OR push_bit 20 0 OR push_bit 15 rs1 OR push_bit 12 0 OR push_bit 7 rd OR 0x53"
  by (simp_all add: fp_mv_x_w_def fp_class_def fp_mv_w_x_def)

lemma reassemble_move:
  assumes "fits rd 5" "fits rs1 5"
  shows "assemble [disasm (fp_mv_x_w rd rs1) xl] xl = Inr [fp_mv_x_w rd rs1]"
    "assemble [disasm (fp_class rd rs1) xl] xl = Inr [fp_class rd rs1]"
    "assemble [disasm (fp_mv_w_x rd rs1) xl] xl = Inr [fp_mv_w_x rd rs1]"
proof -
  have one: "fits 1 3" by simp
  note f = fp_fields [OF fits_const(11) fits_0_1(1) assms(2) fits_0_1(1) assms(1) op_fits(13), folded move_forms]
  note g = fp_fields [OF fits_const(11) fits_0_1(1) assms(2) one assms(1) op_fits(13), folded move_forms]
  note h = fp_fields [OF fits_const(12) fits_0_1(1) assms(2) fits_0_1(1) assms(1) op_fits(13), folded move_forms]
  have d: "disasm (fp_mv_x_w rd rs1) xl = line_text ''fmv.x.w'' [xr rd, fr rs1]"
    unfolding disasm_by_op(6) [OF f(1)] disasm_fp_def Let_def d_fields f(2-6) by simp
  have e: "disasm (fp_class rd rs1) xl = line_text ''fclass.s'' [xr rd, fr rs1]"
    unfolding disasm_by_op(6) [OF g(1)] disasm_fp_def Let_def d_fields g(2-6) by simp
  have k: "disasm (fp_mv_w_x rd rs1) xl = line_text ''fmv.w.x'' [fr rd, xr rs1]"
    unfolding disasm_by_op(6) [OF h(1)] disasm_fp_def Let_def d_fields h(2-6) by simp
  show "assemble [disasm (fp_mv_x_w rd rs1) xl] xl = Inr [fp_mv_x_w rd rs1]"
    by (rule reassemble_fp [OF d]) (use assms single_names in \<open>simp_all add: fp_single_arms read_args token_rules\<close>)
  show "assemble [disasm (fp_class rd rs1) xl] xl = Inr [fp_class rd rs1]"
    by (rule reassemble_fp [OF e]) (use assms single_names in \<open>simp_all add: fp_single_arms read_args token_rules\<close>)
  show "assemble [disasm (fp_mv_w_x rd rs1) xl] xl = Inr [fp_mv_w_x rd rs1]"
    by (rule reassemble_fp [OF k]) (use assms single_names in \<open>simp_all add: fp_single_arms read_args token_rules\<close>)
qed

lemma reassemble_flw:
  assumes "flw_enc rd t rs1 = Inr w" "fits rd 5" "fits rs1 5"
  shows "assemble [disasm w xl] xl = Inr [w]"
proof -
  from assms(1) obtain e where e: "asm_imm t 12 True = Inr e"
    and w: "w = push_bit 20 (asm_u e 12) OR push_bit 15 rs1 OR push_bit 12 2 OR push_bit 7 rd OR 0x07"
    by (auto simp only: flw_enc_def rbind_Inr sum.inject)
  from signed_imm [OF e] obtain v where v: "operand_int t = Inr v" "fits e 12" "sext e 12 = v" "asm_u e 12 = e" by auto
  note f = imm_fields [OF v(2) assms(3) fits_const(4) assms(2) op_fits(14), folded w [unfolded v(4)]]
  have d: "disasm w xl = line_text ''flw'' [fr rd, mem_text v rs1]"
    using f v op_not_special [of w] by (auto simp: disasm_def d_fields)
  have "flw_enc rd (Tok (show_int v)) rs1 = Inr w" using assms(1) unfolding flw_enc_def imm_text_cong [OF v(1)] .
  then show ?thesis
    by (intro reassemble_fp [OF d]) (use assms single_names in \<open>simp_all add: fp_single_arms read_args token_rules\<close>)
qed

lemma reassemble_fsw:
  assumes "fsw_enc rs2 t rs1 = Inr w" "fits rs2 5" "fits rs1 5"
  shows "assemble [disasm w xl] xl = Inr [w]"
proof -
  from assms(1) obtain e where e: "asm_imm t 12 True = Inr e"
    and w: "w = push_bit 25 (take_bit 7 (drop_bit 5 e)) OR push_bit 20 rs2 OR push_bit 15 rs1 OR push_bit 12 2 OR
      push_bit 7 (take_bit 5 e) OR 0x27"
    by (auto simp only: fsw_enc_def rbind_Inr Let_def mask_take sum.inject)
  from signed_imm [OF e] obtain v where v: "operand_int t = Inr v" "fits e 12" "sext e 12 = v" by auto
  note f = word_fields [OF fits_take_self [of 7 "drop_bit 5 e"] assms(2,3) fits_const(4) fits_take_self [of 5 e] op_fits(15), folded w]
  have s: "imm_s_of w = v" unfolding imm_s_of_def f(8,9) split_imm [OF v(2)] by (rule v(3))
  have d: "disasm w xl = line_text ''fsw'' [fr rs2, mem_text v rs1]"
    using f s op_not_special [of w] by (auto simp: disasm_def d_fields)
  have "fsw_enc rs2 (Tok (show_int v)) rs1 = Inr w" using assms(1) unfolding fsw_enc_def imm_text_cong [OF v(1)] .
  then show ?thesis
    by (intro reassemble_fp [OF d]) (use assms single_names in \<open>simp_all add: fp_single_arms read_args token_rules\<close>)
qed

end
