(* ===== verification/Disasm_Props.thy ===== *)
theory Disasm_Props
  imports Disasm_Fp
begin

text \<open>
  The agreement of assembler and disassembler over every mnemonic that both know.
\<close>

lemma rbindE: "rbind r f = Inr w \<Longrightarrow> (\<And>x. r = Inr x \<Longrightarrow> f x = Inr w \<Longrightarrow> Q) \<Longrightarrow> Q"
  by (auto simp: rbind_Inr)

lemma pairE: "(case z of (t, r) \<Rightarrow> f t r) = Inr w \<Longrightarrow> (\<And>t r. z = (t, r) \<Longrightarrow> f t r = Inr w \<Longrightarrow> Q) \<Longrightarrow> Q"
  by (cases z) simp

lemma mem_argD: "mem_arg args i = Inr x \<Longrightarrow> x = (t, r) \<Longrightarrow> fits r 5"
  using arg_fits(3) by blast

lemma nop_round: "i_type ''addi'' 0 0 (Num 0) 32 = Inr w \<Longrightarrow> xl = 32 \<or> xl = 64 \<Longrightarrow> assemble [disasm w xl] xl = Inr [w]"
proof -
  assume "i_type ''addi'' 0 0 (Num 0) 32 = Inr w" "xl = 32 \<or> xl = 64"
  moreover have "i_type ''addi'' 0 0 (Num 0) 32 = i_type ''addi'' 0 0 (Num 0) xl" by (simp add: i_type_def)
  ultimately show ?thesis using reassemble_i by simp
qed

lemma direct_rounds:
  "Inr (ctz_enc rd rs1) = Inr w \<Longrightarrow> fits rd 5 \<Longrightarrow> fits rs1 5 \<Longrightarrow> assemble [disasm w xl] xl = Inr [w]"
  "Inr (fp_r_type f5 rd rs1 rs2 rm) = Inr w \<Longrightarrow> fits rd 5 \<Longrightarrow> fits rs1 5 \<Longrightarrow> fits rs2 5 \<Longrightarrow> parse_rm args i = Inr rm \<Longrightarrow>
     lookup FP_ARITH mn = Inr f5 \<Longrightarrow> assemble [disasm w xl] xl = Inr [w]"
  "Inr (fp_sqrt rd rs1 rm) = Inr w \<Longrightarrow> fits rd 5 \<Longrightarrow> fits rs1 5 \<Longrightarrow> parse_rm args i = Inr rm \<Longrightarrow> assemble [disasm w xl] xl = Inr [w]"
  "Inr (fp_cvt_w_s u rd rs1 rm) = Inr w \<Longrightarrow> fits rd 5 \<Longrightarrow> fits rs1 5 \<Longrightarrow> parse_rm args i = Inr rm \<Longrightarrow> assemble [disasm w xl] xl = Inr [w]"
  "Inr (fp_cvt_s_w u rd rs1 rm) = Inr w \<Longrightarrow> fits rd 5 \<Longrightarrow> fits rs1 5 \<Longrightarrow> parse_rm args i = Inr rm \<Longrightarrow> assemble [disasm w xl] xl = Inr [w]"
  "Inr (fp_mv_x_w rd rs1) = Inr w \<Longrightarrow> fits rd 5 \<Longrightarrow> fits rs1 5 \<Longrightarrow> assemble [disasm w xl] xl = Inr [w]"
  "Inr (fp_class rd rs1) = Inr w \<Longrightarrow> fits rd 5 \<Longrightarrow> fits rs1 5 \<Longrightarrow> assemble [disasm w xl] xl = Inr [w]"
  "Inr (fp_mv_w_x rd rs1) = Inr w \<Longrightarrow> fits rd 5 \<Longrightarrow> fits rs1 5 \<Longrightarrow> assemble [disasm w xl] xl = Inr [w]"
  "Inr (fp_r4_type op rd rs1 rs2 rs3 rm) = Inr w \<Longrightarrow> fits rd 5 \<Longrightarrow> fits rs1 5 \<Longrightarrow> fits rs2 5 \<Longrightarrow> fits rs3 5 \<Longrightarrow>
     parse_rm args i = Inr rm \<Longrightarrow> lookup MADD_OPCODES mn = Inr op \<Longrightarrow> assemble [disasm w xl] xl = Inr [w]"
  using reassemble_ctz reassemble_arith reassemble_sqrt reassemble_cvt reassemble_move reassemble_madd rm_values
  by (simp_all only: sum.inject) metis+

lemmas int_rounds = reassemble_r reassemble_r_w reassemble_i reassemble_i_w reassemble_load reassemble_store reassemble_branch
  reassemble_jal reassemble_jalr reassemble_u reassemble_csr_reg reassemble_csr_imm

lemma system_round: "system_noarg mn = Inr w \<Longrightarrow> mn \<in> {''ecall'', ''ebreak'', ''mret'', ''sret''} \<Longrightarrow> mn \<noteq> ''sret'' \<Longrightarrow> xl = 32 \<or> xl = 64 \<Longrightarrow>
    assemble [disasm w xl] xl = Inr [w]"
  using reassemble_system [of mn xl w] by blast

lemma assemble_int_round:
  assumes x: "xl = 32 \<or> xl = 64" and s: "mn \<noteq> ''word''" "mn \<noteq> ''fence''" "mn \<noteq> ''sret''" "mn \<noteq> ''sfence.vma''"
    and c: "has_key CSR_OP mn \<Longrightarrow> drop_bit 20 w \<notin> {1, 2, 3}"
  shows "pred_option (\<lambda>r. r = Inr w \<longrightarrow> assemble [disasm w xl] xl = Inr [w]) (assemble_int ls xl a mn args)"
  unfolding assemble_int_def
  by (intro pred_option_if impI; (elim rbindE pairE)?;
      ((rule nop_round int_rounds direct_rounds system_round, assumption;
        (erule arg_fits | (erule mem_argD, assumption) | assumption | rule x s | (rule c, erule key_members) | simp; fail)) | simp add: s; fail))

lemma assemble_fp_round: "assemble_fp mn args = Inr w \<Longrightarrow> assemble [disasm w xl] xl = Inr [w]"
proof -
  have "outcome (\<lambda>_. True) (\<lambda>w. assemble [disasm w xl] xl = Inr [w]) (assemble_fp mn args)"
    unfolding assemble_fp_def
    by (intro outcome_if; rule outcomeI; (elim rbindE pairE)?;
      ((rule reassemble_flw reassemble_fsw reassemble_sgnj reassemble_minmax reassemble_cmp direct_rounds, assumption;
        (erule arg_fits | (erule mem_argD, assumption) | assumption)) | simp; fail))
  then show "assemble_fp mn args = Inr w \<Longrightarrow> assemble [disasm w xl] xl = Inr [w]" by simp
qed

lemma stmt_round:
  assumes "assemble_stmt ls xl (a, line) = Inr w" "xl = 32 \<or> xl = 64"
    "mnemonic line \<notin> {''word'', ''fence'', ''sret'', ''sfence.vma''}"
    "has_key CSR_OP (mnemonic line) \<Longrightarrow> drop_bit 20 w \<notin> {1, 2, 3}"
  shows "assemble [disasm w xl] xl = Inr [w]"
proof -
  have "pred_option (\<lambda>r. r = Inr w \<longrightarrow> assemble [disasm w xl] xl = Inr [w]) (assemble_int ls xl a (mnemonic line) (operands line))"
    by (rule assemble_int_round) (use assms(2-4) in auto)
  then show ?thesis
    using assms(1) assemble_fp_round [of "mnemonic line" "operands line" w]
    by (cases "assemble_int ls xl a (mnemonic line) (operands line)")
       (auto simp: assemble_stmt_def mnemonic_def operands_def Let_def)
qed

subsection \<open>Whole programs\<close>

lemma single_line:
  assumes "assemble [l] xl = Inr [w]"
  shows "is_stmt l" "assemble_stmt Map.empty xl (0, clean_line l) = Inr w"
proof -
  show s: "is_stmt l" using assms by (auto simp: assemble_words split: if_splits)
  have "labels_of [l] = Map.empty" using s by (auto simp: defines_label_def is_stmt_def)
  then show "assemble_stmt Map.empty xl (0, clean_line l) = Inr w" using assms s by (simp add: assemble_words)
qed

lemma address_irrelevant: "assemble_stmt Map.empty xl (a, l) = assemble_stmt Map.empty xl (b, l)"
  by (simp add: assemble_stmt_def assemble_int_def resolve_def Let_def)

lemma no_labels: "list_all is_stmt lines \<Longrightarrow> label_address lines a = Map.empty"
proof (induction lines arbitrary: a)
  case (Cons l lines)
  then show ?case by (auto simp: defines_label_def is_stmt_def)
qed auto

lemma lines_program:
  assumes "list_all2 (\<lambda>l w. assemble [l] xl = Inr [w]) lines ws"
  shows "assemble lines xl = Inr ws"
proof -
  have s: "list_all is_stmt lines"
    unfolding list_all_length using assms single_line(1) unfolding list_all2_conv_all_nth by metis
  then have f: "filter is_stmt lines = lines" by (simp add: filter_id_conv list_all_iff)
  have "assemble_stmt Map.empty xl (4 * int i, clean_line (lines ! i)) = Inr (ws ! i)" if "i < length ws" for i
    using assms that single_line(2) [of "lines ! i" xl "ws ! i"] address_irrelevant [of xl "4 * int i" _ 0]
    by (simp add: list_all2_conv_all_nth)
  then show ?thesis using assms unfolding assemble_words f no_labels [OF s] by (simp add: list_all2_lengthD)
qed

text \<open>What the round trip leaves out: raw words, the instructions \<open>disasm\<close> has no name for, and the CSR names the assembler does not know.\<close>

definition printable :: "string \<Rightarrow> int \<Rightarrow> bool" where
  "printable line w \<longleftrightarrow> mnemonic line \<notin> {''word'', ''fence'', ''sret'', ''sfence.vma''} \<and>
     (has_key CSR_OP (mnemonic line) \<longrightarrow> drop_bit 20 w \<notin> {1, 2, 3})"

text \<open>
  C8. Assembling the disassembly of an assembled program, for either register width, gives the
  same words: every mnemonic, operand order, immediate and offset is printed the way the
  assembler reads it. The exceptions are raw words, the instructions the disassembler has no
  name for (\<open>fence\<close>, \<open>sret\<close>, \<open>sfence.vma\<close>) and the three floating-point CSRs, whose names
  the assembler does not know.
\<close>

theorem disassembly_reassembles:
  assumes "assemble lines xl = Inr ws" "xl = 32 \<or> xl = 64" "\<forall>i < length ws. printable (stmt_at lines i) (ws ! i)"
  shows "assemble (map (\<lambda>w. disasm w xl) ws) xl = Inr ws"
proof (rule lines_program)
  have "assemble [disasm (ws ! i) xl] xl = Inr [ws ! i]" if "i < length ws" for i
  proof -
    have "assemble_stmt (labels_of lines) xl (4 * int i, stmt_at lines i) = Inr (ws ! i)"
      using assms(1) that unfolding assemble_words by blast
    then show ?thesis
      by (rule stmt_round [OF _ assms(2)]) (use assms(3) that in \<open>simp_all add: printable_def\<close>)
  qed
  then show "list_all2 (\<lambda>l w. assemble [l] xl = Inr [w]) (map (\<lambda>w. disasm w xl) ws) ws"
    by (simp add: list_all2_conv_all_nth)
qed

theorem disassembly_reassembles_witness:
  "assemble (map (\<lambda>w. disasm w 32) [0x00108093, 0xFE209EE3, 0x3053D073]) 32 = Inr [0x00108093, 0xFE209EE3, 0x3053D073]"
proof -
  let ?p = "[''loop:'', ''  addi x1, x1, 1'', ''  bne x1, x2, loop'', ''csrrwi x0, mtvec, 7'']"
  have a: "assemble ?p 32 = Inr [0x00108093, 0xFE209EE3, 0x3053D073]" by code_simp
  have "list_all (\<lambda>i. printable (stmt_at ?p i) ([0x00108093, 0xFE209EE3, 0x3053D073] ! i))
      [0..<length [0x00108093, 0xFE209EE3, 0x3053D073 :: int]]" by code_simp
  then have "\<forall>i < length [0x00108093, 0xFE209EE3, 0x3053D073 :: int].
      printable (stmt_at ?p i) ([0x00108093, 0xFE209EE3, 0x3053D073] ! i)"
    unfolding list_all_iff set_upt by (metis atLeastLessThan_iff le0)
  from disassembly_reassembles [OF a _ this] show ?thesis by simp
qed

end
