(* ===== verification/Debugger.thy ===== *)
theory Debugger
  imports Asm_Text Disasm Iss_Step
begin

text \<open>
  The interactive debugger \<open>sim/tools/debugger.py\<close> over the simulator: its state, \<open>step_one\<close>,
  \<open>run_until\<close> with breakpoints, the printed views and the command interpreter. The terminal is
  a list of input lines; what is printed is a list of lines. An exception that a command raises
  ends the session.
\<close>

subsection \<open>State\<close>

record dbg =
  d_words :: "int list"
  d_mem_size :: nat
  d_xlen :: nat
  d_breakpoints :: "int list"
  d_history :: "(int \<times> int) list"
  d_iss :: iss

text \<open>\<open>breakpoints\<close> is a set in the source; here a sorted list without repetitions.\<close>

definition dbg_reset :: "dbg \<Rightarrow> dbg" where
  "dbg_reset d = d\<lparr>d_iss := iss_init (d_mem_size d) (d_xlen d), d_history := []\<rparr>"

definition dbg_init :: "int list \<Rightarrow> nat \<Rightarrow> nat \<Rightarrow> dbg" where
  "dbg_init ws msize xl =
     dbg_reset \<lparr>d_words = ws, d_mem_size = msize, d_xlen = xl, d_breakpoints = [], d_history = [], d_iss = iss_init msize xl\<rparr>"

definition word_at :: "dbg \<Rightarrow> int \<Rightarrow> int" where
  "word_at d p =
     (let idx = p div 4 in if 0 \<le> idx \<and> idx < int (length (d_words d)) then d_words d ! nat idx else 0)"

definition at_end :: "dbg \<Rightarrow> bool" where
  "at_end d \<longleftrightarrow> pc (d_iss d) \<ge> int (length (d_words d)) * 4"

definition step_one :: "dbg \<Rightarrow> (bool \<times> dbg) result" where
  "step_one d =
     (if at_end d then Inr (False, d)
      else
        (let word = word_at d (pc (d_iss d));
             d' = d\<lparr>d_history := d_history d @ [(pc (d_iss d), word)]\<rparr>
         in rbind (step (d_iss d') word) (\<lambda>s. Inr (True, d'\<lparr>d_iss := s\<rparr>))))"

subsection \<open>Running\<close>

datatype stop = EndOfProgram | HaltedLoop | BreakpointHit int | Exceeded int

definition dbg_self_loop :: "int \<Rightarrow> bool" where
  "dbg_self_loop word \<longleftrightarrow>
     word AND 0x7F = 0x6F \<and>
     (let b20 = drop_bit 31 word AND 1; b19_12 = drop_bit 12 word AND 0xFF;
          b11 = drop_bit 20 word AND 1; b10_1 = drop_bit 21 word AND 0x3FF;
          off = push_bit 20 b20 OR push_bit 12 b19_12 OR push_bit 11 b11 OR push_bit 1 b10_1;
          off' = (if off AND push_bit 20 1 \<noteq> 0 then off - push_bit 21 1 else off)
      in off' = 0)"

text \<open>The loop of \<open>run_until\<close>; \<open>n\<close> is the number of iterations left, \<open>max_steps - steps\<close>.\<close>

fun run_until_loop :: "nat \<Rightarrow> int \<Rightarrow> int \<Rightarrow> dbg \<Rightarrow> (stop \<times> dbg) result" where
  "run_until_loop 0 max_steps steps d = Inr (Exceeded max_steps, d)"
| "run_until_loop (Suc n) max_steps steps d =
     (if at_end d then Inr (EndOfProgram, d)
      else
        (let p = pc (d_iss d); word = word_at d p
         in if dbg_self_loop word then Inr (HaltedLoop, d)
            else if p \<in> set (d_breakpoints d) \<and> steps > 0 then Inr (BreakpointHit p, d)
            else rbind (step_one d) (\<lambda>(_, d'). run_until_loop n max_steps (steps + 1) d')))"

definition run_until :: "int \<Rightarrow> dbg \<Rightarrow> (stop \<times> dbg) result" where
  "run_until max_steps d = run_until_loop (nat max_steps) max_steps 0 d"

definition stop_text :: "stop \<Rightarrow> string" where
  "stop_text r =
     (case r of EndOfProgram \<Rightarrow> ''end of program'' | HaltedLoop \<Rightarrow> ''halted (self-loop)''
      | BreakpointHit p \<Rightarrow> ''breakpoint hit @ pc='' @ show_int p
      | Exceeded n \<Rightarrow> ''stopped: exceeded '' @ show_int n @ '' steps'')"

subsection \<open>Views\<close>

text \<open>\<open>{v:5d}\<close>, \<open>{s:<8}\<close>, \<open>{v:#010x}\<close>.\<close>

definition pad_left :: "nat \<Rightarrow> string \<Rightarrow> string" where
  "pad_left k s = replicate (k - length s) (CHR '' '') @ s"

definition pad_right :: "nat \<Rightarrow> string \<Rightarrow> string" where
  "pad_right k s = s @ replicate (k - length s) (CHR '' '')"

definition reg_cell :: "dbg \<Rightarrow> nat \<Rightarrow> string" where
  "reg_cell d i = ''x'' @ pad_right 2 (show_int (int i)) @ ''=0x'' @ zhex (d_xlen d div 4) (regs (d_iss d) ! i)"

fun spaced :: "string list \<Rightarrow> string" where
  "spaced [] = []"
| "spaced [a] = a"
| "spaced (a # b # rest) = a @ ''  '' @ spaced (b # rest)"

definition print_regs :: "dbg \<Rightarrow> string list" where
  "print_regs d = map (\<lambda>i. spaced (map (\<lambda>j. reg_cell d (i + j)) [0, 1, 2, 3])) [0, 4, 8, 12, 16, 20, 24, 28]"

definition CSR_BY_ADDR :: "(int \<times> string) list" where
  "CSR_BY_ADDR = [(0x300, ''mstatus''), (0x305, ''mtvec''), (0x340, ''mscratch''), (0x341, ''mepc''), (0x342, ''mcause'')]"

definition print_csrs :: "dbg \<Rightarrow> string list" where
  "print_csrs d = map (\<lambda>(addr, name). ''  '' @ pad_right 8 name @ '' = 0x'' @ zhex 8 (csr_at (d_iss d) addr)) CSR_BY_ADDR"

definition print_disas :: "dbg \<Rightarrow> int \<Rightarrow> string list" where
  "print_disas d n =
     map (\<lambda>i. let addr = pc (d_iss d) + i * 4; word = word_at d addr
               in (if i = 0 then ''-> '' else ''   '') @ (if addr \<in> set (d_breakpoints d) then ''*'' else '' '') @
                  pad_left 5 (show_int addr) @ '': '' @ zhex 8 word @ ''  '' @ disasm word (d_xlen d))
       [0..n - 1]"

subsection \<open>Python lists and numbers in commands\<close>

text \<open>\<open>xs[i]\<close> with Python's negative indices, and \<open>xs[a:b]\<close>.\<close>

definition py_index :: "'a list \<Rightarrow> int \<Rightarrow> 'a result" where
  "py_index xs i =
     (let k = (if i < 0 then i + int (length xs) else i)
      in if 0 \<le> k \<and> k < int (length xs) then Inr (xs ! nat k) else Inl IndexError)"

definition py_bound :: "nat \<Rightarrow> int \<Rightarrow> nat" where
  "py_bound len i = nat (min (int len) (max 0 (if i < 0 then i + int len else i)))"

definition py_slice :: "'a list \<Rightarrow> int \<Rightarrow> int \<Rightarrow> 'a list" where
  "py_slice xs a b = take (py_bound (length xs) b - py_bound (length xs) a) (drop (py_bound (length xs) a) xs)"

text \<open>\<open>int(s)\<close>, base ten.\<close>

definition py_int10 :: "string \<Rightarrow> int result" where
  "py_int10 tok =
     (case py_strip tok of
        [] \<Rightarrow> Inl ValueError
      | c # cs \<Rightarrow>
          (case (if c = CHR ''-'' then map_option uminus (int_digits 10 False cs 0)
                 else if c = CHR ''+'' then int_digits 10 False cs 0 else int_digits 10 False (c # cs) 0) of
             None \<Rightarrow> Inl ValueError | Some v \<Rightarrow> Inr v))"

text \<open>\<open>line.split()\<close>.\<close>

function py_split :: "string \<Rightarrow> string list" where
  "py_split s =
     (let t = dropWhile py_space s
      in if t = [] then [] else takeWhile (\<lambda>c. \<not> py_space c) t # py_split (dropWhile (\<lambda>c. \<not> py_space c) t))"
  by pat_completeness auto

lemma split_shorter:
  "dropWhile P s \<noteq> [] \<Longrightarrow> length (dropWhile (\<lambda>c. \<not> P c) (dropWhile P s)) < length s"
proof (induction s)
  case (Cons a s)
  have "length (dropWhile (\<lambda>c. \<not> P c) s) \<le> length s" by (rule length_dropWhile_le)
  then show ?case using Cons by (auto split: if_splits)
qed simp

termination py_split
  by (relation "measure length") (auto intro: split_shorter)

declare py_split.simps [simp del]

subsection \<open>Commands\<close>

definition HELP :: "string list" where
  "HELP = [''Commands:'',
     ''  step [n]          execute n instructions (default 1)'',
     ''  continue          run until a breakpoint, halt, or program end'',
     ''  break <addr>      set a breakpoint at a byte address (multiple of 4)'',
     ''  delete <addr>     remove a breakpoint'',
     ''  breakpoints       list active breakpoints'',
     ''  regs              dump all 32 registers'',
     ''  reg <n>           show register xN'',
     ''  mem <addr> [len]  dump `len` (default 16) bytes of data memory from `addr`'',
     ''  csr               dump the 5 implemented CSRs'',
     ''  disas [n]         disassemble n instructions starting at pc (default 5)'',
     ''  pc                show the current pc'',
     ''  restart           reset architectural state and start over'',
     ''  history [n]       show the last n executed instructions (default 10)'',
     ''  help              this message'',
     ''  quit              exit'', []]"

text \<open>The loop of \<open>step n\<close>: what it prints and the state after it.\<close>

fun step_times :: "nat \<Rightarrow> dbg \<Rightarrow> (string list \<times> dbg) result" where
  "step_times 0 d = Inr ([], d)"
| "step_times (Suc n) d =
     rbind (step_one d) (\<lambda>(ok, d'). if ok then step_times n d' else Inr ([''(end of program)''], d'))"

definition int_arg :: "string list \<Rightarrow> nat \<Rightarrow> int \<Rightarrow> int result" where
  "int_arg args i dflt = (if i < length args then py_int10 (args ! i) else Inr dflt)"

definition insert_sorted :: "int \<Rightarrow> int list \<Rightarrow> int list" where
  "insert_sorted a xs = (if a \<in> set xs then xs else insort a xs)"

definition list_text :: "int list \<Rightarrow> string" where
  "list_text xs = (if xs = [] then ''(none)'' else ''['' @ concat (map (\<lambda>(i, x). (if i = 0 then [] else '', '') @ show_int x) (enumerate 0 xs)) @ '']'')"

text \<open>\<open>repr\<close> of a token.\<close>

definition repr_text :: "string \<Rightarrow> string" where
  "repr_text s =
     (let q = (if CHR 0x27 \<in> set s \<and> CHR 0x22 \<notin> set s then CHR 0x22 else CHR 0x27)
      in q # concat (map (\<lambda>c. let n = of_char c :: nat in
            if c = q \<or> c = CHR 0x5C then [CHR 0x5C, c]
            else if n < 32 \<or> n = 127 then [CHR 0x5C, CHR ''x''] @ zhex 2 (int n) else [c]) s) @ [q])"

text \<open>One command: what it prints and the next state, or \<open>None\<close> when it ends the session.\<close>

definition command :: "string \<Rightarrow> string list \<Rightarrow> dbg \<Rightarrow> (string list \<times> dbg option) result" where
  "command cmd args d =
     (if cmd \<in> {''q'', ''quit'', ''exit''} then Inr ([], None)
      else if cmd \<in> {''h'', ''help''} then Inr (HELP, Some d)
      else if cmd \<in> {''s'', ''step''} then
        rbind (int_arg args 0 1) (\<lambda>n. rbind (step_times (nat n) d) (\<lambda>(out, d'). Inr (out @ print_disas d' 1, Some d')))
      else if cmd \<in> {''c'', ''continue''} then
        rbind (run_until 200000 d) (\<lambda>(r, d'). Inr (stop_text r # (if at_end d' then [] else print_disas d' 1), Some d'))
      else if cmd = ''break'' then
        (if args = [] then Inr ([''usage: break <addr>''], Some d)
         else rbind (py_int0 (hd args)) (\<lambda>a. Inr ([], Some (d\<lparr>d_breakpoints := insert_sorted a (d_breakpoints d)\<rparr>))))
      else if cmd = ''delete'' then
        (if args = [] then Inr ([''usage: delete <addr>''], Some d)
         else rbind (py_int0 (hd args)) (\<lambda>a. Inr ([], Some (d\<lparr>d_breakpoints := remove1 a (d_breakpoints d)\<rparr>))))
      else if cmd = ''breakpoints'' then Inr ([list_text (d_breakpoints d)], Some d)
      else if cmd \<in> {''r'', ''regs''} then Inr (print_regs d, Some d)
      else if cmd = ''reg'' then
        (if args = [] then Inr ([''usage: reg <n>''], Some d)
         else rbind (py_int10 (hd args)) (\<lambda>n. rbind (py_index (regs (d_iss d)) n) (\<lambda>v.
           Inr ([''x'' @ show_int n @ '' = 0x'' @ zhex (d_xlen d div 4) v @ '' ('' @ show_int v @ '')''], Some d))))
      else if cmd = ''mem'' then
        (if args = [] then Inr ([''usage: mem <addr> [len]''], Some d)
         else rbind (py_int0 (hd args)) (\<lambda>addr. rbind (int_arg args 1 16) (\<lambda>len.
           let chunk = py_slice (mem (d_iss d)) addr (addr + len)
           in Inr ([concat (map (\<lambda>(i, b). (if i = 0 then [] else '' '') @ zhex 2 b) (enumerate 0 chunk))], Some d))))
      else if cmd = ''csr'' then Inr (print_csrs d, Some d)
      else if cmd = ''disas'' then rbind (int_arg args 0 5) (\<lambda>n. Inr (print_disas d n, Some d))
      else if cmd = ''pc'' then Inr ([show_int (pc (d_iss d))], Some d)
      else if cmd = ''restart'' then (let d' = dbg_reset d in Inr (''restarted'' # print_disas d' 3, Some d'))
      else if cmd = ''history'' then
        rbind (int_arg args 0 10) (\<lambda>n.
          Inr (map (\<lambda>(p, word). ''   '' @ pad_left 5 (show_int p) @ '': '' @ zhex 8 word @ ''  '' @ disasm word (d_xlen d))
                 (py_slice (d_history d) (- n) (int (length (d_history d)))), Some d))
      else Inr ([''unknown command '' @ repr_text cmd @ '' -- type `help`''], Some d))"

subsection \<open>The session\<close>

text \<open>The loop of \<open>repl\<close> over the lines typed, without the prompt; the end of the input prints an empty line.\<close>

fun repl_loop :: "string list \<Rightarrow> dbg \<Rightarrow> (string list \<times> dbg) result" where
  "repl_loop [] d = Inr ([[]], d)"
| "repl_loop (line # rest) d =
     (case py_split (py_strip line) of
        [] \<Rightarrow> repl_loop rest d
      | cmd # args \<Rightarrow>
          rbind (command cmd args d) (\<lambda>(out, next).
            case next of
              None \<Rightarrow> Inr (out, d)
            | Some d' \<Rightarrow> rbind (repl_loop rest d') (\<lambda>(out', d''). Inr (out @ out', d''))))"

definition repl :: "string list \<Rightarrow> dbg \<Rightarrow> (string list \<times> dbg) result" where
  "repl input d =
     rbind (repl_loop input d) (\<lambda>(out, d').
       Inr ((''Loaded '' @ show_int (int (length (d_words d))) @ '' instructions. Type `help` for commands.'') #
            print_disas d 3 @ out, d'))"

text \<open>
  \<open>assemble_if_needed\<close> on the text of the program file: an image is read directly, a source is
  assembled into an image that is then read. \<open>None\<close> is \<open>sys.exit(1)\<close>.
\<close>

definition assemble_if_needed :: "string \<Rightarrow> string \<Rightarrow> int \<Rightarrow> nat \<Rightarrow> int list result option" where
  "assemble_if_needed path text msize xl =
     (if drop (length path - 4) path = ''.mem'' then Some (load_words text)
      else (case asm_main (file_lines text) msize xl of
              Written img \<Rightarrow> Some (load_words img)
            | _ \<Rightarrow> None))"

definition debugger_main :: "string \<Rightarrow> string \<Rightarrow> nat \<Rightarrow> nat \<Rightarrow> string list \<Rightarrow> (string list \<times> dbg) result option" where
  "debugger_main path text msize xl input =
     map_option (\<lambda>r. rbind r (\<lambda>words. repl input (dbg_init words msize xl)))
       (assemble_if_needed path text (int msize) xl)"

end
