(* ===== verification/Debug_Run.thy ===== *)
theory Debug_Run
  imports Debugger Iss_Run
begin

text \<open>
  The debugger follows the machine. Its loop replays exactly the instructions it records in
  the history, it recognises the same halting instruction as the simulator, and on a core
  wider than 32 bits it stops where \<open>ISS.run\<close> stops. The debugger reads its word at the
  unmasked pc, so the last needs that no instruction leaves the register width.
\<close>

subsection \<open>Addresses stay within the register width\<close>

definition epc_fits :: "iss \<Rightarrow> bool" where
  "epc_fits s \<longleftrightarrow> 32 \<le> xlen s \<and> csr_at s CSR_MEPC < 2 ^ xlen s \<and> csr_at s CSR_SEPC < 2 ^ xlen s"

definition addr_fits :: "iss \<Rightarrow> bool" where
  "addr_fits s \<longleftrightarrow> iss_wf s \<and> epc_fits s \<and> pc s < 2 ^ xlen s"

lemma csr_at_mem [simp]: "csr_at (store_mem_byte s a v) k = csr_at s k"
  by (simp add: store_mem_byte_def)

lemma xlen_store [simp]: "xlen (store_mem_byte s a v) = xlen s"
  by (simp add: store_mem_byte_def)

lemma store_le_csr [simp]: "csr_at (store_le s a v n) k = csr_at s k" "xlen (store_le s a v n) = xlen s"
  by (induction n) simp_all

lemma epc_fits_upd [simp]:
  "epc_fits (s\<lparr>pc := p\<rparr>) = epc_fits s" "epc_fits (s\<lparr>priv_mode := m\<rparr>) = epc_fits s"
  "epc_fits (s\<lparr>regs := r\<rparr>) = epc_fits s" "epc_fits (s\<lparr>fregs := f\<rparr>) = epc_fits s"
  "epc_fits (s\<lparr>frm := x\<rparr>) = epc_fits s" "epc_fits (s\<lparr>fflags := y\<rparr>) = epc_fits s"
  "epc_fits (store_mem_byte s a v) = epc_fits s" "epc_fits (store_le s a v n) = epc_fits s"
  "epc_fits (wr s rd v) = epc_fits s" "epc_fits (set_freg s rd v) = epc_fits s"
  "epc_fits (set_fflags s fl) = epc_fits s"
  by (simp_all add: epc_fits_def wr_def set_freg_def set_fflags_def)

lemma epc_fits_put: "epc_fits s \<Longrightarrow> v < 2 ^ xlen s \<Longrightarrow> epc_fits (csr_put s k v)"
  by (simp add: epc_fits_def csr_at_put)

lemma u32_fits: "epc_fits s \<Longrightarrow> u32 v < 2 ^ xlen s"
  using order.strict_trans2 [OF u32_range(2) power_increasing [of 32 "xlen s" "2::int"], of v] by (simp add: epc_fits_def)

lemma epc_fits_write: "epc_fits s \<Longrightarrow> epc_fits (csr_write s k v)"
  by (simp add: csr_write_def csr_store_def Let_def epc_fits_put u32_fits)

text \<open>The address a trap, a return or any instruction continues at.\<close>

lemma csr_value_fits: "iss_wf s \<Longrightarrow> epc_fits s \<Longrightarrow> csr_at s k < 2 ^ xlen s"
  using csr_at_u32 [of s k] power_increasing [of 32 "xlen s" "2::int"]
  by (cases "k = CSR_MEPC \<or> k = CSR_SEPC") (auto simp: epc_fits_def)

lemma fits_trap: "iss_wf s \<Longrightarrow> epc_fits s \<Longrightarrow> pc s < 2 ^ xlen s \<Longrightarrow> epc_fits (trap s c v) \<and> pc (trap s c v) < 2 ^ xlen s"
  by (simp add: trap_def Let_def epc_fits_put u32_fits csr_at_put csr_value_fits)

lemma fits_ret:
  assumes "iss_wf s" "epc_fits s"
  shows "epc_fits (mret s) \<and> pc (mret s) < 2 ^ xlen s" "epc_fits (sret s) \<and> pc (sret s) < 2 ^ xlen s"
  using assms by (simp_all add: mret_def sret_def Let_def epc_fits_put u32_fits csr_at_put csr_value_fits)

subsection \<open>Each arm keeps them\<close>

definition result_fits :: "iss \<Rightarrow> iss result \<Rightarrow> bool" where
  "result_fits s r \<longleftrightarrow> (\<forall>s'. r = Inr s' \<longrightarrow> epc_fits s' \<and> pc s' < 2 ^ xlen s)"

lemma result_fits_intro:
  "result_fits s (Inl e)" "epc_fits u \<Longrightarrow> p < 2 ^ xlen s \<Longrightarrow> result_fits s (Inr (u\<lparr>pc := p\<rparr>))"
  "result_fits s a \<Longrightarrow> result_fits s b \<Longrightarrow> result_fits s (if c then a else b)"
  by (simp_all add: result_fits_def)

lemma result_fits_bind:
  "(\<And>v. r = Inr v \<Longrightarrow> result_fits s (f v)) \<Longrightarrow> result_fits s (case r of Inl e \<Rightarrow> Inl e | Inr v \<Rightarrow> f v)"
  by (cases r) (simp_all add: result_fits_intro)

text \<open>A state with room for the next word.\<close>

definition room :: "iss \<Rightarrow> bool" where
  "room s \<longleftrightarrow> iss_wf s \<and> epc_fits s \<and> pc s + 4 < 2 ^ xlen s"

lemma room_next: "room s \<Longrightarrow> epc_fits u \<Longrightarrow> result_fits s (Inr (u\<lparr>pc := pc s + 4\<rparr>))"
  by (simp add: room_def result_fits_def)

lemma room_trap: "room s \<Longrightarrow> result_fits s (Inr (trap s c v))"
  using fits_trap [of s c v] by (simp add: result_fits_def room_def)

lemma room_ret: "room s \<Longrightarrow> result_fits s (Inr (mret s))" "room s \<Longrightarrow> result_fits s (Inr (sret s))"
  using fits_ret [of s] by (simp_all add: result_fits_def room_def)

lemma room_translate:
  assumes "room s" "\<And>a. result_fits s (f a s)"
  shows "result_fits s (case translate s v acc of (None, s') \<Rightarrow> Inr s' | (Some a, s') \<Rightarrow> f a s')"
  by (rule translate_cases [of s v acc]) (simp_all add: assms page_fault_def room_trap)

lemma room_map: "room s \<Longrightarrow> (\<And>u. r = Inr u \<Longrightarrow> epc_fits u) \<Longrightarrow> result_fits s (map_sum id (\<lambda>u. u\<lparr>pc := pc s + 4\<rparr>) r)"
  by (cases r) (simp_all add: result_fits_def room_def)

lemma room_epc: "room s \<Longrightarrow> epc_fits s"
  by (simp add: room_def)

lemma alu_arms_fit:
  assumes "room s"
  shows "result_fits s (step_op s w)" "result_fits s (step_op_32 s w)" "result_fits s (step_ctz s w)"
    "result_fits s (step_op_imm s w)" "result_fits s (step_op_imm_32 s w)" "result_fits s (step_lui s w)"
    "result_fits s (step_auipc s w)"
  unfolding step_op_def step_op_32_def step_ctz_def step_op_imm_def step_op_imm_32_def step_lui_def step_auipc_def Let_def
  by (intro result_fits_intro(1,3) result_fits_bind room_next assms; simp add: room_epc assms)+

lemma jump_arms_fit:
  assumes "room s"
  shows "result_fits s (step_branch s w)" "result_fits s (step_jal s w)" "result_fits s (step_jalr s w)"
  unfolding step_branch_def step_jal_def step_jalr_def Let_def
  using assms by (auto simp: result_fits_def room_def uxlen_def)

lemma stored_fits: "room s \<Longrightarrow> store_value s f3 a v = Inr u \<Longrightarrow> epc_fits u"
  by (auto simp: store_value_def room_epc split: if_splits)

lemma mem_arms_fit:
  assumes "room s"
  shows "result_fits s (step_load s w)" "result_fits s (step_flw s w)" "result_fits s (step_fsw s w)"
    "result_fits s (step_store s w)"
  unfolding step_load_def step_store_def step_flw_def step_fsw_def Let_def
     apply (intro room_translate result_fits_bind room_next assms; simp add: room_epc assms)+
  apply (intro room_translate result_fits_bind room_next stored_fits [OF assms] assms; assumption)
  done

lemma system_arm_fits: "room s \<Longrightarrow> result_fits s (step_system s w)"
  unfolding step_system_def step_priv_def step_csr_def Let_def
  by (intro result_fits_intro(1,3) room_trap room_ret room_next; simp add: room_epc epc_fits_write)

lemma put_fits: "room s \<Longrightarrow> put_f s rd r = Inr u \<Longrightarrow> epc_fits u" "room s \<Longrightarrow> put_x s rd x = Inr u \<Longrightarrow> epc_fits u"
  by (auto simp: put_f_def put_x_def room_epc split: sum.splits prod.splits)

lemma fp_arms_fit:
  assumes "room s"
  shows "result_fits s (step_op_fp s w)" "result_fits s (step_fmadd s w)"
proof -
  have "op_fp s w = Inr u \<Longrightarrow> epc_fits u" for u
    unfolding op_fp_def Let_def using room_epc [OF assms] by (auto dest: put_fits [OF assms] split: if_splits)
  then show "result_fits s (step_op_fp s w)" unfolding step_op_fp_def by (rule room_map [OF assms])
  show "result_fits s (step_fmadd s w)" unfolding step_fmadd_def Let_def
    by (intro room_map [OF assms]) (rule put_fits [OF assms])
qed

lemma step_result_fits: "room s \<Longrightarrow> result_fits s (step s w)"
  unfolding step_def Let_def
  by (intro result_fits_intro(3) room_next room_trap alu_arms_fit jump_arms_fit mem_arms_fit system_arm_fits fp_arms_fit room_epc)

lemma step_fits:
  assumes "addr_fits s" "pc s + 4 < 2 ^ xlen s" "step s w = Inr s'"
  shows "addr_fits s'"
  using assms step_result_fits [of s w] step_wf [of s w s'] frame_xlen [OF step_frame [OF assms(3)]]
  by (simp add: result_fits_def addr_fits_def room_def)

subsection \<open>One step of the debugger\<close>

lemma jal_field_range:
  fixes w :: int
  defines "x \<equiv> push_bit 20 (drop_bit 31 w AND 1) OR push_bit 12 (drop_bit 12 w AND 0xFF) OR
    push_bit 11 (drop_bit 20 w AND 1) OR push_bit 1 (drop_bit 21 w AND 0x3FF)"
  shows "0 \<le> x \<and> x < 2 ^ 21"
proof -
  have "0 \<le> push_bit 20 (drop_bit 31 w AND 1) \<and> push_bit 20 (drop_bit 31 w AND 1) < 2 ^ 21"
    "0 \<le> push_bit 12 (drop_bit 12 w AND 0xFF) \<and> push_bit 12 (drop_bit 12 w AND 0xFF) < 2 ^ 21"
    "0 \<le> push_bit 11 (drop_bit 20 w AND 1) \<and> push_bit 11 (drop_bit 20 w AND 1) < 2 ^ 21"
    "0 \<le> push_bit 1 (drop_bit 21 w AND 0x3FF) \<and> push_bit 1 (drop_bit 21 w AND 0x3FF) < 2 ^ 21"
    by (rule push_range [of _ 1] push_range [of _ 8] push_range [of _ 10]; simp add: bit_norm)+
  then show ?thesis unfolding x_def by (meson or_range)
qed

lemma self_loop_same: "dbg_self_loop w = is_self_loop w"
proof -
  have "x AND 2097151 = x" if "0 \<le> x \<and> x < 2 ^ 21" for x :: int
    using and_mask_mod [of x 21] that by simp
  from this [OF jal_field_range] show ?thesis
    unfolding dbg_self_loop_def is_self_loop_def jal_off_def sext_def Let_def by simp
qed

lemma step_one_eq:
  "\<not> at_end d \<Longrightarrow> step_one d =
     rbind (step (d_iss d) (word_at d (pc (d_iss d))))
       (\<lambda>s. Inr (True, d\<lparr>d_history := d_history d @ [(pc (d_iss d), word_at d (pc (d_iss d)))], d_iss := s\<rparr>))"
  by (simp add: step_one_def Let_def)

lemma word_at_upd [simp]:
  "word_at (d\<lparr>d_history := h\<rparr>) = word_at d" "word_at (d\<lparr>d_iss := s\<rparr>) = word_at d"
  "word_at (d\<lparr>d_breakpoints := b\<rparr>) = word_at d"
  by (rule ext, simp add: word_at_def Let_def)+

subsection \<open>The history replays the run\<close>

text \<open>Executing recorded words in order, each at the address it was recorded at.\<close>

fun replay :: "iss \<Rightarrow> (int \<times> int) list \<Rightarrow> iss result" where
  "replay s [] = Inr s"
| "replay s ((p, w) # h) = (if pc s = p then rbind (step s w) (\<lambda>s'. replay s' h) else Inl AssertionError)"

text \<open>A recorded instruction is one of the program's and not a halting one.\<close>

definition recorded :: "dbg \<Rightarrow> int \<times> int \<Rightarrow> bool" where
  "recorded d e \<longleftrightarrow> (case e of (p, w) \<Rightarrow> p < 4 * int (length (d_words d)) \<and> w = word_at d p \<and> \<not> is_self_loop w)"

definition unbroken :: "dbg \<Rightarrow> (int \<times> int) list \<Rightarrow> bool" where
  "unbroken d h \<longleftrightarrow> (\<forall>e\<in>set h. fst e \<notin> set (d_breakpoints d))"

definition stop_reason :: "stop \<Rightarrow> int \<Rightarrow> nat \<Rightarrow> dbg \<Rightarrow> bool" where
  "stop_reason r mx k d =
     (case r of EndOfProgram \<Rightarrow> at_end d
      | HaltedLoop \<Rightarrow> \<not> at_end d \<and> is_self_loop (word_at d (pc (d_iss d)))
      | BreakpointHit p \<Rightarrow> p = pc (d_iss d) \<and> p \<in> set (d_breakpoints d) \<and> 0 < k
      | Exceeded n \<Rightarrow> n = mx \<and> int k = max 0 mx)"

definition ran_to :: "nat \<Rightarrow> int \<Rightarrow> nat \<Rightarrow> dbg \<Rightarrow> (int \<times> int) list \<Rightarrow> stop \<Rightarrow> dbg \<Rightarrow> bool" where
  "ran_to n mx k d h r d' \<longleftrightarrow>
     d' = d\<lparr>d_history := d_history d @ h, d_iss := d_iss d'\<rparr> \<and> replay (d_iss d) h = Inr (d_iss d') \<and>
     list_all (recorded d) h \<and> unbroken d (if k = 0 then tl h else h) \<and> length h \<le> n \<and> stop_reason r mx (k + length h) d'"

lemma ran_to_step:
  assumes "ran_to n mx (Suc k) (d\<lparr>d_history := d_history d @ [(pc (d_iss d), w)], d_iss := s\<rparr>) h r d'"
    "step (d_iss d) w = Inr s" "recorded d (pc (d_iss d), w)" "k = 0 \<or> pc (d_iss d) \<notin> set (d_breakpoints d)"
  shows "ran_to (Suc n) mx k d ((pc (d_iss d), w) # h) r d'"
proof -
  have "recorded (d\<lparr>d_history := x, d_iss := y\<rparr>) = recorded d" for x y
    by (simp add: recorded_def fun_eq_iff)
  then show ?thesis using assms by (auto simp: ran_to_def unbroken_def rbind_def)
qed

lemma run_until_loop_replays:
  assumes "int n + int k = max 0 mx"
  shows "case run_until_loop n mx (int k) d of
      Inl e \<Rightarrow> \<exists>h u. replay (d_iss d) h = Inr u \<and> step u (word_at d (pc u)) = Inl e
    | Inr (r, d') \<Rightarrow> \<exists>h. ran_to n mx k d h r d'"
  using assms
proof (induction n arbitrary: k d)
  case 0
  then show ?case by (auto simp: ran_to_def unbroken_def stop_reason_def intro!: exI [of _ "[]"])
next
  case (Suc n)
  let ?p = "pc (d_iss d)" and ?w = "word_at d (pc (d_iss d))"
  show ?case
  proof (cases "at_end d \<or> is_self_loop ?w \<or> ?p \<in> set (d_breakpoints d) \<and> 0 < k")
    case True
    then show ?thesis
      by (auto simp: ran_to_def unbroken_def stop_reason_def self_loop_same Let_def intro!: exI [of _ "[]"])
  next
    case False
    show ?thesis
    proof (cases "step (d_iss d) ?w")
      case (Inl e)
      with False show ?thesis
        by (auto simp: step_one_eq self_loop_same Let_def rbind_def intro!: exI [of _ "[]"])
    next
      case (Inr s)
      let ?d = "d\<lparr>d_history := d_history d @ [(?p, ?w)], d_iss := s\<rparr>"
      have rec: "recorded d (?p, ?w)" using False by (simp add: recorded_def at_end_def)
      have l: "run_until_loop (Suc n) mx (int k) d = run_until_loop n mx (int (Suc k)) ?d"
        using False Inr by (auto simp: step_one_eq self_loop_same Let_def rbind_def add.commute)
      have IH: "case run_until_loop n mx (int (Suc k)) ?d of
          Inl e \<Rightarrow> \<exists>h u. replay (d_iss ?d) h = Inr u \<and> step u (word_at ?d (pc u)) = Inl e
        | Inr (r, d') \<Rightarrow> \<exists>h. ran_to n mx (Suc k) ?d h r d'"
        by (rule Suc.IH) (use Suc.prems in simp)
      show ?thesis
      proof (cases "run_until_loop n mx (int (Suc k)) ?d")
        case (Inl e)
        then obtain h u where "replay s h = Inr u" "step u (word_at d (pc u)) = Inl e" using IH by auto
        then have "replay (d_iss d) ((?p, ?w) # h) = Inr u" using \<open>step (d_iss d) ?w = Inr s\<close> by (simp add: rbind_def)
        with \<open>step u (word_at d (pc u)) = Inl e\<close> show ?thesis unfolding l Inl sum.case by blast
      next
        case (Inr q)
        then obtain r d' h where q: "q = (r, d')" "ran_to n mx (Suc k) ?d h r d'" using IH by (cases q) auto
        from ran_to_step [OF q(2) \<open>step (d_iss d) ?w = Inr s\<close> rec] False show ?thesis unfolding l Inr q by auto
      qed
    qed
  qed
qed

subsection \<open>Agreement with the simulator's own loop\<close>

text \<open>What \<open>ISS.run\<close> would return, read off the debugger's result; \<open>base\<close> is the length of the history before.\<close>

definition as_run :: "int \<Rightarrow> (stop \<times> dbg) result \<Rightarrow> (int \<times> iss) result" where
  "as_run base r =
     (case r of Inl e \<Rightarrow> Inl e
      | Inr (Exceeded _, d) \<Rightarrow> Inl RuntimeError
      | Inr (_, d) \<Rightarrow> Inr (int (length (d_history d)) - base, d_iss d))"

definition plain :: "dbg \<Rightarrow> bool" where
  "plain d \<longleftrightarrow> d_breakpoints d = [] \<and> addr_fits (d_iss d) \<and> xlen (d_iss d) \<noteq> 32 \<and>
     pending_interrupt (d_iss d) = None \<and> 4 * int (length (d_words d)) + 4 \<le> 2 ^ xlen (d_iss d)"

lemma plain_fetch:
  assumes "plain d"
  shows "translate (d_iss d) (pc (d_iss d)) Fetch = (Some (pc (d_iss d)), d_iss d)" "\<not> irq_due (d_iss d, k)"
    "fetch_stops (d_words d) (pc (d_iss d)) \<longleftrightarrow> at_end d \<or> is_self_loop (word_at d (pc (d_iss d)))"
proof -
  have pc: "0 \<le> pc (d_iss d)" "pc (d_iss d) < 2 ^ xlen (d_iss d)"
    using assms by (simp_all add: plain_def addr_fits_def wf_simps)
  then have "uxlen (d_iss d) (pc (d_iss d)) = pc (d_iss d)" by (simp add: uxlen_def uXLEN_mod)
  then show "translate (d_iss d) (pc (d_iss d)) Fetch = (Some (pc (d_iss d)), d_iss d)"
    using no_sv39 [of "d_iss d"] assms by (simp add: plain_def addr_fits_def)
  show "\<not> irq_due (d_iss d, k)" using assms by (simp add: irq_due_def plain_def)
  show "fetch_stops (d_words d) (pc (d_iss d)) \<longleftrightarrow> at_end d \<or> is_self_loop (word_at d (pc (d_iss d)))"
    using pc(1) by (auto simp: fetch_stops_def at_end_def word_at_def Let_def)
qed

lemma plain_step:
  assumes "plain d" "\<not> at_end d" "step (d_iss d) w = Inr s"
  shows "plain (d\<lparr>d_history := h, d_iss := s\<rparr>)"
proof -
  have "pc (d_iss d) + 4 < 2 ^ xlen (d_iss d)" using assms(1,2) by (simp add: plain_def at_end_def)
  with assms step_fits [of "d_iss d" w s] frame_xlen [OF step_frame [OF assms(3)]] frame_pending [OF step_frame [OF assms(3)]]
  show ?thesis by (simp add: plain_def)
qed

lemma run_until_loop_is_run:
  assumes "plain d" "n = nat (mx - k)"
  shows "run_loop (d_words d) mx (d_iss d) k = Some (as_run (int (length (d_history d)) - k) (run_until_loop n mx k d))"
  using assms
proof (induction n arbitrary: d k)
  case 0
  then show ?case by (subst run_loop_unfold) (simp add: loop_body_def as_run_def)
next
  case (Suc n)
  let ?w = "word_at d (pc (d_iss d))"
  note fetch = plain_fetch [OF Suc.prems(1)]
  have k: "k < mx" using Suc.prems(2) by simp
  show ?case
  proof (cases "at_end d \<or> is_self_loop ?w")
    case True
    then show ?thesis
      using k fetch by (subst run_loop_unfold) (auto simp: loop_body_def as_run_def self_loop_same Let_def)
  next
    case False
    have pc_nonneg: "0 \<le> pc (d_iss d)" using Suc.prems(1) by (simp add: plain_def addr_fits_def wf_simps)
    have w: "d_words d ! nat (pc (d_iss d) div 4) = ?w"
      using False pc_nonneg by (auto simp: word_at_def at_end_def Let_def)
    have nb: "d_breakpoints d = []" using Suc.prems(1) by (simp add: plain_def)
    show ?thesis
    proof (cases "step (d_iss d) ?w")
      case (Inl e)
      with False k fetch w nb show ?thesis
        by (subst run_loop_unfold) (auto simp: loop_body_def as_run_def self_loop_same Let_def step_one_eq)
    next
      case (Inr s)
      let ?d = "d\<lparr>d_history := d_history d @ [(pc (d_iss d), ?w)], d_iss := s\<rparr>"
      have "run_loop (d_words d) mx (d_iss d) k = run_loop (d_words ?d) mx (d_iss ?d) (k + 1)"
        using False k fetch w Inr by (subst run_loop_unfold) (simp add: loop_body_def)
      also have "\<dots> = Some (as_run (int (length (d_history ?d)) - (k + 1)) (run_until_loop n mx (k + 1) ?d))"
        by (rule Suc.IH) (use plain_step [OF Suc.prems(1) _ Inr] False Suc.prems(2) in auto)
      also have "run_until_loop n mx (k + 1) ?d = run_until_loop (Suc n) mx k d"
        using False Inr nb by (simp add: step_one_eq self_loop_same Let_def)
      finally show ?thesis by simp
    qed
  qed
qed

end
