(* ===== verification/Debug_Session.thy ===== *)
theory Debug_Session
  imports Debug_Run
begin

text \<open>
  Sessions of the debugger: whatever is typed, the program stays the same, the breakpoints
  stay a sorted list without repetitions, and replaying the history from the reset machine
  gives the machine the debugger shows.
\<close>

lemma replay_append: "replay s (h @ h') = rbind (replay s h) (\<lambda>u. replay u h')"
  by (induction s h rule: replay.induct) (auto simp: rbind_def split: sum.split)

definition fetched :: "dbg \<Rightarrow> int \<times> int \<Rightarrow> bool" where
  "fetched d e \<longleftrightarrow> (case e of (p, w) \<Rightarrow> p < 4 * int (length (d_words d)) \<and> w = word_at d p)"

definition consistent :: "dbg \<Rightarrow> bool" where
  "consistent d \<longleftrightarrow>
     replay (iss_init (d_mem_size d) (d_xlen d)) (d_history d) = Inr (d_iss d) \<and> list_all (fetched d) (d_history d) \<and>
     sorted (d_breakpoints d) \<and> distinct (d_breakpoints d)"

definition same_program :: "dbg \<Rightarrow> dbg \<Rightarrow> bool" where
  "same_program d d' \<longleftrightarrow> d_words d' = d_words d \<and> d_mem_size d' = d_mem_size d \<and> d_xlen d' = d_xlen d"

text \<open>What every operation of the debugger keeps.\<close>

definition keeps :: "dbg \<Rightarrow> dbg \<Rightarrow> bool" where
  "keeps d d' \<longleftrightarrow> consistent d' \<and> same_program d d'"

lemma keeps_refl: "consistent d \<Longrightarrow> keeps d d"
  by (simp add: keeps_def same_program_def)

lemma keeps_trans: "keeps a b \<Longrightarrow> keeps b c \<Longrightarrow> keeps a c"
  by (simp add: keeps_def same_program_def)

lemma fetched_upd [simp]:
  "fetched (d\<lparr>d_history := h\<rparr>) = fetched d" "fetched (d\<lparr>d_iss := s\<rparr>) = fetched d"
  "fetched (d\<lparr>d_breakpoints := b\<rparr>) = fetched d"
  by (rule ext, simp add: fetched_def)+

lemma keeps_replay:
  assumes "consistent d" "replay (d_iss d) h = Inr s" "list_all (fetched d) h"
  shows "keeps d (d\<lparr>d_history := d_history d @ h, d_iss := s\<rparr>)"
  using assms by (simp add: keeps_def consistent_def same_program_def replay_append)

lemma keeps_reset: "consistent d \<Longrightarrow> keeps d (dbg_reset d)"
  by (simp add: keeps_def consistent_def same_program_def dbg_reset_def)

lemma keeps_break:
  "consistent d \<Longrightarrow> keeps d (d\<lparr>d_breakpoints := insert_sorted a (d_breakpoints d)\<rparr>)"
  "consistent d \<Longrightarrow> keeps d (d\<lparr>d_breakpoints := remove1 a (d_breakpoints d)\<rparr>)"
  by (simp_all add: keeps_def consistent_def same_program_def insert_sorted_def sorted_insort distinct_insort sorted_remove1)

lemma keeps_step_one: "consistent d \<Longrightarrow> step_one d = Inr (ok, d') \<Longrightarrow> keeps d d'"
proof -
  assume c: "consistent d" and s: "step_one d = Inr (ok, d')"
  let ?p = "pc (d_iss d)" and ?w = "word_at d (pc (d_iss d))"
  show "keeps d d'"
  proof (cases "at_end d")
    case True
    then show ?thesis using s keeps_refl [OF c] by (simp add: step_one_def)
  next
    case False
    then obtain u where u: "step (d_iss d) ?w = Inr u" "d' = d\<lparr>d_history := d_history d @ [(?p, ?w)], d_iss := u\<rparr>"
      using s by (cases "step (d_iss d) ?w") (auto simp: step_one_eq)
    show ?thesis unfolding u(2)
      by (rule keeps_replay [OF c]) (use u(1) False in \<open>simp_all add: fetched_def at_end_def\<close>)
  qed
qed

lemma keeps_step_times: "consistent d \<Longrightarrow> step_times n d = Inr (out, d') \<Longrightarrow> keeps d d'"
proof (induction n arbitrary: d out)
  case 0
  then show ?case by (simp add: keeps_refl)
next
  case (Suc n)
  from Suc.prems(2) obtain ok u where u: "step_one d = Inr (ok, u)" by (cases "step_one d") auto
  have k: "keeps d u" by (rule keeps_step_one [OF Suc.prems(1) u])
  show ?case
  proof (cases ok)
    case True
    then have "step_times n u = Inr (out, d')" using Suc.prems(2) u by simp
    then show ?thesis using Suc.IH [of u out] k keeps_trans [of d u d'] by (simp add: keeps_def)
  next
    case False
    then show ?thesis using Suc.prems(2) u k by simp
  qed
qed

lemma keeps_run_until:
  assumes "consistent d" "run_until mx d = Inr (r, d')"
  shows "keeps d d'"
proof -
  obtain h where h: "ran_to (nat mx) mx 0 d h r d'"
    using run_until_loop_replays [of "nat mx" 0 mx d] assms(2) by (auto simp: run_until_def max_def)
  have "list_all (fetched d) h" using h by (auto simp: ran_to_def recorded_def fetched_def list_all_iff)
  moreover have "replay (d_iss d) h = Inr (d_iss d')" using h by (simp add: ran_to_def)
  ultimately have "keeps d (d\<lparr>d_history := d_history d @ h, d_iss := d_iss d'\<rparr>)" by (intro keeps_replay assms(1))
  moreover have "d' = d\<lparr>d_history := d_history d @ h, d_iss := d_iss d'\<rparr>" using h unfolding ran_to_def by (rule conjunct1)
  ultimately show ?thesis by metis
qed

lemma rbind_InrE: "rbind r f = Inr y \<Longrightarrow> (\<And>x. r = Inr x \<Longrightarrow> f x = Inr y \<Longrightarrow> P) \<Longrightarrow> P"
  by (cases r) auto

text \<open>The result of a command: an exception, the end of the session or a state that is kept.\<close>

definition command_keeps :: "dbg \<Rightarrow> (string list \<times> dbg option) result \<Rightarrow> bool" where
  "command_keeps d r \<longleftrightarrow> (\<forall>out d'. r = Inr (out, Some d') \<longrightarrow> keeps d d')"

lemma command_keeps_intro:
  "command_keeps d (Inr (out, None))" "keeps d d' \<Longrightarrow> command_keeps d (Inr (out, Some d'))"
  "command_keeps d a \<Longrightarrow> command_keeps d b \<Longrightarrow> command_keeps d (if c then a else b)"
  by (simp_all add: command_keeps_def)

lemma command_keeps_bind: "(\<And>x. r = Inr x \<Longrightarrow> command_keeps d (f x)) \<Longrightarrow> command_keeps d (rbind r f)"
  by (cases r) (simp_all add: command_keeps_def)

lemma command_keeps_bind_state:
  "(\<And>x d'. r = Inr (x, d') \<Longrightarrow> keeps d d') \<Longrightarrow>
     command_keeps d (rbind r (\<lambda>(x, d'). Inr (f x d', Some d')))"
  by (cases r) (auto simp: command_keeps_def)

lemma command_result_keeps: "consistent d \<Longrightarrow> command_keeps d (command cmd args d)"
  unfolding command_def Let_def
  by (intro command_keeps_bind_state command_keeps_intro command_keeps_bind keeps_refl keeps_reset keeps_break
      keeps_step_times keeps_run_until; assumption)

lemma keeps_command: "consistent d \<Longrightarrow> command cmd args d = Inr (out, Some d') \<Longrightarrow> keeps d d'"
  using command_result_keeps [of d cmd args] by (simp add: command_keeps_def)

lemma keeps_repl_loop: "consistent d \<Longrightarrow> repl_loop input d = Inr (out, d') \<Longrightarrow> keeps d d'"
proof (induction input arbitrary: d out)
  case Nil
  then show ?case by (simp add: keeps_refl)
next
  case (Cons line rest)
  show ?case
  proof (cases "py_split (py_strip line)")
    case Nil
    then show ?thesis using Cons by simp
  next
    case (Cons cmd args)
    then obtain o1 nxt where c: "command cmd args d = Inr (o1, nxt)"
      using Cons.prems(2) by (auto elim!: rbind_InrE)
    show ?thesis
    proof (cases nxt)
      case None
      then show ?thesis using Cons.prems c Cons by (simp add: keeps_refl)
    next
      case (Some u)
      have k: "keeps d u" by (rule keeps_command) (use Cons.prems c Some in auto)
      obtain o2 where "repl_loop rest u = Inr (o2, d')"
        using Cons.prems(2) Cons c Some by (auto elim!: rbind_InrE)
      then show ?thesis using Cons.IH [of u o2] k keeps_trans [of d u d'] by (simp add: keeps_def)
    qed
  qed
qed

lemma consistent_init: "consistent (dbg_init ws msize xl)"
  by (simp add: dbg_init_def dbg_reset_def consistent_def)

end
