(* ===== verification/Debug_Props.thy ===== *)
theory Debug_Props
  imports Debug_Session
begin

text \<open>
  Properties of the debugger: its history is the execution, \<open>continue\<close> stops for the reason
  it reports, and it agrees with the simulator's own loop.
\<close>

text \<open>
  C9. Whatever is typed into the debugger, a session that does not end with an exception
  leaves a state in which the history is exactly the execution: replaying the recorded words
  from the reset machine gives the machine shown, every recorded word is the program's word at
  the recorded address, and the breakpoints are sorted and distinct.
\<close>

theorem session_history_replays:
  assumes "repl input (dbg_init ws msize xl) = Inr (out, d)"
  shows "replay (iss_init msize xl) (d_history d) = Inr (d_iss d) \<and>
    list_all (\<lambda>(p, w). p < 4 * int (length ws) \<and> w = word_at d p) (d_history d) \<and>
    d_words d = ws \<and> sorted (d_breakpoints d) \<and> distinct (d_breakpoints d)"
proof -
  let ?d = "dbg_init ws msize xl"
  obtain out' where "repl_loop input ?d = Inr (out', d)"
    using assms by (auto simp: repl_def elim!: rbind_InrE)
  then have "keeps ?d d" by (rule keeps_repl_loop [OF consistent_init])
  moreover have "d_words ?d = ws" "d_mem_size ?d = msize" "d_xlen ?d = xl"
    by (simp_all add: dbg_init_def dbg_reset_def)
  ultimately show ?thesis
    by (auto simp: keeps_def consistent_def same_program_def fetched_def list_all_iff)
qed

definition two_steps :: "(string list \<times> dbg) result" where
  "two_steps = repl [''break 8'', ''s 2'', ''q''] (dbg_init [0x00500093, 0x00108133, 0x0000006F] 4 32)"

lemma two_steps_history: "map_sum id (\<lambda>(out, d). (d_history d, pc (d_iss d), d_breakpoints d)) two_steps =
    Inr ([(0, 0x00500093), (4, 0x00108133)], 8, [8])"
  by code_simp

lemma map_sum_InrE: "map_sum f g r = Inr y \<Longrightarrow> (\<And>x. r = Inr x \<Longrightarrow> y = g x \<Longrightarrow> P) \<Longrightarrow> P"
  by (cases r) auto

theorem session_history_replays_witness:
  "\<exists>out d. two_steps = Inr (out, d) \<and> replay (iss_init 4 32) [(0, 0x00500093), (4, 0x00108133)] = Inr (d_iss d) \<and>
     pc (d_iss d) = 8 \<and> d_breakpoints d = [8]"
proof -
  obtain out d where r: "two_steps = Inr (out, d)" "d_history d = [(0, 0x00500093), (4, 0x00108133)]"
    "pc (d_iss d) = 8" "d_breakpoints d = [8]"
    using two_steps_history by (elim map_sum_InrE) (auto split: prod.splits)
  show ?thesis using session_history_replays [OF r(1) [unfolded two_steps_def]] r by auto
qed

text \<open>
  C10. \<open>run_until\<close> always returns. It raises only what an instruction raises after the
  recorded ones; otherwise it changes nothing but the history and the machine, executes at
  most \<open>max_steps\<close> instructions, all of them words of the program before its end that are not
  the halting loop, passes no breakpoint after the first instruction, and the machine it leaves
  is in the situation the returned reason names.
\<close>

theorem continue_stops_for_its_reason:
  "case run_until max_steps d of
     Inl e \<Rightarrow> \<exists>h u. replay (d_iss d) h = Inr u \<and> step u (word_at d (pc u)) = Inl e
   | Inr (r, d') \<Rightarrow> \<exists>h.
       d' = d\<lparr>d_history := d_history d @ h, d_iss := d_iss d'\<rparr> \<and> replay (d_iss d) h = Inr (d_iss d') \<and>
       list_all (recorded d) h \<and> unbroken d (tl h) \<and> length h \<le> nat max_steps \<and>
       stop_reason r max_steps (length h) d'"
  using run_until_loop_replays [of "nat max_steps" 0 max_steps d]
  by (auto simp: run_until_def ran_to_def max_def split: sum.splits)

text \<open>
  C11. On a core wider than 32 bits, without breakpoints and without a scheduled interrupt,
  \<open>run_until\<close> is \<open>ISS.run\<close>: it ends with the same machine after the same number of
  instructions, runs out of steps when \<open>run\<close> raises, and raises what \<open>run\<close> raises.
\<close>

theorem continue_is_run:
  assumes "plain d"
  shows "run (d_iss d) (d_words d) max_steps = Some (as_run (int (length (d_history d))) (run_until max_steps d))"
  using run_until_loop_is_run [OF assms, of "nat max_steps" max_steps 0] by (simp add: run_def run_until_def)

theorem continue_is_run_witness:
  "run (iss_init 16 64) [0x00500093, 0x0000006F] 100 =
     Some (as_run 0 (run_until 100 (dbg_init [0x00500093, 0x0000006F] 16 64)))"
proof -
  let ?d = "dbg_init [0x00500093, 0x0000006F] 16 64"
  have f: "d_iss ?d = iss_init 16 64" "d_words ?d = [0x00500093, 0x0000006F]" "d_history ?d = []" "d_breakpoints ?d = []"
    by (simp_all add: dbg_init_def dbg_reset_def)
  have "iss_wf (iss_init 16 64)"
    by (rule wf_init) simp_all
  then have "plain ?d"
    unfolding plain_def addr_fits_def epc_fits_def f
    by (simp add: iss_init_def csr_at_def csr_reset_def)
  from continue_is_run [OF this, of 100] show ?thesis by (simp add: f)
qed

end
