(* ===== verification/Dtb.thy ===== *)
theory Dtb
  imports Prelude
begin

text \<open>
  The device-tree generator \<open>sim/tools/gen_dtb.py\<close>: the byte packing it uses of Python's
  \<open>struct\<close>, the class \<open>FdtBuilder\<close> with one definition per method, the tree of this core, and
  the self-check \<open>parse_and_validate\<close>. Bytes are integers from 0 to 255.
\<close>

subsection \<open>Packing\<close>

definition be_bytes :: "nat \<Rightarrow> int \<Rightarrow> int list" where
  "be_bytes n v = map (\<lambda>i. drop_bit (8 * (n - 1 - i)) v AND 0xFF) [0..<n]"

definition be_value :: "int list \<Rightarrow> int" where
  "be_value bs = foldl (\<lambda>a b. a * 256 + b) 0 bs"

text \<open>\<open>struct.pack(">I", v)\<close> and \<open>struct.pack(">Q", v)\<close>; \<open>struct.unpack\<close> of one field.\<close>

definition pack_be :: "nat \<Rightarrow> int \<Rightarrow> int list result" where
  "pack_be n v = (if 0 \<le> v \<and> v < 2 ^ (8 * n) then Inr (be_bytes n v) else Inl StructError)"

definition unpack_be :: "nat \<Rightarrow> int list \<Rightarrow> int result" where
  "unpack_be n bs = (if length bs = n then Inr (be_value bs) else Inl StructError)"

fun pack_all :: "nat \<Rightarrow> int list \<Rightarrow> int list result" where
  "pack_all n [] = Inr []"
| "pack_all n (v # vs) = rbind (pack_be n v) (\<lambda>b. rbind (pack_all n vs) (\<lambda>bs. Inr (b @ bs)))"

definition slice :: "'a list \<Rightarrow> nat \<Rightarrow> nat \<Rightarrow> 'a list" where
  "slice xs i j = take (j - i) (drop i xs)"

definition encode_ascii :: "string \<Rightarrow> int list result" where
  "encode_ascii s =
     (if list_all (\<lambda>c. (of_char c :: int) < 128) s then Inr (map of_char s) else Inl ValueError)"

definition align4 :: "int list \<Rightarrow> int list" where
  "align4 data = (let pad = (- int (length data)) mod 4 in data @ replicate (nat pad) 0)"

abbreviation (input) FDT_MAGIC :: int where "FDT_MAGIC \<equiv> 0xd00dfeed"
abbreviation (input) FDT_VERSION :: int where "FDT_VERSION \<equiv> 17"
abbreviation (input) FDT_LAST_COMP_VERSION :: int where "FDT_LAST_COMP_VERSION \<equiv> 16"
abbreviation (input) FDT_BEGIN_NODE :: int where "FDT_BEGIN_NODE \<equiv> 1"
abbreviation (input) FDT_END_NODE :: int where "FDT_END_NODE \<equiv> 2"
abbreviation (input) FDT_PROP :: int where "FDT_PROP \<equiv> 3"
abbreviation (input) FDT_END :: int where "FDT_END \<equiv> 9"

subsection \<open>The builder\<close>

record fdt =
  f_struct :: "int list"
  f_strings :: "int list"
  f_offsets :: "string \<rightharpoonup> int"

definition fdt_new :: fdt where
  "fdt_new = \<lparr>f_struct = [], f_strings = [], f_offsets = Map.empty\<rparr>"

definition emit :: "int list \<Rightarrow> fdt \<Rightarrow> fdt" where
  "emit bs b = b\<lparr>f_struct := f_struct b @ bs\<rparr>"

definition string_off :: "string \<Rightarrow> fdt \<Rightarrow> (int \<times> fdt) result" where
  "string_off name b =
     (case f_offsets b name of
        Some off \<Rightarrow> Inr (off, b)
      | None \<Rightarrow>
          rbind (encode_ascii name) (\<lambda>n.
            let off = int (length (f_strings b))
            in Inr (off, b\<lparr>f_offsets := (f_offsets b)(name \<mapsto> off), f_strings := f_strings b @ n @ [0]\<rparr>)))"

definition begin_node :: "string \<Rightarrow> fdt \<Rightarrow> fdt result" where
  "begin_node name b =
     rbind (encode_ascii name) (\<lambda>n. Inr (emit (be_bytes 4 FDT_BEGIN_NODE @ align4 (n @ [0])) b))"

definition end_node :: "fdt \<Rightarrow> fdt result" where
  "end_node b = Inr (emit (be_bytes 4 FDT_END_NODE) b)"

definition prop_raw :: "string \<Rightarrow> int list \<Rightarrow> fdt \<Rightarrow> fdt result" where
  "prop_raw name val b =
     rbind (string_off name b) (\<lambda>(off, b1).
     rbind (pack_all 4 [int (length val), off]) (\<lambda>lo.
       Inr (emit (be_bytes 4 FDT_PROP @ lo @ align4 val) b1)))"

definition prop_empty :: "string \<Rightarrow> fdt \<Rightarrow> fdt result" where
  "prop_empty name = prop_raw name []"

definition prop_u32 :: "string \<Rightarrow> int \<Rightarrow> fdt \<Rightarrow> fdt result" where
  "prop_u32 name v b = rbind (pack_be 4 (v AND 0xFFFFFFFF)) (\<lambda>bs. prop_raw name bs b)"

definition prop_u64 :: "string \<Rightarrow> int \<Rightarrow> fdt \<Rightarrow> fdt result" where
  "prop_u64 name v b = rbind (pack_be 8 (v AND 0xFFFFFFFFFFFFFFFF)) (\<lambda>bs. prop_raw name bs b)"

definition prop_cells :: "string \<Rightarrow> int list \<Rightarrow> fdt \<Rightarrow> fdt result" where
  "prop_cells name cells b = rbind (pack_all 4 (map (\<lambda>c. c AND 0xFFFFFFFF) cells)) (\<lambda>bs. prop_raw name bs b)"

definition prop_str :: "string \<Rightarrow> string \<Rightarrow> fdt \<Rightarrow> fdt result" where
  "prop_str name v b = rbind (encode_ascii v) (\<lambda>bs. prop_raw name (bs @ [0]) b)"

fun encode_all :: "string list \<Rightarrow> int list result" where
  "encode_all [] = Inr []"
| "encode_all (v # vs) = rbind (encode_ascii v) (\<lambda>b. rbind (encode_all vs) (\<lambda>bs. Inr (b @ [0] @ bs)))"

definition prop_strlist :: "string \<Rightarrow> string list \<Rightarrow> fdt \<Rightarrow> fdt result" where
  "prop_strlist name vals b = rbind (encode_all vals) (\<lambda>bs. prop_raw name bs b)"

definition fdt_build :: "fdt \<Rightarrow> int list result" where
  "fdt_build b0 =
     (let b = emit (be_bytes 4 FDT_END) b0;
          rsvmap = be_bytes 8 0 @ be_bytes 8 0;
          off_mem_rsvmap = 40;
          off_dt_struct = off_mem_rsvmap + int (length rsvmap);
          off_dt_strings = off_dt_struct + int (length (f_struct b));
          totalsize = off_dt_strings + int (length (f_strings b))
      in rbind (pack_all 4 [FDT_MAGIC, totalsize, off_dt_struct, off_dt_strings, off_mem_rsvmap, FDT_VERSION,
             FDT_LAST_COMP_VERSION, 0, int (length (f_strings b)), int (length (f_struct b))]) (\<lambda>header.
           Inr (header @ rsvmap @ f_struct b @ f_strings b)))"

subsection \<open>The tree of this core\<close>

fun calls :: "(fdt \<Rightarrow> fdt result) list \<Rightarrow> fdt \<Rightarrow> fdt result" where
  "calls [] b = Inr b"
| "calls (f # fs) b = rbind (f b) (calls fs)"

definition cpus_calls :: "int \<Rightarrow> (fdt \<Rightarrow> fdt result) list" where
  "cpus_calls timebase_freq =
     [begin_node ''cpus'',
      prop_u32 ''#address-cells'' 1,
      prop_u32 ''#size-cells'' 0,
      prop_u32 ''timebase-frequency'' timebase_freq,
      begin_node ''cpu@0'',
      prop_u32 ''phandle'' 1,
      prop_str ''device_type'' ''cpu'',
      prop_u32 ''reg'' 0,
      prop_str ''status'' ''okay'',
      prop_str ''compatible'' ''riscv'',
      prop_str ''riscv,isa'' ''rv64imafd'',
      prop_str ''mmu-type'' ''riscv,sv39'',
      begin_node ''interrupt-controller'',
      prop_u32 ''#interrupt-cells'' 1,
      prop_empty ''interrupt-controller'',
      prop_str ''compatible'' ''riscv,cpu-intc'',
      prop_u32 ''phandle'' 2,
      end_node,
      end_node,
      end_node]"

definition memory_calls :: "int \<Rightarrow> (fdt \<Rightarrow> fdt result) list" where
  "memory_calls mem_size_bytes =
     [begin_node ''memory@0'',
      prop_str ''device_type'' ''memory'',
      prop_cells ''reg'' [0, 0, 0, mem_size_bytes],
      end_node]"

definition soc_calls :: "int \<Rightarrow> (fdt \<Rightarrow> fdt result) list" where
  "soc_calls uart_clock_freq =
     [begin_node ''soc'',
      prop_u32 ''#address-cells'' 2,
      prop_u32 ''#size-cells'' 2,
      prop_str ''compatible'' ''simple-bus'',
      prop_empty ''ranges'',
      begin_node ''uart@10000000'',
      prop_str ''compatible'' ''ns16550a'',
      prop_cells ''reg'' [0, 0x10000000, 0, 0x20],
      prop_u32 ''clock-frequency'' uart_clock_freq,
      prop_u32 ''reg-shift'' 2,
      prop_u32 ''reg-io-width'' 4,
      end_node,
      begin_node ''clint@10100000'',
      prop_str ''compatible'' ''riscv,clint0'',
      prop_cells ''reg'' [0, 0x10100000, 0, 0x10000],
      prop_cells ''interrupts-extended'' [2, 3, 2, 7],
      end_node,
      end_node]"

definition chosen_calls :: "string \<Rightarrow> int option \<Rightarrow> int option \<Rightarrow> (fdt \<Rightarrow> fdt result) list" where
  "chosen_calls bootargs initrd_start initrd_end =
     [begin_node ''chosen'',
      prop_str ''bootargs'' bootargs,
      prop_str ''stdout-path'' ''/soc/uart@10000000''] @
     (case (initrd_start, initrd_end) of
        (Some st, Some en) \<Rightarrow>
          [prop_cells ''linux,initrd-start'' [drop_bit 32 st, st AND 0xFFFFFFFF],
           prop_cells ''linux,initrd-end'' [drop_bit 32 en, en AND 0xFFFFFFFF]]
      | _ \<Rightarrow> []) @
     [end_node]"

definition build_this_core_dtb :: "int \<Rightarrow> int \<Rightarrow> int \<Rightarrow> string \<Rightarrow> int option \<Rightarrow> int option \<Rightarrow> int list result" where
  "build_this_core_dtb mem_size_bytes timebase_freq uart_clock_freq bootargs initrd_start initrd_end =
     rbind (calls
       ([begin_node '''',
         prop_u32 ''#address-cells'' 2,
         prop_u32 ''#size-cells'' 2,
         prop_str ''compatible'' ''5-stage-pipelined-processor'',
         prop_str ''model'' ''5-stage-pipelined-processor,rv64''] @
        cpus_calls timebase_freq @ memory_calls mem_size_bytes @ soc_calls uart_clock_freq @
        chosen_calls bootargs initrd_start initrd_end @ [end_node]) fdt_new)
       fdt_build"

subsection \<open>The self-check\<close>

definition py_assert :: "bool \<Rightarrow> unit result" where
  "py_assert c = (if c then Inr () else Inl AssertionError)"

definition up4 :: "nat \<Rightarrow> nat" where
  "up4 n = nat ((int n + 3) AND NOT 3)"

text \<open>\<open>struct_bytes.index(b"\\x00", i)\<close>, relative to \<open>i\<close>.\<close>

fun find_zero :: "int list \<Rightarrow> nat option" where
  "find_zero [] = None"
| "find_zero (b # bs) = (if b = 0 then Some 0 else map_option Suc (find_zero bs))"

text \<open>The state of the loop: depth, largest depth, number of properties.\<close>

type_synonym tally = "int \<times> int \<times> int"

function validate_loop :: "int list \<Rightarrow> int list \<Rightarrow> nat \<Rightarrow> tally \<Rightarrow> (tally \<times> bool) result" where
  "validate_loop struct_bytes strings_bytes i (depth, max_depth, prop_count) =
     (if i < length struct_bytes then
        rbind (unpack_be 4 (slice struct_bytes i (i + 4))) (\<lambda>tok.
          if tok = FDT_BEGIN_NODE then
            (case find_zero (drop (i + 4) struct_bytes) of
               None \<Rightarrow> Inl ValueError
             | Some k \<Rightarrow>
                 validate_loop struct_bytes strings_bytes (i + 4 + up4 (k + 1))
                   (depth + 1, max max_depth (depth + 1), prop_count))
          else if tok = FDT_END_NODE then
            rbind (py_assert (depth - 1 \<ge> 0)) (\<lambda>_.
              validate_loop struct_bytes strings_bytes (i + 4) (depth - 1, max_depth, prop_count))
          else if tok = FDT_PROP then
            rbind (unpack_be 4 (slice struct_bytes (i + 4) (i + 8))) (\<lambda>plen.
            rbind (unpack_be 4 (slice struct_bytes (i + 8) (i + 12))) (\<lambda>nameoff.
            rbind (py_assert (nameoff < int (length strings_bytes))) (\<lambda>_.
              validate_loop struct_bytes strings_bytes (i + 12 + up4 (nat plen))
                (depth, max_depth, prop_count + 1))))
          else if tok = FDT_END then Inr ((depth, max_depth, prop_count), True)
          else Inl AssertionError)
      else Inr ((depth, max_depth, prop_count), False))"
  by pat_completeness auto

termination validate_loop
  by (relation "measure (\<lambda>(s, t, i, c). length s - i)") auto

declare validate_loop.simps [simp del]

definition header_word :: "int list \<Rightarrow> nat \<Rightarrow> int" where
  "header_word blob k = be_value (slice blob (4 * k) (4 * k + 4))"

text \<open>The header assertions, and the checks after the loop.\<close>

definition check_header :: "int list \<Rightarrow> unit result" where
  "check_header blob =
     (if length (take 40 blob) \<noteq> 40 then Inl StructError
      else
        (let magic = header_word blob 0; totalsize = header_word blob 1; off_struct = header_word blob 2;
             off_strings = header_word blob 3; off_rsvmap = header_word blob 4;
             size_strings = header_word blob 8; size_struct = header_word blob 9
         in rbind (py_assert (magic = FDT_MAGIC)) (\<lambda>_.
            rbind (py_assert (totalsize = int (length blob))) (\<lambda>_.
            rbind (py_assert (off_rsvmap = 40)) (\<lambda>_.
            rbind (py_assert (off_struct = off_rsvmap + 16)) (\<lambda>_.
            rbind (py_assert (off_strings = off_struct + size_struct)) (\<lambda>_.
            py_assert (off_strings + size_strings = totalsize))))))))"

definition check_rsvmap :: "int list \<Rightarrow> unit result" where
  "check_rsvmap blob =
     (let off_rsvmap = nat (header_word blob 4)
      in rbind (unpack_be 8 (slice blob off_rsvmap (off_rsvmap + 8))) (\<lambda>rsvmap_addr.
         rbind (unpack_be 8 (slice blob (off_rsvmap + 8) (off_rsvmap + 16))) (\<lambda>rsvmap_size.
         py_assert (rsvmap_addr = 0 \<and> rsvmap_size = 0))))"

definition check_tally :: "int list \<Rightarrow> tally \<times> bool \<Rightarrow> (int \<times> int \<times> int) result" where
  "check_tally blob r =
     (case r of ((depth, max_depth, prop_count), saw_end) \<Rightarrow>
        rbind (py_assert (depth = 0)) (\<lambda>_.
        rbind (py_assert saw_end) (\<lambda>_.
        rbind (py_assert (max_depth \<ge> 2)) (\<lambda>_.
        rbind (py_assert (prop_count > 0)) (\<lambda>_.
        Inr (max_depth, prop_count, header_word blob 1))))))"

definition struct_block :: "int list \<Rightarrow> int list" where
  "struct_block blob =
     (let off = nat (header_word blob 2) in slice blob off (off + nat (header_word blob 9)))"

definition strings_block :: "int list \<Rightarrow> int list" where
  "strings_block blob =
     (let off = nat (header_word blob 3) in slice blob off (off + nat (header_word blob 8)))"

definition parse_and_validate :: "int list \<Rightarrow> (int \<times> int \<times> int) result" where
  "parse_and_validate blob =
     rbind (check_header blob) (\<lambda>_.
     rbind (check_rsvmap blob) (\<lambda>_.
     rbind (validate_loop (struct_block blob) (strings_block blob) 0 (0, 0, 0)) (check_tally blob)))"

definition gen_dtb_main :: "int \<Rightarrow> int \<Rightarrow> int \<Rightarrow> string \<Rightarrow> int option \<Rightarrow> int option \<Rightarrow> (int list \<times> int \<times> int \<times> int) result" where
  "gen_dtb_main mem_size timebase_freq uart_clock_freq bootargs initrd_start initrd_end =
     rbind (build_this_core_dtb mem_size timebase_freq uart_clock_freq bootargs initrd_start initrd_end) (\<lambda>blob.
     rbind (parse_and_validate blob) (\<lambda>info. Inr (blob, info)))"

end
