(* ===== verification/Dtb_Spec.thy ===== *)
theory Dtb_Spec
  imports Dtb
begin

text \<open>
  What a flattened device tree says: the events its structure block lists, with property
  names looked up in the strings block, and when such a list is a tree. The self-check
  of the generator accepts exactly the blobs with a consistent header whose events are
  well nested.
\<close>

subsection \<open>Events\<close>

datatype event = BeginNode string | EndNode | Property string "int list"

definition decode :: "int list \<Rightarrow> string" where
  "decode bs = map char_of bs"

definition name_at :: "int list \<Rightarrow> nat \<Rightarrow> string" where
  "name_at strs off = decode (takeWhile (\<lambda>b. b \<noteq> 0) (drop off strs))"

function read_events :: "int list \<Rightarrow> int list \<Rightarrow> event list option" where
  "read_events s strs =
     (if length s < 4 then None
      else
        (let tok = be_value (take 4 s); r = drop 4 s
         in if tok = 1 then
              (case find_zero r of None \<Rightarrow> None
               | Some k \<Rightarrow> map_option (Cons (BeginNode (decode (take k r)))) (read_events (drop (up4 (k + 1)) r) strs))
            else if tok = 2 then map_option (Cons EndNode) (read_events r strs)
            else if tok = 3 then
              (if length r < 8 then None
               else
                 (let n = nat (be_value (take 4 r)); off = be_value (take 4 (drop 4 r))
                  in if off < int (length strs)
                     then map_option (Cons (Property (name_at strs (nat off)) (take n (drop 8 r))))
                            (read_events (drop (8 + up4 n) r) strs)
                     else None))
            else if tok = 9 then Some []
            else None))"
  by pat_completeness auto

termination read_events
  by (relation "measure (\<lambda>(s, t). length s)") auto

declare read_events.simps [simp del]

subsection \<open>Nesting\<close>

definition nesting :: "event list \<Rightarrow> int" where
  "nesting evs = (\<Sum>e\<leftarrow>evs. case e of BeginNode _ \<Rightarrow> 1 | EndNode \<Rightarrow> - 1 | Property _ _ \<Rightarrow> 0)"

definition well_nested :: "event list \<Rightarrow> bool" where
  "well_nested evs \<longleftrightarrow> (\<forall>n \<le> length evs. 0 \<le> nesting (take n evs)) \<and> nesting evs = 0"

definition max_nesting :: "event list \<Rightarrow> int" where
  "max_nesting evs = Max ((\<lambda>n. nesting (take n evs)) ` {..length evs})"

definition properties :: "event list \<Rightarrow> nat" where
  "properties evs = length (filter (\<lambda>e. case e of Property _ _ \<Rightarrow> True | _ \<Rightarrow> False) evs)"

text \<open>The same, counted along the list.\<close>

fun descend :: "event list \<Rightarrow> tally \<Rightarrow> tally option" where
  "descend [] t = Some t"
| "descend (BeginNode n # evs) (d, m, p) = descend evs (d + 1, max m (d + 1), p)"
| "descend (EndNode # evs) (d, m, p) = (if 0 \<le> d - 1 then descend evs (d - 1, m, p) else None)"
| "descend (Property n v # evs) (d, m, p) = descend evs (d, m, p + 1)"

lemma nesting_simps [simp]:
  "nesting [] = 0" "nesting (BeginNode n # evs) = 1 + nesting evs" "nesting (EndNode # evs) = nesting evs - 1"
  "nesting (Property n v # evs) = nesting evs"
  by (simp_all add: nesting_def)

lemma properties_simps [simp]:
  "properties [] = 0" "properties (BeginNode n # evs) = properties evs" "properties (EndNode # evs) = properties evs"
  "properties (Property n v # evs) = Suc (properties evs)"
  by (simp_all add: properties_def)

text \<open>The heights met after each event.\<close>

definition heights :: "int \<Rightarrow> event list \<Rightarrow> int set" where
  "heights d evs = (\<lambda>n. d + nesting (take n evs)) ` {..length evs}"

lemma heights_Nil [simp]: "heights d [] = {d}"
  by (simp add: heights_def)

lemma heights_Cons: "heights d (e # evs) = insert d (heights (d + nesting [e]) evs)"
proof -
  have "nesting (take (Suc n) (e # evs)) = nesting [e] + nesting (take n evs)" for n
    by (cases e) simp_all
  moreover have "{..length (e # evs)} = insert 0 (Suc ` {..length evs})"
    by (simp add: atMost_Suc_eq_insert_0)
  ultimately show ?thesis by (simp add: heights_def image_image add.assoc)
qed

lemma heights_finite [simp]: "finite (heights d evs)" "heights d evs \<noteq> {}"
  by (simp_all add: heights_def)

lemma heights_start: "d \<in> heights d evs"
  by (cases evs) (simp_all add: heights_Cons)

lemma descend_heights:
  assumes "0 \<le> d" "d \<le> m"
  shows "descend evs (d, m, p) = Some t \<longleftrightarrow>
    (\<forall>h\<in>heights d evs. 0 \<le> h) \<and> t = (d + nesting evs, max m (Max (heights d evs)), p + int (properties evs))"
  using assms
proof (induction evs "(d, m, p)" arbitrary: d m p rule: descend.induct)
  case (2 n evs d m p)
  have "descend (BeginNode n # evs) (d, m, p) = Some t \<longleftrightarrow>
    (\<forall>h\<in>heights (d + 1) evs. 0 \<le> h) \<and>
    t = (d + 1 + nesting evs, max (max m (d + 1)) (Max (heights (d + 1) evs)), p + int (properties evs))"
    using 2 by simp
  moreover have "d + 1 \<le> Max (heights (d + 1) evs)" by (simp add: heights_start)
  ultimately show ?case using 2(2,3) by (auto simp: heights_Cons)
next
  case (3 evs d m p)
  show ?case
  proof (cases "0 \<le> d - 1")
    case True
    then have "descend (EndNode # evs) (d, m, p) = Some t \<longleftrightarrow>
      (\<forall>h\<in>heights (d - 1) evs. 0 \<le> h) \<and>
      t = (d - 1 + nesting evs, max m (Max (heights (d - 1) evs)), p + int (properties evs))"
      using 3 by simp
    then show ?thesis using 3(2,3) by (auto simp: heights_Cons)
  next
    case False
    then have "\<not> (\<forall>h\<in>heights (d - 1) evs. 0 \<le> h)" using heights_start [of "d - 1" evs] by blast
    then show ?thesis using False by (auto simp: heights_Cons)
  qed
next
  case (4 n v evs d m p)
  then have "descend (Property n v # evs) (d, m, p) = Some t \<longleftrightarrow>
      (\<forall>h\<in>heights d evs. 0 \<le> h) \<and>
      t = (d + nesting evs, max m (Max (heights d evs)), p + 1 + int (properties evs))"
    by simp
  moreover have "d \<le> Max (heights d evs)" by (simp add: heights_start)
  ultimately show ?case using 4(2,3) by (auto simp: heights_Cons)
qed auto

lemma descend_nested:
  "descend evs (0, 0, 0) = Some (0, m, p) \<longleftrightarrow>
     well_nested evs \<and> m = max_nesting evs \<and> p = int (properties evs)"
proof -
  have h: "heights 0 evs = (\<lambda>n. nesting (take n evs)) ` {..length evs}" by (simp add: heights_def)
  have "0 \<le> Max (heights 0 evs)" by (simp add: heights_start)
  then show ?thesis
    using descend_heights [of 0 0 evs 0 "(0, m, p)"] by (auto simp: well_nested_def max_nesting_def h)
qed

subsection \<open>The loop of the self-check reads the events\<close>

lemma slice_drop: "slice xs i (i + n) = take n (drop i xs)"
  by (simp add: slice_def)

lemma py_assert_bind: "rbind (py_assert c) f = (if c then f () else Inl AssertionError)"
  by (simp add: py_assert_def)

lemma validate_loop_reads:
  "validate_loop s strs i t = Inr (t', True) \<longleftrightarrow>
     (\<exists>evs. read_events (drop i s) strs = Some evs \<and> descend evs t = Some t')"
proof (induction s strs i t rule: validate_loop.induct)
  case (1 s strs i d m p)
  show ?case
  proof (cases "i + 4 \<le> length s")
    case False
    then show ?thesis
      by (subst validate_loop.simps, subst read_events.simps) (auto simp: slice_drop unpack_be_def)
  next
    case True
    let ?r = "drop (i + 4) s"
    have r: "drop 4 (drop i s) = ?r" by (simp add: add.commute)
    have tok: "unpack_be 4 (slice s i (i + 4)) = Inr (be_value (take 4 (drop i s)))"
      using True by (simp add: slice_drop unpack_be_def)
    have i: "i < length s" and long: "\<not> length (drop i s) < 4" using True by simp_all
    let ?tok = "be_value (take 4 (drop i s))"
    note unfold = validate_loop.simps [of s strs i d m p] read_events.simps [of "drop i s"]
    consider "?tok = 1" | "?tok = 2" | "?tok = 3" | "?tok \<notin> {1, 2, 3}" by blast
    then show ?thesis
    proof cases
      case 1
      show ?thesis
      proof (cases "find_zero ?r")
        case None
        then show ?thesis unfolding unfold using True tok r 1 by simp
      next
        case (Some k)
        have "drop (up4 (k + 1)) ?r = drop (i + 4 + up4 (k + 1)) s" by (simp add: add_ac)
        with "1.IH"(1) [OF i 1 Some] show ?thesis unfolding unfold using True tok r 1 Some by auto
      qed
    next
      case 2
      show ?thesis unfolding unfold using True tok r 2 "1.IH"(2) [OF i _ 2]
        by (auto simp: py_assert_bind)
    next
      case 3
      have l: "length ?r < 8 \<or> unpack_be 4 (slice s (i + 4) (i + 8)) = Inr (be_value (take 4 ?r)) \<and>
          unpack_be 4 (slice s (i + 8) (i + 12)) = Inr (be_value (take 4 (drop 4 ?r)))"
        using slice_drop [of s "i + 4" 4] slice_drop [of s "i + 8" 4] by (auto simp: unpack_be_def add_ac)
      have short: "length ?r < 8 \<Longrightarrow> \<exists>e. rbind (unpack_be 4 (slice s (i + 4) (i + 8))) (\<lambda>a.
          rbind (unpack_be 4 (slice s (i + 8) (i + 12))) (f a)) = Inl e" for f :: "int \<Rightarrow> int \<Rightarrow> (tally \<times> bool) result"
        using slice_drop [of s "i + 4" 4] slice_drop [of s "i + 8" 4] by (auto simp: unpack_be_def add_ac)
      have rest: "drop (8 + up4 n) ?r = drop (i + 12 + up4 n) s" for n by (simp add: add_ac)
      show ?thesis
      proof (cases "length ?r < 8")
        case True
        with \<open>i + 4 \<le> length s\<close> tok r 3 short show ?thesis unfolding unfold
          by (simp add: Let_def del: length_drop) (metis sum.distinct(1))
      next
        case False
        with long tok r 3 l rest "1.IH"(3) [OF i _ _ 3] show ?thesis unfolding unfold
          by (auto simp: py_assert_bind Let_def simp del: length_drop)
      qed
    next
      case 4
      then show ?thesis unfolding unfold using True tok r i by auto
    qed
  qed
qed

subsection \<open>The self-check\<close>

definition bytes :: "int list \<Rightarrow> bool" where
  "bytes bs \<longleftrightarrow> list_all (\<lambda>b. 0 \<le> b \<and> b < 256) bs"

text \<open>The layout the header must announce: header, empty reservation map, structure, strings.\<close>

definition laid_out :: "int list \<Rightarrow> bool" where
  "laid_out blob \<longleftrightarrow> 56 \<le> length blob \<and> header_word blob 0 = 0xd00dfeed \<and> header_word blob 1 = int (length blob) \<and>
     header_word blob 2 = 56 \<and> header_word blob 3 = 56 + header_word blob 9 \<and> header_word blob 4 = 40 \<and>
     header_word blob 3 + header_word blob 8 = int (length blob) \<and> slice blob 40 56 = replicate 16 0"

lemma be_value_append: "be_value (a @ b) = be_value a * 256 ^ length b + be_value b"
proof (induction b rule: rev_induct)
  case (snoc x b)
  have "be_value (a @ b @ [x]) = be_value (a @ b) * 256 + x" by (simp add: be_value_def)
  moreover have "be_value (b @ [x]) = be_value b * 256 + x" by (simp add: be_value_def)
  ultimately show ?case using snoc by (simp add: algebra_simps)
qed (simp add: be_value_def)

lemma be_value_nonneg: "bytes bs \<Longrightarrow> 0 \<le> be_value bs"
proof (induction bs rule: rev_induct)
  case (snoc x bs)
  then show ?case by (simp add: bytes_def be_value_append) (simp add: be_value_def)
qed (simp add: be_value_def)

lemma be_value_zero: "bytes bs \<Longrightarrow> be_value bs = 0 \<longleftrightarrow> bs = replicate (length bs) 0"
proof (induction bs rule: rev_induct)
  case (snoc x bs)
  have r: "replicate (length (bs @ [x])) (0::int) = replicate (length bs) 0 @ [0]"
    by (simp add: replicate_append_same)
  have "be_value (bs @ [x]) = be_value bs * 256 + x" by (simp add: be_value_def)
  moreover have "0 \<le> be_value bs" "0 \<le> x" "bytes bs" using snoc.prems be_value_nonneg [of bs] by (simp_all add: bytes_def)
  ultimately show ?case using snoc.IH unfolding r by auto
qed (simp add: be_value_def)

lemma bytes_slice: "bytes bs \<Longrightarrow> bytes (slice bs i j)"
  by (auto simp: bytes_def slice_def list_all_iff dest!: in_set_takeD in_set_dropD)

lemma header_word_nonneg: "bytes bs \<Longrightarrow> 0 \<le> header_word bs k"
  by (simp add: header_word_def be_value_nonneg bytes_slice)

lemma check_header_ok:
  "check_header blob = Inr u \<longleftrightarrow> 40 \<le> length blob \<and> header_word blob 0 = 0xd00dfeed \<and>
     header_word blob 1 = int (length blob) \<and> header_word blob 4 = 40 \<and> header_word blob 2 = 56 \<and>
     header_word blob 3 = 56 + header_word blob 9 \<and> header_word blob 3 + header_word blob 8 = int (length blob)"
  by (auto simp: check_header_def Let_def py_assert_bind py_assert_def split: if_splits)

lemma check_rsvmap_ok:
  assumes "bytes blob" "header_word blob 4 = 40"
  shows "check_rsvmap blob = Inr u \<longleftrightarrow> 56 \<le> length blob \<and> slice blob 40 56 = replicate 16 0"
proof (cases "56 \<le> length blob")
  case True
  have l: "length (slice blob 40 48) = 8" "length (slice blob 48 56) = 8" using True by (simp_all add: slice_def)
  have "take (8 + 8) (drop 40 blob) = take 8 (drop 40 blob) @ take 8 (drop 8 (drop 40 blob))" by (rule take_add)
  then have s: "slice blob 40 56 = slice blob 40 48 @ slice blob 48 56" by (simp add: slice_def)
  have "replicate 16 (0::int) = replicate (8 + 8) 0" by simp
  then have "slice blob 40 56 = replicate 16 0 \<longleftrightarrow> slice blob 40 48 = replicate 8 0 \<and> slice blob 48 56 = replicate 8 0"
    unfolding s replicate_add using l by simp
  moreover have "check_rsvmap blob = Inr u \<longleftrightarrow> be_value (slice blob 40 48) = 0 \<and> be_value (slice blob 48 56) = 0"
    using assms(2) l by (auto simp: check_rsvmap_def unpack_be_def py_assert_def)
  ultimately show ?thesis
    using True l be_value_zero [OF bytes_slice [OF assms(1)]] by metis
next
  case False
  then have "length (slice blob 40 48) \<noteq> 8 \<or> length (slice blob 48 56) \<noteq> 8" by (simp add: slice_def) linarith
  then show ?thesis using False assms(2) by (auto simp: check_rsvmap_def unpack_be_def)
qed

lemma check_tally_ok:
  "check_tally blob ((d, m, p), e) = Inr (md, n, ts) \<longleftrightarrow>
     d = 0 \<and> e \<and> 2 \<le> m \<and> 0 < p \<and> md = m \<and> n = p \<and> ts = header_word blob 1"
  by (auto simp: check_tally_def py_assert_bind split: if_splits)

lemma validate_exact:
  assumes "bytes blob"
  shows "parse_and_validate blob = Inr (md, n, ts) \<longleftrightarrow>
    laid_out blob \<and> ts = int (length blob) \<and> 2 \<le> md \<and> 0 < n \<and>
    (\<exists>evs. read_events (struct_block blob) (strings_block blob) = Some evs \<and> well_nested evs \<and>
       md = max_nesting evs \<and> n = int (properties evs))"
proof (cases "check_header blob")
  case (Inl e)
  then have "\<not> laid_out blob" using check_header_ok [of blob "()"] by (auto simp: laid_out_def)
  with Inl show ?thesis by (simp add: parse_and_validate_def)
next
  case h: (Inr u)
  let ?loop = "validate_loop (struct_block blob) (strings_block blob) 0 (0, 0, 0)"
  show ?thesis
  proof (cases "check_rsvmap blob")
    case (Inl e)
    then have "\<not> laid_out blob" using check_rsvmap_ok [OF assms, of "()"] h by (auto simp: laid_out_def check_header_ok)
    with Inl h show ?thesis by (simp add: parse_and_validate_def)
  next
    case (Inr v)
    then have "laid_out blob" using check_rsvmap_ok [OF assms, of v] h by (auto simp: laid_out_def check_header_ok)
    moreover have "parse_and_validate blob = Inr (md, n, ts) \<longleftrightarrow>
        ?loop = Inr ((0, md, n), True) \<and> 2 \<le> md \<and> 0 < n \<and> ts = header_word blob 1"
      using h Inr by (cases ?loop) (auto simp: parse_and_validate_def check_tally_ok)
    ultimately show ?thesis
      unfolding validate_loop_reads by (auto simp: descend_nested laid_out_def)
  qed
qed

end
