(* ===== verification/Dtb_Build.thy ===== *)
theory Dtb_Build
  imports Dtb_Spec
begin

text \<open>
  The builder writes what it is told: each method of \<open>FdtBuilder\<close> appends one event to what the
  structure and strings blocks say, so a blob read back lists the events of the calls.
\<close>

subsection \<open>Bytes and padding\<close>

lemma be_bytes_Suc: "be_bytes (Suc n) v = be_bytes n (drop_bit 8 v) @ [v AND 0xFF]"
proof -
  have "8 * (n - i) = 8 * (n - 1 - i) + 8" if "i < n" for i using that by simp
  then have "map (\<lambda>i. drop_bit (8 * (n - i)) v AND 0xFF) [0..<n] =
      map (\<lambda>i. drop_bit (8 * (n - 1 - i)) (drop_bit 8 v) AND 0xFF) [0..<n]"
    by (intro map_cong) (auto simp: drop_bit_drop_bit)
  then show ?thesis by (simp add: be_bytes_def)
qed

lemma length_be_bytes [simp]: "length (be_bytes n v) = n"
  by (simp add: be_bytes_def)

lemma bytes_be_bytes [simp]: "bytes (be_bytes n v)"
  by (auto simp: bytes_def be_bytes_def list_all_iff and_mod_8)

lemma be_value_bytes: "0 \<le> v \<Longrightarrow> v < 2 ^ (8 * n) \<Longrightarrow> be_value (be_bytes n v) = v"
proof (induction n arbitrary: v)
  case (Suc n)
  have "drop_bit 8 v < 2 ^ (8 * n)" using Suc.prems by (simp add: drop_bit_eq_div power_add div_less_iff_less_mult mult.commute)
  then have "be_value (be_bytes n (drop_bit 8 v)) = drop_bit 8 v" using Suc.prems by (intro Suc.IH) simp_all
  then show ?case by (simp add: be_bytes_Suc be_value_append) (simp add: be_value_def drop_bit_eq_div and_mod_8)
qed (simp add: be_value_def be_bytes_def)

lemma pack_be_ok: "0 \<le> v \<Longrightarrow> v < 2 ^ (8 * n) \<Longrightarrow> pack_be n v = Inr (be_bytes n v)"
  by (simp add: pack_be_def)

lemma pack_all_ok: "list_all (\<lambda>v. 0 \<le> v \<and> v < 2 ^ (8 * n)) vs \<Longrightarrow> pack_all n vs = Inr (concat (map (be_bytes n) vs))"
  by (induction vs) (simp_all add: pack_be_ok)

lemma up4_eq: "up4 n = 4 * ((n + 3) div 4)"
proof -
  have "x AND NOT 3 = 4 * (x div 4)" for x :: int
  proof -
    have "x AND NOT (mask 2) = push_bit 2 (drop_bit 2 x)"
    proof (rule bit_eqI)
      fix n :: nat
      have "2 \<le> n \<Longrightarrow> 2 + (n - 2) = n" by simp
      then show "bit (x AND NOT (mask 2)) n = bit (push_bit 2 (drop_bit 2 x)) n"
        by (auto simp: bit_and_iff bit_not_iff bit_mask_iff bit_push_bit_iff bit_drop_bit_eq simp del: add_2_eq_Suc)
    qed
    then show ?thesis by (simp add: push_bit_eq_mult drop_bit_eq_div mask_eq_exp_minus_1)
  qed
  then have "up4 n = nat (4 * (int (n + 3) div 4))" by (simp add: up4_def)
  also have "\<dots> = nat (int (4 * ((n + 3) div 4)))" by (simp add: zdiv_int)
  finally show ?thesis by simp
qed

lemma up4_bounds: "n \<le> up4 n" "up4 n \<le> n + 3"
  unfolding up4_eq by presburger+

lemma align4_pad: "align4 xs = xs @ replicate (up4 (length xs) - length xs) 0"
proof -
  have "nat ((- int n) mod 4) = up4 n - n" for n
  proof -
    have "- int n = int (up4 n - n) + 4 * (- int ((n + 3) div 4))"
      using up4_bounds [of n] by (simp add: up4_eq of_nat_diff)
    then have "(- int n) mod 4 = int (up4 n - n) mod 4" by (metis mod_mult_self2)
    also have "\<dots> = int (up4 n - n)" using up4_bounds [of n] by simp
    finally show ?thesis by simp
  qed
  then show ?thesis by (simp add: align4_def)
qed

lemma align4_sel: "take (length xs) (align4 xs @ t) = xs" "drop (up4 (length xs)) (align4 xs @ t) = t"
  "length (align4 xs) = up4 (length xs)"
  using up4_bounds [of "length xs"] by (simp_all add: align4_pad)

lemma bytes_append [simp]: "bytes (a @ b) \<longleftrightarrow> bytes a \<and> bytes b"
  by (simp add: bytes_def)

lemma bytes_align4 [simp]: "bytes (align4 xs) \<longleftrightarrow> bytes xs"
  by (simp add: align4_pad) (simp add: bytes_def list_all_iff)

subsection \<open>Names\<close>

definition good_name :: "string \<Rightarrow> bool" where
  "good_name s \<longleftrightarrow> list_all (\<lambda>c. (of_char c :: int) \<noteq> 0 \<and> (of_char c :: int) < 128) s"

lemma of_char_nonneg: "0 \<le> (of_char c :: int)"
  by (simp add: of_char_def)

lemma encode_good: "good_name s \<Longrightarrow> encode_ascii s = Inr (map of_char s)"
  by (auto simp: good_name_def encode_ascii_def list_all_iff)

lemma bytes_name: "good_name s \<Longrightarrow> bytes (map of_char s)"
  using of_char_nonneg by (fastforce simp: good_name_def bytes_def list_all_iff)

lemma find_zero_name: "good_name s \<Longrightarrow> find_zero (map of_char s @ 0 # rest) = Some (length s)"
  by (induction s) (auto simp: good_name_def)

lemma decode_name: "decode (map of_char s) = s"
  by (induction s) (simp_all add: decode_def)

lemma name_at_name: "good_name s \<Longrightarrow> drop off strs = map of_char s @ 0 # rest \<Longrightarrow> name_at strs off = s"
proof -
  assume "good_name s" "drop off strs = map of_char s @ 0 # rest"
  moreover from this have "takeWhile (\<lambda>b. b \<noteq> 0) (map of_char s @ 0 # rest) = map of_char s"
    by (subst takeWhile_append2) (auto simp: good_name_def list_all_iff)
  ultimately show ?thesis by (simp add: name_at_def decode_name)
qed

subsection \<open>Reading one token\<close>

lemma token: "0 \<le> v \<Longrightarrow> v < 2 ^ 32 \<Longrightarrow> be_value (take 4 (be_bytes 4 v @ t)) = v"
  by (simp add: be_value_bytes)

lemma read_begin:
  "good_name n \<Longrightarrow> read_events (be_bytes 4 1 @ align4 (map of_char n @ [0]) @ t) strs =
     map_option (Cons (BeginNode n)) (read_events t strs)"
proof -
  assume n: "good_name n"
  let ?z = "map of_char n @ [0 :: int]"
  obtain pad where p: "align4 ?z = map of_char n @ 0 # pad" by (simp add: align4_pad)
  have "find_zero (align4 ?z @ t) = Some (length n)" using find_zero_name [OF n, of "pad @ t"] by (simp add: p)
  moreover have "take (length n) (align4 ?z @ t) = map of_char n" by (simp add: p)
  moreover have "drop (up4 (length n + 1)) (align4 ?z @ t) = t" using align4_sel(2) [of ?z t] by simp
  ultimately show ?thesis
    using token [of 1] by (subst read_events.simps) (simp add: decode_name)
qed

lemma read_end: "read_events (be_bytes 4 2 @ t) strs = map_option (Cons EndNode) (read_events t strs)"
  using token [of 2] by (subst read_events.simps) simp

lemma read_stop: "read_events (be_bytes 4 9 @ t) strs = Some []"
  using token [of 9] by (subst read_events.simps) simp

lemma read_property:
  assumes "int (length v) < 2 ^ 32" "good_name n" "0 \<le> off" "off < 2 ^ 32" "drop (nat off) strs = map of_char n @ 0 # rest"
  shows "read_events (be_bytes 4 3 @ be_bytes 4 (int (length v)) @ be_bytes 4 off @ align4 v @ t) strs =
     map_option (Cons (Property n v)) (read_events t strs)"
proof -
  have "nat off < length strs" using assms(5) by (metis drop_all not_le_imp_less append_is_Nil_conv list.distinct(1))
  then have "off < int (length strs)" using assms(3) by simp
  moreover have "name_at strs (nat off) = n" by (rule name_at_name [OF assms(2,5)])
  moreover have "drop (8 + up4 (length v)) (be_bytes 4 (int (length v)) @ be_bytes 4 off @ align4 v @ t) = t"
    using align4_sel(2) [of v t] by simp
  ultimately show ?thesis
    using assms(1,3,4) token [of 3] token [of "int (length v)"] token [of off] align4_sel(1) [of v t]
    by (subst read_events.simps) (simp add: Let_def)
qed

subsection \<open>What a builder state says\<close>

definition names_ok :: "fdt \<Rightarrow> bool" where
  "names_ok b \<longleftrightarrow> (\<forall>name off. f_offsets b name = Some off \<longrightarrow>
     good_name name \<and> 0 \<le> off \<and> (\<exists>rest. drop (nat off) (f_strings b) = map of_char name @ 0 # rest))"

definition renders :: "fdt \<Rightarrow> event list \<Rightarrow> bool" where
  "renders b evs \<longleftrightarrow> names_ok b \<and> bytes (f_struct b) \<and> bytes (f_strings b) \<and>
     (\<forall>t more. read_events (f_struct b @ t) (f_strings b @ more) =
        map_option (append evs) (read_events t (f_strings b @ more)))"

definition fdt_size :: "fdt \<Rightarrow> int" where
  "fdt_size b = int (length (f_struct b)) + int (length (f_strings b))"

fun cost :: "event \<Rightarrow> int" where
  "cost (BeginNode n) = int (length n) + 8"
| "cost EndNode = 4"
| "cost (Property n v) = int (length n) + int (length v) + 16"

text \<open>A call that appends an event, as long as the blob stays below four gigabytes.\<close>

definition appends :: "(fdt \<Rightarrow> fdt result) \<Rightarrow> event \<Rightarrow> bool" where
  "appends f ev \<longleftrightarrow> (\<forall>b evs. renders b evs \<longrightarrow> fdt_size b + cost ev < 2 ^ 32 \<longrightarrow>
     (\<exists>b'. f b = Inr b' \<and> renders b' (evs @ [ev]) \<and> fdt_size b' \<le> fdt_size b + cost ev))"

lemma renders_emit:
  assumes "renders b evs" "bytes bs"
    "\<And>t more. read_events (bs @ t) (f_strings b @ more) = map_option (Cons ev) (read_events t (f_strings b @ more))"
  shows "renders (emit bs b) (evs @ [ev])"
proof -
  have "map_option (append evs) (map_option (Cons ev) r) = map_option (append (evs @ [ev])) r" for r
    by (cases r) simp_all
  then show ?thesis using assms by (simp add: renders_def emit_def names_ok_def)
qed

lemma fdt_size_emit: "fdt_size (emit bs b) = fdt_size b + int (length bs)"
  by (simp add: fdt_size_def emit_def)

lemma appends_begin: "good_name n \<Longrightarrow> appends (begin_node n) (BeginNode n)"
proof -
  assume n: "good_name n"
  let ?bs = "be_bytes 4 1 @ align4 (map of_char n @ [0])"
  have "bytes ?bs" using bytes_name [OF n] by simp (simp add: bytes_def)
  moreover have "int (length ?bs) \<le> cost (BeginNode n)"
    using up4_bounds(2) [of "Suc (length n)"] by (simp add: align4_sel)
  ultimately show ?thesis
    by (auto simp: appends_def begin_node_def encode_good [OF n] fdt_size_emit read_begin [OF n] intro!: renders_emit)
qed

lemma appends_end: "appends end_node EndNode"
  by (auto simp: appends_def end_node_def fdt_size_emit read_end intro!: renders_emit)

lemma string_off_ok:
  assumes "renders b evs" "good_name n"
  obtains off b1 where "string_off n b = Inr (off, b1)" "renders b1 evs" "f_struct b1 = f_struct b"
    "0 \<le> off" "off \<le> fdt_size b" "\<exists>rest. drop (nat off) (f_strings b1) = map of_char n @ 0 # rest"
    "fdt_size b1 \<le> fdt_size b + int (length n) + 1"
proof (cases "f_offsets b n")
  case (Some off)
  then obtain rest where o: "0 \<le> off" "drop (nat off) (f_strings b) = map of_char n @ 0 # rest"
    using assms(1) unfolding renders_def names_ok_def by blast
  then have "nat off < length (f_strings b)" by (metis drop_all not_le_imp_less append_is_Nil_conv list.distinct(1))
  then have "off \<le> fdt_size b" using o(1) by (simp add: fdt_size_def)
  with that [of off b] Some o assms show ?thesis by (simp add: string_off_def)
next
  case None
  let ?off = "int (length (f_strings b))" and ?bs = "map of_char n @ [0 :: int]"
  let ?b = "b\<lparr>f_offsets := (f_offsets b)(n \<mapsto> ?off), f_strings := f_strings b @ ?bs\<rparr>"
  have "names_ok ?b" using assms unfolding renders_def names_ok_def by (fastforce split: if_splits)
  moreover have "bytes ?bs" using bytes_name [OF assms(2)] by simp (simp add: bytes_def)
  ultimately have "renders ?b evs" using assms(1) by (simp add: renders_def)
  with that [of ?off ?b] None show ?thesis
    by (simp add: string_off_def encode_good [OF assms(2)] fdt_size_def Let_def)
qed

lemma appends_prop_raw:
  assumes n: "good_name n" and v: "bytes v"
  shows "appends (prop_raw n v) (Property n v)"
  unfolding appends_def
proof (intro allI impI)
  fix b evs
  assume r: "renders b evs" and c: "fdt_size b + cost (Property n v) < 2 ^ 32"
  obtain off b1 rest where o: "string_off n b = Inr (off, b1)" "renders b1 evs" "0 \<le> off" "off \<le> fdt_size b"
    "drop (nat off) (f_strings b1) = map of_char n @ 0 # rest" "fdt_size b1 \<le> fdt_size b + int (length n) + 1"
    using string_off_ok [OF r n] by metis
  let ?len = "int (length v)"
  let ?bs = "be_bytes 4 3 @ be_bytes 4 ?len @ be_bytes 4 off @ align4 v"
  have small: "?len < 2 ^ 32" "off < 2 ^ 32" using c o(4) by (simp_all add: fdt_size_def)
  have f: "prop_raw n v b = Inr (emit ?bs b1)"
    using o(1,3) small by (simp add: prop_raw_def pack_be_ok)
  have "length (f_strings b1) \<ge> nat off" using o(5) by (metis drop_all nat_le_linear append_is_Nil_conv list.distinct(1))
  then have "read_events (?bs @ t) (f_strings b1 @ more) = map_option (Cons (Property n v)) (read_events t (f_strings b1 @ more))" for t more
    using read_property [OF small(1) n o(3) small(2), of "f_strings b1 @ more" "rest @ more" t] o(5) by simp
  then have "renders (emit ?bs b1) (evs @ [Property n v])" using v by (intro renders_emit o(2)) simp_all
  moreover have "fdt_size (emit ?bs b1) \<le> fdt_size b + cost (Property n v)"
    using o(6) up4_bounds(2) [of "length v"] by (simp add: fdt_size_emit align4_sel)
  ultimately show "\<exists>b'. prop_raw n v b = Inr b' \<and> renders b' (evs @ [Property n v]) \<and> fdt_size b' \<le> fdt_size b + cost (Property n v)"
    using f by blast
qed

subsection \<open>The typed properties\<close>

definition cells :: "int list \<Rightarrow> int list" where
  "cells vs = concat (map (\<lambda>v. be_bytes 4 (v mod 2 ^ 32)) vs)"

definition text_value :: "string \<Rightarrow> int list" where
  "text_value s = map of_char s @ [0]"

definition ascii :: "string \<Rightarrow> bool" where
  "ascii s \<longleftrightarrow> list_all (\<lambda>c. (of_char c :: int) < 128) s"

lemma bytes_cells [simp]: "bytes (cells vs)"
  by (induction vs) (simp_all add: cells_def bytes_def [of "[]"])

lemma bytes_text [simp]: "ascii s \<Longrightarrow> bytes (text_value s)"
  using of_char_nonneg by (fastforce simp: ascii_def text_value_def bytes_def list_all_iff)

lemma appends_empty: "good_name n \<Longrightarrow> appends (prop_empty n) (Property n [])"
  by (simp add: prop_empty_def appends_prop_raw bytes_def)

lemma appends_cells: "good_name n \<Longrightarrow> appends (prop_cells n vs) (Property n (cells vs))"
proof -
  assume n: "good_name n"
  have "pack_all 4 (map (\<lambda>c. c AND 0xFFFFFFFF) vs) = Inr (cells vs)"
    by (subst pack_all_ok) (simp_all add: list_all_iff and_mod_32 cells_def comp_def)
  then have "prop_cells n vs = prop_raw n (cells vs)" by (simp add: prop_cells_def fun_eq_iff)
  then show ?thesis using appends_prop_raw [OF n bytes_cells] by simp
qed

lemma appends_u32: "good_name n \<Longrightarrow> appends (prop_u32 n v) (Property n (cells [v]))"
proof -
  assume n: "good_name n"
  have "prop_u32 n v = prop_raw n (cells [v])"
    by (simp add: prop_u32_def fun_eq_iff and_mod_32 pack_be_ok cells_def)
  then show ?thesis using appends_prop_raw [OF n bytes_cells] by simp
qed

lemma appends_str: "good_name n \<Longrightarrow> ascii s \<Longrightarrow> appends (prop_str n s) (Property n (text_value s))"
proof -
  assume n: "good_name n" and s: "ascii s"
  have "prop_str n s = prop_raw n (text_value s)"
    using s by (simp add: prop_str_def fun_eq_iff encode_ascii_def ascii_def text_value_def)
  then show ?thesis using appends_prop_raw [OF n bytes_text [OF s]] by simp
qed

lemmas appends_rules = appends_begin appends_end appends_empty appends_cells appends_u32 appends_str

lemma calls_append:
  "list_all2 appends fs evs' \<Longrightarrow> renders b evs \<Longrightarrow> fdt_size b + (\<Sum>e\<leftarrow>evs'. cost e) < 2 ^ 32 \<Longrightarrow>
     \<exists>b'. calls fs b = Inr b' \<and> renders b' (evs @ evs') \<and> fdt_size b' \<le> fdt_size b + (\<Sum>e\<leftarrow>evs'. cost e)"
proof (induction fs evs' arbitrary: b evs rule: list_all2_induct)
  case (Cons f fs ev evs')
  have pos: "0 \<le> cost e" for e by (cases e) simp_all
  have "0 \<le> (\<Sum>e\<leftarrow>evs'. cost e)" by (rule sum_list_nonneg) (auto simp: pos)
  then obtain b1 where b1: "f b = Inr b1" "renders b1 (evs @ [ev])" "fdt_size b1 \<le> fdt_size b + cost ev"
    using Cons.hyps(1) Cons.prems by (force simp: appends_def)
  then obtain b2 where "calls fs b1 = Inr b2" "renders b2 ((evs @ [ev]) @ evs')"
    "fdt_size b2 \<le> fdt_size b1 + (\<Sum>e\<leftarrow>evs'. cost e)"
    using Cons.IH [of b1 "evs @ [ev]"] Cons.prems(2) by auto
  then show ?case using b1 by auto
qed auto

subsection \<open>The whole blob\<close>

lemma renders_new: "renders fdt_new []"
proof -
  have "append [] = (\<lambda>xs :: event list. xs)" by (simp add: fun_eq_iff)
  then show ?thesis by (simp add: renders_def fdt_new_def names_ok_def bytes_def option.map_ident)
qed

lemma slice_words:
  "k < length vs \<Longrightarrow> slice (concat (map (be_bytes 4) vs) @ rest) (4 * k) (4 * k + 4) = be_bytes 4 (vs ! k)"
proof (induction vs arbitrary: k)
  case (Cons v vs)
  then show ?case by (cases k) (simp_all add: slice_def)
qed simp

lemma header_word_at:
  "k < length vs \<Longrightarrow> list_all (\<lambda>v. 0 \<le> v \<and> v < 2 ^ 32) vs \<Longrightarrow>
     header_word (concat (map (be_bytes 4) vs) @ rest) k = vs ! k"
  by (simp add: header_word_def slice_words be_value_bytes list_all_length)

lemma build_reads:
  assumes "renders b evs" "fdt_size b < 2 ^ 32 - 60"
  shows "\<exists>blob. fdt_build b = Inr blob \<and> bytes blob \<and> laid_out blob \<and>
    read_events (struct_block blob) (strings_block blob) = Some evs \<and> int (length blob) = fdt_size b + 60"
proof -
  let ?st = "f_struct b @ be_bytes 4 9" and ?sg = "f_strings b"
  let ?ns = "int (length ?st)" and ?ng = "int (length ?sg)"
  define vs where "vs = [0xd00dfeed, 56 + ?ns + ?ng, 56, 56 + ?ns, 40, 17, 16, 0, ?ng, ?ns]"
  define blob where "blob = concat (map (be_bytes 4) vs) @ (be_bytes 8 0 @ be_bytes 8 0) @ ?st @ ?sg"
  have r: "list_all (\<lambda>v. 0 \<le> v \<and> v < 2 ^ 32) vs" using assms(2) by (simp add: vs_def fdt_size_def)
  have hl: "length (concat (map (be_bytes 4) vs)) = 40" by (simp add: vs_def)
  have built: "fdt_build b = Inr blob"
    using pack_all_ok [of 4 vs] r by (simp add: fdt_build_def Let_def emit_def vs_def blob_def)
  have w: "k < 10 \<Longrightarrow> header_word blob k = vs ! k" for k
    unfolding blob_def by (rule header_word_at [OF _ r]) (simp add: vs_def)
  have len: "int (length blob) = 56 + ?ns + ?ng" using hl by (simp add: blob_def)
  have z: "be_bytes 8 0 = replicate 8 0" by code_simp
  have ok: "bytes blob"
    using assms(1) unfolding blob_def renders_def by (simp add: vs_def)
  have "slice blob 40 56 = be_bytes 8 0 @ be_bytes 8 0"
    using hl by (simp add: blob_def slice_def)
  moreover have "replicate 8 (0::int) @ replicate 8 0 = replicate 16 0" by (simp flip: replicate_add)
  ultimately have rsv: "slice blob 40 56 = replicate 16 0" by (simp add: z)
  have lo: "laid_out blob"
    unfolding laid_out_def using w [of 0] w [of 1] w [of 2] w [of 3] w [of 4] w [of 8] w [of 9] len rsv
    by (simp add: vs_def)
  have st: "struct_block blob = ?st" "strings_block blob = ?sg"
    using w [of 2] w [of 3] w [of 8] w [of 9] hl
    by (simp_all add: struct_block_def strings_block_def slice_def blob_def vs_def nat_add_distrib)
  have "read_events ?st (?sg @ []) = map_option (append evs) (read_events (be_bytes 4 9) (?sg @ []))"
    using assms(1) unfolding renders_def by blast
  then have "read_events ?st ?sg = Some evs" using read_stop [of "[]" ?sg] by simp
  then show ?thesis using built ok lo st len by (auto simp: fdt_size_def)
qed

end
