(* ===== verification/Dtb_Props.thy ===== *)
theory Dtb_Props
  imports Dtb_Build
begin

text \<open>Properties of the device-tree generator.\<close>

text \<open>
  C13. What the self-check accepts: \<open>parse_and_validate\<close> returns a depth, a property count and a
  size if and only if the header describes the blob's own layout and the structure block is a
  terminated, well-nested list of events with that many levels and properties, of which there are
  at least two levels and one property; a well-nested tree of a single node, or one without
  properties, is rejected.
\<close>

theorem self_check_exact:
  assumes "bytes blob"
  shows "parse_and_validate blob = Inr (max_depth, prop_count, totalsize) \<longleftrightarrow>
    laid_out blob \<and> totalsize = int (length blob) \<and> 2 \<le> max_depth \<and> 0 < prop_count \<and>
    (\<exists>evs. read_events (struct_block blob) (strings_block blob) = Some evs \<and> well_nested evs \<and>
       max_depth = max_nesting evs \<and> prop_count = int (properties evs))"
  by (rule validate_exact [OF assms])

subsection \<open>The tree of this core\<close>

definition cpus_events :: "int \<Rightarrow> event list" where
  "cpus_events timebase_freq =
     [BeginNode ''cpus'',
      Property ''#address-cells'' (cells [1]),
      Property ''#size-cells'' (cells [0]),
      Property ''timebase-frequency'' (cells [timebase_freq]),
      BeginNode ''cpu@0'',
      Property ''phandle'' (cells [1]),
      Property ''device_type'' (text_value ''cpu''),
      Property ''reg'' (cells [0]),
      Property ''status'' (text_value ''okay''),
      Property ''compatible'' (text_value ''riscv''),
      Property ''riscv,isa'' (text_value ''rv64imafd''),
      Property ''mmu-type'' (text_value ''riscv,sv39''),
      BeginNode ''interrupt-controller'',
      Property ''#interrupt-cells'' (cells [1]),
      Property ''interrupt-controller'' [],
      Property ''compatible'' (text_value ''riscv,cpu-intc''),
      Property ''phandle'' (cells [2]),
      EndNode, EndNode, EndNode]"

definition memory_events :: "int \<Rightarrow> event list" where
  "memory_events msize =
     [BeginNode ''memory@0'', Property ''device_type'' (text_value ''memory''),
      Property ''reg'' (cells [0, 0, 0, msize]), EndNode]"

definition soc_events :: "int \<Rightarrow> event list" where
  "soc_events uart_clock_freq =
     [BeginNode ''soc'',
      Property ''#address-cells'' (cells [2]),
      Property ''#size-cells'' (cells [2]),
      Property ''compatible'' (text_value ''simple-bus''),
      Property ''ranges'' [],
      BeginNode ''uart@10000000'',
      Property ''compatible'' (text_value ''ns16550a''),
      Property ''reg'' (cells [0, 0x10000000, 0, 0x20]),
      Property ''clock-frequency'' (cells [uart_clock_freq]),
      Property ''reg-shift'' (cells [2]),
      Property ''reg-io-width'' (cells [4]),
      EndNode,
      BeginNode ''clint@10100000'',
      Property ''compatible'' (text_value ''riscv,clint0''),
      Property ''reg'' (cells [0, 0x10100000, 0, 0x10000]),
      Property ''interrupts-extended'' (cells [2, 3, 2, 7]),
      EndNode,
      EndNode]"

text \<open>The initial ramdisk is described by two 64-bit addresses, high cell first.\<close>

definition initrd_events :: "int option \<Rightarrow> int option \<Rightarrow> event list" where
  "initrd_events st en =
     (case (st, en) of
        (Some a, Some b) \<Rightarrow>
          [Property ''linux,initrd-start'' (cells [a div 2 ^ 32, a]), Property ''linux,initrd-end'' (cells [b div 2 ^ 32, b])]
      | _ \<Rightarrow> [])"

definition core_events :: "int \<Rightarrow> int \<Rightarrow> int \<Rightarrow> string \<Rightarrow> int option \<Rightarrow> int option \<Rightarrow> event list" where
  "core_events msize timebase_freq uart_clock_freq bootargs st en =
     [BeginNode '''',
      Property ''#address-cells'' (cells [2]),
      Property ''#size-cells'' (cells [2]),
      Property ''compatible'' (text_value ''5-stage-pipelined-processor''),
      Property ''model'' (text_value ''5-stage-pipelined-processor,rv64'')] @
     cpus_events timebase_freq @ memory_events msize @ soc_events uart_clock_freq @
     [BeginNode ''chosen'', Property ''bootargs'' (text_value bootargs),
      Property ''stdout-path'' (text_value ''/soc/uart@10000000'')] @
     initrd_events st en @ [EndNode, EndNode]"

lemma names_good:
  "list_all good_name ['''', ''cpus'', ''cpu@0'', ''interrupt-controller'', ''memory@0'', ''soc'', ''uart@10000000'',
     ''clint@10100000'', ''chosen'', ''#address-cells'', ''#size-cells'', ''compatible'', ''model'', ''timebase-frequency'',
     ''phandle'', ''device_type'', ''reg'', ''status'', ''riscv,isa'', ''mmu-type'', ''#interrupt-cells'', ''ranges'',
     ''clock-frequency'', ''reg-shift'', ''reg-io-width'', ''interrupts-extended'', ''bootargs'', ''stdout-path'',
     ''linux,initrd-start'', ''linux,initrd-end'']"
  by code_simp

lemma texts_ascii:
  "list_all ascii [''cpu'', ''okay'', ''riscv'', ''rv64imafd'', ''riscv,sv39'', ''riscv,cpu-intc'', ''memory'', ''simple-bus'',
     ''ns16550a'', ''riscv,clint0'', ''5-stage-pipelined-processor'', ''5-stage-pipelined-processor,rv64'', ''/soc/uart@10000000'']"
  by code_simp

lemma cells_and: "cells [x, y AND 0xFFFFFFFF] = cells [x, y]"
  by (simp add: cells_def and_mod_32)

lemma part_calls:
  "list_all2 appends (cpus_calls t) (cpus_events t)" "list_all2 appends (memory_calls m) (memory_events m)"
  "list_all2 appends (soc_calls u) (soc_events u)"
  unfolding cpus_calls_def cpus_events_def memory_calls_def memory_events_def soc_calls_def soc_events_def
  using names_good texts_ascii by (simp_all add: appends_rules)

lemma appends_address:
  "good_name n \<Longrightarrow> appends (prop_cells n [drop_bit 32 a, a AND 0xFFFFFFFF]) (Property n (cells [a div 2 ^ 32, a]))"
  using appends_cells [of n "[drop_bit 32 a, a AND 0xFFFFFFFF]"] by (simp add: cells_and drop_bit_eq_div)

definition chosen_events :: "string \<Rightarrow> int option \<Rightarrow> int option \<Rightarrow> event list" where
  "chosen_events bootargs st en =
     [BeginNode ''chosen'', Property ''bootargs'' (text_value bootargs),
      Property ''stdout-path'' (text_value ''/soc/uart@10000000'')] @ initrd_events st en @ [EndNode]"

lemma chosen_part: "ascii bootargs \<Longrightarrow> list_all2 appends (chosen_calls bootargs st en) (chosen_events bootargs st en)"
  unfolding chosen_calls_def initrd_events_def chosen_events_def
  using names_good texts_ascii by (cases st; cases en; simp add: appends_rules(1,2,6) appends_address [simplified])

lemma core_events_shape:
  "core_events m t u bootargs st en =
     [BeginNode '''', Property ''#address-cells'' (cells [2]), Property ''#size-cells'' (cells [2]),
      Property ''compatible'' (text_value ''5-stage-pipelined-processor''),
      Property ''model'' (text_value ''5-stage-pipelined-processor,rv64'')] @
     cpus_events t @ memory_events m @ soc_events u @ chosen_events bootargs st en @ [EndNode]"
  by (simp add: core_events_def chosen_events_def)

lemma core_cost: "(\<Sum>e\<leftarrow>core_events m t u bootargs st en. cost e) \<le> int (length bootargs) + 3000"
  by (auto simp: core_events_def cpus_events_def memory_events_def soc_events_def initrd_events_def
      cells_def text_value_def split: option.split)

lemma core_descend:
  "descend (core_events m t u bootargs st en) (0, 0, 0) =
     Some (0, 4, if st = None \<or> en = None then 34 else 36)"
  by (auto simp: core_events_def cpus_events_def memory_events_def soc_events_def initrd_events_def split: option.split)

lemma core_calls_append:
  assumes "ascii bootargs" "length bootargs < 2 ^ 31"
  shows "\<exists>blob. build_this_core_dtb m t u bootargs st en = Inr blob \<and> bytes blob \<and> laid_out blob \<and>
    read_events (struct_block blob) (strings_block blob) = Some (core_events m t u bootargs st en) \<and>
    int (length blob) \<le> int (length bootargs) + 3060"
proof -
  let ?evs = "core_events m t u bootargs st en"
  let ?fs = "[begin_node '''', prop_u32 ''#address-cells'' 2, prop_u32 ''#size-cells'' 2,
      prop_str ''compatible'' ''5-stage-pipelined-processor'', prop_str ''model'' ''5-stage-pipelined-processor,rv64''] @
    cpus_calls t @ memory_calls m @ soc_calls u @ chosen_calls bootargs st en @ [end_node]"
  have "list_all2 appends ?fs ?evs"
    unfolding core_events_shape
    by (intro list_all2_appendI part_calls chosen_part assms(1)) (use names_good texts_ascii in \<open>simp_all add: appends_rules\<close>)
  moreover have cost: "(\<Sum>e\<leftarrow>?evs. cost e) < 2 ^ 32 - 60"
    using core_cost [of m t u bootargs st en] assms(2) by simp
  ultimately obtain b where b: "calls ?fs fdt_new = Inr b" "renders b ([] @ ?evs)"
      "fdt_size b \<le> fdt_size fdt_new + (\<Sum>e\<leftarrow>?evs. cost e)"
    using calls_append [of ?fs ?evs fdt_new "[]"] renders_new by (auto simp: fdt_size_def fdt_new_def)
  moreover have "fdt_size fdt_new = 0" by (simp add: fdt_size_def fdt_new_def)
  ultimately have f: "fdt_size b < 2 ^ 32 - 60" "fdt_size b \<le> int (length bootargs) + 3000"
    using cost core_cost [of m t u bootargs st en] by simp_all
  from build_reads [OF b(2) f(1)] b(1) f(2) show ?thesis by (auto simp: build_this_core_dtb_def)
qed

lemma gen_dtb_ok:
  assumes "ascii bootargs" "length bootargs < 2 ^ 31"
  shows "\<exists>blob. gen_dtb_main m t u bootargs st en =
      Inr (blob, 4, if st = None \<or> en = None then 34 else 36, int (length blob)) \<and>
    read_events (struct_block blob) (strings_block blob) = Some (core_events m t u bootargs st en) \<and>
    bytes blob \<and> 56 \<le> length blob \<and> int (length blob) \<le> int (length bootargs) + 3060"
proof -
  obtain blob where b: "build_this_core_dtb m t u bootargs st en = Inr blob" "bytes blob" "laid_out blob"
    "read_events (struct_block blob) (strings_block blob) = Some (core_events m t u bootargs st en)"
    "int (length blob) \<le> int (length bootargs) + 3060"
    using core_calls_append [OF assms] by blast
  have "parse_and_validate blob = Inr (4, if st = None \<or> en = None then 34 else 36, int (length blob))"
    unfolding validate_exact [OF b(2)]
    using b(3,4) core_descend [of m t u bootargs st en] by (auto simp: descend_nested split: if_splits)
  with b show ?thesis by (auto simp: gen_dtb_main_def laid_out_def)
qed

text \<open>
  C12. For any memory size, frequencies, ramdisk addresses and ASCII boot arguments (below two
  gigabytes of text) the generator succeeds: the blob it writes reads back as the tree of this
  core, node by node and property by property with 32-bit big-endian cells, and passes the
  self-check with four levels and 34 properties, or 36 with a ramdisk.
\<close>

theorem core_dtb_reads_back:
  assumes "ascii bootargs" "length bootargs < 2 ^ 31"
  shows "\<exists>blob. gen_dtb_main m t u bootargs st en =
      Inr (blob, 4, if st = None \<or> en = None then 34 else 36, int (length blob)) \<and>
    read_events (struct_block blob) (strings_block blob) = Some (core_events m t u bootargs st en)"
  using gen_dtb_ok [OF assms] by blast

theorem core_dtb_reads_back_witness:
  "\<exists>blob. gen_dtb_main 0x2000000 1000000 1843200 ''console=ttyS0'' (Some 0x1F00000) (Some 0x100000000) =
      Inr (blob, 4, 36, int (length blob)) \<and>
    read_events (struct_block blob) (strings_block blob) =
      Some (core_events 0x2000000 1000000 1843200 ''console=ttyS0'' (Some 0x1F00000) (Some 0x100000000))"
proof -
  have "ascii ''console=ttyS0''" by code_simp
  from core_dtb_reads_back [OF this, of "0x2000000" 1000000 1843200 "Some 0x1F00000" "Some 0x100000000"]
  show ?thesis by simp
qed

definition small_blob :: "int list" where
  "small_blob = (case rbind (calls [begin_node '''', begin_node ''a'', prop_empty ''b'', end_node, end_node] fdt_new) fdt_build of
     Inr blob \<Rightarrow> blob | Inl e \<Rightarrow> [])"

theorem self_check_exact_witness:
  "bytes small_blob \<and> parse_and_validate small_blob = Inr (2, 1, 98) \<and> laid_out small_blob \<and>
     (\<exists>evs. read_events (struct_block small_blob) (strings_block small_blob) = Some evs \<and> well_nested evs \<and>
       max_nesting evs = 2 \<and> properties evs = 1)"
proof -
  have b: "bytes small_blob" by code_simp
  have v: "parse_and_validate small_blob = Inr (2, 1, 98)" by code_simp
  from v [unfolded self_check_exact [OF b]] b v show ?thesis by auto
qed

end
