(* ===== verification/Random_Gen.thy ===== *)
theory Random_Gen
  imports Asm Disasm "HOL-Library.State_Monad"
begin

text \<open>
  The constrained-random program generator \<open>sim/tools/random_gen.py\<close>. The generator object
  \<open>random.Random(seed)\<close> is an endless tape of numbers, read one per draw: every draw of the
  source is an arbitrary member of the range it draws from, and a theorem for all tapes is a
  theorem for all seeds. The state monad threads the tape through the calls.
\<close>

subsection \<open>Draws\<close>

type_synonym tape = "nat \<Rightarrow> nat"
type_synonym 'a gen = "(tape, 'a) state"

definition draw :: "nat gen" where
  "draw = State (\<lambda>r. (r 0, \<lambda>i. r (Suc i)))"

text \<open>\<open>rnd.choice(xs)\<close>, \<open>rnd.randint(a, b)\<close>, \<open>rnd.randrange(0, stop, step)\<close>, \<open>rnd.random() < 0.5\<close>.\<close>

definition choice :: "'a list \<Rightarrow> 'a gen" where
  "choice xs = do { k \<leftarrow> draw; State_Monad.return (xs ! (k mod length xs)) }"

definition randint :: "int \<Rightarrow> int \<Rightarrow> int gen" where
  "randint a b = do { k \<leftarrow> draw; State_Monad.return (a + int k mod (b - a + 1)) }"

definition randrange0 :: "int \<Rightarrow> int \<Rightarrow> int gen" where
  "randrange0 stop stp = do { k \<leftarrow> draw; State_Monad.return (stp * (int k mod ((stop + stp - 1) div stp))) }"

definition coin :: "bool gen" where
  "coin = do { k \<leftarrow> draw; State_Monad.return (even k) }"

text \<open>\<open>rnd.choices(names, weights=weights)[0]\<close>: the first name whose cumulative weight exceeds the draw.\<close>

fun pick_weighted :: "('a \<times> nat) list \<Rightarrow> nat \<Rightarrow> 'a" where
  "pick_weighted [(x, w)] k = x"
| "pick_weighted ((x, w) # y # rest) k = (if k < w then x else pick_weighted (y # rest) (k - w))"
| "pick_weighted [] k = undefined"

definition choices :: "('a \<times> nat) list \<Rightarrow> 'a gen" where
  "choices xs = do { k \<leftarrow> draw; State_Monad.return (pick_weighted xs (k mod sum_list (map snd xs))) }"

subsection \<open>Tables\<close>

definition RG_R_TYPE :: "string list" where
  "RG_R_TYPE = [''add'', ''sub'', ''sll'', ''slt'', ''sltu'', ''xor'', ''srl'', ''sra'', ''or'', ''and'',
     ''mul'', ''mulh'', ''mulhsu'', ''mulhu'', ''div'', ''divu'', ''rem'', ''remu'']"

definition RG_I_TYPE :: "string list" where
  "RG_I_TYPE = [''addi'', ''slti'', ''sltiu'', ''xori'', ''ori'', ''andi'']"

definition SHIFT_I :: "string list" where "SHIFT_I = [''slli'', ''srli'', ''srai'']"

definition RG_BRANCH :: "string list" where
  "RG_BRANCH = [''beq'', ''bne'', ''blt'', ''bge'', ''ble'', ''bgt'', ''bltu'', ''bgeu'']"

definition CSR_REG_OP :: "string list" where "CSR_REG_OP = [''csrrw'', ''csrrs'', ''csrrc'']"
definition CSR_IMM_OP :: "string list" where "CSR_IMM_OP = [''csrrwi'', ''csrrsi'', ''csrrci'']"
definition RG_CSR_NAMES :: "string list" where
  "RG_CSR_NAMES = [''mstatus'', ''mtvec'', ''mscratch'', ''mepc'', ''mcause'']"

definition BASE_REG :: int where "BASE_REG = 31"
definition GP_REGS :: "int list" where "GP_REGS = [1..30]"
definition FREGS :: "int list" where "FREGS = [0..31]"

definition RG_FP_ARITH :: "string list" where "RG_FP_ARITH = [''fadd.s'', ''fsub.s'', ''fmul.s'', ''fdiv.s'']"
definition RG_FP_SGNJ :: "string list" where "RG_FP_SGNJ = [''fsgnj.s'', ''fsgnjn.s'', ''fsgnjx.s'']"
definition RG_FP_MINMAX :: "string list" where "RG_FP_MINMAX = [''fmin.s'', ''fmax.s'']"
definition RG_FP_CMP :: "string list" where "RG_FP_CMP = [''feq.s'', ''flt.s'', ''fle.s'']"
definition FP_CVT_TO_INT :: "string list" where "FP_CVT_TO_INT = [''fcvt.w.s'', ''fcvt.wu.s'']"
definition FP_CVT_FROM_INT :: "string list" where "FP_CVT_FROM_INT = [''fcvt.s.w'', ''fcvt.s.wu'']"
definition FMADD_FAMILY :: "string list" where "FMADD_FAMILY = [''fmadd.s'', ''fmsub.s'', ''fnmsub.s'', ''fnmadd.s'']"
definition RG_RM_NAMES :: "string list" where "RG_RM_NAMES = [''rne'', ''rtz'', ''rdn'', ''rup'', ''rmm'', ''dyn'']"
definition FCSR_NAMES :: "string list" where "FCSR_NAMES = [''fflags'', ''frm'', ''fcsr'']"
definition FCSR_ADDR :: "(string \<times> string) list" where
  "FCSR_ADDR = [(''fflags'', ''0x1''), (''frm'', ''0x2''), (''fcsr'', ''0x3'')]"

definition FLOAT_SEED_BITS :: "int list" where
  "FLOAT_SEED_BITS = [0x00000000, 0x3F800000, 0xBF800000, 0x7F800000, 0x7FC00000, 0x00400000]"

definition RG_R_TYPE_W :: "string list" where
  "RG_R_TYPE_W = [''addw'', ''subw'', ''sllw'', ''srlw'', ''sraw'', ''mulw'', ''divw'', ''divuw'', ''remw'', ''remuw'']"
definition RG_I_TYPE_W :: "string list" where "RG_I_TYPE_W = [''addiw'', ''slliw'', ''srliw'', ''sraiw'']"

subsection \<open>Lines and constants\<close>

text \<open>A statement as the f-strings print it: the mnemonic, a space, the operands separated by a comma and a space.\<close>

fun comma_list :: "string list \<Rightarrow> string" where
  "comma_list [] = []"
| "comma_list [a] = a"
| "comma_list (a # b # rest) = a @ '', '' @ comma_list (b # rest)"

definition stmt :: "string \<Rightarrow> string list \<Rightarrow> string" where
  "stmt mn ops = mn @ '' '' @ comma_list ops"

definition hex0x :: "int \<Rightarrow> string" where
  "hex0x v = ''0x'' @ show_hex v"

definition based :: "int \<Rightarrow> string" where
  "based off = show_int off @ ''('' @ xr BASE_REG @ '')''"

definition const_to_reg_instrs :: "int \<Rightarrow> int \<Rightarrow> string list" where
  "const_to_reg_instrs rd bits32 =
     (let lo = bits32 AND 0xFFF;
          hi0 = drop_bit 12 bits32 AND 0xFFFFF;
          hi = (if lo AND 0x800 \<noteq> 0 then (hi0 + 1) AND 0xFFFFF else hi0);
          lo_signed = (if lo AND 0x800 \<noteq> 0 then lo - 0x1000 else lo)
      in stmt ''lui'' [xr rd, hex0x hi] #
         (if lo \<noteq> 0 then [stmt ''addi'' [xr rd, xr rd, show_int lo_signed]] else []))"

definition const64_to_reg_instrs :: "int \<Rightarrow> int \<Rightarrow> int \<Rightarrow> string list" where
  "const64_to_reg_instrs rd rd_scratch bits64 =
     (let hi32 = drop_bit 32 bits64 AND 0xFFFFFFFF;
          lo32 = bits64 AND 0xFFFFFFFF
      in const_to_reg_instrs rd hi32 @
         [stmt ''slli'' [xr rd, xr rd, ''32'']] @
         const_to_reg_instrs rd_scratch lo32 @
         [stmt ''slli'' [xr rd_scratch, xr rd_scratch, ''32''],
          stmt ''srli'' [xr rd_scratch, xr rd_scratch, ''32''],
          stmt ''or'' [xr rd, xr rd, xr rd_scratch]])"

definition sext32 :: "int \<Rightarrow> int" where
  "sext32 v0 = (let v = v0 AND 0xFFFFFFFF in if v AND 0x80000000 \<noteq> 0 then v - push_bit 32 1 else v)"

definition self_check_const64 :: "int \<Rightarrow> bool" where
  "self_check_const64 bits64 =
     (let hi32 = drop_bit 32 bits64 AND 0xFFFFFFFF;
          lo32 = bits64 AND 0xFFFFFFFF;
          MASK64 = push_bit 64 1 - 1;
          rd = sext32 hi32 AND MASK64;
          rd' = push_bit 32 rd AND MASK64;
          scratch = sext32 lo32 AND MASK64;
          scratch' = push_bit 32 scratch AND MASK64;
          scratch'' = drop_bit 32 scratch';
          rd'' = (rd' OR scratch'') AND MASK64
      in rd'' = bits64 AND MASK64)"

subsection \<open>One random instruction\<close>

text \<open>A finished line, or a branch or jump whose target is drawn in the second pass.\<close>

datatype item = Line string | GBranch string int int | GJal int

record gen_config =
  g_xlen :: nat
  g_base :: int
  g_space :: int
  g_csrs :: "string list"
  g_mmu :: bool

definition kinds :: "gen_config \<Rightarrow> (string \<times> nat) list" where
  "kinds c =
     [(''r'', 24), (''i'', 16), (''shift'', 8), (''load'', 10), (''store'', 10), (''branch'', 8), (''jal'', 5),
      (''csr'', if g_mmu c then 0 else 6), (''fp_arith'', 10), (''fp_sqrt'', 4), (''fp_sgnj'', 4), (''fp_minmax'', 4),
      (''fp_cmp'', 4), (''fp_cvt_to_int'', 4), (''fp_cvt_from_int'', 4), (''fp_madd'', 6), (''fload'', 6), (''fstore'', 6),
      (''fcsr'', 4)] @ (if g_xlen c \<ge> 64 then [(''rw'', 12), (''iw'', 8)] else [])"

definition load_mnemonics :: "gen_config \<Rightarrow> string list" where
  "load_mnemonics c = [''lb'', ''lh'', ''lw'', ''lbu'', ''lhu''] @ (if g_xlen c \<ge> 64 then [''ld'', ''lwu''] else [])"

definition store_mnemonics :: "gen_config \<Rightarrow> string list" where
  "store_mnemonics c = [''sb'', ''sh'', ''sw''] @ (if g_xlen c \<ge> 64 then [''sd''] else [])"

definition mem_width :: "string \<Rightarrow> int" where
  "mem_width mn = (if mn \<in> {''lb'', ''lbu'', ''sb''} then 1 else if mn \<in> {''lh'', ''lhu'', ''sh''} then 2
     else if mn \<in> {''lw'', ''lwu'', ''sw''} then 4 else 8)"

definition gen_offset :: "gen_config \<Rightarrow> int \<Rightarrow> int gen" where
  "gen_offset c width =
     (let max_off = min (g_space c - g_base c - width) 2047
      in if max_off \<ge> 0 then randrange0 (max_off + 1) width else State_Monad.return 0)"

definition gen_csr :: "string \<Rightarrow> item gen" where
  "gen_csr csr = do {
     rd \<leftarrow> choice GP_REGS;
     reg \<leftarrow> coin;
     (if reg then do {
        mn \<leftarrow> choice CSR_REG_OP;
        rs1 \<leftarrow> choice GP_REGS;
        State_Monad.return (Line (stmt mn [xr rd, csr, xr rs1]))
      } else do {
        mn \<leftarrow> choice CSR_IMM_OP;
        uimm \<leftarrow> randint 0 31;
        State_Monad.return (Line (stmt mn [xr rd, csr, show_int uimm]))
      })
   }"

definition gen_int :: "gen_config \<Rightarrow> string \<Rightarrow> item gen" where
  "gen_int c kind =
     (if kind = ''r'' \<or> kind = ''rw'' then do {
        mn \<leftarrow> choice (if kind = ''r'' then RG_R_TYPE else RG_R_TYPE_W);
        rd \<leftarrow> choice GP_REGS; rs1 \<leftarrow> choice GP_REGS; rs2 \<leftarrow> choice GP_REGS;
        State_Monad.return (Line (stmt mn [xr rd, xr rs1, xr rs2]))
      } else if kind = ''i'' then do {
        mn \<leftarrow> choice RG_I_TYPE;
        rd \<leftarrow> choice GP_REGS; rs1 \<leftarrow> choice GP_REGS;
        imm \<leftarrow> randint (- 2048) 2047;
        State_Monad.return (Line (stmt mn [xr rd, xr rs1, show_int imm]))
      } else if kind = ''iw'' then do {
        mn \<leftarrow> choice RG_I_TYPE_W;
        rd \<leftarrow> choice GP_REGS; rs1 \<leftarrow> choice GP_REGS;
        imm \<leftarrow> (if mn = ''addiw'' then randint (- 2048) 2047 else randint 0 31);
        State_Monad.return (Line (stmt mn [xr rd, xr rs1, show_int imm]))
      } else if kind = ''shift'' then do {
        mn \<leftarrow> choice SHIFT_I;
        rd \<leftarrow> choice GP_REGS; rs1 \<leftarrow> choice GP_REGS;
        shamt \<leftarrow> (if g_xlen c \<ge> 64 then randint 0 63 else randint 0 31);
        State_Monad.return (Line (stmt mn [xr rd, xr rs1, show_int shamt]))
      } else if kind = ''load'' then do {
        mn \<leftarrow> choice (load_mnemonics c);
        rd \<leftarrow> choice GP_REGS;
        off \<leftarrow> gen_offset c (mem_width mn);
        State_Monad.return (Line (stmt mn [xr rd, based off]))
      } else if kind = ''store'' then do {
        mn \<leftarrow> choice (store_mnemonics c);
        rs2 \<leftarrow> choice GP_REGS;
        off \<leftarrow> gen_offset c (mem_width mn);
        State_Monad.return (Line (stmt mn [xr rs2, based off]))
      } else if kind = ''branch'' then do {
        mn \<leftarrow> choice RG_BRANCH;
        rs1 \<leftarrow> choice GP_REGS; rs2 \<leftarrow> choice GP_REGS;
        State_Monad.return (GBranch mn rs1 rs2)
      } else if kind = ''csr'' then do {
        csr \<leftarrow> choice (g_csrs c);
        gen_csr csr
      } else do {
        rd \<leftarrow> choice GP_REGS;
        State_Monad.return (GJal rd)
      })"

definition gen_fp :: "gen_config \<Rightarrow> string \<Rightarrow> item gen" where
  "gen_fp c kind =
     (if kind = ''fp_arith'' then do {
        mn \<leftarrow> choice RG_FP_ARITH;
        rd \<leftarrow> choice FREGS; rs1 \<leftarrow> choice FREGS; rs2 \<leftarrow> choice FREGS;
        rm \<leftarrow> choice RG_RM_NAMES;
        State_Monad.return (Line (stmt mn [fr rd, fr rs1, fr rs2, rm]))
      } else if kind = ''fp_sqrt'' then do {
        rd \<leftarrow> choice FREGS; rs1 \<leftarrow> choice FREGS;
        rm \<leftarrow> choice RG_RM_NAMES;
        State_Monad.return (Line (stmt ''fsqrt.s'' [fr rd, fr rs1, rm]))
      } else if kind = ''fp_sgnj'' \<or> kind = ''fp_minmax'' then do {
        mn \<leftarrow> choice (if kind = ''fp_sgnj'' then RG_FP_SGNJ else RG_FP_MINMAX);
        rd \<leftarrow> choice FREGS; rs1 \<leftarrow> choice FREGS; rs2 \<leftarrow> choice FREGS;
        State_Monad.return (Line (stmt mn [fr rd, fr rs1, fr rs2]))
      } else if kind = ''fp_cmp'' then do {
        mn \<leftarrow> choice RG_FP_CMP;
        rd \<leftarrow> choice GP_REGS; rs1 \<leftarrow> choice FREGS; rs2 \<leftarrow> choice FREGS;
        State_Monad.return (Line (stmt mn [xr rd, fr rs1, fr rs2]))
      } else if kind = ''fp_cvt_to_int'' then do {
        mn \<leftarrow> choice FP_CVT_TO_INT;
        rd \<leftarrow> choice GP_REGS; rs1 \<leftarrow> choice FREGS;
        rm \<leftarrow> choice RG_RM_NAMES;
        State_Monad.return (Line (stmt mn [xr rd, fr rs1, rm]))
      } else if kind = ''fp_cvt_from_int'' then do {
        mn \<leftarrow> choice FP_CVT_FROM_INT;
        rd \<leftarrow> choice FREGS; rs1 \<leftarrow> choice GP_REGS;
        rm \<leftarrow> choice RG_RM_NAMES;
        State_Monad.return (Line (stmt mn [fr rd, xr rs1, rm]))
      } else if kind = ''fp_madd'' then do {
        mn \<leftarrow> choice FMADD_FAMILY;
        rd \<leftarrow> choice FREGS; rs1 \<leftarrow> choice FREGS; rs2 \<leftarrow> choice FREGS; rs3 \<leftarrow> choice FREGS;
        rm \<leftarrow> choice RG_RM_NAMES;
        State_Monad.return (Line (stmt mn [fr rd, fr rs1, fr rs2, fr rs3, rm]))
      } else if kind = ''fload'' then do {
        rd \<leftarrow> choice FREGS;
        off \<leftarrow> gen_offset c 4;
        State_Monad.return (Line (stmt ''flw'' [fr rd, based off]))
      } else if kind = ''fstore'' then do {
        rs2 \<leftarrow> choice FREGS;
        off \<leftarrow> gen_offset c 4;
        State_Monad.return (Line (stmt ''fsw'' [fr rs2, based off]))
      } else do {
        name \<leftarrow> choice FCSR_NAMES;
        gen_csr (case map_of FCSR_ADDR name of Some a \<Rightarrow> a | None \<Rightarrow> [])
      })"

definition gen_instr :: "gen_config \<Rightarrow> item gen" where
  "gen_instr c = do {
     kind \<leftarrow> choices (kinds c);
     (if kind \<in> {''r'', ''rw'', ''i'', ''iw'', ''shift'', ''load'', ''store'', ''branch'', ''csr'', ''jal''}
      then gen_int c kind else gen_fp c kind)
   }"

fun gen_instrs :: "gen_config \<Rightarrow> nat \<Rightarrow> item list gen" where
  "gen_instrs c 0 = State_Monad.return []"
| "gen_instrs c (Suc n) = do { x \<leftarrow> gen_instr c; xs \<leftarrow> gen_instrs c n; State_Monad.return (x # xs) }"

subsection \<open>Second pass: forward targets\<close>

definition label_name :: "int \<Rightarrow> string" where
  "label_name t = ''__L'' @ show_int t"

text \<open>The target of a branch or jump at position \<open>cur_idx\<close> of \<open>n\<close>, and its label entered once.\<close>

definition forward_target :: "int \<Rightarrow> int \<Rightarrow> (int \<rightharpoonup> string) \<Rightarrow> (string \<times> (int \<rightharpoonup> string)) gen" where
  "forward_target n cur_idx labels_at = do {
     t \<leftarrow> randint (min (cur_idx + 1) n) n;
     State_Monad.return (label_name t,
       if labels_at t = None then labels_at(t \<mapsto> label_name t) else labels_at)
   }"

definition resolve_item :: "int \<Rightarrow> int \<Rightarrow> item \<Rightarrow> (int \<rightharpoonup> string) \<Rightarrow> (string \<times> (int \<rightharpoonup> string)) gen" where
  "resolve_item n cur_idx it labels_at =
     (case it of
        Line l \<Rightarrow> State_Monad.return (l, labels_at)
      | GBranch mn rs1 rs2 \<Rightarrow> do {
          r \<leftarrow> forward_target n cur_idx labels_at;
          State_Monad.return (stmt mn [xr rs1, xr rs2, fst r], snd r)
        }
      | GJal rd \<Rightarrow> do {
          r \<leftarrow> forward_target n cur_idx labels_at;
          State_Monad.return (stmt ''jal'' [xr rd, fst r], snd r)
        })"

definition label_line :: "(int \<rightharpoonup> string) \<Rightarrow> int \<Rightarrow> string list" where
  "label_line labels_at k = (case labels_at k of Some l \<Rightarrow> [l @ '':''] | None \<Rightarrow> [])"

fun resolve_items :: "int \<Rightarrow> int \<Rightarrow> item list \<Rightarrow> (int \<rightharpoonup> string) \<Rightarrow> (string list \<times> (int \<rightharpoonup> string)) gen" where
  "resolve_items n idx [] labels_at = State_Monad.return ([], labels_at)"
| "resolve_items n idx (it # rest) labels_at = do {
     r \<leftarrow> resolve_item n (idx + 1) it labels_at;
     q \<leftarrow> resolve_items n (idx + 1) rest (snd r);
     State_Monad.return (fst r # label_line (snd r) (idx + 2) @ fst q, snd q)
   }"

subsection \<open>The program\<close>

definition seed_lines :: "nat \<Rightarrow> string list" where
  "seed_lines xl =
     concat (map (\<lambda>(i, bits). const_to_reg_instrs 30 bits @ [stmt ''fmv.w.x'' [fr (int i + 1), ''x30'']])
       (enumerate 0 FLOAT_SEED_BITS)) @
     (if xl \<ge> 64 then const64_to_reg_instrs 29 30 0xDEADBEEF12345678 else [])"

definition gen_body :: "gen_config \<Rightarrow> int \<Rightarrow> string list gen" where
  "gen_body c n_instrs = do {
     instrs \<leftarrow> gen_instrs c (nat n_instrs);
     q \<leftarrow> resolve_items (int (length instrs)) 0 instrs Map.empty;
     State_Monad.return
       ([stmt ''addi'' [xr BASE_REG, ''x0'', show_int (g_base c)]] @ seed_lines (g_xlen c) @ fst q @
        label_line (snd q) (int (length instrs)) @ [''fence'', ''__halt:'', ''jal x0, __halt''])
   }"

text \<open>\<open>s.replace(old, new)\<close> for a non-empty \<open>old\<close>, and the count of lines that are not labels.\<close>

function py_replace :: "string \<Rightarrow> string \<Rightarrow> string \<Rightarrow> string" where
  "py_replace old new s =
     (if s = [] \<or> old = [] then s
      else if take (length old) s = old then new @ py_replace old new (drop (length old) s)
      else hd s # py_replace old new (tl s))"
  by pat_completeness auto

termination py_replace
  by (relation "measure (\<lambda>(old, new, s). length s)") auto

declare py_replace.simps [simp del]

definition instr_count :: "string list \<Rightarrow> int" where
  "instr_count ls =
     int (length (filter (\<lambda>l. let t = dropWhile py_space (rev l) in t = [] \<or> hd t \<noteq> CHR '':'') ls))"

definition mmu_prefix :: "nat \<Rightarrow> string list" where
  "mmu_prefix xl =
     (let jump = [''addi x1, x0, __MEPC_PLACEHOLDER__'', ''csrrw x0, mepc, x1'', ''mret''];
          prefix =
            (if xl \<ge> 64 then
               const_to_reg_instrs 1 0x401 @ [''sw x1, 0(x0)''] @
               [''lui x4, 0x1''] @ const_to_reg_instrs 2 0x801 @ [''sw x2, 0(x4)''] @
               [''lui x5, 0x2''] @ const_to_reg_instrs 3 0x1F @ [''sw x3, 0(x5)''] @
               [''fence''] @ const64_to_reg_instrs 1 6 (push_bit 60 8) @ [''csrrw x0, 0x180, x1''] @ jump
             else
               const_to_reg_instrs 1 0x401 @ [''sw x1, 0(x0)''] @
               [''lui x3, 0x1''] @ const_to_reg_instrs 2 0x1F @ [''sw x2, 0(x3)''] @
               [''fence''] @ const_to_reg_instrs 1 0x80000000 @ [''csrrw x0, 0x180, x1''] @ jump)
      in map (py_replace ''__MEPC_PLACEHOLDER__'' (show_int (instr_count prefix * 4))) prefix)"

definition interrupt_prefix :: "string \<Rightarrow> int \<Rightarrow> (string list \<times> int) result" where
  "interrupt_prefix interrupt interrupt_k =
     (let mtvec = [''addi  x5, x0, __MTVEC_PLACEHOLDER__'', ''csrrw x0, mtvec, x5''];
          mtimecmp_est = 100 + interrupt_k * 10
      in if interrupt = ''timer'' then
           Inr ([''lui   x2, 0x10104''] @ mtvec @ [''addi  x6, x0, 128'', ''csrrw x0, mie, x6''] @
                const_to_reg_instrs 7 mtimecmp_est @ [''sw    x7, 0(x2)'', ''csrrsi x0, mstatus, 8''], 0x80000007)
         else if interrupt = ''uart'' then
           Inr ([''lui   x1, 0x10000''] @ mtvec @ [''addi  x6, x0, -2048'', ''csrrw x0, mie, x6'',
                 ''addi  x8, x0, 1'', ''sw    x8, 4(x1)'', ''csrrsi x0, mstatus, 8''], 0x8000000B)
         else if interrupt = ''msi'' then
           Inr ([''lui   x2, 0x10100''] @ mtvec @ [''addi  x6, x0, 8'', ''csrrw x0, mie, x6'',
                 ''addi  x7, x0, 1'', ''sw    x7, 0(x2)'', ''csrrsi x0, mstatus, 8''], 0x80000003)
         else if interrupt = ''both'' then
           Inr ([''lui   x1, 0x10000'', ''lui   x2, 0x10104''] @ mtvec @ [''addi  x6, x0, -1920'', ''csrrw x0, mie, x6''] @
                const_to_reg_instrs 7 mtimecmp_est @ [''sw    x7, 0(x2)'', ''addi  x8, x0, 1'', ''sw    x8, 4(x1)'',
                 ''csrrsi x0, mstatus, 8''], 0x8000000B)
         else Inl ValueError)"

definition SOURCE_COST :: "(string \<times> int) list" where
  "SOURCE_COST = [(''timer'', 4), (''uart'', 3), (''msi'', 3), (''both'', 7)]"

definition budget :: "int \<Rightarrow> nat \<Rightarrow> bool \<Rightarrow> int \<Rightarrow> int" where
  "budget n_instrs xl mmu interrupt_prefix_cost =
     (let mmu_prefix_cost = (if mmu then (if xl \<ge> 64 then 24 else 13) else 0);
          xlen64_seed_cost = (if xl \<ge> 64 then 8 else 0)
      in 1 + 2 * int (length FLOAT_SEED_BITS) + xlen64_seed_cost + n_instrs + 1 + interrupt_prefix_cost + mmu_prefix_cost)"

text \<open>The lines of the program and the interrupt scheduled; the text is the lines joined by newlines.\<close>

definition gen_lines ::
  "tape \<Rightarrow> int \<Rightarrow> int \<Rightarrow> int \<Rightarrow> string option \<Rightarrow> bool \<Rightarrow> nat \<Rightarrow> (string list \<times> (int \<times> int) option) result" where
  "gen_lines rnd n_instrs base_addr mem_size interrupt mmu xl =
     (if interrupt \<noteq> None \<and> mmu then Inl ValueError
      else
        rbind (case interrupt of None \<Rightarrow> Inr 0 | Some i \<Rightarrow> rbind (lookup SOURCE_COST i) (\<lambda>k. Inr (5 + k + 2))) (\<lambda>prefix_cost.
        if budget n_instrs xl mmu prefix_cost > mem_size div 4 then Inl ValueError
        else if interrupt \<noteq> None \<and> n_instrs < 1 then Inl ValueError
        else
          (let c = \<lparr>g_xlen = xl, g_base = base_addr, g_space = (if mmu then min mem_size 4096 else mem_size),
                    g_csrs = (if interrupt = None then RG_CSR_NAMES
                              else filter (\<lambda>n. n \<notin> {''mstatus'', ''mepc'', ''mcause'', ''mtvec''}) RG_CSR_NAMES),
                    g_mmu = mmu\<rparr>
           in case interrupt of
                None \<Rightarrow> Inr ((if mmu then mmu_prefix xl else []) @ fst (run_state (gen_body c n_instrs) rnd), None)
              | Some i \<Rightarrow>
                  (case run_state (do { k \<leftarrow> randint 1 n_instrs; out \<leftarrow> gen_body c n_instrs; State_Monad.return (k, out) }) rnd of
                     ((interrupt_k, out), _) \<Rightarrow>
                       rbind (interrupt_prefix i interrupt_k) (\<lambda>(prefix, cause).
                         let handler_addr = (instr_count prefix + instr_count out) * 4;
                             prefix' = map (py_replace ''__MTVEC_PLACEHOLDER__'' (show_int handler_addr)) prefix
                         in Inr (prefix' @ out @ [''handler:'', ''csrrw x0, mie, x0'', ''mret''], Some (interrupt_k, cause)))))))"

definition gen_program ::
  "tape \<Rightarrow> int \<Rightarrow> int \<Rightarrow> int \<Rightarrow> string option \<Rightarrow> bool \<Rightarrow> nat \<Rightarrow> (string \<times> (int \<times> int) option) result" where
  "gen_program rnd n_instrs base_addr mem_size interrupt mmu xl =
     rbind (gen_lines rnd n_instrs base_addr mem_size interrupt mmu xl) (\<lambda>(ls, info).
       Inr (concat (map (\<lambda>l. l @ [CHR 0x0A]) ls), info))"

end
