(* ===== verification/Forward_Run.thy ===== *)
theory Forward_Run
  imports Iss_Run
begin

text \<open>
  Programs without backward jumps. A word that only computes, loads, stores or accesses a
  control register falls through in M-mode; a program of such words and of forward jumps that
  ends in a jump to itself is run by \<open>ISS.run\<close> to that last word in fewer steps than it has
  words.
\<close>

subsection \<open>Words that fall through\<close>

text \<open>The CSR an instruction names; \<open>C\<close> is the set of CSRs a straight word may access.\<close>

definition csr_of :: "int \<Rightarrow> int" where
  "csr_of w = drop_bit 20 w AND 0xFFF"

definition straight :: "int set \<Rightarrow> int \<Rightarrow> bool" where
  "straight C w \<longleftrightarrow> \<not> undefined_alu w \<and>
     (op_of w \<in> {0x33, 0x3B, 0x13, 0x1B, 0x37, 0x07, 0x27, 0x53, 0x43, 0x47, 0x4B, 0x4F} \<or>
      op_of w = 0x03 \<and> f3_of w \<noteq> 7 \<or> op_of w = 0x23 \<and> f3_of w < 4 \<or> op_of w = 0x73 \<and> f3_of w \<noteq> 0 \<and> csr_of w \<in> C \<or>
      op_of w = 0x0F \<and> f3_of w = 0)"

definition falls :: "iss \<Rightarrow> iss \<Rightarrow> bool" where
  "falls s s' \<longleftrightarrow> pc s' = pc s + 4 \<and> priv_mode s' = priv_mode s"

lemma priv_ops [simp]:
  "priv_mode (wr s rd v) = priv_mode s" "priv_mode (set_fflags s fl) = priv_mode s" "priv_mode (set_freg s rd v) = priv_mode s"
  "priv_mode (csr_store s k v) = priv_mode s" "priv_mode (csr_write s k v) = priv_mode s"
  "priv_mode (store_mem_byte s a v) = priv_mode s" "priv_mode (store_le s a v n) = priv_mode s"
  by (simp_all add: wr_def set_fflags_def set_freg_def csr_store_def csr_write_def csr_put_def store_mem_byte_def Let_def)
     (induction n, simp_all add: store_mem_byte_def)

lemma priv_put: "put_f s rd r = Inr s' \<Longrightarrow> priv_mode s' = priv_mode s" "put_x s rd x = Inr s' \<Longrightarrow> priv_mode s' = priv_mode s"
  by (auto simp: put_f_def put_x_def split: sum.splits prod.splits)

lemma priv_store_value: "store_value s f3 a v = Inr s' \<Longrightarrow> priv_mode s' = priv_mode s"
  by (auto simp: store_value_def split: if_splits)

lemma falls_int:
  "step_op s w = Inr s' \<Longrightarrow> falls s s'" "step_op_32 s w = Inr s' \<Longrightarrow> falls s s'"
  "step_op_imm s w = Inr s' \<Longrightarrow> falls s s'" "step_op_imm_32 s w = Inr s' \<Longrightarrow> falls s s'" "step_lui s w = Inr s' \<Longrightarrow> falls s s'"
  by (auto simp: falls_def step_op_def step_op_32_def step_op_imm_def step_op_imm_32_def step_lui_def Let_def
      split: sum.splits if_splits)

lemma falls_mem:
  assumes "priv_mode s = PRIV_M"
  shows "step_load s w = Inr s' \<Longrightarrow> falls s s'" "step_store s w = Inr s' \<Longrightarrow> falls s s'"
    "step_flw s w = Inr s' \<Longrightarrow> falls s s'" "step_fsw s w = Inr s' \<Longrightarrow> falls s s'"
  by (auto simp: falls_def step_load_def step_store_def step_flw_def step_fsw_def translate_M [OF assms] Let_def
      dest: priv_store_value split: sum.splits)

lemma falls_csr: "iss_wf s \<Longrightarrow> priv_mode s = PRIV_M \<Longrightarrow> step_csr s w = Inr s' \<Longrightarrow> falls s s'"
  using and_le_mask [of 3] by (auto simp: falls_def step_csr_def Let_def not_less [symmetric])

lemma map_pc: "map_sum id (\<lambda>s. s\<lparr>pc := p\<rparr>) r = Inr s' \<longleftrightarrow> (\<exists>u. r = Inr u \<and> s' = u\<lparr>pc := p\<rparr>)" for r :: "iss result"
  by (cases r) auto

lemma falls_fp: "step_op_fp s w = Inr s' \<Longrightarrow> falls s s'" "step_fmadd s w = Inr s' \<Longrightarrow> falls s s'"
proof -
  have "op_fp s w = Inr u \<Longrightarrow> priv_mode u = priv_mode s" for u
    unfolding op_fp_def Let_def by (auto dest: priv_put split: if_splits)
  then show "step_op_fp s w = Inr s' \<Longrightarrow> falls s s'" by (auto simp: step_op_fp_def map_pc falls_def)
  show "step_fmadd s w = Inr s' \<Longrightarrow> falls s s'" by (auto simp: step_fmadd_def Let_def map_pc falls_def dest: priv_put)
qed

lemma straight_arms:
  "op_of w = 0x33 \<Longrightarrow> step s w = step_op s w" "op_of w = 0x3B \<Longrightarrow> step s w = step_op_32 s w"
  "op_of w = 0x13 \<Longrightarrow> step s w = step_op_imm s w" "op_of w = 0x1B \<Longrightarrow> step s w = step_op_imm_32 s w"
  "op_of w = 0x37 \<Longrightarrow> step s w = step_lui s w" "op_of w = 0x07 \<Longrightarrow> step s w = step_flw s w"
  "op_of w = 0x27 \<Longrightarrow> step s w = step_fsw s w" "op_of w = 0x53 \<Longrightarrow> step s w = step_op_fp s w"
  "op_of w \<in> {0x43, 0x47, 0x4B, 0x4F} \<Longrightarrow> step s w = step_fmadd s w"
  "op_of w = 0x03 \<Longrightarrow> step s w = step_load s w" "op_of w = 0x23 \<Longrightarrow> step s w = step_store s w"
  "op_of w = 0x73 \<Longrightarrow> f3_of w \<noteq> 0 \<Longrightarrow> step s w = step_csr s w"
  "op_of w = 0x0F \<Longrightarrow> f3_of w = 0 \<Longrightarrow> step s w = Inr (s\<lparr>pc := pc s + 4\<rparr>)"
  by (auto simp: step_def step_system_def op_of_0)

lemma straight_step:
  assumes "iss_wf s" "priv_mode s = PRIV_M" "straight C w"
  obtains s' where "step s w = Inr s'" "falls s s'"
proof -
  have "\<not> undefined_alu w \<and> \<not> undefined_mem s w \<and> \<not> reserved_ecall s w"
    using assms(2,3) by (auto simp: straight_def undefined_mem_def reserved_ecall_def)
  then obtain s' where s: "step s w = Inr s'" using step_raises [OF assms(1), of w] by (cases "step s w") auto
  moreover have "falls s s'"
    using assms(3) s straight_arms [of w s] falls_int falls_mem [OF assms(2)] falls_csr [OF assms(1,2)] falls_fp
    unfolding straight_def insert_iff empty_iff by (elim conjE disjE) (auto simp: falls_def)
  ultimately show ?thesis by (rule that)
qed

subsection \<open>Forward programs\<close>

text \<open>Word \<open>i\<close> of a program continues with the next word or a later one.\<close>

definition moves_on :: "int set \<Rightarrow> int list \<Rightarrow> nat \<Rightarrow> bool" where
  "moves_on C ws i \<longleftrightarrow> straight C (ws ! i) \<or>
     (\<exists>j. i < j \<and> j < length ws \<and>
        (op_of (ws ! i) = 0x63 \<and> branch_off (ws ! i) = 4 * (int j - int i) \<or>
         op_of (ws ! i) = 0x6F \<and> jal_off (ws ! i) = 4 * (int j - int i)))"

definition forward_program :: "int set \<Rightarrow> int list \<Rightarrow> bool" where
  "forward_program C ws \<longleftrightarrow> ws \<noteq> [] \<and> is_self_loop (last ws) \<and> (\<forall>i. i + 1 < length ws \<longrightarrow> moves_on C ws i)"

lemma self_loop_op: "is_self_loop w \<longleftrightarrow> op_of w = 0x6F \<and> jal_off w = 0"
  by (simp add: is_self_loop_def op_of_def)

lemma moves_on_not_loop: "moves_on C ws i \<Longrightarrow> \<not> is_self_loop (ws ! i)"
  by (auto simp: moves_on_def straight_def self_loop_op)

lemma moves_on_step:
  assumes "iss_wf s" "priv_mode s = PRIV_M" "moves_on C ws i" "i + 1 < length ws" "pc s = b + 4 * int i" "0 \<le> b" "b + 4 * int (length ws) < 2 ^ xlen s"
  obtains s' j where "step s (ws ! i) = Inr s'" "i < j" "j < length ws" "pc s' = b + 4 * int j" "priv_mode s' = PRIV_M"
proof -
  let ?w = "ws ! i"
  have u: "uxlen s (b + 4 * int j) = b + 4 * int j" if "j < length ws" for j
    using that assms(6,7) by (simp add: uxlen_def uXLEN_def and_mask_mod push_bit_eq_mult)
  consider "straight C ?w"
    | j where "i < j" "j < length ws" "op_of ?w = 0x63" "branch_off ?w = 4 * (int j - int i)"
    | j where "i < j" "j < length ws" "op_of ?w = 0x6F" "jal_off ?w = 4 * (int j - int i)"
    using assms(3) unfolding moves_on_def by blast
  then show ?thesis
  proof cases
    case 1
    then obtain s' where "step s ?w = Inr s'" "falls s s'" by (rule straight_step [OF assms(1,2)])
    then show ?thesis using that [of s' "i + 1"] assms(2,4,5) by (simp add: falls_def)
  next
    case 2
    then have "?w \<noteq> 0" by (auto simp: op_of_0)
    with 2 have "step s ?w = step_branch s ?w" by (simp add: step_def)
    then show ?thesis
      using that [of "s\<lparr>pc := pc s + 4\<rparr>" "i + 1"] that [of "s\<lparr>pc := uxlen s (pc s + branch_off ?w)\<rparr>" j] 2 assms(2,4,5) u [of j]
      by (auto simp: step_branch_def algebra_simps split: if_splits)
  next
    case 3
    then have "?w \<noteq> 0" by (auto simp: op_of_0)
    with 3 have "step s ?w = step_jal s ?w" by (simp add: step_def)
    then show ?thesis using that [of "(wr s (rd_of ?w) (pc s + 4))\<lparr>pc := uxlen s (pc s + jal_off ?w)\<rparr>" j] 3 assms(2,5) u [of j]
      by (simp add: step_jal_def algebra_simps)
  qed
qed

lemma forward_run:
  assumes "forward_program C ws" "iss_wf s" "priv_mode s = PRIV_M" "pending_interrupt s = None" "i < length ws" "pc s = 4 * int i"
    "4 * int (length ws) < 2 ^ xlen s" "n + int (length ws - i) \<le> mx"
  shows "\<exists>k s'. run_loop ws mx s n = Some (Inr (k, s')) \<and> n \<le> k \<and> k < n + int (length ws - i) \<and>
    pc s' = 4 * int (length ws - 1) \<and> priv_mode s' = PRIV_M \<and> iss_wf s' \<and> frame s' = frame s"
  using assms
proof (induction "length ws - i" arbitrary: s i n rule: less_induct)
  case less
  have u: "uxlen s (pc s) = 4 * int i"
    using less.prems(5-7) by (simp add: uxlen_def uXLEN_def and_mask_mod push_bit_eq_mult)
  have f: "run_loop ws mx s n = loop_body (run_loop ws mx) ws mx s n" by (rule run_loop_unfold)
  have q: "\<not> irq_due (s, n)" using less.prems(4) by (simp add: irq_due_def)
  have lt: "n < mx" using less.prems(5,8) by linarith
  show ?case
  proof (cases "i + 1 < length ws")
    case False
    then have i: "i = length ws - 1" using less.prems(5) by simp
    moreover have "ws \<noteq> []" using less.prems(5) by auto
    ultimately have "ws ! i = last ws" by (simp add: last_conv_nth)
    then have "fetch_stops ws (4 * int i)" using less.prems(1) by (simp add: fetch_stops_def forward_program_def)
    then have "run_loop ws mx s n = Some (Inr (n, s))"
      unfolding f loop_body_def using q lt u by (simp add: translate_M [OF less.prems(3)])
    then show ?thesis using less.prems i by auto
  next
    case True
    then have m: "moves_on C ws i" using less.prems(1) by (simp add: forward_program_def)
    obtain s' j where s': "step s (ws ! i) = Inr s'" "i < j" "j < length ws" "pc s' = 4 * int j" "priv_mode s' = PRIV_M"
      using moves_on_step [OF less.prems(2,3) m True, of 0] less.prems(6,7) by auto
    have fr: "frame s' = frame s" using step_frame [OF s'(1)] .
    have "\<not> fetch_stops ws (4 * int i)"
      using moves_on_not_loop [OF m] less.prems(5) by (simp add: fetch_stops_def)
    then have r: "run_loop ws mx s n = run_loop ws mx s' (n + 1)"
      unfolding f loop_body_def using q lt u s'(1) by (simp add: translate_M [OF less.prems(3)])
    have "\<exists>k s''. run_loop ws mx s' (n + 1) = Some (Inr (k, s'')) \<and> n + 1 \<le> k \<and> k < n + 1 + int (length ws - j) \<and>
      pc s'' = 4 * int (length ws - 1) \<and> priv_mode s'' = PRIV_M \<and> iss_wf s'' \<and> frame s'' = frame s'"
      using less.hyps [of j s' "n + 1"] less.prems s' fr step_wf [OF less.prems(2) s'(1)]
      by (simp add: frame_def) 
    then show ?thesis unfolding r using s'(2,3) fr by fastforce
  qed
qed

end
