(* ===== verification/Random_Text.thy ===== *)
theory Random_Text
  imports Random_Gen Disasm_Fp Forward_Run
begin

text \<open>
  The lines of a generated program: what the assembler reads in them, the word each statement
  becomes and how that word continues.
\<close>

subsection \<open>Statements\<close>

lemma hd_comma_list: "ops \<noteq> [] \<Longrightarrow> list_all plain ops \<Longrightarrow> comma_list ops \<noteq> [] \<and> \<not> sep_char (hd (comma_list ops))"
  by (induction ops rule: comma_list.induct) (auto simp: plain_def list_all_iff hd_append)

lemma split_comma_list: "ops \<noteq> [] \<Longrightarrow> list_all plain ops \<Longrightarrow> re_split (comma_list ops) = ops"
proof (induction ops rule: comma_list.induct)
  case (3 a b rest)
  let ?r = "comma_list (b # rest)"
  have r: "?r \<noteq> []" "\<not> sep_char (hd ?r)" "re_split ?r = b # rest" using 3 hd_comma_list [of "b # rest"] by simp_all
  have a: "takeWhile (\<lambda>c. \<not> sep_char c) (a @ '', '' @ ?r) = a \<and> dropWhile (\<lambda>c. \<not> sep_char c) (a @ '', '' @ ?r) = '', '' @ ?r"
    by (rule takeWhile_dropWhile_append) (use 3 in \<open>auto simp: plain_def list_all_iff sep_char_def\<close>)
  have "dropWhile sep_char ('', '' @ ?r) = ?r" using r by (cases ?r) (auto simp: sep_char_def py_space_def)
  then show ?case using a r by (subst re_split.simps) simp
qed (simp_all add: split_plain)

lemma set_comma_list: "set (comma_list ops) \<subseteq> {CHR '','', CHR '' ''} \<union> \<Union> (set ` set ops)"
  by (induction ops rule: comma_list.induct) auto

lemma last_comma_list: "ops \<noteq> [] \<Longrightarrow> list_all plain ops \<Longrightarrow> last (comma_list ops) \<in> set (last ops)"
proof (induction ops rule: comma_list.induct)
  case (3 a b rest)
  then show ?case using hd_comma_list [of "b # rest"] by simp
qed (auto simp: plain_def)

lemma stmt_clean:
  assumes "plain mn" "ops \<noteq> []" "list_all plain ops"
  shows "clean_line (stmt mn ops) = stmt mn ops" "py_strip (stmt mn ops) = stmt mn ops" "is_stmt (stmt mn ops)"
    "re_split (stmt mn ops) = mn # ops" "newline \<notin> set (stmt mn ops)"
proof -
  let ?l = "stmt mn ops"
  have h: "CHR ''#'' \<notin> set ?l"
    using set_comma_list [of ops] assms by (fastforce simp: stmt_def plain_def list_all_iff)
  have p: "plain (last ops)" using assms(2,3) by (simp add: list_all_iff)
  have "last ?l \<in> set (last ops)" using last_comma_list [OF assms(2,3)] hd_comma_list [OF assms(2,3)] by (simp add: stmt_def)
  then have e: "\<not> py_space (last ?l)" "last ?l \<noteq> CHR '':''"
    using plain_space [OF p] p unfolding plain_def list_all_iff by blast+
  have f: "?l \<noteq> []" "\<not> py_space (hd ?l)"
    using assms(1) plain_space [of mn "hd mn"] by (auto simp: stmt_def plain_def)
  show "clean_line ?l = ?l" "py_strip ?l = ?l" "is_stmt ?l"
    using clean_text [OF f e(1) h] e(2) by blast+
  have "c \<in> set ?l \<Longrightarrow> c = CHR '','' \<or> c = CHR '' '' \<or> \<not> py_space c" for c
    using set_comma_list [of ops] plain_space [OF assms(1)] plain_space assms(3) by (fastforce simp: stmt_def list_all_iff)
  moreover have "newline \<noteq> CHR '',''" "newline \<noteq> CHR '' ''" "py_space newline" by code_simp+
  ultimately show "newline \<notin> set ?l" by blast
  show "re_split ?l = mn # ops"
    using split_sep [of mn "CHR '' ''" "comma_list ops"] hd_comma_list [of ops] split_comma_list [of ops] assms
    by (simp add: stmt_def sep_char_def py_space_def)
qed

definition assemble_op :: "label_map \<Rightarrow> nat \<Rightarrow> int \<Rightarrow> string \<Rightarrow> string list \<Rightarrow> int result" where
  "assemble_op ls xl a mn ops = (case assemble_int ls xl a mn ops of Some r \<Rightarrow> r | None \<Rightarrow> assemble_fp mn ops)"

lemma assemble_stmt_op:
  assumes "good_name mn" "ops \<noteq> []" "list_all plain ops"
  shows "assemble_stmt ls xl (a, clean_line (stmt mn ops)) = assemble_op ls xl a mn ops"
  using stmt_clean [OF _ assms(2,3), of mn] assms(1) by (simp add: assemble_stmt_def assemble_op_def good_name_def)

text \<open>A line that is one statement and whose word falls through.\<close>

definition tidy :: "string \<Rightarrow> bool" where
  "tidy l \<longleftrightarrow> l \<noteq> [] \<and> newline \<notin> set l \<and> clean_line l = l \<and> py_strip l = l"

definition fall_line :: "int set \<Rightarrow> nat \<Rightarrow> string \<Rightarrow> bool" where
  "fall_line C xl l \<longleftrightarrow> is_stmt l \<and> tidy l \<and> (\<forall>ls a. \<exists>w. assemble_stmt ls xl (a, clean_line l) = Inr w \<and> straight C w)"

lemma stmt_tidy: "plain mn \<Longrightarrow> ops \<noteq> [] \<Longrightarrow> list_all plain ops \<Longrightarrow> tidy (stmt mn ops)"
  using stmt_clean [of mn ops] by (simp add: tidy_def stmt_def)

lemma fall_lineI:
  assumes "good_name mn" "ops \<noteq> []" "list_all plain ops" "\<And>ls a. \<exists>w. assemble_op ls xl a mn ops = Inr w \<and> straight C w"
  shows "fall_line C xl (stmt mn ops)"
  using stmt_tidy [OF _ assms(2,3), of mn] stmt_clean(3) [OF _ assms(2,3), of mn] assemble_stmt_op [OF assms(1-3)] assms(1,4)
  by (simp add: fall_line_def good_name_def)

subsection \<open>Integer statements\<close>

lemma regs_arg:
  "i < length ops \<Longrightarrow> ops ! i = xr r \<Longrightarrow> fits r 5 \<Longrightarrow> reg_arg ops i = Inr r"
  "i < length ops \<Longrightarrow> ops ! i = fr r \<Longrightarrow> fits r 5 \<Longrightarrow> freg_arg ops i = Inr r"
  by (simp_all add: reg_arg_def freg_arg_def arg_def read_reg)

lemma based_text: "based off = mem_text off 31"
  by (simp add: based_def mem_text_def BASE_REG_def)

lemma base_arg: "i < length ops \<Longrightarrow> ops ! i = based off \<Longrightarrow> mem_arg ops i = Inr (Tok (show_int off), 31)"
proof -
  have r: "fits 31 5" by (simp add: fits_def)
  show "i < length ops \<Longrightarrow> ops ! i = based off \<Longrightarrow> mem_arg ops i = Inr (Tok (show_int off), 31)"
    using mem_operand_text [OF r, of off] read_reg(1) [OF r] by (simp add: mem_arg_def arg_def based_text)
qed

lemmas tokens = reg_plain show_int_plain mem_text_plain based_text

lemma key_good: "has_key t mn \<Longrightarrow> list_all good_name (map fst t) \<Longrightarrow> good_name mn"
  by (auto simp: has_key_iff list_all_iff)

lemma key_lookup: "has_key t k \<Longrightarrow> \<exists>v. lookup t k = Inr v"
  by (auto simp: has_key_def lookup_Inr)

lemma straight_key:
  "map_of R_TYPE mn = Some (f7_of w, f3_of w) \<Longrightarrow> op_of w = 0x33 \<Longrightarrow> straight C w"
  "map_of R_TYPE_W mn = Some (f7_of w, f3_of w) \<Longrightarrow> op_of w = 0x3B \<Longrightarrow> straight C w"
  "op_of w = 0x13 \<Longrightarrow> straight C w"
  "map_of I_TYPE_W mn = Some (f3_of w) \<Longrightarrow> op_of w = 0x1B \<Longrightarrow> straight C w"
  "map_of LOAD mn = Some (f3_of w) \<Longrightarrow> op_of w = 0x03 \<Longrightarrow> straight C w"
  "map_of STORE mn = Some (f3_of w) \<Longrightarrow> op_of w = 0x23 \<Longrightarrow> straight C w"
proof -
  have t: "list_all (\<lambda>(mn, f7, f3). f7 = 0 \<or> f7 = 1 \<or> f7 = 0x20) R_TYPE"
    "list_all (\<lambda>(mn, f7, f3). f7 = 1 \<or> f3 = 1 \<or> ((f3 = 0 \<or> f3 = 5) \<and> f7 \<in> {0, 0x20})) R_TYPE_W"
    "list_all (\<lambda>(mn, f3). f3 \<in> {0, 1, 5}) I_TYPE_W" "list_all (\<lambda>(mn, f3). f3 \<noteq> 7) LOAD" "list_all (\<lambda>(mn, f3). f3 < 4) STORE"
    by (simp_all add: table_defs)
  note b = t [unfolded list_all_iff, THEN bspec, OF map_of_SomeD]
  show "map_of R_TYPE mn = Some (f7_of w, f3_of w) \<Longrightarrow> op_of w = 0x33 \<Longrightarrow> straight C w"
    "map_of R_TYPE_W mn = Some (f7_of w, f3_of w) \<Longrightarrow> op_of w = 0x3B \<Longrightarrow> straight C w"
    "op_of w = 0x13 \<Longrightarrow> straight C w"
    "map_of I_TYPE_W mn = Some (f3_of w) \<Longrightarrow> op_of w = 0x1B \<Longrightarrow> straight C w"
    "map_of LOAD mn = Some (f3_of w) \<Longrightarrow> op_of w = 0x03 \<Longrightarrow> straight C w"
    "map_of STORE mn = Some (f3_of w) \<Longrightarrow> op_of w = 0x23 \<Longrightarrow> straight C w"
    by (auto simp: straight_def undefined_alu_def dest!: b)
qed

lemma fall_r:
  assumes "has_key R_TYPE mn" "fits rd 5" "fits rs1 5" "fits rs2 5"
  shows "fall_line C xl (stmt mn [xr rd, xr rs1, xr rs2])"
proof (rule fall_lineI)
  fix ls a
  obtain v where v: "lookup R_TYPE mn = Inr v" using key_lookup [OF assms(1)] by blast
  obtain w where w: "r_type mn rd rs1 rs2 = Inr w" using v by (cases v) (simp add: r_type_def)
  have "assemble_op ls xl a mn [xr rd, xr rs1, xr rs2] = Inr w"
    using w assms by (simp add: assemble_op_def dispatch_r regs_arg)
  moreover have "straight C w" using straight_key(1) r_type_fields(1,2) [OF w assms(2-4)] by blast
  ultimately show "\<exists>w. assemble_op ls xl a mn [xr rd, xr rs1, xr rs2] = Inr w \<and> straight C w" by blast
qed (use key_good [OF assms(1) good_names(1)] in \<open>simp_all add: tokens\<close>)

lemma fall_r_w:
  assumes "has_key R_TYPE_W mn" "fits rd 5" "fits rs1 5" "fits rs2 5"
  shows "fall_line C xl (stmt mn [xr rd, xr rs1, xr rs2])"
proof (rule fall_lineI)
  fix ls a
  obtain v where v: "lookup R_TYPE_W mn = Inr v" using key_lookup [OF assms(1)] by blast
  obtain w where w: "r_type_w mn rd rs1 rs2 = Inr w" using v by (cases v) (simp add: r_type_w_def)
  have "assemble_op ls xl a mn [xr rd, xr rs1, xr rs2] = Inr w"
    using w assms by (simp add: assemble_op_def dispatch_r_w regs_arg)
  moreover have "straight C w" using straight_key(2) r_type_w_fields(1,2) [OF w assms(2-4)] by blast
  ultimately show "\<exists>w. assemble_op ls xl a mn [xr rd, xr rs1, xr rs2] = Inr w \<and> straight C w" by blast
qed (use key_good [OF assms(1) good_names(2)] in \<open>simp_all add: tokens\<close>)

lemma fall_i:
  assumes "has_key I_TYPE mn" "mn \<notin> {''slli'', ''srli'', ''srai''}" "fits rd 5" "fits rs1 5" "- 2048 \<le> v" "v < 2048"
  shows "fall_line C xl (stmt mn [xr rd, xr rs1, show_int v])"
proof (rule fall_lineI)
  fix ls a
  obtain f3 where f3: "lookup I_TYPE mn = Inr f3" using key_lookup [OF assms(1)] by blast
  have "asm_imm (Tok (show_int v)) 12 True = Inr (v mod 2 ^ 12)"
    using assms(5,6) by (simp add: asm_imm_signed operand_show)
  then obtain w where w: "i_type mn rd rs1 (Tok (show_int v)) xl = Inr w"
    using f3 assms(2) by (simp add: i_type_def)
  have "assemble_op ls xl a mn [xr rd, xr rs1, show_int v] = Inr w"
    using w assms(1,3,4) by (simp add: assemble_op_def dispatch_i regs_arg arg_def)
  moreover have "straight C w" using i_type_fields [OF w assms(3,4,2)] straight_key(3) by blast
  ultimately show "\<exists>w. assemble_op ls xl a mn [xr rd, xr rs1, show_int v] = Inr w \<and> straight C w" by blast
qed (use key_good [OF assms(1) good_names(3)] in \<open>simp_all add: tokens\<close>)

lemma fall_shift:
  assumes "mn \<in> {''slli'', ''srli'', ''srai''}" "fits rd 5" "fits rs1 5" "0 \<le> v" "v < int xl" "xl = 32 \<or> xl = 64"
  shows "fall_line C xl (stmt mn [xr rd, xr rs1, show_int v])"
proof (rule fall_lineI)
  fix ls a
  have k: "has_key I_TYPE mn" using assms(1) by (auto simp: has_key_iff I_TYPE_def)
  obtain f3 where f3: "lookup I_TYPE mn = Inr f3" using key_lookup [OF k] by blast
  have "asm_imm (Tok (show_int v)) (if xl \<ge> 64 then 6 else 5) False = Inr v"
    using assms(4-6) by (auto simp: asm_imm_unsigned operand_show)
  then obtain w where w: "i_type mn rd rs1 (Tok (show_int v)) xl = Inr w"
    using f3 assms(1) by (cases "xl \<ge> 64") (simp_all add: i_type_def)
  have "assemble_op ls xl a mn [xr rd, xr rs1, show_int v] = Inr w"
    using w k assms(2,3) by (simp add: assemble_op_def dispatch_i regs_arg arg_def)
  moreover have "straight C w" using shift_imm_fields [OF w assms(2,3,1,6)] straight_key(3) by blast
  ultimately show "\<exists>w. assemble_op ls xl a mn [xr rd, xr rs1, show_int v] = Inr w \<and> straight C w" by blast
  show "good_name mn" by (rule key_good [OF k good_names(3)])
qed (simp_all add: tokens)

lemma i_w_op:
  assumes "i_type_w mn rd rs1 t = Inr w" "fits rd 5" "fits rs1 5"
  shows "map_of I_TYPE_W mn = Some (f3_of w)" "op_of w = 0x1B"
proof -
  from assms(1) obtain f3 e where t: "lookup I_TYPE_W mn = Inr f3"
    and w: "w = push_bit 20 (asm_u e 12) OR push_bit 15 rs1 OR push_bit 12 f3 OR push_bit 7 rd OR 0x1B"
    by (auto simp del: insert_iff simp: i_type_w_def rbind_Inr)
  from imm_fields [OF asm_u_fits [of e 12] assms(3) f3_lookup(2) [OF t] assms(2) op_fits(12), folded w] t
  show "map_of I_TYPE_W mn = Some (f3_of w)" "op_of w = 0x1B" by (simp_all add: lookup_Inr)
qed

lemma fall_i_w:
  assumes "has_key I_TYPE_W mn" "fits rd 5" "fits rs1 5"
    "if mn = ''addiw'' then - 2048 \<le> v \<and> v < 2048 else 0 \<le> v \<and> v < 32"
  shows "fall_line C xl (stmt mn [xr rd, xr rs1, show_int v])"
proof (rule fall_lineI)
  fix ls a
  obtain f3 where f3: "lookup I_TYPE_W mn = Inr f3" using key_lookup [OF assms(1)] by blast
  have k: "mn = ''addiw'' \<or> mn \<in> {''slliw'', ''srliw'', ''sraiw''}" using assms(1) by (auto simp: has_key_iff I_TYPE_W_def)
  have "mn = ''addiw'' \<Longrightarrow> asm_imm (Tok (show_int v)) 12 True = Inr (v mod 2 ^ 12)"
    "mn \<noteq> ''addiw'' \<Longrightarrow> asm_imm (Tok (show_int v)) 5 False = Inr v"
    using assms(4) by (auto simp: asm_imm_signed asm_imm_unsigned operand_show)
  then obtain w where w: "i_type_w mn rd rs1 (Tok (show_int v)) = Inr w"
    using f3 k by (auto simp: i_type_w_def)
  have "assemble_op ls xl a mn [xr rd, xr rs1, show_int v] = Inr w"
    using w assms(1-3) by (simp add: assemble_op_def dispatch_i_w regs_arg arg_def)
  moreover have "straight C w" using straight_key(4) i_w_op [OF w assms(2,3)] by blast
  ultimately show "\<exists>w. assemble_op ls xl a mn [xr rd, xr rs1, show_int v] = Inr w \<and> straight C w" by blast
qed (use key_good [OF assms(1) good_names(4)] in \<open>simp_all add: tokens\<close>)

lemma fall_load:
  assumes "has_key LOAD mn" "fits rd 5" "- 2048 \<le> off" "off < 2048"
  shows "fall_line C xl (stmt mn [xr rd, based off])"
proof (rule fall_lineI)
  fix ls a
  have r: "fits 31 5" by (simp add: fits_def)
  obtain f3 where f3: "lookup LOAD mn = Inr f3" using key_lookup [OF assms(1)] by blast
  have "asm_imm (Tok (show_int off)) 12 True = Inr (off mod 2 ^ 12)"
    using assms(3,4) by (simp add: asm_imm_signed operand_show)
  then obtain w where w: "load_enc mn rd (Tok (show_int off)) 31 = Inr w" using f3 by (simp add: load_enc_def)
  have "assemble_op ls xl a mn [xr rd, based off] = Inr w"
    using w assms(1,2) by (simp add: assemble_op_def dispatch_mem regs_arg base_arg)
  moreover have "straight C w" using load_enc_fields [OF w assms(2) r] straight_key(5) by metis
  ultimately show "\<exists>w. assemble_op ls xl a mn [xr rd, based off] = Inr w \<and> straight C w" by blast
qed (use key_good [OF assms(1) good_names(5)] in \<open>simp_all add: tokens\<close>)

lemma fall_store:
  assumes "has_key STORE mn" "fits rs2 5" "- 2048 \<le> off" "off < 2048"
  shows "fall_line C xl (stmt mn [xr rs2, based off])"
proof (rule fall_lineI)
  fix ls a
  have r: "fits 31 5" by (simp add: fits_def)
  obtain f3 where f3: "lookup STORE mn = Inr f3" using key_lookup [OF assms(1)] by blast
  have "asm_imm (Tok (show_int off)) 12 True = Inr (off mod 2 ^ 12)"
    using assms(3,4) by (simp add: asm_imm_signed operand_show)
  then obtain w where w: "store_enc mn rs2 (Tok (show_int off)) 31 = Inr w" using f3 by (simp add: store_enc_def)
  have "assemble_op ls xl a mn [xr rs2, based off] = Inr w"
    using w assms(1,2) by (simp add: assemble_op_def dispatch_mem regs_arg base_arg)
  moreover have "straight C w" using store_enc_fields [OF w assms(2) r] straight_key(6) by metis
  ultimately show "\<exists>w. assemble_op ls xl a mn [xr rs2, based off] = Inr w \<and> straight C w" by blast
qed (use key_good [OF assms(1) good_names(6)] in \<open>simp_all add: tokens\<close>)

lemma straight_csr: "op_of w = 0x73 \<Longrightarrow> f3_of w \<noteq> 0 \<Longrightarrow> csr_of w \<in> C \<Longrightarrow> straight C w"
  by (simp add: straight_def undefined_alu_def)

lemma csr_op_nonzero: "lookup CSR_OP mn = Inr f3 \<Longrightarrow> f3 \<noteq> 0"
  by (erule lookup_all [where P = "\<lambda>v. v \<noteq> 0"]) (simp add: CSR_OP_def)

lemma fall_csr:
  assumes "csr_lookup c = Inr ca" "plain c" "fits rd 5" "asm_u ca 12 \<in> C"
  shows "mn \<in> {''csrrw'', ''csrrs'', ''csrrc''} \<Longrightarrow> fits rs1 5 \<Longrightarrow> fall_line C xl (stmt mn [xr rd, c, xr rs1])"
    "mn \<in> {''csrrwi'', ''csrrsi'', ''csrrci''} \<Longrightarrow> fits u 5 \<Longrightarrow> fall_line C xl (stmt mn [xr rd, c, show_int u])"
proof -
  have e: "straight C (push_bit 20 (asm_u ca 12) OR push_bit 15 r OR push_bit 12 f3 OR push_bit 7 rd OR 0x73)"
    if "fits r 5" "lookup CSR_OP mn = Inr f3" for r f3
    using imm_fields(1,3,5) [OF asm_u_fits [of ca 12] that(1) f3_lookup(6) [OF that(2)] assms(3) op_fits(9)]
      csr_op_nonzero [OF that(2)] assms(4) fits_take_bit [THEN iffD1, OF asm_u_fits [of ca 12]] by (simp add: straight_csr csr_of_def mask_take)
  have g: "has_key CSR_OP mn \<Longrightarrow> good_name mn" by (rule key_good [OF _ good_names(8)])
  show "fall_line C xl (stmt mn [xr rd, c, xr rs1])" if m: "mn \<in> {''csrrw'', ''csrrs'', ''csrrc''}" and r: "fits rs1 5"
  proof (rule fall_lineI)
    have k: "has_key CSR_OP mn" using m by (rule key_members)
    show "good_name mn" by (rule g [OF k])
    obtain f3 where f3: "lookup CSR_OP mn = Inr f3" using key_lookup [OF k] by blast
    show "\<exists>w. assemble_op ls xl a mn [xr rd, c, xr rs1] = Inr w \<and> straight C w" for ls a
      using m r assms f3 e [OF r f3] by (simp add: assemble_op_def dispatch_csr regs_arg arg_def csr_reg_def del: insert_iff)
  qed (simp_all add: tokens assms)
  show "fall_line C xl (stmt mn [xr rd, c, show_int u])" if m: "mn \<in> {''csrrwi'', ''csrrsi'', ''csrrci''}" and r: "fits u 5"
  proof (rule fall_lineI)
    have k: "has_key CSR_OP mn" using m by (rule key_members)
    show "good_name mn" by (rule g [OF k])
    obtain f3 where f3: "lookup CSR_OP mn = Inr f3" using key_lookup [OF k] by blast
    have "asm_imm (Tok (show_int u)) 5 False = Inr u" using r by (simp add: asm_imm_unsigned operand_show fits_def)
    then show "\<exists>w. assemble_op ls xl a mn [xr rd, c, show_int u] = Inr w \<and> straight C w" for ls a
      using m r assms f3 e [OF r f3] by (simp add: assemble_op_def dispatch_csr regs_arg arg_def csr_imm_def del: insert_iff)
  qed (simp_all add: tokens assms)
qed

lemma fall_lui:
  assumes "fits rd 5" "fits v 20"
  shows "fall_line C xl (stmt ''lui'' [xr rd, hex0x v])"
proof (rule fall_lineI)
  have v: "0 \<le> v" "v < 2 ^ 20" using assms(2) by (simp_all add: fits_def)
  have i: "asm_imm (Tok (hex0x v)) 20 False = Inr v" using v hex_token(2) [of v] by (simp add: asm_imm_unsigned hex0x_def)
  let ?w = "push_bit 12 v OR push_bit 7 rd OR 0x37"
  have "op_of ?w = 0x37" unfolding field_take by (simp add: fields op_fits)
  then have s: "straight C ?w" by (simp add: straight_def undefined_alu_def)
  show "\<exists>w. assemble_op ls xl a ''lui'' [xr rd, hex0x v] = Inr w \<and> straight C w" for ls a
    using i s assms(1) by (simp add: assemble_op_def dispatch_single regs_arg arg_def u_type_def)
  show "good_name ''lui''" using good_names_single by simp
  show "list_all plain [xr rd, hex0x v]" using hex_token(1) [of v] v by (simp add: tokens hex0x_def)
qed simp

end
