(* ===== verification/Random_Fp.thy ===== *)
theory Random_Fp
  imports Random_Text
begin

subsection \<open>Floating-point statements\<close>

lemma rm_token:
  assumes "rm \<in> set RG_RM_NAMES"
  obtains r where "fits r 3" "\<And>ops i. i < length ops \<Longrightarrow> ops ! i = rm \<Longrightarrow> parse_rm ops i = Inr r" "plain rm"
proof -
  have "list_all (\<lambda>rm. \<exists>r \<in> {0, 1, 2, 3, 4, 7}. rm = rm_name r) RG_RM_NAMES"
    by (simp add: RG_RM_NAMES_def rm_name_def DIS_RM_NAMES_def get_name_def)
  with assms obtain r where r: "r \<in> {0, 1, 2, 3, 4, 7}" "rm = rm_name r" by (auto simp: list_all_iff)
  show ?thesis by (rule that [of r]) (use rm_read [OF r(1)] r(2) in auto)
qed

lemma dispatch_op_fp: "mn \<in> set fp_mnemonics \<Longrightarrow> assemble_op ls xl a mn ops = assemble_fp mn ops"
proof -
  assume "mn \<in> set fp_mnemonics"
  from bspec [OF not_int_keys [unfolded list_all_iff] this] show ?thesis by (simp add: assemble_op_def assemble_int_def)
qed

lemma fall_fpI:
  assumes "mn \<in> set fp_mnemonics" "good_name mn" "ops \<noteq> []" "list_all plain ops" "assemble_fp mn ops = Inr w" "straight C w"
  shows "fall_line C xl (stmt mn ops)"
  by (rule fall_lineI) (use assms in \<open>simp_all add: dispatch_op_fp\<close>)

lemma straight_fp:
  assumes "fits f5 5" "fits rs2 5" "fits rs1 5" "fits f3 3" "fits rd 5"
  shows "f5 \<in> {0, 1, 2, 3, 4, 5, 11, 20, 24, 26, 28, 30} \<Longrightarrow>
      straight C (push_bit 27 f5 OR push_bit 20 rs2 OR push_bit 15 rs1 OR push_bit 12 f3 OR push_bit 7 rd OR 0x53)"
    "op \<in> {0x43, 0x47, 0x4B, 0x4F} \<Longrightarrow>
      straight C (push_bit 27 f5 OR push_bit 20 rs2 OR push_bit 15 rs1 OR push_bit 12 f3 OR push_bit 7 rd OR op)"
proof -
  note f = fp_fields [OF assms]
  show "f5 \<in> {0, 1, 2, 3, 4, 5, 11, 20, 24, 26, 28, 30} \<Longrightarrow>
      straight C (push_bit 27 f5 OR push_bit 20 rs2 OR push_bit 15 rs1 OR push_bit 12 f3 OR push_bit 7 rd OR 0x53)"
    using f(1,6) [OF op_fits(13)] unfolding straight_def undefined_alu_def by simp
  assume op: "op \<in> {0x43, 0x47, 0x4B, 0x4F}"
  then have "fits op 7" by (auto simp: fits_def)
  from f(1) [OF this] op show "straight C (push_bit 27 f5 OR push_bit 20 rs2 OR push_bit 15 rs1 OR push_bit 12 f3 OR push_bit 7 rd OR op)"
    unfolding straight_def undefined_alu_def by auto
qed

lemma fall_fp_arith:
  assumes "has_key FP_ARITH mn" "fits rd 5" "fits rs1 5" "fits rs2 5" "rm \<in> set RG_RM_NAMES"
  shows "fall_line C xl (stmt mn [fr rd, fr rs1, fr rs2, rm])"
proof -
  obtain f5 where t: "lookup FP_ARITH mn = Inr f5" using key_lookup [OF assms(1)] by blast
  obtain r where r: "fits r 3" "\<And>ops i. i < length ops \<Longrightarrow> ops ! i = rm \<Longrightarrow> parse_rm ops i = Inr r" "plain rm"
    using rm_token [OF assms(5)] by blast
  have "f5 \<in> {0, 1, 2, 3}" using t by (rule lookup_all) (simp add: FP_ARITH_def)
  then have "straight C (fp_r_type f5 rd rs1 rs2 r)"
    unfolding fp_r_type_def by (intro straight_fp(1) assms r arith_fits [OF t]) auto
  then show ?thesis
    by (intro fall_fpI [OF fp_keys(1) [OF t] table_good(9) [OF t]])
       (use assms r in \<open>simp_all add: fp_table_arms(1) [OF t] regs_arg tokens\<close>)
qed

lemma fall_fp_sqrt:
  assumes "fits rd 5" "fits rs1 5" "rm \<in> set RG_RM_NAMES"
  shows "fall_line C xl (stmt ''fsqrt.s'' [fr rd, fr rs1, rm])"
proof -
  obtain r where r: "fits r 3" "\<And>ops i. i < length ops \<Longrightarrow> ops ! i = rm \<Longrightarrow> parse_rm ops i = Inr r" "plain rm"
    using rm_token [OF assms(3)] by blast
  have "straight C (fp_sqrt rd rs1 r)"
    unfolding fp_sqrt_def by (intro straight_fp(1) assms r fits_const fits_0_1) simp
  then show ?thesis
    by (intro fall_fpI) (use assms r single_names in \<open>simp_all add: fp_single_arms regs_arg tokens\<close>)
qed

lemma fall_fp_sgnj:
  assumes "has_key FP_SGNJ mn" "fits rd 5" "fits rs1 5" "fits rs2 5"
  shows "fall_line C xl (stmt mn [fr rd, fr rs1, fr rs2])"
proof -
  obtain f3 where t: "lookup FP_SGNJ mn = Inr f3" using key_lookup [OF assms(1)] by blast
  show ?thesis
    by (rule fall_fpI [OF fp_keys(2) [OF t] table_good(10) [OF t] _ _ _ straight_fp(1) [OF fits_const(6) assms(4,3) f3_lookup(7) [OF t] assms(2)]])
       (use assms t in \<open>simp_all add: fp_table_arms(2) [OF t] regs_arg tokens fp_sgnj_def\<close>)
qed

lemma fall_fp_minmax:
  assumes "has_key FP_MINMAX mn" "fits rd 5" "fits rs1 5" "fits rs2 5"
  shows "fall_line C xl (stmt mn [fr rd, fr rs1, fr rs2])"
proof -
  obtain f3 where t: "lookup FP_MINMAX mn = Inr f3" using key_lookup [OF assms(1)] by blast
  show ?thesis
    by (rule fall_fpI [OF fp_keys(3) [OF t] table_good(11) [OF t] _ _ _ straight_fp(1) [OF fits_const(7) assms(4,3) f3_lookup(8) [OF t] assms(2)]])
       (use assms t in \<open>simp_all add: fp_table_arms(3) [OF t] regs_arg tokens fp_minmax_def\<close>)
qed

lemma fall_fp_cmp:
  assumes "has_key FP_CMP mn" "fits rd 5" "fits rs1 5" "fits rs2 5"
  shows "fall_line C xl (stmt mn [xr rd, fr rs1, fr rs2])"
proof -
  obtain f3 where t: "lookup FP_CMP mn = Inr f3" using key_lookup [OF assms(1)] by blast
  show ?thesis
    by (rule fall_fpI [OF fp_keys(4) [OF t] table_good(12) [OF t] _ _ _ straight_fp(1) [OF fits_const(8) assms(4,3) f3_lookup(9) [OF t] assms(2)]])
       (use assms t in \<open>simp_all add: fp_table_arms(4) [OF t] regs_arg tokens fp_cmp_def\<close>)
qed

lemma fall_fp_cvt:
  assumes "fits rd 5" "fits rs1 5" "rm \<in> set RG_RM_NAMES"
  shows "mn \<in> set FP_CVT_TO_INT \<Longrightarrow> fall_line C xl (stmt mn [xr rd, fr rs1, rm])"
    "mn \<in> set FP_CVT_FROM_INT \<Longrightarrow> fall_line C xl (stmt mn [fr rd, xr rs1, rm])"
proof -
  obtain r where r: "fits r 3" "\<And>ops i. i < length ops \<Longrightarrow> ops ! i = rm \<Longrightarrow> parse_rm ops i = Inr r" "plain rm"
    using rm_token [OF assms(3)] by blast
  have s: "straight C (fp_cvt_w_s u rd rs1 r)" "straight C (fp_cvt_s_w u rd rs1 r)" for u
    unfolding fp_cvt_w_s_def fp_cvt_s_w_def Let_def by (intro straight_fp(1) assms r fits_const; simp)+
  show "fall_line C xl (stmt mn [xr rd, fr rs1, rm])" if "mn \<in> set FP_CVT_TO_INT"
  proof -
    have u: "mn = (if mn = ''fcvt.wu.s'' then ''fcvt.wu.s'' else ''fcvt.w.s'')" using that by (auto simp: FP_CVT_TO_INT_def)
    show ?thesis
      by (subst u, rule fall_fpI [OF _ _ _ _ _ s(1) [of "mn = ''fcvt.wu.s''"]])
         (use assms r single_names in \<open>simp_all add: fp_single_arms(4) [OF refl] regs_arg tokens\<close>)
  qed
  show "fall_line C xl (stmt mn [fr rd, xr rs1, rm])" if "mn \<in> set FP_CVT_FROM_INT"
  proof -
    have u: "mn = (if mn = ''fcvt.s.wu'' then ''fcvt.s.wu'' else ''fcvt.s.w'')" using that by (auto simp: FP_CVT_FROM_INT_def)
    show ?thesis
      by (subst u, rule fall_fpI [OF _ _ _ _ _ s(2) [of "mn = ''fcvt.s.wu''"]])
         (use assms r single_names in \<open>simp_all add: fp_single_arms(5) [OF refl] regs_arg tokens\<close>)
  qed
qed

lemma fall_fp_madd:
  assumes "has_key MADD_OPCODES mn" "fits rd 5" "fits rs1 5" "fits rs2 5" "fits rs3 5" "rm \<in> set RG_RM_NAMES"
  shows "fall_line C xl (stmt mn [fr rd, fr rs1, fr rs2, fr rs3, rm])"
proof -
  obtain op where t: "lookup MADD_OPCODES mn = Inr op" using key_lookup [OF assms(1)] by blast
  obtain r where r: "fits r 3" "\<And>ops i. i < length ops \<Longrightarrow> ops ! i = rm \<Longrightarrow> parse_rm ops i = Inr r" "plain rm"
    using rm_token [OF assms(6)] by blast
  have "op \<in> {0x43, 0x47, 0x4B, 0x4F}" using t by (rule lookup_all) (simp add: MADD_OPCODES_def)
  then have "straight C (fp_r4_type op rd rs1 rs2 rs3 r)"
    unfolding fp_r4_type_def by (intro straight_fp(2) assms r) 
  then show ?thesis
    by (intro fall_fpI [OF fp_keys(5) [OF t] table_good(13) [OF t]])
       (use assms r in \<open>simp_all add: fp_table_arms(5) [OF t] regs_arg tokens\<close>)
qed

lemma fall_fmv: "fits rd 5 \<Longrightarrow> fits rs1 5 \<Longrightarrow> fall_line C xl (stmt ''fmv.w.x'' [fr rd, xr rs1])"
proof (rule fall_fpI)
  show "fits rd 5 \<Longrightarrow> fits rs1 5 \<Longrightarrow> straight C (fp_mv_w_x rd rs1)"
    unfolding move_forms by (intro straight_fp(1) fits_const fits_0_1) simp_all
qed (use single_names in \<open>simp_all add: fp_single_arms regs_arg tokens\<close>)

lemma fall_fp_mem:
  assumes "fits r 5" "- 2048 \<le> off" "off < 2048"
  shows "fall_line C xl (stmt ''flw'' [fr r, based off])" "fall_line C xl (stmt ''fsw'' [fr r, based off])"
proof -
  have i: "asm_imm (Tok (show_int off)) 12 True = Inr (off mod 2 ^ 12)" using assms by (simp add: asm_imm_signed operand_show)
  have b: "fits 31 5" by (simp add: fits_def)
  let ?l = "push_bit 20 (asm_u (off mod 2 ^ 12) 12) OR push_bit 15 31 OR push_bit 12 2 OR push_bit 7 r OR 0x07"
  have "op_of ?l = 0x07" by (rule imm_fields(1) [OF asm_u_fits b fits_const(4) assms(1) op_fits(14)])
  then have l: "straight C ?l" unfolding straight_def undefined_alu_def by simp
  show "fall_line C xl (stmt ''flw'' [fr r, based off])"
    by (rule fall_fpI [OF _ _ _ _ _ l]) (use assms i single_names in \<open>simp_all add: fp_single_arms regs_arg base_arg tokens flw_enc_def\<close>)
  let ?s = "push_bit 25 (take_bit 7 (drop_bit 5 (off mod 2 ^ 12))) OR push_bit 20 r OR push_bit 15 31 OR push_bit 12 2 OR
    push_bit 7 (take_bit 5 (off mod 2 ^ 12)) OR 0x27"
  have "op_of ?s = 0x27"
    by (rule word_fields(1) [OF fits_take_self assms(1) b fits_const(4) fits_take_self op_fits(15)])
  then have s: "straight C ?s" unfolding straight_def undefined_alu_def by simp
  show "fall_line C xl (stmt ''fsw'' [fr r, based off])"
    by (rule fall_fpI [OF _ _ _ _ _ s])
       (use assms i single_names in \<open>simp_all add: fp_single_arms regs_arg base_arg tokens fsw_enc_def mask_take\<close>)
qed

end
