(* ===== verification/Random_Items.thy ===== *)
theory Random_Items
  imports Random_Fp
begin

text \<open>
  Every draw of the generator: rules for \<^const>\<open>pred_state\<close>, the predicate that all results of
  a computation on the tape satisfy, and the items it can produce.
\<close>

subsection \<open>Draws\<close>

lemma every_return: "P x \<Longrightarrow> pred_state P (State_Monad.return x)"
  by (rule pred_stateI) (auto simp: State_Monad.return_def)

lemma every_bind: "pred_state Q m \<Longrightarrow> (\<And>x. Q x \<Longrightarrow> pred_state P (f x)) \<Longrightarrow> pred_state P (State_Monad.bind m f)"
  by (rule pred_stateI) (auto split: prod.splits)

lemma every_choice: "xs \<noteq> [] \<Longrightarrow> pred_state (\<lambda>x. x \<in> set xs) (choice xs)"
  unfolding choice_def by (rule every_bind [where Q = "\<lambda>_. True"]) (auto intro!: every_return pred_stateI)

lemma every_randint: "a \<le> b \<Longrightarrow> pred_state (\<lambda>v. a \<le> v \<and> v \<le> b) (randint a b)"
proof -
  assume "a \<le> b"
  then have "a \<le> a + int k mod (b - a + 1) \<and> a + int k mod (b - a + 1) \<le> b" for k
    using pos_mod_bound [of "b - a + 1" "int k"] by simp
  then show ?thesis unfolding randint_def
    by (intro every_bind [where Q = "\<lambda>_. True"] every_return) (blast intro: pred_stateI)+
qed

lemma every_coin: "pred_state (\<lambda>_. True) coin"
  by (rule pred_stateI) simp

lemma randrange_bound: "0 < w \<Longrightarrow> 0 < stop \<Longrightarrow> 0 \<le> w * (k mod ((stop + w - 1) div w)) \<and> w * (k mod ((stop + w - 1) div w)) < stop"
  for k w stop :: int
proof -
  assume a: "0 < w" "0 < stop"
  define q where "q = (stop + w - 1) div w"
  have q: "0 < q" unfolding q_def using a by (simp add: pos_imp_zdiv_pos_iff)
  have "w * q \<le> stop + w - 1" unfolding q_def using a by (metis add.commute le_add_same_cancel1 mult_div_mod_eq pos_mod_sign)
  moreover have "0 \<le> k mod q" "k mod q \<le> q - 1" using q pos_mod_bound [OF q, of k] by simp_all
  moreover from this a have "w * (k mod q) \<le> w * (q - 1)" by (intro mult_left_mono) simp_all
  ultimately have "w * (k mod q) \<le> w * (q - 1)" "0 \<le> w * (k mod q)" "w * (q - 1) < stop"
    using a by (simp_all add: right_diff_distrib)
  then show ?thesis unfolding q_def by linarith
qed

lemma every_offset: "0 < w \<Longrightarrow> pred_state (\<lambda>off. 0 \<le> off \<and> off < 2048) (gen_offset c w)"
proof -
  assume w: "0 < w"
  let ?m = "min (g_space c - g_base c - w) 2047"
  show ?thesis
  proof (cases "0 \<le> ?m")
    case True
    have "pred_state (\<lambda>off. 0 \<le> off \<and> off < ?m + 1) (randrange0 (?m + 1) w)"
      unfolding randrange0_def
      by (rule every_bind [where Q = "\<lambda>_. True"], rule pred_stateI, simp, rule every_return, rule randrange_bound) (use w True in simp_all)
    then show ?thesis unfolding gen_offset_def Let_def if_P [OF True] by (rule state.pred_mono_strong) simp
  next
    case False
    then show ?thesis unfolding gen_offset_def Let_def by (simp only: if_False) (rule every_return, simp)
  qed
qed

lemma pick_member: "xs \<noteq> [] \<Longrightarrow> pick_weighted xs k \<in> fst ` set xs"
  by (induction xs k rule: pick_weighted.induct) auto

lemmas every_choice_bind = every_choice [THEN every_bind]
lemmas every_randint_bind = every_randint [THEN every_bind]
lemmas every_coin_bind = every_coin [THEN every_bind]
lemmas every_offset_bind = every_offset [THEN every_bind]

lemma every_if: "(b \<Longrightarrow> pred_state P x) \<Longrightarrow> (\<not> b \<Longrightarrow> pred_state P y) \<Longrightarrow> pred_state P (if b then x else y)"
  by simp

lemma every_if_bind:
  "(b \<Longrightarrow> pred_state P (State_Monad.bind x f)) \<Longrightarrow> (\<not> b \<Longrightarrow> pred_state P (State_Monad.bind y f)) \<Longrightarrow>
     pred_state P (State_Monad.bind (if b then x else y) f)"
  by simp

subsection \<open>Items\<close>

definition good_item :: "int set \<Rightarrow> nat \<Rightarrow> item \<Rightarrow> bool" where
  "good_item C xl it \<longleftrightarrow>
     (case it of
        Line l \<Rightarrow> fall_line C xl l
      | GBranch mn rs1 rs2 \<Rightarrow> has_key BRANCH mn \<and> fits rs1 5 \<and> fits rs2 5
      | GJal rd \<Rightarrow> fits rd 5)"

lemma good_item_simps [simp]: "good_item C xl (Line l) = fall_line C xl l"
  "good_item C xl (GBranch mn rs1 rs2) \<longleftrightarrow> has_key BRANCH mn \<and> fits rs1 5 \<and> fits rs2 5" "good_item C xl (GJal rd) = fits rd 5"
  by (simp_all add: good_item_def)

lemma gp_fits: "r \<in> set GP_REGS \<Longrightarrow> fits r 5" and f_fits: "r \<in> set FREGS \<Longrightarrow> fits r 5"
  by (auto simp: GP_REGS_def FREGS_def fits_def)

lemma pools: "GP_REGS \<noteq> []" "FREGS \<noteq> []" "RG_R_TYPE \<noteq> []" "RG_R_TYPE_W \<noteq> []" "RG_I_TYPE \<noteq> []" "RG_I_TYPE_W \<noteq> []"
  "SHIFT_I \<noteq> []" "RG_BRANCH \<noteq> []" "CSR_REG_OP \<noteq> []" "CSR_IMM_OP \<noteq> []" "load_mnemonics c \<noteq> []" "store_mnemonics c \<noteq> []"
  "RG_FP_ARITH \<noteq> []" "RG_FP_SGNJ \<noteq> []" "RG_FP_MINMAX \<noteq> []" "RG_FP_CMP \<noteq> []" "FP_CVT_TO_INT \<noteq> []" "FP_CVT_FROM_INT \<noteq> []"
  "FMADD_FAMILY \<noteq> []" "RG_RM_NAMES \<noteq> []" "FCSR_NAMES \<noteq> []"
  by (simp_all add: GP_REGS_def FREGS_def RG_R_TYPE_def RG_R_TYPE_W_def RG_I_TYPE_def RG_I_TYPE_W_def SHIFT_I_def RG_BRANCH_def
      CSR_REG_OP_def CSR_IMM_OP_def load_mnemonics_def store_mnemonics_def RG_FP_ARITH_def RG_FP_SGNJ_def RG_FP_MINMAX_def
      RG_FP_CMP_def FP_CVT_TO_INT_def FP_CVT_FROM_INT_def FMADD_FAMILY_def RG_RM_NAMES_def FCSR_NAMES_def)

lemma pool_keys:
  "mn \<in> set RG_R_TYPE \<Longrightarrow> has_key R_TYPE mn" "mn \<in> set RG_R_TYPE_W \<Longrightarrow> has_key R_TYPE_W mn"
  "mn \<in> set RG_I_TYPE \<Longrightarrow> has_key I_TYPE mn \<and> mn \<notin> {''slli'', ''srli'', ''srai''}" "mn \<in> set RG_I_TYPE_W \<Longrightarrow> has_key I_TYPE_W mn"
  "mn \<in> set (load_mnemonics c) \<Longrightarrow> has_key LOAD mn" "mn \<in> set (store_mnemonics c) \<Longrightarrow> has_key STORE mn"
  "mn \<in> set RG_BRANCH \<Longrightarrow> has_key BRANCH mn" "mn \<in> set RG_FP_ARITH \<Longrightarrow> has_key FP_ARITH mn"
  "mn \<in> set RG_FP_SGNJ \<Longrightarrow> has_key FP_SGNJ mn" "mn \<in> set RG_FP_MINMAX \<Longrightarrow> has_key FP_MINMAX mn"
  "mn \<in> set RG_FP_CMP \<Longrightarrow> has_key FP_CMP mn" "mn \<in> set FMADD_FAMILY \<Longrightarrow> has_key MADD_OPCODES mn"
proof -
  have l: "mn \<in> set xs \<Longrightarrow> list_all P xs \<Longrightarrow> P mn" for xs P by (simp add: list_all_iff)
  show "mn \<in> set RG_R_TYPE \<Longrightarrow> has_key R_TYPE mn" "mn \<in> set RG_R_TYPE_W \<Longrightarrow> has_key R_TYPE_W mn"
    "mn \<in> set RG_I_TYPE \<Longrightarrow> has_key I_TYPE mn \<and> mn \<notin> {''slli'', ''srli'', ''srai''}" "mn \<in> set RG_I_TYPE_W \<Longrightarrow> has_key I_TYPE_W mn"
    "mn \<in> set RG_BRANCH \<Longrightarrow> has_key BRANCH mn" "mn \<in> set RG_FP_ARITH \<Longrightarrow> has_key FP_ARITH mn"
    "mn \<in> set RG_FP_SGNJ \<Longrightarrow> has_key FP_SGNJ mn" "mn \<in> set RG_FP_MINMAX \<Longrightarrow> has_key FP_MINMAX mn"
    "mn \<in> set RG_FP_CMP \<Longrightarrow> has_key FP_CMP mn" "mn \<in> set FMADD_FAMILY \<Longrightarrow> has_key MADD_OPCODES mn"
    by (erule l, code_simp)+
  show "mn \<in> set (load_mnemonics c) \<Longrightarrow> has_key LOAD mn" "mn \<in> set (store_mnemonics c) \<Longrightarrow> has_key STORE mn"
    by (auto simp: load_mnemonics_def store_mnemonics_def has_key_iff table_defs split: if_splits)
qed

lemma mem_width_pos: "0 < mem_width mn"
  by (simp add: mem_width_def)

lemma csr_names_read:
  "c \<in> set RG_CSR_NAMES \<Longrightarrow> (\<exists>a. csr_lookup c = Inr a) \<and> plain c"
  "name \<in> set FCSR_NAMES \<Longrightarrow> \<exists>d. map_of FCSR_ADDR name = Some d \<and> (\<exists>a \<in> {1, 2, 3}. csr_lookup d = Inr a \<and> asm_u a 12 = a) \<and> plain d"
proof -
  have "list_all (\<lambda>c. \<not> isl (csr_lookup c) \<and> plain c) RG_CSR_NAMES"
    "list_all (\<lambda>name. case map_of FCSR_ADDR name of None \<Rightarrow> False
        | Some d \<Rightarrow> csr_lookup d \<in> set [Inr 1, Inr 2, Inr 3] \<and> plain d) FCSR_NAMES" "asm_u 1 12 = 1" "asm_u 2 12 = 2" "asm_u 3 12 = 3"
    by code_simp+
  note t = this(1,2) [unfolded list_all_iff, THEN bspec] and u = this(3-5)
  have r: "\<not> isl x \<Longrightarrow> \<exists>a. x = Inr a" for x :: "int result" by (cases x) simp_all
  show "c \<in> set RG_CSR_NAMES \<Longrightarrow> (\<exists>a. csr_lookup c = Inr a) \<and> plain c"
    using t(1) [of c] r by blast
  show "name \<in> set FCSR_NAMES \<Longrightarrow>
      \<exists>d. map_of FCSR_ADDR name = Some d \<and> (\<exists>a \<in> {1, 2, 3}. csr_lookup d = Inr a \<and> asm_u a 12 = a) \<and> plain d"
    using t(2) [of name] u by (cases "map_of FCSR_ADDR name") auto
qed

lemma good_csr: "csr_lookup c = Inr a \<Longrightarrow> plain c \<Longrightarrow> asm_u a 12 \<in> C \<Longrightarrow> pred_state (good_item C xl) (gen_csr c)"
  unfolding gen_csr_def
  by (intro every_choice_bind every_randint_bind every_coin_bind every_if every_return pools)
     (auto intro!: fall_csr simp: gp_fits CSR_REG_OP_def CSR_IMM_OP_def, auto simp: fits_def)

text \<open>The CSRs of a configuration are named ones with addresses in \<open>C\<close>, as are the three floating-point CSRs.\<close>

definition config_ok :: "int set \<Rightarrow> gen_config \<Rightarrow> bool" where
  "config_ok C c \<longleftrightarrow> (g_xlen c = 32 \<or> g_xlen c = 64) \<and> g_csrs c \<noteq> [] \<and> set (g_csrs c) \<subseteq> set RG_CSR_NAMES \<and>
     (\<forall>n a. n \<in> set (g_csrs c) \<longrightarrow> csr_lookup n = Inr a \<longrightarrow> asm_u a 12 \<in> C) \<and> {1, 2, 3} \<subseteq> C"

lemmas draw_rules = every_choice_bind every_randint_bind every_coin_bind every_offset_bind every_if every_if_bind every_return pools

lemmas fall_rules = fall_r fall_r_w fall_i fall_shift fall_i_w fall_load fall_store

lemma good_int:
  assumes "config_ok C c"
  shows "pred_state (good_item C (g_xlen c)) (gen_int c kind)"
proof -
  have xl: "g_xlen c = 32 \<or> g_xlen c = 64" and cs: "g_csrs c \<noteq> []" "\<And>n. n \<in> set (g_csrs c) \<Longrightarrow> n \<in> set RG_CSR_NAMES"
    using assms by (auto simp: config_ok_def)
  have csr: "pred_state (good_item C (g_xlen c)) (gen_csr n)" if "n \<in> set (g_csrs c)" for n
    using csr_names_read(1) [OF cs(2) [OF that]] good_csr assms that unfolding config_ok_def by blast
  have sh: "x \<in> set SHIFT_I \<Longrightarrow> x \<in> {''slli'', ''srli'', ''srai''}" for x by (simp add: SHIFT_I_def)
  show ?thesis unfolding gen_int_def
    by (intro draw_rules cs csr mem_width_pos)
       (use xl in \<open>auto simp del: insert_iff simp: fall_rules gp_fits pool_keys pools sh split: if_splits\<close>)
qed

lemma good_fp: "{1, 2, 3} \<subseteq> C \<Longrightarrow> pred_state (good_item C xl) (gen_fp c kind)"
proof -
  assume C: "{1, 2, 3} \<subseteq> C"
  have csr: "pred_state (good_item C xl) (gen_csr (case map_of FCSR_ADDR n of None \<Rightarrow> [] | Some a \<Rightarrow> a))" if "n \<in> set FCSR_NAMES" for n
    using csr_names_read(2) [OF that] good_csr C by fastforce
  show ?thesis unfolding gen_fp_def
    by (intro draw_rules csr)
       (auto simp: fall_fp_arith fall_fp_sqrt fall_fp_sgnj fall_fp_minmax fall_fp_cmp fall_fp_cvt fall_fp_madd fall_fp_mem
         gp_fits f_fits pool_keys pools split: if_splits)
qed

lemma good_instr: "config_ok C c \<Longrightarrow> pred_state (good_item C (g_xlen c)) (gen_instr c)"
  unfolding gen_instr_def
  by (rule every_bind [where Q = "\<lambda>_. True"], rule pred_stateI, simp, intro every_if good_int good_fp) (simp_all add: config_ok_def)

lemma good_instrs:
  "config_ok C c \<Longrightarrow> pred_state (\<lambda>its. list_all (good_item C (g_xlen c)) its \<and> length its = n) (gen_instrs c n)"
proof (induction n)
  case (Suc n)
  show ?case unfolding gen_instrs.simps
    by (rule every_bind [OF good_instr [OF Suc.prems]], rule every_bind [OF Suc.IH [OF Suc.prems]], rule every_return) simp
qed (simp add: every_return)

end
