(* ===== verification/Random_Labels.thy ===== *)
theory Random_Labels
  imports Random_Items
begin

text \<open>
  The second pass of the generator and the assembler's view of the result: every branch and jump
  names a label that some later line defines, so the words form a forward program.
\<close>

subsection \<open>Lines that only jump forward\<close>

definition jump_line :: "nat \<Rightarrow> string \<Rightarrow> string \<Rightarrow> bool" where
  "jump_line xl l target \<longleftrightarrow> is_stmt l \<and> tidy l \<and>
     (\<forall>ls a t. ls target = Some t \<longrightarrow> a < t \<longrightarrow> t - a < 4096 \<longrightarrow> even (t - a) \<longrightarrow>
        (\<exists>w. assemble_stmt ls xl (a, clean_line l) = Inr w \<and>
           (op_of w = 0x63 \<and> branch_off w = t - a \<or> op_of w = 0x6F \<and> jal_off w = t - a)))"

definition forward_line :: "int set \<Rightarrow> nat \<Rightarrow> string list \<Rightarrow> string \<Rightarrow> bool" where
  "forward_line C xl later l \<longleftrightarrow>
     fall_line C xl l \<or> (\<exists>target. jump_line xl l target \<and> (\<exists>y \<in> set later. defines_label y target))"

fun forward_lines :: "int set \<Rightarrow> nat \<Rightarrow> string list \<Rightarrow> bool" where
  "forward_lines C xl [] = True"
| "forward_lines C xl (l # later) \<longleftrightarrow> tidy l \<and> (is_stmt l \<longrightarrow> forward_line C xl later l) \<and> forward_lines C xl later"

lemma forward_line_mono: "forward_line C xl later l \<Longrightarrow> set later \<subseteq> set later' \<Longrightarrow> forward_line C xl later' l"
  by (auto simp: forward_line_def)

lemma forward_lines_falls: "list_all (fall_line C xl) ls \<Longrightarrow> forward_lines C xl tail \<Longrightarrow> forward_lines C xl (ls @ tail)"
  by (induction ls) (auto simp: forward_line_def fall_line_def)

lemma forward_lines_text: "forward_lines C xl ls \<Longrightarrow> l \<in> set ls \<Longrightarrow> tidy l"
  by (induction ls) auto

abbreviation stmts :: "string list \<Rightarrow> nat" where
  "stmts lines \<equiv> length (filter is_stmt lines)"

lemma nth_stmt:
  "i < stmts lines \<Longrightarrow> \<exists>xs l ys. lines = xs @ l # ys \<and> stmts xs = i \<and> is_stmt l \<and> filter is_stmt lines ! i = l"
proof (induction lines arbitrary: i)
  case (Cons x lines)
  show ?case
  proof (cases "is_stmt x \<and> i = 0")
    case True
    then show ?thesis by (intro exI [of _ "[]"] exI [of _ x] exI [of _ lines]) simp
  next
    case False
    define j where "j = (if is_stmt x then i - 1 else i)"
    have "j < stmts lines" using Cons.prems False by (auto simp: j_def)
    from Cons.IH [OF this] obtain xs l ys where d: "lines = xs @ l # ys" "stmts xs = j" "is_stmt l" "filter is_stmt lines ! j = l" by blast
    then show ?thesis using False by (intro exI [of _ "x # xs"] exI [of _ l] exI [of _ ys]) (auto simp: j_def nth_append)
  qed
qed simp

lemma forward_nth: "forward_lines C xl (xs @ l # ys) \<Longrightarrow> is_stmt l \<Longrightarrow> forward_line C xl ys l"
  by (induction xs) auto

subsection \<open>Labels\<close>

lemma label_address_some: "y \<in> set ys \<Longrightarrow> defines_label y l \<Longrightarrow> label_address ys a l \<noteq> None"
proof (induction ys arbitrary: a)
  case (Cons x ys)
  let ?r = "label_address ys (if is_stmt x then a + 4 else a) l"
  show ?case
  proof (cases ?r)
    case None
    with Cons.IH [of "if is_stmt x then a + 4 else a"] Cons.prems have "y = x" by (simp only: set_simps insert_iff) blast
    with None Cons.prems(2) show ?thesis by simp
  qed simp
qed simp

lemma stmt_no_label: "is_stmt l \<Longrightarrow> \<not> defines_label l t"
  by (simp add: is_stmt_def defines_label_def)

lemma forward_label:
  assumes "y \<in> set ys" "defines_label y l" "is_stmt x" "is_stmt lst"
  obtains j where "label_address (xs @ x # ys @ [lst]) 0 l = Some (4 * int j)" "stmts xs < j" "j < stmts (xs @ x # ys @ [lst])"
proof -
  let ?a = "4 * int (stmts xs) + 4"
  from label_address_some [OF assms(1,2), of ?a] obtain b where b: "label_address ys ?a l = Some b" by auto
  from label_address_bounds [OF b] obtain k where k: "k \<le> stmts ys" "b = ?a + 4 * int k" by blast
  have "label_address (x # ys @ [lst]) (4 * int (stmts xs)) l = Some b"
    using b assms(3,4) label_address_append [of ys "[lst]" ?a l] by (simp add: stmt_no_label add.commute)
  then have "label_address (xs @ x # ys @ [lst]) 0 l = Some b"
    using label_address_append [of xs "x # ys @ [lst]" 0 l] by simp
  then show ?thesis using that [of "stmts xs + 1 + k"] k assms(3,4) by simp
qed

subsection \<open>Assembling forward lines\<close>

lemma forward_assemble:
  assumes "forward_lines C xl body" "is_stmt lst" "stmts body < 1000"
    and w: "assemble_stmt (labels_of (body @ [lst])) xl (4 * int (stmts body), clean_line lst) = Inr w" "is_self_loop w"
  obtains ws where "assemble (body @ [lst]) xl = Inr ws" "forward_program C ws" "length ws = stmts body + 1"
proof -
  let ?L = "labels_of (body @ [lst])" and ?s = "\<lambda>i. clean_line (filter is_stmt (body @ [lst]) ! i)" and ?n = "stmts body"
  have ok: "\<exists>v. assemble_stmt ?L xl (4 * int i, ?s i) = Inr v \<and>
      (straight C v \<or> (\<exists>j. i < j \<and> j < ?n + 1 \<and>
        (op_of v = 0x63 \<and> branch_off v = 4 * (int j - int i) \<or> op_of v = 0x6F \<and> jal_off v = 4 * (int j - int i))))"
    if i: "i < ?n" for i
  proof -
    obtain xs l ys where d: "body = xs @ l # ys" "stmts xs = i" "is_stmt l" "filter is_stmt body ! i = l"
      using nth_stmt [OF i] by blast
    have s: "?s i = clean_line l" using i d(4) by (simp add: nth_append)
    consider "fall_line C xl l" | t y where "jump_line xl l t" "y \<in> set ys" "defines_label y t"
      using forward_nth [OF assms(1) [unfolded d(1)] d(3)] by (auto simp: forward_line_def)
    then show ?thesis
    proof cases
      case 1
      then show ?thesis unfolding s fall_line_def by blast
    next
      case 2
      obtain j where j: "?L t = Some (4 * int j)" "i < j" "j < ?n + 1"
        using forward_label [OF 2(2,3) d(3) assms(2), of xs] d assms(2) by auto
      have "4 * int i < 4 * int j" "4 * int j - 4 * int i < 4096" "even (4 * int j - 4 * int i)" using j assms(3) by simp_all
      from 2(1) [unfolded jump_line_def, THEN conjunct2, THEN conjunct2, rule_format, of ?L "4 * int j" "4 * int i", OF j(1) this]
      show ?thesis unfolding s using j(2,3) by (auto simp: right_diff_distrib)
    qed
  qed
  have last: "?s ?n = clean_line lst" using assms(2) by (simp add: nth_append)
  have "\<exists>v. assemble_stmt ?L xl (4 * int i, ?s i) = Inr v" if "i < ?n + 1" for i
    using ok [of i] w(1) last that by (cases "i < ?n") (auto simp: less_Suc_eq)
  then obtain f where f: "\<And>i. i < ?n + 1 \<Longrightarrow> assemble_stmt ?L xl (4 * int i, ?s i) = Inr (f i)" by metis
  define ws where "ws = map f [0..<?n + 1]"
  have l: "length ws = ?n + 1" by (simp add: ws_def)
  have a: "assemble_stmt ?L xl (4 * int i, ?s i) = Inr (ws ! i)" if "i < ?n + 1" for i
    using f [OF that] that by (simp only: ws_def nth_map_upt) simp
  have asm: "assemble (body @ [lst]) xl = Inr ws" unfolding assemble_words using a l assms(2) by simp
  have "ws ! ?n = w" using a [of ?n] w(1) last by simp
  then have self: "is_self_loop (last ws)" using w(2) l by (metis add_diff_cancel_right' last_conv_nth length_0_conv One_nat_def Suc_eq_plus1 nat.distinct(1))
  have "moves_on C ws i" if "i + 1 < length ws" for i
    using ok [of i] a [of i] that l unfolding moves_on_def by fastforce
  then have "forward_program C ws" using self l by (auto simp: forward_program_def)
  with asm l that show ?thesis by blast
qed

end
