(* ===== verification/Random_Program.thy ===== *)
theory Random_Program
  imports Random_Labels
begin

text \<open>
  Whole generated programs: the labels the second pass emits, the number of statements, and that
  the assembled words run to the halt loop.
\<close>

subsection \<open>Jumps to labels\<close>

lemma label_name_plain: "plain (label_name t)"
  using show_int_plain [of t] by (auto simp: label_name_def plain_def sep_char_def py_space_def)

lemma label_colon:
  "clean_line (label_name t @ '':'') = label_name t @ '':''" "\<not> is_stmt (label_name t @ '':'')"
  "defines_label (label_name t @ '':'') (label_name t)" "tidy (label_name t @ '':'')"
proof -
  have p: "plain (label_name t)" by (rule label_name_plain)
  show c: "clean_line (label_name t @ '':'') = label_name t @ '':''"
    by (rule clean_text(1)) (use p plain_space [OF p] in \<open>auto simp: plain_def list_all_iff py_space_def hd_append\<close>)
  have s: "py_strip (label_name t @ '':'') = label_name t @ '':''"
    by (rule clean_text(2)) (use p plain_space [OF p] in \<open>auto simp: plain_def list_all_iff py_space_def hd_append\<close>)
  show "\<not> is_stmt (label_name t @ '':'')" by (simp add: is_stmt_def c)
  show "defines_label (label_name t @ '':'') (label_name t)" using plain_strip [OF p] by (simp add: defines_label_def c)
  have "newline \<noteq> CHR '':''" "newline \<notin> set (label_name t)"
    using plain_space [OF p, of newline] newline_space(1) by (code_simp, blast)
  then show "tidy (label_name t @ '':'')" using c s by (simp add: tidy_def)
qed

lemma resolve_known: "ls l = Some t \<Longrightarrow> plain l \<Longrightarrow> resolve ls l a = Inr (t - a)"
  by (simp add: resolve_def plain_strip)

lemma branch_accepts:
  assumes "has_key BRANCH mn" "0 < d" "d < 4096" "even d"
  shows "\<exists>w. branch_enc mn rs1 rs2 d = Inr w"
proof -
  obtain f3 where "lookup BRANCH mn = Inr f3" using key_lookup [OF assms(1)] by blast
  moreover have "asm_imm (Num d) 13 True = Inr (d mod 2 ^ 13)" using assms(2,3) by (simp add: asm_imm_signed operand_int_def)
  moreover have "d mod 2 ^ 13 AND 1 = 0" using assms(4) by (simp add: and_mod_1 mod_mod_cancel even_iff_mod_2_eq_zero)
  ultimately show ?thesis by (simp add: branch_enc_def Let_def)
qed

lemma jal_accepts:
  assumes "0 \<le> d" "d < 4096" "even d"
  shows "\<exists>w. jal_enc rd d = Inr w"
proof -
  have "asm_imm (Num d) 21 True = Inr (d mod 2 ^ 21)" using assms(1,2) by (simp add: asm_imm_signed operand_int_def)
  moreover have "d mod 2 ^ 21 AND 1 = 0" using assms(3) by (simp add: and_mod_1 mod_mod_cancel even_iff_mod_2_eq_zero)
  ultimately show ?thesis by (simp add: jal_enc_def Let_def)
qed

lemma jump_branch:
  assumes "has_key BRANCH mn" "fits rs1 5" "fits rs2 5"
  shows "jump_line xl (stmt mn [xr rs1, xr rs2, label_name t]) (label_name t)"
proof -
  have p: "list_all plain [xr rs1, xr rs2, label_name t]" by (simp add: tokens label_name_plain)
  have g: "good_name mn" by (rule key_good [OF assms(1) good_names(7)])
  have "\<exists>w. assemble_stmt ls xl (a, clean_line (stmt mn [xr rs1, xr rs2, label_name t])) = Inr w \<and> op_of w = 0x63 \<and> branch_off w = b - a"
    if d: "ls (label_name t) = Some b" "a < b" "b - a < 4096" "even (b - a)" for ls a b
  proof -
    obtain w where w: "branch_enc mn rs1 rs2 (b - a) = Inr w" using branch_accepts [OF assms(1), of "b - a" rs1 rs2] d by auto
    have "assemble_op ls xl a mn [xr rs1, xr rs2, label_name t] = Inr w"
      using w assms d(1) by (simp add: assemble_op_def dispatch_branch regs_arg arg_def resolve_known label_name_plain)
    then show ?thesis using branch_enc_fields(2,5) [OF w assms(2,3)] assemble_stmt_op [OF g _ p] by simp
  qed
  moreover have "is_stmt (stmt mn [xr rs1, xr rs2, label_name t])" "tidy (stmt mn [xr rs1, xr rs2, label_name t])"
    using stmt_clean(3) [OF _ _ p, of mn] stmt_tidy [OF _ _ p, of mn] g by (simp_all add: good_name_def)
  ultimately show ?thesis unfolding jump_line_def by blast
qed

lemma jump_jal:
  assumes "fits rd 5"
  shows "jump_line xl (stmt ''jal'' [xr rd, label_name t]) (label_name t)"
proof -
  have p: "list_all plain [xr rd, label_name t]" by (simp add: tokens label_name_plain)
  have g: "good_name ''jal''" using good_names_single by simp
  have "\<exists>w. assemble_stmt ls xl (a, clean_line (stmt ''jal'' [xr rd, label_name t])) = Inr w \<and> op_of w = 0x6F \<and> jal_off w = b - a"
    if d: "ls (label_name t) = Some b" "a < b" "b - a < 4096" "even (b - a)" for ls a b
  proof -
    obtain w where w: "jal_enc rd (b - a) = Inr w" using jal_accepts [of "b - a" rd] d by auto
    have "assemble_op ls xl a ''jal'' [xr rd, label_name t] = Inr w"
      using w assms d(1) by (simp add: assemble_op_def dispatch_jal regs_arg arg_def resolve_known label_name_plain)
    then show ?thesis using jal_enc_fields(1,3) [OF w assms] assemble_stmt_op [OF g _ p] by simp
  qed
  moreover have "is_stmt (stmt ''jal'' [xr rd, label_name t])" "tidy (stmt ''jal'' [xr rd, label_name t])"
    using stmt_clean(3) [OF _ _ p, of "''jal''"] stmt_tidy [OF _ _ p, of "''jal''"] g by (simp_all add: good_name_def)
  ultimately show ?thesis unfolding jump_line_def by blast
qed

subsection \<open>The second pass\<close>

definition labels_ok :: "(int \<rightharpoonup> string) \<Rightarrow> bool" where
  "labels_ok labels \<longleftrightarrow> (\<forall>t l. labels t = Some l \<longrightarrow> l = label_name t)"

text \<open>What one item becomes: a line that falls through, or a jump to a later label that is entered.\<close>

definition item_line :: "int set \<Rightarrow> nat \<Rightarrow> int \<Rightarrow> int \<Rightarrow> (int \<rightharpoonup> string) \<Rightarrow> string \<times> (int \<rightharpoonup> string) \<Rightarrow> bool" where
  "item_line C xl n cur labels r \<longleftrightarrow> labels \<subseteq>\<^sub>m snd r \<and> labels_ok (snd r) \<and> is_stmt (fst r) \<and> tidy (fst r) \<and>
     (fall_line C xl (fst r) \<or>
      (\<exists>t. jump_line xl (fst r) (label_name t) \<and> snd r t \<noteq> None \<and> (cur < t \<or> t = n) \<and> t \<le> n))"

lemma every_target:
  assumes "cur \<le> n" "labels_ok labels"
  shows "pred_state (\<lambda>r. \<exists>t. fst r = label_name t \<and> labels \<subseteq>\<^sub>m snd r \<and> labels_ok (snd r) \<and> snd r t \<noteq> None \<and> (cur < t \<or> t = n) \<and> t \<le> n)
    (forward_target n cur labels)"
  unfolding forward_target_def
  by (rule every_bind [OF every_randint], simp, rule every_return)
     (use assms in \<open>auto simp: labels_ok_def map_le_def\<close>)

lemma every_jump:
  assumes "cur \<le> n" "labels_ok labels" "\<And>t. jump_line xl (f (label_name t)) (label_name t)"
  shows "pred_state (item_line C xl n cur labels)
    (State_Monad.bind (forward_target n cur labels) (\<lambda>r. State_Monad.return (f (fst r), snd r)))"
proof (rule every_bind [OF every_target [OF assms(1,2)]], rule every_return)
  fix r :: "string \<times> (int \<rightharpoonup> string)"
  assume "\<exists>t. fst r = label_name t \<and> labels \<subseteq>\<^sub>m snd r \<and> labels_ok (snd r) \<and> snd r t \<noteq> None \<and> (cur < t \<or> t = n) \<and> t \<le> n"
  then obtain t where t: "fst r = label_name t" "labels \<subseteq>\<^sub>m snd r" "labels_ok (snd r)" "snd r t \<noteq> None" "cur < t \<or> t = n" "t \<le> n"
    by blast
  have "is_stmt (f (fst r))" "tidy (f (fst r))" "jump_line xl (f (fst r)) (label_name t)" using assms(3) [of t] t(1) by (simp_all add: jump_line_def)
  with t show "item_line C xl n cur labels (f (fst r), snd r)" unfolding item_line_def fst_conv snd_conv by blast
qed

lemma every_item_line:
  assumes "good_item C xl it" "cur \<le> n" "labels_ok labels"
  shows "pred_state (item_line C xl n cur labels) (resolve_item n cur it labels)"
proof (cases it)
  case (Line l)
  then show ?thesis using assms
    by (auto simp: resolve_item_def item_line_def fall_line_def intro!: every_return map_le_refl)
next
  case (GBranch mn rs1 rs2)
  show ?thesis unfolding GBranch resolve_item_def item.case
    by (rule every_jump [OF assms(2,3), of xl "\<lambda>l. stmt mn [xr rs1, xr rs2, l]"], rule jump_branch) (use assms(1) GBranch in simp_all)
next
  case (GJal rd)
  show ?thesis unfolding GJal resolve_item_def item.case
    by (rule every_jump [OF assms(2,3), of xl "\<lambda>l. stmt ''jal'' [xr rd, l]"], rule jump_jal) (use assms(1) GJal in simp_all)
qed

definition resolved :: "int set \<Rightarrow> nat \<Rightarrow> int \<Rightarrow> int \<Rightarrow> item list \<Rightarrow> (int \<rightharpoonup> string) \<Rightarrow> string list \<times> (int \<rightharpoonup> string) \<Rightarrow> bool" where
  "resolved C xl n idx its labels q \<longleftrightarrow> labels \<subseteq>\<^sub>m snd q \<and> labels_ok (snd q) \<and> stmts (fst q) = length its \<and>
     (\<forall>l \<in> set (fst q). is_stmt l \<or> (\<exists>t. l = label_name t @ '':'')) \<and>
     (\<forall>t. labels t \<noteq> None \<longrightarrow> (idx + 1 < t \<or> t = n) \<longrightarrow> t \<le> n \<longrightarrow> label_name t @ '':'' \<in> set (fst q @ label_line (snd q) n)) \<and>
     (\<forall>tail. forward_lines C xl tail \<longrightarrow> forward_lines C xl (fst q @ label_line (snd q) n @ tail))"

lemma label_line_ok: "labels_ok labels \<Longrightarrow> label_line labels k = (if labels k = None then [] else [label_name k @ '':''])"
  by (auto simp: label_line_def labels_ok_def split: option.splits)

lemma every_resolved:
  "list_all (good_item C xl) its \<Longrightarrow> idx + int (length its) = n \<Longrightarrow> labels_ok labels \<Longrightarrow>
     pred_state (resolved C xl n idx its labels) (resolve_items n idx its labels)"
proof (induction its arbitrary: idx labels)
  case Nil
  then show ?case
    by (auto simp: resolved_def label_line_ok label_colon intro!: every_return map_le_refl)
next
  case (Cons it its)
  have g: "good_item C xl it" "list_all (good_item C xl) its" "idx + 1 \<le> n" "idx + 1 + int (length its) = n" using Cons.prems by simp_all
  show ?case unfolding resolve_items.simps
  proof (rule every_bind [OF every_item_line [OF g(1,3) Cons.prems(3)]])
    fix r
    assume r: "item_line C xl n (idx + 1) labels r"
    show "pred_state (resolved C xl n idx (it # its) labels)
      (State_Monad.bind (resolve_items n (idx + 1) its (snd r))
        (\<lambda>q. State_Monad.return (fst r # label_line (snd r) (idx + 2) @ fst q, snd q)))"
    proof (rule every_bind [OF Cons.IH [OF g(2,4)]], use r in \<open>simp add: item_line_def\<close>, rule every_return)
      fix q
      assume q: "resolved C xl n (idx + 1) its (snd r) q"
      have ll: "label_line (snd r) (idx + 2) = (if snd r (idx + 2) = None then [] else [label_name (idx + 2) @ '':''])"
        using r by (simp add: item_line_def label_line_ok)
      have em: "label_name t @ '':'' \<in> set (label_line (snd r) (idx + 2) @ fst q @ label_line (snd q) n)"
        if "snd r t \<noteq> None" "idx + 1 < t \<or> t = n" "t \<le> n" for t
        using q that ll by (cases "t = idx + 2") (auto simp: resolved_def)
      show "resolved C xl n idx (it # its) labels (fst r # label_line (snd r) (idx + 2) @ fst q, snd q)"
        unfolding resolved_def fst_conv snd_conv
      proof (intro conjI allI ballI impI)
        show "labels \<subseteq>\<^sub>m snd q" using r q by (auto simp: item_line_def resolved_def intro: map_le_trans)
        show "labels_ok (snd q)" using q by (simp add: resolved_def)
        show "stmts (fst r # label_line (snd r) (idx + 2) @ fst q) = length (it # its)"
          using r q ll by (simp add: item_line_def resolved_def label_colon)
        show "is_stmt l \<or> (\<exists>t. l = label_name t @ '':'')" if "l \<in> set (fst r # label_line (snd r) (idx + 2) @ fst q)" for l
          using that r q ll by (auto simp: item_line_def resolved_def split: if_splits)
        show "label_name t @ '':'' \<in> set ((fst r # label_line (snd r) (idx + 2) @ fst q) @ label_line (snd q) n)"
          if "labels t \<noteq> None" "idx + 1 < t \<or> t = n" "t \<le> n" for t
        proof -
          have "snd r t \<noteq> None" using r that(1) unfolding item_line_def map_le_def by (metis domIff)
          from em [OF this that(2,3)] show ?thesis by simp
        qed
        show "forward_lines C xl ((fst r # label_line (snd r) (idx + 2) @ fst q) @ label_line (snd q) n @ tail)"
          if tail: "forward_lines C xl tail" for tail
        proof -
          let ?rest = "label_line (snd r) (idx + 2) @ fst q @ label_line (snd q) n @ tail"
          have "forward_lines C xl (fst q @ label_line (snd q) n @ tail)" using q tail by (simp add: resolved_def)
          then have "forward_lines C xl ?rest" using ll by (simp add: label_colon)
          moreover have "forward_line C xl ?rest (fst r)"
            using r em label_colon(3) unfolding item_line_def forward_line_def set_append by blast
          ultimately show ?thesis using r by (simp add: item_line_def)
        qed
      qed
    qed
  qed
qed

end
