(* ===== verification/Random_Halt.thy ===== *)
theory Random_Halt
  imports Random_Program
begin

subsection \<open>Constants and seeds\<close>

lemma sign_bit12: "0 \<le> v \<Longrightarrow> v < 0x1000 \<Longrightarrow> v AND 0x800 \<noteq> 0 \<longleftrightarrow> 0x800 \<le> v" for v :: int
proof -
  assume v: "0 \<le> v" "v < 0x1000"
  have p: "push_bit 11 1 = (0x800 :: int)" by simp
  have "v AND 0x800 \<noteq> 0 \<longleftrightarrow> bit v 11" using and_exp_bit [of v 11] unfolding p .
  also have "\<dots> \<longleftrightarrow> odd (v div 0x800)" by (simp add: bit_iff_odd)
  also have "\<dots> \<longleftrightarrow> v div 0x800 = 1"
  proof -
    have "0 \<le> v div 0x800" "v div 0x800 < 2" using v by linarith+
    then have "v div 0x800 = 0 \<or> v div 0x800 = 1" by linarith
    then show ?thesis by auto
  qed
  also have "\<dots> \<longleftrightarrow> 0x800 \<le> v" using v by linarith
  finally show ?thesis .
qed

lemma mask12_range: "0 \<le> v AND 0xFFF" "v AND 0xFFF < 0x1000" for v :: int
  by (simp_all add: bit_norm)

lemma const_falls:
  assumes "fits rd 5"
  shows "list_all (fall_line C xl) (const_to_reg_instrs rd bits)"
proof -
  have k: "has_key I_TYPE ''addi''" by code_simp
  have h: "fits (x AND 0xFFFFF) 20" for x by (simp add: fits_def bit_norm)
  have n: "- 2048 \<le> bits AND 0xFFF" using mask12_range(1) [of bits] by linarith
  show ?thesis
    unfolding const_to_reg_instrs_def Let_def using mask12_range [of bits]
    by (auto simp: sign_bit12 intro!: fall_lui fall_i assms k h n)
qed

lemma show_32: "''32'' = show_int 32"
  by code_simp

lemma const64_falls:
  assumes "fits rd 5" "fits sc 5"
  shows "list_all (fall_line C 64) (const64_to_reg_instrs rd sc bits)"
proof -
  have k: "has_key R_TYPE ''or''" by code_simp
  show ?thesis unfolding const64_to_reg_instrs_def Let_def show_32
    using const_falls assms k by (simp add: fall_shift fall_r)
qed

lemma seed_falls: "xl = 32 \<or> xl = 64 \<Longrightarrow> list_all (fall_line C xl) (seed_lines xl)"
proof -
  assume xl: "xl = 32 \<or> xl = 64"
  have c: "list_all (fall_line C xl) (const64_to_reg_instrs 29 30 b)" if "xl \<ge> 64" for b
    using const64_falls [of 29 30 _ b] xl that by (auto simp: fits_def)
  have x: "''x30'' = xr 30" by code_simp
  have s: "list_all (fall_line C xl) (const_to_reg_instrs 30 b @ [stmt ''fmv.w.x'' [fr (int i + 1), ''x30'']])" if "i < 6" for i b
    unfolding x using that by (auto intro!: const_falls fall_fmv simp: fits_def)
  have "(i, b) \<in> set (enumerate 0 FLOAT_SEED_BITS) \<Longrightarrow> i < 6" for i b
    by (auto simp: in_set_enumerate_eq FLOAT_SEED_BITS_def)
  then show ?thesis unfolding seed_lines_def using c s by (force simp: list_all_iff)
qed

lemma seed_length: "xl = 32 \<or> xl = 64 \<Longrightarrow> length (seed_lines xl) = (if xl \<ge> 64 then 20 else 12)"
proof -
  have "length (seed_lines 32) = 12" "length (seed_lines 64) = 20" by code_simp+
  then show "xl = 32 \<or> xl = 64 \<Longrightarrow> length (seed_lines xl) = (if xl \<ge> 64 then 20 else 12)" by auto
qed

lemma falls_stmts: "list_all (fall_line C xl) ls \<Longrightarrow> stmts ls = length ls"
  by (induction ls) (auto simp: fall_line_def)

subsection \<open>The end of the program\<close>

lemma fence_falls: "fall_line C xl ''fence''"
proof -
  have c: "clean_line ''fence'' = ''fence''" "is_stmt ''fence''" "py_lower ''fence'' = ''fence''" "re_split (py_strip ''fence'') = [''fence'']"
    "tidy ''fence''"
    by code_simp+
  have f: "op_of fence_enc = 0x0F" "f3_of fence_enc = 0" by code_simp+
  have s: "straight C fence_enc" using f by (simp add: straight_def undefined_alu_def)
  have "assemble_stmt ls xl (a, ''fence'') = Inr fence_enc" for ls a
    unfolding assemble_stmt_def prod.case c Let_def by (simp add: c assemble_int_def has_key_iff table_defs)
  then show ?thesis using s c by (simp add: fall_line_def)
qed

lemma halt_lines:
  "\<not> is_stmt ''__halt:''" "defines_label ''__halt:'' ''__halt''" "is_stmt ''jal x0, __halt''"
  "tidy ''__halt:''" "tidy ''jal x0, __halt''"
  by code_simp+

lemma halt_jump:
  assumes "ls ''__halt'' = Some a"
  shows "\<exists>w. assemble_stmt ls xl (a, clean_line ''jal x0, __halt'') = Inr w \<and> is_self_loop w"
proof -
  have c: "clean_line ''jal x0, __halt'' = ''jal x0, __halt''" "py_lower ''jal'' = ''jal''"
    "re_split (py_strip ''jal x0, __halt'') = [''jal'', ''x0'', ''__halt'']" "py_strip ''__halt'' = ''__halt''" "asm_reg ''x0'' = Inr 0"
    "jal_enc 0 0 = Inr 0x6F" "is_self_loop 0x6F"
    by code_simp+
  have "assemble_stmt ls xl (a, clean_line ''jal x0, __halt'') = Inr 0x6F"
    unfolding assemble_stmt_def c(1) prod.case Let_def c(3) list.sel c(2) dispatch_jal
    using assms by (simp add: reg_arg_def arg_def resolve_def c)
  then show ?thesis using c(7) by blast
qed

subsection \<open>The plain program\<close>

text \<open>The lines of a program are statements and the labels of the generator.\<close>

definition body_line :: "string \<Rightarrow> bool" where
  "body_line l \<longleftrightarrow> tidy l \<and> (is_stmt l \<or> (\<exists>k. l = ''__'' @ k @ '':''))"

lemma body_forward:
  assumes "config_ok C c" "- 2048 \<le> g_base c" "g_base c < 2048" "0 \<le> n" "n < 900"
  shows "pred_state (\<lambda>ls. (\<forall>l \<in> set ls. body_line l) \<and> (\<exists>ws. assemble ls (g_xlen c) = Inr ws \<and> forward_program C ws \<and>
    int (length ws) = n + (if g_xlen c \<ge> 64 then 23 else 15))) (gen_body c n)"
  unfolding gen_body_def
proof (rule every_bind [OF good_instrs [OF assms(1)]])
  let ?xl = "g_xlen c"
  have xl: "?xl = 32 \<or> ?xl = 64" using assms(1) by (simp add: config_ok_def)
  fix its
  assume its: "list_all (good_item C ?xl) its \<and> length its = nat n"
  have l: "labels_ok Map.empty" by (simp add: labels_ok_def)
  show "pred_state (\<lambda>ls. (\<forall>l \<in> set ls. body_line l) \<and>
      (\<exists>ws. assemble ls ?xl = Inr ws \<and> forward_program C ws \<and> int (length ws) = n + (if ?xl \<ge> 64 then 23 else 15)))
    (State_Monad.bind (resolve_items (int (length its)) 0 its Map.empty)
      (\<lambda>q. State_Monad.return ([stmt ''addi'' [xr BASE_REG, ''x0'', show_int (g_base c)]] @ seed_lines ?xl @ fst q @
        label_line (snd q) (int (length its)) @ [''fence'', ''__halt:'', ''jal x0, __halt''])))"
  proof (rule every_bind [OF every_resolved [of C ?xl its 0 "int (length its)", OF _ _ l]], use its in simp, simp, rule every_return)
    fix q
    assume q: "resolved C ?xl (int (length its)) 0 its Map.empty q"
    let ?n = "int (length its)"
    let ?pre = "[stmt ''addi'' [xr BASE_REG, ''x0'', show_int (g_base c)]] @ seed_lines ?xl @ fst q @ label_line (snd q) ?n @ [''fence'']"
    let ?body = "?pre @ [''__halt:'']"
    have k: "has_key I_TYPE ''addi''" by code_simp
    have x0: "''x0'' = xr 0" by code_simp
    have a: "fall_line C ?xl (stmt ''addi'' [xr BASE_REG, ''x0'', show_int (g_base c)])"
      unfolding x0 using assms(2,3) by (intro fall_i k) (simp_all add: BASE_REG_def fits_def)
    have "forward_lines C ?xl [''fence'', ''__halt:'']"
      using fence_falls [of C ?xl] halt_lines unfolding forward_lines.simps forward_line_def fall_line_def by blast
    then have "forward_lines C ?xl (fst q @ label_line (snd q) ?n @ [''fence'', ''__halt:''])"
      using q unfolding resolved_def by blast
    then have f: "forward_lines C ?xl ?body"
      using forward_lines_falls [OF seed_falls [OF xl], of _ "fst q @ label_line (snd q) ?n @ [''fence'', ''__halt:'']"] a
      by (simp add: forward_line_def fall_line_def)
    have st: "stmts (fst q) = length its" "stmts (label_line (snd q) ?n) = 0"
      using q by (auto simp: resolved_def label_line_ok label_colon)
    have lab: "label_line (snd q) ?n = (if snd q ?n = None then [] else [label_name ?n @ '':''])"
      using q by (simp add: resolved_def label_line_ok)
    have s: "stmts ?body = length its + 2 + length (seed_lines ?xl)"
      using st a fence_falls falls_stmts [OF seed_falls [OF xl]] by (simp add: fall_line_def halt_lines)
    have "label_address [''__halt:'', ''jal x0, __halt''] b ''__halt'' = Some b" for b
      using halt_lines stmt_no_label by simp
    then have "labels_of (?body @ [''jal x0, __halt'']) ''__halt'' = Some (4 * int (stmts ?body))"
      using label_address_append [of ?pre "[''__halt:'', ''jal x0, __halt'']" 0 "''__halt''"] halt_lines by simp
    from halt_jump [of "labels_of (?body @ [''jal x0, __halt''])" _ ?xl, OF this] obtain w where w: "assemble_stmt (labels_of (?body @ [''jal x0, __halt''])) ?xl
        (4 * int (stmts ?body), clean_line ''jal x0, __halt'') = Inr w" "is_self_loop w" by blast
    have "stmts ?body < 1000" using s seed_length [OF xl] its assms(4,5) by (auto simp: nat_less_iff)
    from forward_assemble [OF f halt_lines(3) this w] obtain ws where
      "assemble (?body @ [''jal x0, __halt'']) ?xl = Inr ws" "forward_program C ws" "length ws = stmts ?body + 1" by blast
    moreover have "body_line l" if "l \<in> set (?body @ [''jal x0, __halt''])" for l
    proof -
      have "tidy l" using forward_lines_text [OF f, of l] that halt_lines(5) by auto
      moreover have "is_stmt l \<or> l = ''__halt:'' \<or> (\<exists>t. l = label_name t @ '':'')"
        using that q a fence_falls seed_falls [OF xl] halt_lines(3) lab by (auto simp: resolved_def fall_line_def list_all_iff split: if_splits)
      ultimately show ?thesis unfolding body_line_def by (auto simp: label_name_def)
    qed
    ultimately show "(\<forall>l \<in> set ([stmt ''addi'' [xr BASE_REG, ''x0'', show_int (g_base c)]] @ seed_lines ?xl @ fst q @
        label_line (snd q) ?n @ [''fence'', ''__halt:'', ''jal x0, __halt'']). body_line l) \<and>
      (\<exists>ws. assemble ([stmt ''addi'' [xr BASE_REG, ''x0'', show_int (g_base c)]] @ seed_lines ?xl @ fst q @
        label_line (snd q) ?n @ [''fence'', ''__halt:'', ''jal x0, __halt'']) ?xl = Inr ws \<and> forward_program C ws \<and>
        int (length ws) = n + (if ?xl \<ge> 64 then 23 else 15))"
      using s seed_length [OF xl] its assms(4) by (intro conjI exI [of _ ws]) auto
  qed
qed

end
