(* ===== verification/Random_Const.thy ===== *)
theory Random_Const
  imports Random_Halt
begin

text \<open>
  The effect of straight-line statements on the simulator, and the register values that the
  constant-loading sequences of the generator leave.
\<close>

subsection \<open>Straight-line statements\<close>

text \<open>The word of a statement that does not depend on labels or its address.\<close>

definition codes :: "nat \<Rightarrow> string \<Rightarrow> int \<Rightarrow> bool" where
  "codes xl l w \<longleftrightarrow> is_stmt l \<and> (\<forall>ls a. assemble_stmt ls xl (a, clean_line l) = Inr w)"

lemma codes_assemble: "list_all2 (codes xl) lines ws \<Longrightarrow> assemble lines xl = Inr ws"
proof -
  assume c: "list_all2 (codes xl) lines ws"
  then have "filter is_stmt lines = lines"
    by (induction rule: list_all2_induct) (auto simp: codes_def)
  with c show ?thesis by (simp add: assemble_words list_all2_conv_all_nth codes_def)
qed

fun steps :: "iss \<Rightarrow> int list \<Rightarrow> iss result" where
  "steps s [] = Inr s"
| "steps s (w # ws) = rbind (step s w) (\<lambda>s'. steps s' ws)"

lemma steps_append: "steps s (xs @ ys) = rbind (steps s xs) (\<lambda>s'. steps s' ys)"
proof (induction xs arbitrary: s)
  case (Cons w xs)
  then show ?case by (cases "step s w") simp_all
qed simp

lemma steps_keep: "steps s ws = Inr s' \<Longrightarrow> iss_wf s \<Longrightarrow> iss_wf s' \<and> xlen s' = xlen s"
proof (induction ws arbitrary: s)
  case (Cons w ws)
  then obtain u where u: "step s w = Inr u" "steps u ws = Inr s'" by (auto simp: rbind_Inr)
  show ?case using Cons.IH [OF u(2)] step_wf [OF Cons.prems(2) u(1)] frame_xlen [OF step_frame [OF u(1)]] by simp
qed simp

definition executes :: "nat \<Rightarrow> string list \<Rightarrow> (iss \<Rightarrow> iss) \<Rightarrow> bool" where
  "executes xl lines f \<longleftrightarrow>
     (\<exists>ws. list_all2 (codes xl) lines ws \<and> (\<forall>s. iss_wf s \<longrightarrow> xlen s = xl \<longrightarrow> steps s ws = Inr (f s)))"

lemma executes_append: "executes xl xs f \<Longrightarrow> executes xl ys g \<Longrightarrow> executes xl (xs @ ys) (\<lambda>s. g (f s))"
proof -
  assume "executes xl xs f" "executes xl ys g"
  then obtain us vs where u: "list_all2 (codes xl) xs us" "\<And>s. iss_wf s \<Longrightarrow> xlen s = xl \<Longrightarrow> steps s us = Inr (f s)"
    and v: "list_all2 (codes xl) ys vs" "\<And>s. iss_wf s \<Longrightarrow> xlen s = xl \<Longrightarrow> steps s vs = Inr (g s)"
    unfolding executes_def by blast
  have "steps s (us @ vs) = Inr (g (f s))" if "iss_wf s" "xlen s = xl" for s
    using u(2) [OF that] v(2) [of "f s"] steps_keep [of s us "f s"] that by (simp add: steps_append)
  then show ?thesis unfolding executes_def using list_all2_appendI [OF u(1) v(1)] by blast
qed

lemma executesI:
  assumes "good_name mn" "ops \<noteq> []" "list_all plain ops" "\<And>ls a. assemble_op ls xl a mn ops = Inr w"
    "\<And>s. iss_wf s \<Longrightarrow> xlen s = xl \<Longrightarrow> step s w = Inr (f s)"
  shows "executes xl [stmt mn ops] f"
proof -
  have "codes xl (stmt mn ops) w"
    using stmt_clean(3) [OF _ assms(2,3), of mn] assemble_stmt_op [OF assms(1-3)] assms(1,4) by (simp add: codes_def good_name_def)
  then show ?thesis unfolding executes_def using assms(5) by (intro exI [of _ "[w]"]) simp
qed

text \<open>Writing a register and going on.\<close>

definition put_reg :: "int \<Rightarrow> int \<Rightarrow> iss \<Rightarrow> iss" where
  "put_reg rd v s = s\<lparr>regs := (regs s)[nat rd := v mod 2 ^ xlen s], pc := pc s + 4\<rparr>"

lemma wr_put: "rd \<noteq> 0 \<Longrightarrow> (wr s rd v)\<lparr>pc := pc s + 4\<rparr> = put_reg rd v s"
  by (simp add: wr_def put_reg_def uxlen_def uXLEN_mod)

lemma put_reg_mod: "put_reg rd (v mod 2 ^ xlen s) s = put_reg rd v s"
  by (simp add: put_reg_def)

lemma and_push: "x AND push_bit k m = push_bit k (drop_bit k x AND m)" for x m :: int
  by (rule bit_eqI) (auto simp: bit_simps)

lemma execute_lui:
  assumes "fits rd 5" "rd \<noteq> 0" "fits v 20"
  shows "executes xl [stmt ''lui'' [xr rd, hex0x v]] (put_reg rd (s32 (v * 2 ^ 12)))"
proof (rule executesI)
  have v: "0 \<le> v" "v < 2 ^ 20" using assms(3) by (simp_all add: fits_def)
  have i: "asm_imm (Tok (hex0x v)) 20 False = Inr v" using v hex_token(2) [of v] by (simp add: asm_imm_unsigned hex0x_def)
  let ?w = "push_bit 12 v OR push_bit 7 rd OR 0x37"
  have f: "op_of ?w = 0x37" "rd_of ?w = rd" using assms(1,3) unfolding field_take by (simp_all add: fields op_fits)
  have m: "?w AND 0xFFFFF000 = v * 2 ^ 12"
  proof -
    have "?w = v * 2 ^ 12 + (push_bit 7 rd OR 0x37)"
      using or_low [of "push_bit 7 rd OR 0x37" 12 v] fits_or [OF fits_push [OF assms(1), of 7 12], of "0x37"]
      by (simp add: fits_def push_bit_eq_mult)
    moreover have "fits (push_bit 7 rd OR 0x37) 12" by (intro fits_or fits_push [OF assms(1)]) (simp_all add: fits_def)
    ultimately have d: "drop_bit 12 ?w = v" by (simp add: fits_def drop_bit_eq_div)
    have "(0xFFFFF000 :: int) = push_bit 12 0xFFFFF" by simp
    then show ?thesis using and_push [of ?w 12 "0xFFFFF"] v unfolding d by (simp add: and_mod_20 push_bit_eq_mult)
  qed
  show "assemble_op ls xl a ''lui'' [xr rd, hex0x v] = Inr ?w" for ls a
    using i assms(1) by (simp add: assemble_op_def dispatch_single regs_arg arg_def u_type_def)
  show "step s ?w = Inr (put_reg rd (s32 (v * 2 ^ 12)) s)" for s
    unfolding straight_arms(5) [OF f(1)] step_lui_def f(2) m by (simp only: wr_put [OF assms(2)])
  show "good_name ''lui''" using good_names_single by simp
  show "list_all plain [xr rd, hex0x v]" using hex_token(1) [of v] v by (simp add: tokens hex0x_def)
qed simp

lemma execute_addi:
  assumes "fits rd 5" "rd \<noteq> 0" "fits rs 5" "- 2048 \<le> v" "v < 2048"
  shows "executes xl [stmt ''addi'' [xr rd, xr rs, show_int v]] (\<lambda>s. put_reg rd (regs s ! nat rs + v) s)"
proof -
  have k: "has_key I_TYPE ''addi''" "map_of I_TYPE ''addi'' = Some 0" "lookup I_TYPE ''addi'' = Inr 0" by code_simp+
  have "asm_imm (Tok (show_int v)) 12 True = Inr (v mod 2 ^ 12)" using assms(4,5) by (simp add: asm_imm_signed operand_show)
  then obtain w where w: "i_type ''addi'' rd rs (Tok (show_int v)) xl = Inr w" using k(3) by (simp add: i_type_def)
  obtain u where "operand_int (Tok (show_int v)) = Inr u" "Some 0 = Some (f3_of w)" "op_of w = 0x13" "rd_of w = rd" "rs1_of w = rs" "imm_i_of w = u"
    using i_type_fields [OF w assms(1,3)] k(2) by auto
  then have f: "f3_of w = 0" "op_of w = 0x13" "rd_of w = rd" "rs1_of w = rs" "imm_i_of w = v" by (simp_all add: operand_show)
  show ?thesis
  proof (rule executesI)
    show "assemble_op ls xl a ''addi'' [xr rd, xr rs, show_int v] = Inr w" for ls a
      using w k(1) assms(1,3) by (simp add: assemble_op_def dispatch_i regs_arg arg_def)
    show "step s w = Inr (put_reg rd (regs s ! nat rs + v) s)" for s
      unfolding straight_arms(3) [OF f(2)] step_op_imm_def alu_imm_def Let_def f reg_a_def
      by (simp add: wr_put [OF assms(2)] uXLEN_mod put_reg_mod)
  qed (use key_good [OF k(1) good_names(3)] in \<open>simp_all add: tokens\<close>)
qed

lemma execute_shift:
  assumes "fits rd 5" "rd \<noteq> 0" "fits rs 5" "0 \<le> v" "v < int xl" "xl = 32 \<or> xl = 64"
  shows "executes xl [stmt ''slli'' [xr rd, xr rs, show_int v]] (\<lambda>s. put_reg rd (regs s ! nat rs * 2 ^ nat v) s)"
    "executes xl [stmt ''srli'' [xr rd, xr rs, show_int v]] (\<lambda>s. put_reg rd (regs s ! nat rs div 2 ^ nat v) s)"
proof -
  have k: "has_key I_TYPE ''slli''" "map_of I_TYPE ''slli'' = Some 1" "has_key I_TYPE ''srli''" "map_of I_TYPE ''srli'' = Some 5"
    by code_simp+
  have *: "\<exists>w. i_type mn rd rs (Tok (show_int v)) xl = Inr w \<and> op_of w = 0x13 \<and> rd_of w = rd \<and> rs1_of w = rs \<and> f3_of w = f3 \<and>
      nat (if xl \<ge> 64 then drop_bit 20 w AND 0x3F else drop_bit 20 w AND 0x1F) = nat v \<and>
      \<not> (if xl \<ge> 64 then drop_bit 26 w AND 0x3F = 0x10 else f7_of w = 0x20)"
    if m: "mn \<in> {''slli'', ''srli''}" "map_of I_TYPE mn = Some f3" for mn f3
  proof -
    have "asm_imm (Tok (show_int v)) (if xl \<ge> 64 then 6 else 5) False = Inr v"
      using assms(4-6) by (auto simp: asm_imm_unsigned operand_show)
    then obtain w where w: "i_type mn rd rs (Tok (show_int v)) xl = Inr w"
      using m by (cases "xl \<ge> 64") (auto simp: i_type_def lookup_def)
    from m have "mn \<in> {''slli'', ''srli'', ''srai''}" "mn \<noteq> ''srai''" by auto
    then obtain u where u: "operand_int (Tok (show_int v)) = Inr u" "map_of I_TYPE mn = Some (f3_of w)" "op_of w = 0x13"
      "rd_of w = rd" "rs1_of w = rs" "drop_bit 20 w AND (if xl \<ge> 64 then 0x3F else 0x1F) = u"
      "\<not> (if xl \<ge> 64 then drop_bit 26 w AND 0x3F = 0x10 else f7_of w = 0x20)"
      using shift_imm_fields [OF w assms(1,3) _ assms(6)] by metis
    then have "nat (if xl \<ge> 64 then drop_bit 20 w AND 0x3F else drop_bit 20 w AND 0x1F) = nat v"
      by (cases "xl \<ge> 64") (simp_all add: operand_show)
    with w u(2-5,7) m(2) show ?thesis by (intro exI [of _ w]) simp
  qed
  have wf: "uXLEN (regs s ! nat rs) (xlen s) = regs s ! nat rs" if "iss_wf s" for s
    using wf_reg [OF that, of rs] assms(3) by (intro uXLEN_id) (auto simp: fits_def)
  show "executes xl [stmt ''slli'' [xr rd, xr rs, show_int v]] (\<lambda>s. put_reg rd (regs s ! nat rs * 2 ^ nat v) s)"
  proof -
    obtain w where w: "i_type ''slli'' rd rs (Tok (show_int v)) xl = Inr w" "op_of w = 0x13" "rd_of w = rd" "rs1_of w = rs" "f3_of w = 1"
      "nat (if xl \<ge> 64 then drop_bit 20 w AND 0x3F else drop_bit 20 w AND 0x1F) = nat v"
      using * [of "''slli''" 1] k(2) by blast
    show ?thesis
    proof (rule executesI)
      show "assemble_op ls xl a ''slli'' [xr rd, xr rs, show_int v] = Inr w" for ls a
        using w(1) k(1) assms(1,3) by (simp add: assemble_op_def dispatch_i regs_arg arg_def)
      show "step s w = Inr (put_reg rd (regs s ! nat rs * 2 ^ nat v) s)" if "xlen s = xl" for s
        unfolding straight_arms(3) [OF w(2)] step_op_imm_def alu_imm_def Let_def w(3-5) reg_a_def that w(6)
        by (simp add: wr_put [OF assms(2)] uXLEN_mod that [symmetric] put_reg_mod push_bit_eq_mult)
    qed (use key_good [OF k(1) good_names(3)] in \<open>simp_all add: tokens\<close>)
  qed
  show "executes xl [stmt ''srli'' [xr rd, xr rs, show_int v]] (\<lambda>s. put_reg rd (regs s ! nat rs div 2 ^ nat v) s)"
  proof -
    obtain w where w: "i_type ''srli'' rd rs (Tok (show_int v)) xl = Inr w" "op_of w = 0x13" "rd_of w = rd" "rs1_of w = rs" "f3_of w = 5"
      "nat (if xl \<ge> 64 then drop_bit 20 w AND 0x3F else drop_bit 20 w AND 0x1F) = nat v"
      "\<not> (if xl \<ge> 64 then drop_bit 26 w AND 0x3F = 0x10 else f7_of w = 0x20)"
      using * [of "''srli''" 5] k(4) by blast
    show ?thesis
    proof (rule executesI)
      show "assemble_op ls xl a ''srli'' [xr rd, xr rs, show_int v] = Inr w" for ls a
        using w(1) k(3) assms(1,3) by (simp add: assemble_op_def dispatch_i regs_arg arg_def)
      show "step s w = Inr (put_reg rd (regs s ! nat rs div 2 ^ nat v) s)" if "iss_wf s" "xlen s = xl" for s
        using w(7) wf [OF that(1)]
        unfolding straight_arms(3) [OF w(2)] step_op_imm_def alu_imm_def Let_def w(3-5) reg_a_def that(2) w(6)
        by (simp add: wr_put [OF assms(2)] drop_bit_eq_div)
    qed (use key_good [OF k(3) good_names(3)] in \<open>simp_all add: tokens\<close>)
  qed
qed

lemma execute_or:
  assumes "fits rd 5" "rd \<noteq> 0" "fits rs1 5" "fits rs2 5"
  shows "executes xl [stmt ''or'' [xr rd, xr rs1, xr rs2]] (\<lambda>s. put_reg rd (regs s ! nat rs1 OR regs s ! nat rs2) s)"
proof -
  have k: "has_key R_TYPE ''or''" "map_of R_TYPE ''or'' = Some (0, 6)" by code_simp+
  then obtain w where w: "r_type ''or'' rd rs1 rs2 = Inr w" by (simp add: r_type_def lookup_def)
  note f = r_type_fields [OF w assms(1,3,4)]
  have f': "f7_of w = 0" "f3_of w = 6" using f(1) k(2) by simp_all
  show ?thesis
  proof (rule executesI)
    show "assemble_op ls xl a ''or'' [xr rd, xr rs1, xr rs2] = Inr w" for ls a
      using w k(1) assms by (simp add: assemble_op_def dispatch_r regs_arg)
    show "step s w = Inr (put_reg rd (regs s ! nat rs1 OR regs s ! nat rs2) s)" for s
      unfolding straight_arms(1) [OF f(2)] step_op_def alu_def Let_def f' f(3-5) reg_a_def reg_b_def
      by (simp add: wr_put [OF assms(2)] uXLEN_mod put_reg_mod)
  qed (use key_good [OF k(1) good_names(1)] in \<open>simp_all add: tokens\<close>)
qed

subsection \<open>Constants\<close>

lemma sext32_sext: "sext32 v = sext v 32"
  by (simp add: sext32_def sext_def push_bit_eq_mult)

text \<open>
  What \<open>lui\<close> and \<open>addi\<close> leave, before the reduction to the register width: the sign extension of
  the low 32 bits, except for the 2048 constants just below \<open>2 ^ 31\<close>.
\<close>

definition const_value :: "int \<Rightarrow> int" where
  "const_value bits =
     (if 0x7FFFF800 \<le> bits mod 2 ^ 32 \<and> bits mod 2 ^ 32 < 0x80000000 then sext bits 32 - 2 ^ 32 else sext bits 32)"

lemma const_parts:
  assumes "lo = bits mod 0x1000" "h = bits div 0x1000 mod 0x100000"
  shows "lo < 0x800 \<Longrightarrow> s32 (h * 2 ^ 12) + lo = const_value bits"
    "0x800 \<le> lo \<Longrightarrow> s32 ((h + 1) mod 0x100000 * 2 ^ 12) + (lo - 0x1000) = const_value bits"
proof -
  define b where "b = bits mod 2 ^ 32"
  have b: "b = h * 0x1000 + lo"
    using zmod_zmult2_eq [of "0x100000" bits "0x1000"] assms by (simp add: b_def)
  have r: "0 \<le> lo" "lo < 0x1000" "0 \<le> h" "h < 0x100000" using assms by simp_all
  have v: "const_value bits = (if 0x7FFFF800 \<le> b \<and> b < 0x80000000 then b - 2 ^ 32 else if b < 0x80000000 then b else b - 2 ^ 32)"
    unfolding const_value_def sext_eq [of 32, simplified] b_def by simp
  have s: "s32 x = (if x < 0x80000000 then x else x - 2 ^ 32)" if "0 \<le> x" "x < 2 ^ 32" for x
    using that unfolding s32_sext sext_eq [of 32, simplified] by simp
  show "lo < 0x800 \<Longrightarrow> s32 (h * 2 ^ 12) + lo = const_value bits"
    using r b unfolding v by (cases "h \<le> 0x7FFFF"; subst s; simp split: if_splits)
  show "s32 ((h + 1) mod 0x100000 * 2 ^ 12) + (lo - 0x1000) = const_value bits" if "0x800 \<le> lo"
  proof (cases "h = 0xFFFFF")
    case True
    then show ?thesis using r b that unfolding v True by (subst s) auto
  next
    case False
    then have "(h + 1) mod 0x100000 = h + 1" using r by simp
    then show ?thesis using r b that False unfolding v by (simp only:) (subst s, auto)
  qed
qed

lemma executes_cong: "executes xl ls f \<Longrightarrow> (\<And>s. iss_wf s \<Longrightarrow> xlen s = xl \<Longrightarrow> f s = g s) \<Longrightarrow> executes xl ls g"
  unfolding executes_def by fastforce

text \<open>The register file after writing \<open>rd\<close>, and the program counter after \<open>k\<close> statements.\<close>

definition loaded :: "int \<Rightarrow> int \<Rightarrow> nat \<Rightarrow> iss \<Rightarrow> iss" where
  "loaded rd v k s = s\<lparr>regs := (regs s)[nat rd := v mod 2 ^ xlen s], pc := pc s + 4 * int k\<rparr>"

lemma loaded_put: "put_reg rd v s = loaded rd v 1 s"
  by (simp add: put_reg_def loaded_def)

lemma loaded_twice: "loaded rd v k (loaded rd u j s) = loaded rd v (j + k) s"
  by (simp add: loaded_def algebra_simps)

lemma loaded_sel [simp]: "xlen (loaded rd v k s) = xlen s" "regs (loaded rd v k s) = (regs s)[nat rd := v mod 2 ^ xlen s]"
  by (simp_all add: loaded_def)

lemma const_executes:
  assumes "fits rd 5" "rd \<noteq> 0"
  shows "executes xl (const_to_reg_instrs rd bits) (loaded rd (const_value bits) (length (const_to_reg_instrs rd bits)))"
proof -
  let ?lo = "bits AND 0xFFF" and ?h = "drop_bit 12 bits AND 0xFFFFF"
  define hi where "hi = (if ?lo AND 0x800 \<noteq> 0 then (?h + 1) AND 0xFFFFF else ?h)"
  define los where "los = (if ?lo AND 0x800 \<noteq> 0 then ?lo - 0x1000 else ?lo)"
  have c: "const_to_reg_instrs rd bits = stmt ''lui'' [xr rd, hex0x hi] #
      (if ?lo \<noteq> 0 then [stmt ''addi'' [xr rd, xr rd, show_int los]] else [])"
    by (simp add: const_to_reg_instrs_def hi_def los_def Let_def)
  have "fits hi 20" by (simp add: hi_def fits_def bit_norm)
  note l = execute_lui [OF assms this, of xl]
  have n: "?lo = bits mod 0x1000" "?h = bits div 0x1000 mod 0x100000" by (simp_all add: bit_norm)
  have nn: "0 \<le> ?lo" "?lo < 0x1000" by (rule mask12_range)+
  have sb: "?lo AND 0x800 \<noteq> 0 \<longleftrightarrow> 0x800 \<le> ?lo" by (rule sign_bit12 [OF nn])
  have v: "s32 (hi * 2 ^ 12) + los = const_value bits"
    using const_parts [OF n] by (cases "0x800 \<le> ?lo") (simp_all add: hi_def los_def sb and_mod_20)
  show ?thesis
  proof (cases "?lo = 0")
    case True
    then have "los = 0" by (simp add: los_def)
    with v l show ?thesis by (simp add: c True loaded_put [abs_def])
  next
    case False
    have r: "- 2048 \<le> los" "los < 2048" unfolding los_def sb using nn by (simp_all only: split: if_split) linarith+
    have i: "nat rd < length (regs s)" if "iss_wf s" for s using that assms(1) by (auto simp: iss_wf_def fits_def)
    have "executes xl ([stmt ''lui'' [xr rd, hex0x hi]] @ [stmt ''addi'' [xr rd, xr rd, show_int los]])
        (\<lambda>s. put_reg rd (regs (put_reg rd (s32 (hi * 2 ^ 12)) s) ! nat rd + los) (put_reg rd (s32 (hi * 2 ^ 12)) s))"
      by (rule executes_append [OF l execute_addi [OF assms(1,2,1) r]])
    then have "executes xl ([stmt ''lui'' [xr rd, hex0x hi]] @ [stmt ''addi'' [xr rd, xr rd, show_int los]]) (loaded rd (const_value bits) 2)"
      by (rule executes_cong) (simp add: loaded_put loaded_twice i, simp add: loaded_def mod_simps v [simplified])
    then show ?thesis using False by (simp add: c numeral_2_eq_2)
  qed
qed

lemma const_value_mod: "const_value bits mod 2 ^ 32 = bits mod 2 ^ 32"
proof -
  have "(sext bits 32 - 2 ^ 32) mod 2 ^ 32 = sext bits 32 mod 2 ^ 32" by simp
  then show ?thesis unfolding const_value_def using sext_mod [of bits 32] by (simp only: split: if_split) simp
qed

lemma shifted_mod: "(x mod 2 ^ 64) * 2 ^ 32 mod 2 ^ 64 = (x mod 2 ^ 32) * 2 ^ 32" for x :: int
proof -
  have "(x mod 2 ^ 64) * 2 ^ 32 mod 2 ^ 64 = x * 2 ^ 32 mod 2 ^ 64" by (simp only: mod_mult_left_eq)
  also have "\<dots> = x * 2 ^ 32 mod (2 ^ 32 * 2 ^ 32)" by simp
  also have "\<dots> = (x mod 2 ^ 32) * 2 ^ 32" by (simp only: mult_mod_left)
  finally show ?thesis .
qed

lemma halves: "(drop_bit 32 b AND 0xFFFFFFFF) * 2 ^ 32 OR (b AND 0xFFFFFFFF) = b mod 2 ^ 64" for b :: int
proof -
  have "(drop_bit 32 b AND 0xFFFFFFFF) * 2 ^ 32 OR (b AND 0xFFFFFFFF) = (b div 2 ^ 32 mod 2 ^ 32) * 2 ^ 32 + b mod 2 ^ 32"
    using or_low [of "b AND 0xFFFFFFFF" 32 "drop_bit 32 b AND 0xFFFFFFFF"] by (simp add: bit_norm)
  also have "\<dots> = b mod 2 ^ 64" using zmod_zmult2_eq [of "2 ^ 32" b "2 ^ 32"] by simp
  finally show ?thesis .
qed

lemma high_executes:
  assumes "fits r 5" "r \<noteq> 0" "0 \<le> v" "v < 2 ^ 32"
  shows "executes 64 (const_to_reg_instrs r v @ [stmt ''slli'' [xr r, xr r, ''32'']])
    (loaded r (v * 2 ^ 32) (length (const_to_reg_instrs r v) + 1))"
proof (rule executes_cong [OF executes_append [OF const_executes [OF assms(1,2)] execute_shift(1) [OF assms(1,2,1), of 32 64, folded show_32]]])
  fix s :: iss
  assume s: "iss_wf s" "xlen s = 64"
  have i: "nat r < length (regs s)" using s assms(1) by (auto simp: iss_wf_def fits_def)
  have "const_value v mod 2 ^ 64 * 2 ^ 32 mod 2 ^ 64 = v * 2 ^ 32 mod 2 ^ 64"
    using assms(3,4) const_value_mod [of v] unfolding shifted_mod by simp
  then show "put_reg r (regs (loaded r (const_value v) (length (const_to_reg_instrs r v)) s) ! nat r * 2 ^ nat 32)
      (loaded r (const_value v) (length (const_to_reg_instrs r v)) s) = loaded r (v * 2 ^ 32) (length (const_to_reg_instrs r v) + 1) s"
    using s i by (simp add: loaded_put loaded_twice) (simp add: loaded_def)
qed simp_all

lemma low_executes:
  assumes "fits r 5" "r \<noteq> 0" "0 \<le> v" "v < 2 ^ 32"
  shows "executes 64 ((const_to_reg_instrs r v @ [stmt ''slli'' [xr r, xr r, ''32'']]) @ [stmt ''srli'' [xr r, xr r, ''32'']])
    (loaded r v (length (const_to_reg_instrs r v) + 2))"
proof (rule executes_cong [OF executes_append [OF high_executes [OF assms] execute_shift(2) [OF assms(1,2,1), of 32 64, folded show_32]]])
  fix s :: iss
  assume s: "iss_wf s" "xlen s = 64"
  have i: "nat r < length (regs s)" using s assms(1) by (auto simp: iss_wf_def fits_def)
  have "v * 2 ^ 32 mod 2 ^ 64 div 2 ^ 32 = v" using assms(3,4) by simp
  then show "put_reg r (regs (loaded r (v * 2 ^ 32) (length (const_to_reg_instrs r v) + 1) s) ! nat r div 2 ^ nat 32)
      (loaded r (v * 2 ^ 32) (length (const_to_reg_instrs r v) + 1) s) = loaded r v (length (const_to_reg_instrs r v) + 2) s"
    using s i by (simp add: loaded_put loaded_twice)
qed simp_all

lemma const64_executes:
  assumes "fits rd 5" "rd \<noteq> 0" "fits sc 5" "sc \<noteq> 0" "rd \<noteq> sc"
  shows "executes 64 (const64_to_reg_instrs rd sc bits)
    (\<lambda>s. loaded rd bits (length (const64_to_reg_instrs rd sc bits)) (loaded sc (bits mod 2 ^ 32) 0 s))"
proof -
  let ?hi = "drop_bit 32 bits AND 0xFFFFFFFF" and ?lo = "bits AND 0xFFFFFFFF"
  let ?a = "const_to_reg_instrs rd ?hi" and ?b = "const_to_reg_instrs sc ?lo"
  have r: "0 \<le> ?hi" "?hi < 2 ^ 32" "0 \<le> ?lo" "?lo < 2 ^ 32" by (simp_all add: bit_norm)
  have n: "nat rd \<noteq> nat sc" using assms by (auto simp: fits_def)
  have c: "const64_to_reg_instrs rd sc bits = ((?a @ [stmt ''slli'' [xr rd, xr rd, ''32'']]) @
      (?b @ [stmt ''slli'' [xr sc, xr sc, ''32'']]) @ [stmt ''srli'' [xr sc, xr sc, ''32'']]) @ [stmt ''or'' [xr rd, xr rd, xr sc]]"
    by (simp add: const64_to_reg_instrs_def Let_def)
  show ?thesis unfolding c
  proof (rule executes_cong [OF executes_append [OF executes_append [OF high_executes [OF assms(1,2) r(1,2)] low_executes [OF assms(3,4) r(3,4)]]
      execute_or [OF assms(1,2,1,3)]]])
    fix s :: iss
    assume s: "iss_wf s" "xlen s = 64"
    have i: "nat rd < length (regs s)" "nat sc < length (regs s)" using s assms(1,3) by (auto simp: iss_wf_def fits_def)
    have "?hi * 2 ^ 32 mod 2 ^ 64 OR ?lo mod 2 ^ 64 = bits mod 2 ^ 64" using halves [of bits] r by simp
    then show "put_reg rd (regs (loaded sc ?lo (length ?b + 2) (loaded rd (?hi * 2 ^ 32) (length ?a + 1) s)) ! nat rd OR
          regs (loaded sc ?lo (length ?b + 2) (loaded rd (?hi * 2 ^ 32) (length ?a + 1) s)) ! nat sc)
          (loaded sc ?lo (length ?b + 2) (loaded rd (?hi * 2 ^ 32) (length ?a + 1) s)) =
        loaded rd bits (length (((?a @ [stmt ''slli'' [xr rd, xr rd, ''32'']]) @
          (?b @ [stmt ''slli'' [xr sc, xr sc, ''32'']]) @ [stmt ''srli'' [xr sc, xr sc, ''32'']]) @ [stmt ''or'' [xr rd, xr rd, xr sc]]))
          (loaded sc (bits mod 2 ^ 32) 0 s)"
      using s i n by (simp add: loaded_put) (simp add: loaded_def list_update_swap [OF n] and_mod_32 algebra_simps)
  qed
qed

text \<open>Replacing a placeholder that does not occur.\<close>

lemma replace_absent: "c \<notin> set s \<Longrightarrow> py_replace (c # old) new s = s"
  by (induction s) (subst py_replace.simps, auto simp: py_replace.simps [of _ _ "[]"])+

end
