(* ===== verification/Random_Props.thy ===== *)
theory Random_Props
  imports Random_Const Asm_Props
begin

text \<open>
  The properties of the random program generator together with the assembler and the simulator.
\<close>

subsection \<open>The text and its lines\<close>

lemma clean_newline: "clean_line (l @ [newline]) = clean_line l"
proof -
  have n: "newline \<noteq> CHR ''#''" by code_simp
  have s: "py_strip (t @ [newline]) = py_strip t" for t
  proof (cases "\<forall>c \<in> set t. py_space c")
    case True
    then have "dropWhile py_space (t @ [newline]) = []" "dropWhile py_space t = []"
      using newline_space(1) unfolding dropWhile_eq_Nil_conv by auto
    then show ?thesis unfolding py_strip_def by (simp only:)
  next
    case False
    then obtain c where "c \<in> set t" "\<not> py_space c" by blast
    then have "dropWhile py_space (t @ [newline]) = dropWhile py_space t @ [newline]" by (rule dropWhile_append1)
    then show ?thesis by (simp add: py_strip_def newline_space)
  qed
  show ?thesis
  proof (cases "CHR ''#'' \<in> set l")
    case True
    then have "takeWhile (\<lambda>c. c \<noteq> CHR ''#'') (l @ [newline]) = takeWhile (\<lambda>c. c \<noteq> CHR ''#'') l"
      by (rule takeWhile_append1) simp
    then show ?thesis by (simp only: clean_line_def)
  next
    case False
    then have "takeWhile (\<lambda>c. c \<noteq> CHR ''#'') (l @ [newline]) = l @ [newline]" "takeWhile (\<lambda>c. c \<noteq> CHR ''#'') l = l"
      using n unfolding takeWhile_eq_all_conv by auto
    then show ?thesis by (simp only: clean_line_def s)
  qed
qed

lemma scan_newlines: "scan_lines (map (\<lambda>l. l @ [newline]) ls) a m = scan_lines ls a m"
  by (induction ls arbitrary: a m) (simp_all add: clean_newline Let_def)

lemma assemble_text:
  assumes "\<And>l. l \<in> set ls \<Longrightarrow> newline \<notin> set l"
  shows "assemble (file_lines (concat (map (\<lambda>l. l @ [newline]) ls))) xl = assemble ls xl"
  using file_lines_concat [of ls] assms by (simp add: assemble_def scan_newlines)

lemma newline_char: "CHR 0x0A = newline"
  by code_simp

lemma plain_program:
  assumes "xl = 32 \<or> xl = 64" "0 \<le> n" "n < 900" "- 2048 \<le> base" "base < 2048"
  shows "gen_program rnd n base msz None False xl = Inl ValueError \<and> msz div 4 < budget n xl False 0 \<or>
    budget n xl False 0 \<le> msz div 4 \<and>
    (\<exists>text ws. gen_program rnd n base msz None False xl = Inr (text, None) \<and> assemble (file_lines text) xl = Inr ws \<and>
      forward_program UNIV ws \<and> int (length ws) = budget n xl False 0 + 1)"
proof -
  define c where "c = \<lparr>g_xlen = xl, g_base = base, g_space = msz, g_csrs = RG_CSR_NAMES, g_mmu = False\<rparr>"
  have ok: "config_ok UNIV c" using assms(1) by (simp add: c_def config_ok_def RG_CSR_NAMES_def)
  define ls where "ls = fst (run_state (gen_body c n) rnd)"
  have ls: "\<forall>l \<in> set ls. body_line l" "\<exists>ws. assemble ls xl = Inr ws \<and> forward_program UNIV ws \<and> int (length ws) = n + (if xl \<ge> 64 then 23 else 15)"
    using pred_state_run_state [OF body_forward [OF ok _ _ assms(2,3)], of rnd] assms(4,5) by (simp_all add: c_def ls_def)
  have p: "gen_program rnd n base msz None False xl =
      (if msz div 4 < budget n xl False 0 then Inl ValueError else Inr (concat (map (\<lambda>l. l @ [newline]) ls), None))"
    by (simp add: gen_program_def gen_lines_def newline_char ls_def c_def)
  have b: "budget n xl False 0 + 1 = n + (if xl \<ge> 64 then 23 else 15)"
    using assms(1) by (auto simp: budget_def FLOAT_SEED_BITS_def)
  obtain ws where "assemble ls xl = Inr ws" "forward_program UNIV ws" "int (length ws) = n + (if xl \<ge> 64 then 23 else 15)"
    using ls(2) by blast
  then show ?thesis using assemble_text [of ls xl] ls(1) b unfolding p by (auto simp: body_line_def tidy_def)
qed

lemma init_facts: "pending_interrupt (iss_init m xl) = None" "pc (iss_init m xl) = 0" "priv_mode (iss_init m xl) = PRIV_M" "xlen (iss_init m xl) = xl"
  by (simp_all add: iss_init_def)

lemma self_check_holds: "self_check_const64 bits"
proof -
  let ?hi = "drop_bit 32 bits AND 0xFFFFFFFF" and ?lo = "bits AND 0xFFFFFFFF"
  have m: "x AND (push_bit 64 1 - 1) = x mod 2 ^ 64" for x :: int
    unfolding push_bit_eq_mult mult_1 by (rule and_mask_mod)
  have r: "0 \<le> ?hi" "?hi < 2 ^ 32" "0 \<le> ?lo" "?lo < 2 ^ 32" by (simp_all add: bit_norm)
  have s: "push_bit 32 (sext32 v mod 2 ^ 64) mod 2 ^ 64 = v * 2 ^ 32" if "0 \<le> v" "v < 2 ^ 32" for v
    using that sext_mod [of v 32] unfolding push_bit_eq_mult shifted_mod sext32_sext by simp
  have "drop_bit 32 (?lo * 2 ^ 32) = ?lo" by (simp add: drop_bit_eq_div)
  then show ?thesis
    unfolding self_check_const64_def Let_def m s [OF r(1,2)] s [OF r(3,4)] using halves [of bits] by simp
qed

subsection \<open>Properties\<close>

text \<open>
  C14. A program the generator returns without interrupts and translation, for every seed, on both
  register widths, with fewer than 900 random instructions and a base address that fits the
  immediate of \<open>addi\<close> (the callers leave it at 32), assembles, and the simulator runs it from reset
  to its halt loop: the last word is the jump to itself, \<open>ISS.run\<close> returns there without an
  exception, in M-mode, after fewer steps than the program has words. The first bound keeps every
  branch within its 13-bit offset: the generator also returns longer programs when the memory is
  large enough, and those may hold a branch that the assembler rejects.
\<close>

theorem generated_program_halts:
  assumes "gen_program rnd n base_addr mem_size None False xl = Inr (text, info)" "xl = 32 \<or> xl = 64"
    "0 \<le> n" "n < 900" "- 2048 \<le> base_addr" "base_addr < 2048" "0 < m" "int m < 2 ^ xl"
  shows "\<exists>ws. assemble (file_lines text) xl = Inr ws \<and> is_self_loop (last ws) \<and>
    (\<forall>mx \<ge> int (length ws). \<exists>k s. run (iss_init m xl) ws mx = Some (Inr (k, s)) \<and> k < int (length ws) \<and>
      pc s = 4 * (int (length ws) - 1) \<and> priv_mode s = PRIV_M \<and> iss_wf s)"
proof -
  obtain ws where ws: "assemble (file_lines text) xl = Inr ws" "forward_program UNIV ws" "int (length ws) = budget n xl False 0 + 1"
    using plain_program [OF assms(2-6), of rnd mem_size] assms(1) by auto
  have l: "0 < length ws" "is_self_loop (last ws)" using ws(2) by (auto simp: forward_program_def)
  have b: "4 * int (length ws) < 2 ^ xl" using ws(3) assms(2,4) by (auto simp: budget_def FLOAT_SEED_BITS_def)
  have "0 < xl" using assms(2) by auto
  note f = forward_run [OF ws(2) wf_init [OF assms(7) this assms(8)] init_facts(3,1) l(1), of 0, unfolded init_facts, simplified, OF b]
  have "int (length ws - Suc 0) = int (length ws) - 1" using l(1) by (cases ws) simp_all
  then have "\<forall>mx \<ge> int (length ws). \<exists>k s. run (iss_init m xl) ws mx = Some (Inr (k, s)) \<and> k < int (length ws) \<and>
      pc s = 4 * (int (length ws) - 1) \<and> priv_mode s = PRIV_M \<and> iss_wf s"
    using f unfolding run_def by fastforce
  with ws(1) l(2) show ?thesis by blast
qed

theorem generated_program_halts_witness:
  "\<exists>text ws k s. gen_program (\<lambda>i. 7 * i) 16 32 128 None False 32 = Inr (text, None) \<and> assemble (file_lines text) 32 = Inr ws \<and>
     run (iss_init 128 32) ws 20000 = Some (Inr (k, s)) \<and> k < int (length ws) \<and> pc s = 4 * (int (length ws) - 1)"
proof -
  let ?g = "gen_program (\<lambda>i. 7 * i) 16 32 128 None False 32"
  have b: "budget 16 32 False 0 = 30" by (simp add: budget_def FLOAT_SEED_BITS_def)
  then obtain t where g: "?g = Inr (t, None)" using plain_program [of 32 16 32 "\<lambda>i. 7 * i" 128] by auto
  have "\<exists>ws. assemble (file_lines t) 32 = Inr ws \<and> length ws = 31"
    using plain_program [of 32 16 32 "\<lambda>i. 7 * i" 128] g b by auto
  then have n: "assemble (file_lines t) 32 = Inr ws \<Longrightarrow> int (length ws) = 31" for ws by auto
  obtain ws where ws: "assemble (file_lines t) 32 = Inr ws"
    "\<forall>mx \<ge> int (length ws). \<exists>k s. run (iss_init 128 32) ws mx = Some (Inr (k, s)) \<and> k < int (length ws) \<and>
      pc s = 4 * (int (length ws) - 1) \<and> priv_mode s = PRIV_M \<and> iss_wf s"
    using generated_program_halts [OF g, of 128] by auto
  from ws(2) [rule_format, of 20000] n [OF ws(1)] g ws(1) show ?thesis by auto
qed

text \<open>
  C18. The size check of the generator does not count the \<open>fence\<close> before the halt loop: a program it
  returns without interrupts and translation, with fewer than 900 random instructions and a base
  address that fits \<open>addi\<close>, has one word more than the budget it computed, so when the budget just
  fits the memory, the assembler accepts the text and then fails to write the image; otherwise the
  image is written.
\<close>

theorem budget_misses_fence:
  assumes "gen_program rnd n base_addr mem_size None False xl = Inr (text, info)" "xl = 32 \<or> xl = 64"
    "0 \<le> n" "n < 900" "- 2048 \<le> base_addr" "base_addr < 2048"
  shows "if budget n xl False 0 = mem_size div 4 then asm_main (file_lines text) mem_size xl = Uncaught ValueError
    else \<exists>image. asm_main (file_lines text) mem_size xl = Written image"
proof -
  have "budget n xl False 0 \<le> mem_size div 4" and
    "\<exists>ws. assemble (file_lines text) xl = Inr ws \<and> int (length ws) = budget n xl False 0 + 1"
    using plain_program [OF assms(2-6), of rnd mem_size] assms(1) by auto
  then obtain ws where b: "budget n xl False 0 \<le> mem_size div 4"
    and ws: "assemble (file_lines text) xl = Inr ws" "int (length ws) = budget n xl False 0 + 1" by blast
  have p: "0 \<le> budget n xl False 0" using assms(3) by (simp add: budget_def)
  have "write_mem ws mem_size = Inl ValueError" if "budget n xl False 0 = mem_size div 4"
  proof -
    have "mem_size < 4 * (mem_size div 4) + 4" by presburger
    with that ws(2) show ?thesis by (simp add: write_mem_layout)
  qed
  moreover have "\<exists>image. write_mem ws mem_size = Inr image" if "budget n xl False 0 \<noteq> mem_size div 4"
    using that b p ws(2) by (auto simp: write_mem_layout)
  ultimately show ?thesis using ws(1) by (auto simp: asm_main_def)
qed

theorem budget_misses_fence_witness:
  "\<exists>text. gen_program (\<lambda>i. i) 18 32 128 None False 32 = Inr (text, None) \<and> asm_main (file_lines text) 128 32 = Uncaught ValueError"
proof -
  have b: "budget 18 32 False 0 = 128 div 4" by (simp add: budget_def FLOAT_SEED_BITS_def)
  then obtain t where g: "gen_program (\<lambda>i. i) 18 32 128 None False 32 = Inr (t, None)"
    using plain_program [of 32 18 32 "\<lambda>i. i" 128] by auto
  from budget_misses_fence [OF g] b g show ?thesis by simp
qed

text \<open>
  With translation, the prefix has exactly the 13 words its cost says on a 32-bit core and two fewer
  than the 24 it says on a 64-bit core.
\<close>

lemma mmu_prefix_words: "instr_count (mmu_prefix 32) = 13 \<and> instr_count (mmu_prefix 64) = 22"
  by code_simp

text \<open>
  C17. \<open>const_to_reg_instrs\<close> loads its constant. The lines assemble, and executing them changes only
  the named register and the program counter. On a 32-bit core the register holds the low 32 bits
  of the constant. On a 64-bit core it holds their sign extension, except for the 2048 constants
  from \<open>0x7FFFF800\<close> to \<open>0x7FFFFFFF\<close>, where the incremented \<open>lui\<close> half is negative and the result is
  lower by \<open>2 ^ 32\<close>.
\<close>

theorem const_to_reg_loads:
  assumes "iss_wf s" "xlen s = 32 \<or> xlen s = 64" "0 < rd" "rd < 32"
  shows "\<exists>ws. assemble (const_to_reg_instrs rd bits) (xlen s) = Inr ws \<and>
    steps s ws = Inr (s\<lparr>regs := (regs s)[nat rd :=
      (if xlen s = 32 then bits mod 2 ^ 32
       else if 0x7FFFF800 \<le> bits mod 2 ^ 32 \<and> bits mod 2 ^ 32 < 0x80000000 then (sext32 bits - 2 ^ 32) mod 2 ^ 64
       else sext32 bits mod 2 ^ 64)], pc := pc s + 4 * int (length ws)\<rparr>)"
proof -
  have "fits rd 5" "rd \<noteq> 0" using assms(3,4) by (simp_all add: fits_def)
  from const_executes [OF this, of "xlen s" bits] obtain ws where
    ws: "list_all2 (codes (xlen s)) (const_to_reg_instrs rd bits) ws"
    "steps s ws = Inr (loaded rd (const_value bits) (length (const_to_reg_instrs rd bits)) s)"
    using assms(1) unfolding executes_def by blast
  have "const_value bits mod 2 ^ xlen s =
      (if xlen s = 32 then bits mod 2 ^ 32
       else if 0x7FFFF800 \<le> bits mod 2 ^ 32 \<and> bits mod 2 ^ 32 < 0x80000000 then (sext32 bits - 2 ^ 32) mod 2 ^ 64
       else sext32 bits mod 2 ^ 64)"
    using assms(2) const_value_mod [of bits] by (auto simp: const_value_def sext32_sext)
  with ws(2) show ?thesis using codes_assemble [OF ws(1)] list_all2_lengthD [OF ws(1)]
    by (intro exI [of _ ws]) (simp only: loaded_def)
qed

theorem const_to_reg_loads_witness:
  "\<exists>ws. assemble (const_to_reg_instrs 5 0x7FFFFFFF) 64 = Inr ws \<and>
     steps (iss_init 64 64) ws = Inr ((iss_init 64 64)\<lparr>regs := (regs (iss_init 64 64))[5 := 0xFFFFFFFF7FFFFFFF], pc := 8\<rparr>)"
proof -
  have "length (const_to_reg_instrs 5 0x7FFFFFFF) = 2" by code_simp
  moreover have "fits 5 5" by (simp add: fits_def)
  ultimately have l: "assemble (const_to_reg_instrs 5 0x7FFFFFFF) 64 = Inr ws \<Longrightarrow> length ws = 2" for ws
    using const_executes [of 5 64 "0x7FFFFFFF"] codes_assemble unfolding executes_def
    by (metis list_all2_lengthD sum.inject(2) zero_neq_numeral)
  have v: "(sext32 0x7FFFFFFF - 2 ^ 32) mod 2 ^ 64 = 0xFFFFFFFF7FFFFFFF" by code_simp
  show ?thesis using const_to_reg_loads [OF init64, of 5 "0x7FFFFFFF"] l unfolding init_facts v by (auto simp: init_facts)
qed

text \<open>
  C16. \<open>const64_to_reg_instrs\<close> loads every 64-bit constant exactly: on a 64-bit core the lines
  assemble, the named register receives the constant, the scratch register its low half, and
  nothing else changes; and the module's own self-check holds for every constant.
\<close>

theorem const64_to_reg_loads:
  assumes "iss_wf s" "xlen s = 64" "0 < rd" "rd < 32" "0 < rd_scratch" "rd_scratch < 32" "rd \<noteq> rd_scratch"
  shows "self_check_const64 bits \<and>
    (\<exists>ws. assemble (const64_to_reg_instrs rd rd_scratch bits) 64 = Inr ws \<and>
      steps s ws = Inr (s\<lparr>regs := (regs s)[nat rd_scratch := bits mod 2 ^ 32, nat rd := bits mod 2 ^ 64],
        pc := pc s + 4 * int (length ws)\<rparr>))"
proof -
  have "fits rd 5" "rd \<noteq> 0" "fits rd_scratch 5" "rd_scratch \<noteq> 0" using assms(3-6) by (simp_all add: fits_def)
  from const64_executes [OF this assms(7), of bits] obtain ws where
    ws: "list_all2 (codes 64) (const64_to_reg_instrs rd rd_scratch bits) ws"
    "steps s ws = Inr (loaded rd bits (length (const64_to_reg_instrs rd rd_scratch bits)) (loaded rd_scratch (bits mod 2 ^ 32) 0 s))"
    using assms(1,2) unfolding executes_def by blast
  have "bits mod 2 ^ 32 mod 2 ^ 64 = bits mod 2 ^ 32" by simp
  then have "\<exists>ws. assemble (const64_to_reg_instrs rd rd_scratch bits) 64 = Inr ws \<and>
      steps s ws = Inr (s\<lparr>regs := (regs s)[nat rd_scratch := bits mod 2 ^ 32, nat rd := bits mod 2 ^ 64],
        pc := pc s + 4 * int (length ws)\<rparr>)"
    using ws(2) codes_assemble [OF ws(1)] list_all2_lengthD [OF ws(1)] assms(2)
    by (intro exI [of _ ws]) (simp add: loaded_def)
  moreover have "self_check_const64 bits" by (rule self_check_holds)
  ultimately show ?thesis by blast
qed

theorem const64_to_reg_loads_witness:
  "\<exists>ws. assemble (const64_to_reg_instrs 29 30 0xDEADBEEF12345678) 64 = Inr ws \<and>
     steps (iss_init 64 64) ws = Inr ((iss_init 64 64)\<lparr>regs := (regs (iss_init 64 64))[30 := 0x12345678, 29 := 0xDEADBEEF12345678],
       pc := 4 * int (length ws)\<rparr>)"
  using const64_to_reg_loads [OF init64, of 29 30 "0xDEADBEEF12345678"] by (simp add: init_facts)

end
