(* ===== verification/Elf2mem.thy ===== *)
theory Elf2mem
  imports Debugger
begin

text \<open>
  The converter of ELF files to memory images, \<open>elf2mem.py\<close>, with the reader of such images,
  \<open>read_mem\<close> of \<open>build_linux_boot.py\<close>. The binary utilities are a parameter: what \<open>objcopy\<close>
  writes for a section and what \<open>objdump -h\<close> and \<open>nm\<close> print, \<open>None\<close> for a run that fails.
\<close>

record elf_tools =
  objcopy_out :: "string \<Rightarrow> int list option"
  objdump_out :: "string option"
  nm_out :: "string option"

subsection \<open>Python text\<close>

text \<open>\<open>s.splitlines()\<close>, with the line boundaries among the ASCII characters, and \<open>s.split(c)\<close>.\<close>

definition line_end :: "char \<Rightarrow> bool" where
  "line_end c \<longleftrightarrow> (of_char c :: nat) \<in> {10, 11, 12, 13, 28, 29, 30}"

fun splitlines_aux :: "string \<Rightarrow> string \<Rightarrow> string list" where
  "splitlines_aux [] cur = (if cur = [] then [] else [rev cur])"
| "splitlines_aux (c # cs) cur =
     (if line_end c then
        rev cur # splitlines_aux (if of_char c = (13 :: nat) \<and> cs \<noteq> [] \<and> hd cs = newline then tl cs else cs) []
      else splitlines_aux cs (c # cur))"

definition splitlines :: "string \<Rightarrow> string list" where
  "splitlines s = splitlines_aux s []"

fun split_on_aux :: "char \<Rightarrow> string \<Rightarrow> string \<Rightarrow> string list" where
  "split_on_aux k [] cur = [rev cur]"
| "split_on_aux k (c # cs) cur = (if c = k then rev cur # split_on_aux k cs [] else split_on_aux k cs (c # cur))"

definition split_on :: "char \<Rightarrow> string \<Rightarrow> string list" where
  "split_on k s = split_on_aux k s []"

text \<open>\<open>int(s, 16)\<close>.\<close>

definition hex_body :: "string \<Rightarrow> int option" where
  "hex_body s =
     (case s of
        c # d # rest \<Rightarrow>
          if c = CHR ''0'' \<and> py_lower_char d = CHR ''x'' then int_digits 16 True rest 0 else int_digits 16 False s 0
      | _ \<Rightarrow> int_digits 16 False s 0)"

definition py_int16 :: "string \<Rightarrow> int result" where
  "py_int16 tok =
     (case py_strip tok of
        [] \<Rightarrow> Inl ValueError
      | c # cs \<Rightarrow>
          (case (if c = CHR ''-'' then map_option uminus (hex_body cs)
                 else if c = CHR ''+'' then hex_body cs else hex_body (c # cs)) of
             None \<Rightarrow> Inl ValueError | Some v \<Rightarrow> Inr v))"

subsection \<open>What the utilities say\<close>

definition extract_raw :: "elf_tools \<Rightarrow> string \<Rightarrow> int list result" where
  "extract_raw tools sec = (case objcopy_out tools sec of None \<Rightarrow> Inl RuntimeError | Some data \<Rightarrow> Inr data)"

fun extract_all :: "elf_tools \<Rightarrow> string list \<Rightarrow> int list result" where
  "extract_all tools [] = Inr []"
| "extract_all tools (s # ss) = rbind (extract_raw tools s) (\<lambda>d. rbind (extract_all tools ss) (\<lambda>ds. Inr (d @ ds)))"

definition extract_binary :: "elf_tools \<Rightarrow> string list \<Rightarrow> int \<Rightarrow> int list result" where
  "extract_binary tools secs size_bytes =
     rbind (extract_all tools secs) (\<lambda>data.
       if int (length data) > size_bytes then Inl ValueError
       else Inr (data @ replicate (nat (size_bytes - int (length data))) 0))"

fun find_vma :: "string \<Rightarrow> string list \<Rightarrow> int option result" where
  "find_vma sec [] = Inr None"
| "find_vma sec (line # rest) =
     (let parts = py_split line
      in if length parts \<ge> 4 \<and> parts ! 1 = sec then rbind (py_int16 (parts ! 3)) (\<lambda>v. Inr (Some v))
         else find_vma sec rest)"

definition get_section_vma :: "elf_tools \<Rightarrow> string \<Rightarrow> int option result" where
  "get_section_vma tools sec =
     (case objdump_out tools of None \<Rightarrow> Inl RuntimeError | Some out \<Rightarrow> find_vma sec (splitlines out))"

fun find_symbol :: "string \<Rightarrow> string list \<Rightarrow> int result" where
  "find_symbol name [] = Inl ValueError"
| "find_symbol name (line # rest) =
     (let parts = py_split line
      in if length parts \<ge> 3 \<and> last parts = name then py_int16 (parts ! 0) else find_symbol name rest)"

definition get_symbol :: "elf_tools \<Rightarrow> string \<Rightarrow> int result" where
  "get_symbol tools name =
     (case nm_out tools of None \<Rightarrow> Inl RuntimeError | Some out \<Rightarrow> find_symbol name (splitlines out))"

subsection \<open>Images\<close>

fun swap_groups :: "int list \<Rightarrow> int list" where
  "swap_groups (a # b # c # d # rest) = d # c # b # a # swap_groups rest"
| "swap_groups rest = rest"

definition swap_instruction_words :: "int list \<Rightarrow> int list result" where
  "swap_instruction_words data = (if length data mod 4 = 0 then Inr (swap_groups data) else Inl AssertionError)"

definition elf_write_mem :: "int list \<Rightarrow> string" where
  "elf_write_mem data = concat (map (\<lambda>b. bin8 b @ [newline]) data)"

text \<open>\<open>xs[a:b] = ys\<close> on a list or bytearray, which may change its length.\<close>

definition slice_assign :: "'a list \<Rightarrow> int \<Rightarrow> int \<Rightarrow> 'a list \<Rightarrow> 'a list" where
  "slice_assign xs a b ys =
     (let i = py_bound (length xs) a; j = max i (py_bound (length xs) b) in take i xs @ ys @ drop j xs)"

definition bytearray :: "int \<Rightarrow> int list result" where
  "bytearray n = (if n < 0 then Inl ValueError else Inr (replicate (nat n) 0))"

definition place_bytes :: "int list \<Rightarrow> int \<Rightarrow> int list \<Rightarrow> int list" where
  "place_bytes buf off blob = slice_assign buf off (off + int (length blob)) blob"

text \<open>The loop of \<open>main\<close> over the instruction sections, and the one over the two data sections.\<close>

fun place_sections :: "elf_tools \<Rightarrow> int \<Rightarrow> string list \<Rightarrow> int list \<Rightarrow> int list result" where
  "place_sections tools imem_size [] imem = Inr imem"
| "place_sections tools imem_size (sec # secs) imem =
     rbind (extract_raw tools sec) (\<lambda>raw.
       if raw = [] then place_sections tools imem_size secs imem
       else rbind (get_section_vma tools sec) (\<lambda>found.
         case found of
           None \<Rightarrow> Inl ValueError
         | Some vma \<Rightarrow>
             if vma + int (length raw) > imem_size then Inl ValueError
             else place_sections tools imem_size secs (place_bytes imem vma raw)))"

fun place_blobs :: "int \<Rightarrow> (int \<times> int list) list \<Rightarrow> int list \<Rightarrow> int list result" where
  "place_blobs dmem_size [] dmem = Inr dmem"
| "place_blobs dmem_size ((off, blob) # rest) dmem =
     (if off + int (length blob) > dmem_size then Inl ValueError
      else place_blobs dmem_size rest (place_bytes dmem off blob))"

definition symbol_unless_empty :: "elf_tools \<Rightarrow> string \<Rightarrow> int list \<Rightarrow> int result" where
  "symbol_unless_empty tools name raw = (if raw \<noteq> [] then get_symbol tools name else Inr 0)"

definition elf2mem_main :: "elf_tools \<Rightarrow> int \<Rightarrow> int \<Rightarrow> string \<Rightarrow> (string \<times> string) result" where
  "elf2mem_main tools imem_size dmem_size imem_sections =
     rbind (bytearray imem_size) (\<lambda>imem0.
     rbind (place_sections tools imem_size (split_on CHR '','' imem_sections) imem0) (\<lambda>imem.
     rbind (extract_raw tools ''.rodata'') (\<lambda>rodata_raw.
     rbind (extract_raw tools ''.data'') (\<lambda>data_raw.
     rbind (symbol_unless_empty tools ''_rodata_start'' rodata_raw) (\<lambda>rodata_off.
     rbind (symbol_unless_empty tools ''_data_start'' data_raw) (\<lambda>data_off.
     rbind (bytearray dmem_size) (\<lambda>dmem0.
     rbind (place_blobs dmem_size [(rodata_off, rodata_raw), (data_off, data_raw)] dmem0) (\<lambda>dmem.
       Inr (elf_write_mem imem, elf_write_mem dmem)))))))))"

subsection \<open>Reading an image back\<close>

text \<open>\<open>buf[i] = v\<close> on a bytearray checks the value before the index.\<close>

definition set_byte :: "int list \<Rightarrow> nat \<Rightarrow> int \<Rightarrow> int list result" where
  "set_byte buf i v =
     (if v < 0 \<or> 255 < v then Inl ValueError else if i \<ge> length buf then Inl IndexError else Inr (buf[i := v]))"

fun read_mem_lines :: "int list \<Rightarrow> nat \<Rightarrow> string list \<Rightarrow> int list result" where
  "read_mem_lines buf i [] = Inr buf"
| "read_mem_lines buf i (raw # rest) =
     (let line = py_strip raw
      in if line = [] then read_mem_lines buf (i + 1) rest
         else rbind (py_int2 line) (\<lambda>v. rbind (set_byte buf i v) (\<lambda>buf'. read_mem_lines buf' (i + 1) rest)))"

definition read_mem :: "string \<Rightarrow> int \<Rightarrow> int list result" where
  "read_mem text size_bytes = rbind (bytearray size_bytes) (\<lambda>buf. read_mem_lines buf 0 (file_lines text))"

end
