(* ===== verification/Boot.thy ===== *)
theory Boot
  imports Elf2mem Dtb
begin

text \<open>
  The builders of boot images: \<open>build_linux_boot.py\<close> combines firmware, kernel, ramdisk and device
  tree into one image per memory, \<open>build_sbi_firmware.py\<close> overlays a device tree on the firmware's
  data image. Compiling the firmware is a parameter: the binary utilities' view of the ELF file, or
  \<open>None\<close> when a compiler command fails.
\<close>

subsection \<open>Commands\<close>

text \<open>\<open>run\<close> of a script of this tool chain: whatever it raised is a failed command.\<close>

definition run_tool :: "'a result \<Rightarrow> 'a result" where
  "run_tool r = (case r of Inl e \<Rightarrow> Inl RuntimeError | Inr v \<Rightarrow> Inr v)"

definition compiled :: "elf_tools option \<Rightarrow> elf_tools result" where
  "compiled fw = (case fw of None \<Rightarrow> Inl RuntimeError | Some tools \<Rightarrow> Inr tools)"

subsection \<open>The Linux image\<close>

definition MEM_SIZE_BYTES :: int where "MEM_SIZE_BYTES = 64 * 1024 * 1024"
definition FW_LINK_SIZE :: int where "FW_LINK_SIZE = 32768"
definition KERNEL_LOAD_ADDR :: int where "KERNEL_LOAD_ADDR = 0x200000"
definition INITRD_ADDR :: int where "INITRD_ADDR = 0x1000000"
definition DTB_ADDR_KERNEL :: int where "DTB_ADDR_KERNEL = 0x1500000"

text \<open>\<open>struct.unpack_from("<Q", buf, off)\<close>.\<close>

definition le_value :: "int list \<Rightarrow> int" where
  "le_value bs = foldr (\<lambda>b acc. b + 256 * acc) bs 0"

definition unpack_from_le8 :: "int list \<Rightarrow> nat \<Rightarrow> int result" where
  "unpack_from_le8 buf off = (if off + 8 \<le> length buf then Inr (le_value (slice buf off (off + 8))) else Inl StructError)"

definition IMAGE_MAGIC :: "int list" where
  "IMAGE_MAGIC = map of_char ''RISCV'' @ [0, 0, 0]"

definition check_parts :: "int list \<Rightarrow> int list \<Rightarrow> unit result" where
  "check_parts kernel_bytes initramfs_bytes =
     rbind (unpack_from_le8 kernel_bytes 0x08) (\<lambda>text_offset.
       if slice kernel_bytes 0x30 0x38 \<noteq> IMAGE_MAGIC then Inl ValueError
       else if text_offset \<noteq> KERNEL_LOAD_ADDR then Inl ValueError
       else if INITRD_ADDR < KERNEL_LOAD_ADDR + int (length kernel_bytes) then Inl ValueError
       else if DTB_ADDR_KERNEL < INITRD_ADDR + int (length initramfs_bytes) then Inl ValueError
       else Inr ())"

definition LINUX_BOOTARGS :: string where
  "LINUX_BOOTARGS = ''earlycon=uart8250,mmio,0x10000000,1000000n8 console=ttyS0 rdinit=/init''"

definition build_firmware :: "elf_tools option \<Rightarrow> (int list \<times> int list) result" where
  "build_firmware fw =
     rbind (compiled fw) (\<lambda>tools.
     rbind (run_tool (elf2mem_main tools FW_LINK_SIZE FW_LINK_SIZE ''.text.boot'')) (\<lambda>(imem, dmem).
     rbind (read_mem imem FW_LINK_SIZE) (\<lambda>fw_imem.
     rbind (read_mem dmem FW_LINK_SIZE) (\<lambda>fw_dmem. Inr (fw_imem, fw_dmem)))))"

definition zero_init_limit :: "int list \<Rightarrow> int" where
  "zero_init_limit dtb_bytes = (let content_end = DTB_ADDR_KERNEL + int (length dtb_bytes) in (content_end + 4095) div 4096 * 4096)"

definition combine_imem :: "int \<Rightarrow> int list \<Rightarrow> int list \<Rightarrow> int list result" where
  "combine_imem limit fw_imem kernel_bytes =
     rbind (bytearray limit) (\<lambda>combined.
       let combined = slice_assign combined 0 (int (length fw_imem)) fw_imem;
           combined = slice_assign combined KERNEL_LOAD_ADDR (KERNEL_LOAD_ADDR + int (length kernel_bytes)) kernel_bytes
       in Inr combined)"

definition combine_dmem :: "int \<Rightarrow> int list \<Rightarrow> int list \<Rightarrow> int list \<Rightarrow> int list \<Rightarrow> int list result" where
  "combine_dmem limit fw_dmem kernel_bytes initramfs_bytes dtb_bytes =
     rbind (bytearray limit) (\<lambda>combined.
       let combined = slice_assign combined 0 (int (length fw_dmem)) fw_dmem;
           combined = slice_assign combined KERNEL_LOAD_ADDR (KERNEL_LOAD_ADDR + int (length kernel_bytes)) kernel_bytes;
           combined = slice_assign combined INITRD_ADDR (INITRD_ADDR + int (length initramfs_bytes)) initramfs_bytes;
           combined = slice_assign combined DTB_ADDR_KERNEL (DTB_ADDR_KERNEL + int (length dtb_bytes)) dtb_bytes
       in Inr combined)"

text \<open>The two images and the limit that \<open>main\<close> prints.\<close>

definition linux_boot_main :: "int list \<Rightarrow> int list \<Rightarrow> elf_tools option \<Rightarrow> int \<Rightarrow> (string \<times> string \<times> int) result" where
  "linux_boot_main kernel_bytes initramfs_bytes fw msize =
     rbind (check_parts kernel_bytes initramfs_bytes) (\<lambda>_.
     rbind (build_firmware fw) (\<lambda>(fw_imem, fw_dmem).
     rbind (run_tool (gen_dtb_main msize 1000000 1843200 LINUX_BOOTARGS
              (Some INITRD_ADDR) (Some (INITRD_ADDR + int (length initramfs_bytes))))) (\<lambda>(dtb_bytes, _).
       if DTB_ADDR_KERNEL + int (length dtb_bytes) > msize then Inl ValueError
       else
         rbind (combine_imem (zero_init_limit dtb_bytes) fw_imem kernel_bytes) (\<lambda>imem.
         rbind (combine_dmem (zero_init_limit dtb_bytes) fw_dmem kernel_bytes initramfs_bytes dtb_bytes) (\<lambda>dmem.
           Inr (elf_write_mem imem, elf_write_mem dmem, zero_init_limit dtb_bytes))))))"

subsection \<open>The firmware image\<close>

definition MEM_SIZE :: int where "MEM_SIZE = 32768"
definition DTB_ADDR :: nat where "DTB_ADDR = 0x4000"

fun overlay_bytes :: "string list \<Rightarrow> nat \<Rightarrow> int list \<Rightarrow> string list" where
  "overlay_bytes lines addr [] = lines"
| "overlay_bytes lines addr (b # bs) = overlay_bytes (lines[addr := bin8 b]) (addr + 1) bs"

text \<open>\<open>"\n".join(lines) + "\n"\<close>.\<close>

fun join_lines :: "string list \<Rightarrow> string" where
  "join_lines [] = [newline]"
| "join_lines [l] = l @ [newline]"
| "join_lines (l # ls) = l @ newline # join_lines ls"

definition overlay_dtb_into_dmem :: "string \<Rightarrow> int list \<Rightarrow> nat \<Rightarrow> string result" where
  "overlay_dtb_into_dmem dmem_text dtb_bytes dtb_addr =
     (let lines = splitlines dmem_text
      in if dtb_addr + length dtb_bytes > length lines then Inl ValueError
         else Inr (join_lines (overlay_bytes lines dtb_addr dtb_bytes)))"

definition sbi_firmware_main :: "elf_tools option \<Rightarrow> (string \<times> string) result" where
  "sbi_firmware_main fw =
     rbind (compiled fw) (\<lambda>tools.
     rbind (run_tool (elf2mem_main tools MEM_SIZE MEM_SIZE ''.text.boot,.text.payload'')) (\<lambda>(imem, dmem).
     rbind (run_tool (gen_dtb_main MEM_SIZE 1000000 1843200 ''console=ttyS0 earlycon'' None None)) (\<lambda>(dtb_bytes, _).
     rbind (overlay_dtb_into_dmem dmem dtb_bytes DTB_ADDR) (\<lambda>dmem'. Inr (imem, dmem')))))"

end
