(* ===== verification/Elf_Image.thy ===== *)
theory Elf_Image
  imports Elf2mem Asm_Image Dtb_Props
begin

text \<open>
  Placing blobs into memory images. The interface \<open>placement\<close> says what a placement does to the
  bytes of an image; its clients learn that a blob is read back from a finished image when no
  later blob touches it. It is interpreted on byte buffers here and on text images in \<open>Boot_Image\<close>.
\<close>

subsection \<open>The interface\<close>

definition overwrite :: "'a list \<Rightarrow> nat \<Rightarrow> 'a list \<Rightarrow> 'a list" where
  "overwrite xs i ys = take i xs @ ys @ drop (i + length ys) xs"

abbreviation (input) span :: "int \<times> 'a list \<Rightarrow> int set" where
  "span part \<equiv> {fst part ..< fst part + int (length (snd part))}"

definition inside :: "nat \<Rightarrow> int \<times> 'a list \<Rightarrow> bool" where
  "inside n part \<longleftrightarrow> 0 \<le> fst part \<and> fst part + int (length (snd part)) \<le> int n"

text \<open>The byte at \<open>k\<close> after placing some parts over \<open>b\<close>.\<close>

definition part_byte :: "int \<Rightarrow> (int \<times> int list) list \<Rightarrow> nat \<Rightarrow> int" where
  "part_byte b parts k = foldl (\<lambda>b part. if int k \<in> span part then snd part ! (k - nat (fst part)) else b) b parts"

lemma part_byte_untouched: "\<forall>part \<in> set parts. int k \<notin> span part \<Longrightarrow> part_byte b parts k = b"
  by (induction parts arbitrary: b) (auto simp: part_byte_def)

lemma length_overwrite: "i + length ys \<le> length xs \<Longrightarrow> length (overwrite xs i ys) = length xs"
  by (simp add: overwrite_def)

lemma nth_overwrite:
  "i + length ys \<le> length xs \<Longrightarrow> k < length xs \<Longrightarrow>
     overwrite xs i ys ! k = (if i \<le> k \<and> k < i + length ys then ys ! (k - i) else xs ! k)"
  by (auto simp: overwrite_def nth_append)

locale placement =
  fixes contents :: "'im \<Rightarrow> int list" and place :: "'im \<Rightarrow> int \<Rightarrow> int list \<Rightarrow> 'im" and ok :: "'im \<Rightarrow> bool"
  assumes place_ok: "ok im \<Longrightarrow> bytes blob \<Longrightarrow> inside (length (contents im)) (off, blob) \<Longrightarrow> ok (place im off blob)"
    and place_contents: "ok im \<Longrightarrow> bytes blob \<Longrightarrow> inside (length (contents im)) (off, blob) \<Longrightarrow>
      contents (place im off blob) = overwrite (contents im) (nat off) blob"
begin

lemma place_length:
  "ok im \<Longrightarrow> bytes blob \<Longrightarrow> inside (length (contents im)) (off, blob) \<Longrightarrow>
     length (contents (place im off blob)) = length (contents im)"
  by (subst place_contents) (auto simp: inside_def intro: length_overwrite)

lemma place_byte:
  assumes "ok im" "bytes blob" "inside (length (contents im)) (off, blob)" "k < length (contents im)"
  shows "contents (place im off blob) ! k =
    (if int k \<in> span (off, blob) then blob ! (k - nat off) else contents im ! k)"
  using assms by (auto simp: place_contents nth_overwrite inside_def)

lemma places_ok:
  assumes "ok im" "\<forall>part \<in> set parts. bytes (snd part) \<and> inside (length (contents im)) part"
  shows "ok (foldl (\<lambda>im (off, blob). place im off blob) im parts) \<and>
    length (contents (foldl (\<lambda>im (off, blob). place im off blob) im parts)) = length (contents im)"
  using assms by (induction parts arbitrary: im) (auto simp: place_ok place_length)

text \<open>Byte by byte, the blob placed last wins.\<close>

lemma placed_byte:
  assumes "ok im" "\<forall>part \<in> set parts. bytes (snd part) \<and> inside (length (contents im)) part" "k < length (contents im)"
  shows "contents (foldl (\<lambda>im (off, blob). place im off blob) im parts) ! k = part_byte (contents im ! k) parts k"
  using assms
proof (induction parts arbitrary: im)
  case (Cons part parts)
  obtain off blob where p: "part = (off, blob)" by (cases part)
  have f: "ok im" "bytes blob" "inside (length (contents im)) (off, blob)" using Cons.prems p by auto
  have "contents (foldl (\<lambda>im (off, blob). place im off blob) (place im off blob) parts) ! k =
      part_byte (contents (place im off blob) ! k) parts k"
    using Cons.prems p f by (intro Cons.IH) (auto simp: place_ok place_length)
  then show ?case using place_byte [OF f] Cons.prems p by (simp add: part_byte_def)
qed (simp add: part_byte_def)

lemma placed_contents:
  assumes "ok im" "\<forall>part \<in> set parts. bytes (snd part) \<and> inside (length (contents im)) part"
  shows "contents (foldl (\<lambda>im (off, blob). place im off blob) im parts) =
    map (\<lambda>k. part_byte (contents im ! k) parts k) [0..<length (contents im)]"
  using places_ok [OF assms] placed_byte [OF assms] by (intro nth_equalityI) auto

text \<open>A blob that no later blob overlaps is read back from the finished image.\<close>

lemma part_reads_back:
  assumes "ok im" "\<forall>part \<in> set (before @ (off, blob) # after). bytes (snd part) \<and> inside (length (contents im)) part"
    "\<forall>part \<in> set after. span part \<inter> span (off, blob) = {}"
  shows "slice (contents (foldl (\<lambda>im (off, blob). place im off blob) im (before @ (off, blob) # after)))
      (nat off) (nat off + length blob) = blob"
proof (rule nth_equalityI)
  let ?step = "\<lambda>im (off, blob). place im off blob"
  define mid where "mid = foldl ?step im before"
  have m: "ok mid" "length (contents mid) = length (contents im)"
    using places_ok [of im before] assms by (auto simp: mid_def)
  define im' where "im' = place mid off blob"
  have b: "bytes blob" "inside (length (contents mid)) (off, blob)" using assms m by auto
  have i: "ok im'" "length (contents im') = length (contents im)"
    using place_ok [OF m(1) b] place_length [OF m(1) b] m by (auto simp: im'_def)
  define fin where "fin = foldl ?step im' after"
  have fin: "foldl ?step im (before @ (off, blob) # after) = fin" by (simp add: fin_def im'_def mid_def)
  have len: "length (contents fin) = length (contents im)"
    using places_ok [of im' after] assms i by (auto simp: fin_def)
  show "length (slice (contents (foldl ?step im (before @ (off, blob) # after))) (nat off) (nat off + length blob)) = length blob"
    unfolding fin using b m len by (auto simp: slice_def inside_def)
  fix k
  assume "k < length (slice (contents (foldl ?step im (before @ (off, blob) # after))) (nat off) (nat off + length blob))"
  then have k: "k < length blob" unfolding fin by (simp add: slice_def)
  then have r: "nat off + k < length (contents im)" "0 \<le> off" using b m by (auto simp: inside_def)
  have "int (nat off + k) \<in> span (off, blob)" using r k by simp
  then have "\<forall>part \<in> set after. int (nat off + k) \<notin> span part" using assms(3) by blast
  then have "contents fin ! (nat off + k) = contents im' ! (nat off + k)"
    unfolding fin_def using assms i r by (subst placed_byte) (auto intro!: part_byte_untouched)
  also have "\<dots> = blob ! k"
    using place_byte [OF m(1) b, of "nat off + k"] r k m by (simp add: im'_def)
  finally show "slice (contents (foldl ?step im (before @ (off, blob) # after))) (nat off) (nat off + length blob) ! k = blob ! k"
    unfolding fin using k r len by (simp add: slice_def)
qed

end

subsection \<open>Byte buffers\<close>

lemma place_bytes_overwrite: "inside (length buf) (off, blob) \<Longrightarrow> place_bytes buf off blob = overwrite buf (nat off) blob"
  by (auto simp: place_bytes_def slice_assign_def overwrite_def inside_def py_bound_def Let_def min_def max_def nat_add_distrib)

interpretation buffer: placement "\<lambda>buf. buf" place_bytes bytes
proof
  fix im blob :: "int list" and off
  assume "bytes im" "bytes blob" "inside (length im) (off, blob)"
  then show "bytes (place_bytes im off blob)"
    by (auto simp: place_bytes_overwrite overwrite_def bytes_def list_all_iff dest: in_set_takeD in_set_dropD)
qed (rule place_bytes_overwrite)


lemma bytes_zero: "bytes (replicate n 0)"
  by (simp add: bytes_def list_all_iff)

lemma bytearray_Inr: "0 \<le> n \<Longrightarrow> bytearray n = Inr (replicate (nat n) 0)"
  by (simp add: bytearray_def)

subsection \<open>The two images of an ELF file\<close>

definition image_of :: "nat \<Rightarrow> (int \<times> int list) list \<Rightarrow> int list" where
  "image_of n parts = map (part_byte 0 parts) [0..<n]"

definition fit :: "int \<Rightarrow> (int \<times> int list) list \<Rightarrow> bool" where
  "fit n parts \<longleftrightarrow> (\<forall>part \<in> set parts. fst part + int (length (snd part)) \<le> n)"

lemma placed_image:
  "\<forall>part \<in> set parts. bytes (snd part) \<and> inside n part \<Longrightarrow>
     foldl (\<lambda>im (off, blob). place_bytes im off blob) (replicate n 0) parts = image_of n parts"
  using buffer.placed_contents [of "replicate n 0" parts] by (auto simp: bytes_zero image_of_def)

text \<open>The parts of an instruction image: the sections that have content, each at its address.\<close>

definition code_parts :: "(string \<Rightarrow> int) \<Rightarrow> (string \<Rightarrow> int list) \<Rightarrow> string list \<Rightarrow> (int \<times> int list) list" where
  "code_parts vma raw secs = map (\<lambda>s. (vma s, raw s)) (filter (\<lambda>s. raw s \<noteq> []) secs)"

text \<open>The utilities describe a file: the bytes and the address of each of these sections.\<close>

definition describes :: "elf_tools \<Rightarrow> (string \<Rightarrow> int) \<Rightarrow> (string \<Rightarrow> int list) \<Rightarrow> string list \<Rightarrow> bool" where
  "describes tools vma raw secs \<longleftrightarrow>
     (\<forall>s \<in> set secs. objcopy_out tools s = Some (raw s) \<and> bytes (raw s) \<and>
        (raw s \<noteq> [] \<longrightarrow> get_section_vma tools s = Inr (Some (vma s)) \<and> 0 \<le> vma s))"

lemma place_sections_parts:
  assumes "describes tools vma raw secs"
  shows "place_sections tools n secs imem =
    (if fit n (code_parts vma raw secs)
     then Inr (foldl (\<lambda>im (off, blob). place_bytes im off blob) imem (code_parts vma raw secs)) else Inl ValueError)"
  using assms
  by (induction secs arbitrary: imem) (auto simp: describes_def code_parts_def extract_raw_def fit_def)

lemma place_blobs_parts:
  "place_blobs n parts dmem =
    (if fit n parts
     then Inr (foldl (\<lambda>im (off, blob). place_bytes im off blob) dmem parts) else Inl ValueError)"
proof (induction parts arbitrary: dmem)
  case (Cons part parts)
  then show ?case by (cases part; cases "fst part + int (length (snd part)) \<le> n") (simp_all add: fit_def)
qed (simp add: fit_def)

lemma parts_good:
  "describes tools vma raw secs \<Longrightarrow> part \<in> set (code_parts vma raw secs) \<Longrightarrow> bytes (snd part) \<and> 0 \<le> fst part"
  by (auto simp: describes_def code_parts_def)


text \<open>The two data sections, with the addresses of the symbols that start them.\<close>

definition describes_data :: "elf_tools \<Rightarrow> int \<times> int list \<Rightarrow> int \<times> int list \<Rightarrow> bool" where
  "describes_data tools ro da \<longleftrightarrow>
     objcopy_out tools ''.rodata'' = Some (snd ro) \<and> objcopy_out tools ''.data'' = Some (snd da) \<and>
     bytes (snd ro) \<and> bytes (snd da) \<and> 0 \<le> fst ro \<and> 0 \<le> fst da \<and>
     symbol_unless_empty tools ''_rodata_start'' (snd ro) = Inr (fst ro) \<and>
     symbol_unless_empty tools ''_data_start'' (snd da) = Inr (fst da)"

lemma elf2mem_parts:
  assumes code: "describes tools vma raw (split_on CHR '','' names)" and data: "describes_data tools ro da"
    and size: "0 \<le> imem_size" "0 \<le> dmem_size"
  shows "elf2mem_main tools imem_size dmem_size names =
    (if fit imem_size (code_parts vma raw (split_on CHR '','' names)) \<and> fit dmem_size [ro, da]
     then Inr (elf_write_mem (image_of (nat imem_size) (code_parts vma raw (split_on CHR '','' names))),
               elf_write_mem (image_of (nat dmem_size) [ro, da]))
     else Inl ValueError)"
proof -
  let ?ip = "code_parts vma raw (split_on CHR '','' names)" and ?dp = "[ro, da]"
  have i: "foldl (\<lambda>im (off, blob). place_bytes im off blob) (replicate (nat imem_size) 0) ?ip = image_of (nat imem_size) ?ip"
    if "fit imem_size ?ip"
    using that parts_good [OF code] size by (intro placed_image) (auto simp: inside_def fit_def)
  have d: "foldl (\<lambda>im (off, blob). place_bytes im off blob) (replicate (nat dmem_size) 0) ?dp = image_of (nat dmem_size) ?dp"
    if "fit dmem_size ?dp"
    using that data size by (intro placed_image) (auto simp: inside_def fit_def describes_data_def)
  have r: "extract_raw tools ''.rodata'' = Inr (snd ro)" "extract_raw tools ''.data'' = Inr (snd da)"
      "symbol_unless_empty tools ''_rodata_start'' (snd ro) = Inr (fst ro)" "symbol_unless_empty tools ''_data_start'' (snd da) = Inr (fst da)"
    using data by (simp_all add: extract_raw_def describes_data_def)
  show ?thesis
  proof (cases "fit imem_size ?ip")
    case True
    then show ?thesis
      by (cases "fit dmem_size ?dp")
        (simp_all only: elf2mem_main_def bytearray_Inr size r rbind_simps place_sections_parts [OF code]
          prod.collapse place_blobs_parts i d if_True if_False simp_thms)
  next
    case False
    then show ?thesis
      by (simp only: elf2mem_main_def bytearray_Inr size rbind_simps place_sections_parts [OF code] if_False simp_thms)
  qed
qed

subsection \<open>Images as text\<close>

lemma image_lines: "file_lines (elf_write_mem data) = map (\<lambda>b. bin8 b @ [newline]) data"
  using file_lines_concat [of "map bin8 data"] newline_space bit_char by (fastforce simp: elf_write_mem_def comp_def)

lemma strip_bin8: "py_strip (bin8 b @ [newline]) = bin8 b"
  by (rule strip_line) (auto dest!: bit_char simp: bit_char_space)

lemma int2_bin8: "0 \<le> b \<Longrightarrow> b < 256 \<Longrightarrow> py_int2 (bin8 b) = Inr b"
proof -
  assume "0 \<le> b" "b < 256"
  moreover have "byte_bits b \<noteq> []" by (simp add: byte_bits_def)
  ultimately show ?thesis by (simp add: bin8_bits py_int2_bits bits_value_byte fits_def)
qed

lemma read_mem_lines_image:
  assumes "bytes data" "length done = i"
  shows "read_mem_lines (done @ rest) i (map (\<lambda>b. bin8 b @ [newline]) data) =
    (if length data \<le> length rest then Inr (done @ data @ drop (length data) rest) else Inl IndexError)"
  using assms
proof (induction data arbitrary: "done" i rest)
  case (Cons b data)
  have "py_int2 (bin8 b) = Inr b" using Cons.prems by (intro int2_bin8) (simp_all add: bytes_def)
  moreover have "bin8 b \<noteq> []" by (simp add: bin8_def)
  ultimately show ?case
    using Cons.prems Cons.IH [of "done @ [b]" "i + 1" "tl rest"]
    by (cases rest) (auto simp: strip_bin8 set_byte_def bytes_def list_update_append)
qed simp

end
