(* ===== verification/Boot_Image.thy ===== *)
theory Boot_Image
  imports Boot Elf_Image
begin

text \<open>
  What the image builders put where: text images as an instance of \<open>placement\<close>, the firmware as it
  is read back, and the parts of the combined images.
\<close>

subsection \<open>Text images\<close>

lemma overwrite_Nil: "overwrite xs i [] = xs"
  by (simp add: overwrite_def)

lemma overlay_overwrite:
  "addr + length bs \<le> length lines \<Longrightarrow> overlay_bytes lines addr bs = overwrite lines addr (map bin8 bs)"
proof (induction bs arbitrary: lines addr)
  case (Cons b bs)
  have "overwrite (lines[addr := bin8 b]) (addr + 1) (map bin8 bs) = overwrite lines addr (map bin8 (b # bs))"
    using Cons.prems by (intro nth_equalityI [of "overwrite (lines[addr := bin8 b]) (addr + 1) (map bin8 bs)"])
      (auto simp: length_overwrite nth_overwrite nth_list_update nth_Cons')
  then show ?case using Cons by simp
qed (simp add: overwrite_Nil)

definition line_value :: "string \<Rightarrow> int" where
  "line_value l = (case py_int2 l of Inl e \<Rightarrow> 0 | Inr v \<Rightarrow> v)"

definition byte_lines :: "string list \<Rightarrow> bool" where
  "byte_lines lines \<longleftrightarrow> (\<exists>data. bytes data \<and> lines = map bin8 data)"

lemma line_values: "bytes data \<Longrightarrow> map line_value (map bin8 data) = data"
  by (induction data) (auto simp: bytes_def line_value_def int2_bin8)

lemma map_overwrite: "map f (overwrite xs i ys) = overwrite (map f xs) i (map f ys)"
  by (simp add: overwrite_def take_map drop_map)

lemma bytes_overwrite: "bytes xs \<Longrightarrow> bytes ys \<Longrightarrow> bytes (overwrite xs i ys)"
  by (auto simp: overwrite_def bytes_def list_all_iff dest: in_set_takeD in_set_dropD)

interpretation image_text: placement "map line_value" "\<lambda>lines off. overlay_bytes lines (nat off)" byte_lines
proof
  fix im :: "string list" and blob :: "int list" and off :: int
  assume a: "byte_lines im" "bytes blob" "inside (length (map line_value im)) (off, blob)"
  then obtain data where d: "bytes data" "im = map bin8 data" by (auto simp: byte_lines_def)
  have o: "overlay_bytes im (nat off) blob = map bin8 (overwrite data (nat off) blob)"
    using a d by (subst overlay_overwrite) (auto simp: inside_def map_overwrite)
  show "byte_lines (overlay_bytes im (nat off) blob)"
    unfolding o byte_lines_def using bytes_overwrite d a by blast
  show "map line_value (overlay_bytes im (nat off) blob) = overwrite (map line_value im) (nat off) blob"
    unfolding o using d a by (simp add: line_values bytes_overwrite del: map_map)
qed

lemma splitlines_line:
  "list_all (\<lambda>c. \<not> line_end c) l \<Longrightarrow> splitlines_aux (l @ newline # rest) cur = (rev cur @ l) # splitlines_aux rest []"
proof (induction l arbitrary: cur)
  case Nil
  have "line_end newline" "of_char newline \<noteq> (13 :: nat)" by code_simp+
  then show ?case by simp
qed simp

lemma splitlines_image: "splitlines (elf_write_mem data) = map bin8 data"
proof -
  have e: "\<not> line_end (CHR ''0'')" "\<not> line_end (CHR ''1'')" by code_simp+
  have "list_all (\<lambda>c. \<not> line_end c) (bin8 b)" for b
    unfolding list_all_iff using bit_char e by blast
  then show ?thesis
    unfolding splitlines_def elf_write_mem_def by (induction data) (simp_all add: splitlines_line)
qed

lemma join_lines_image: "data \<noteq> [] \<Longrightarrow> join_lines (map bin8 data) = elf_write_mem data"
proof (induction data)
  case (Cons b data)
  then show ?case by (cases data) (simp_all add: elf_write_mem_def)
qed simp

text \<open>The overlay of a device tree on a text image.\<close>

lemma overlay_image:
  assumes "bytes dmem" "bytes dtb" "dmem \<noteq> []"
  shows "overlay_dtb_into_dmem (elf_write_mem dmem) dtb addr =
    (if addr + length dtb \<le> length dmem then Inr (elf_write_mem (overwrite dmem addr dtb)) else Inl ValueError)"
proof (cases "addr + length dtb \<le> length dmem")
  case True
  have l: "byte_lines (map bin8 dmem)" using assms(1) by (auto simp: byte_lines_def)
  have n: "inside (length (map line_value (map bin8 dmem))) (int addr, dtb)" using True by (simp add: inside_def)
  obtain data where d: "bytes data" "overlay_bytes (map bin8 dmem) addr dtb = map bin8 data"
    using image_text.place_ok [OF l assms(2) n] by (auto simp: byte_lines_def)
  have "data = overwrite dmem addr dtb"
    using image_text.place_contents [OF l assms(2) n] assms(1) d by (simp add: line_values del: map_map)
  moreover have "overwrite dmem addr dtb \<noteq> []" using length_overwrite [OF True] assms(3) by auto
  ultimately show ?thesis using True d(2) by (simp add: overlay_dtb_into_dmem_def splitlines_image join_lines_image)
qed (simp add: overlay_dtb_into_dmem_def splitlines_image)

lemma overwrite_image:
  assumes "\<forall>part \<in> set (parts @ [(int addr, blob)]). bytes (snd part) \<and> inside n part"
  shows "overwrite (image_of n parts) addr blob = image_of n (parts @ [(int addr, blob)])"
proof -
  have "place_bytes (image_of n parts) (int addr) blob = image_of n (parts @ [(int addr, blob)])"
    using placed_image [of parts n] placed_image [OF assms] assms by simp
  then show ?thesis using assms by (simp add: place_bytes_overwrite image_of_def)
qed

subsection \<open>Reading images back\<close>

lemma read_mem_image:
  assumes "bytes data"
  shows "read_mem (elf_write_mem data) n =
    (if n < 0 then Inl ValueError else if length data \<le> nat n then Inr (data @ replicate (nat n - length data) 0)
     else Inl IndexError)"
  using read_mem_lines_image [OF assms, of "[]" 0 "replicate (nat n) 0"]
  by (simp add: read_mem_def bytearray_def image_lines)

lemma bytes_image_of: "\<forall>part \<in> set parts. bytes (snd part) \<and> inside n part \<Longrightarrow> bytes (image_of n parts)"
  using buffer.places_ok [of "replicate n 0" parts] placed_image [of parts n] by (simp add: bytes_zero)

lemma length_image_of [simp]: "length (image_of n parts) = n"
  by (simp add: image_of_def)

subsection \<open>The combined images\<close>

lemma check_parts_ok:
  assumes "check_parts k r = Inr ()"
  shows "int (length k) \<le> INITRD_ADDR - KERNEL_LOAD_ADDR \<and> int (length r) \<le> DTB_ADDR_KERNEL - INITRD_ADDR"
proof -
  obtain off where "unpack_from_le8 k 8 = Inr off"
    using assms unfolding check_parts_def by (cases "unpack_from_le8 k 8") (simp_all only: rbind_simps sum.distinct)
  then have "\<not> INITRD_ADDR < KERNEL_LOAD_ADDR + int (length k) \<and> \<not> DTB_ADDR_KERNEL < INITRD_ADDR + int (length r)"
    using assms unfolding check_parts_def by (simp only: rbind_simps sum.distinct simp_thms split: if_splits)
  then show ?thesis by linarith
qed

lemma limit_covers: "DTB_ADDR_KERNEL + int (length dtb) \<le> zero_init_limit dtb" "zero_init_limit dtb < DTB_ADDR_KERNEL + int (length dtb) + 4096"
  "zero_init_limit dtb mod 4096 = 0"
proof -
  have "m \<le> (m + 4095) div 4096 * 4096 \<and> (m + 4095) div 4096 * 4096 < m + 4096" for m :: int
    using div_mult_mod_eq [of "m + 4095" 4096] pos_mod_bound [of 4096 "m + 4095"] pos_mod_sign [of 4096 "m + 4095"] by linarith
  then show "DTB_ADDR_KERNEL + int (length dtb) \<le> zero_init_limit dtb" "zero_init_limit dtb < DTB_ADDR_KERNEL + int (length dtb) + 4096"
    by (auto simp: zero_init_limit_def Let_def)
  show "zero_init_limit dtb mod 4096 = 0" by (simp add: zero_init_limit_def Let_def)
qed

lemma combine_imem_parts:
  "0 \<le> limit \<Longrightarrow> combine_imem limit fw k =
     Inr (foldl (\<lambda>im (off, blob). place_bytes im off blob) (replicate (nat limit) 0) [(0, fw), (KERNEL_LOAD_ADDR, k)])"
  by (simp add: combine_imem_def bytearray_def place_bytes_def Let_def)

lemma combine_dmem_parts:
  "0 \<le> limit \<Longrightarrow> combine_dmem limit fw k r dtb =
     Inr (foldl (\<lambda>im (off, blob). place_bytes im off blob) (replicate (nat limit) 0)
       [(0, fw), (KERNEL_LOAD_ADDR, k), (INITRD_ADDR, r), (DTB_ADDR_KERNEL, dtb)])"
  by (simp add: combine_dmem_def bytearray_def place_bytes_def Let_def)

lemmas addr_defs = KERNEL_LOAD_ADDR_def INITRD_ADDR_def DTB_ADDR_KERNEL_def FW_LINK_SIZE_def

end
