(* ===== verification/Reports.thy ===== *)
theory Reports
  imports Elf2mem
begin

text \<open>
  The report scripts: \<open>read_dump.py\<close> reads values out of a dump of registers and memory,
  \<open>coverage_report.py\<close> sums coverage counters over the directed tests, \<open>gen_trace.py\<close> turns a trace
  of the pipeline into rows for the viewer. The simulator's output files are arguments.
\<close>

subsection \<open>Reading a dump\<close>

fun int_lines :: "string list \<Rightarrow> int list result" where
  "int_lines [] = Inr []"
| "int_lines (l # ls) = rbind (py_int10 l) (\<lambda>v. rbind (int_lines ls) (\<lambda>vs. Inr (v # vs)))"

text \<open>\<open>[int(l.strip()) for l in f if l.strip()]\<close>.\<close>

definition file_ints :: "string \<Rightarrow> int list result" where
  "file_ints s = int_lines (filter (\<lambda>l. l \<noteq> []) (map py_strip (file_lines s)))"

definition load_mem :: "string \<Rightarrow> int list result" where
  "load_mem dump = rbind (file_ints dump) (\<lambda>vals. Inr (drop 32 (map (\<lambda>v. v AND 0xFF) vals)))"

fun or_bytes :: "int list \<Rightarrow> nat \<Rightarrow> int \<Rightarrow> int" where
  "or_bytes [] i v = v"
| "or_bytes (b # bs) i v = or_bytes bs (i + 1) (v OR push_bit (8 * i) b)"

definition read_le :: "int list \<Rightarrow> int \<Rightarrow> nat \<Rightarrow> bool \<Rightarrow> int" where
  "read_le m addr sz signed =
     (let v = or_bytes (py_slice m addr (addr + int sz)) 0 0
      in if signed \<and> v AND push_bit (sz * 8 - 1) 1 \<noteq> 0 then v - push_bit (sz * 8) 1 else v)"

text \<open>\<open>{v:#x}\<close>, and the lines that \<open>main\<close> prints for the addresses given to each option.\<close>

definition hex_alt :: "int \<Rightarrow> string" where
  "hex_alt v = (if v < 0 then ''-0x'' @ show_base 16 (- v) else ''0x'' @ show_base 16 v)"

definition dump_line :: "int list \<Rightarrow> nat \<Rightarrow> bool \<Rightarrow> int \<Rightarrow> string" where
  "dump_line m sz signed a =
     (let v = read_le m a sz signed in ''['' @ hex_alt a @ ''] = '' @ show_int v @ '' ('' @ hex_alt v @ '')'')"

definition read_dump_main :: "string \<Rightarrow> int list \<Rightarrow> int list \<Rightarrow> int list \<Rightarrow> int list \<Rightarrow> int \<Rightarrow> string list result" where
  "read_dump_main dump a8 s8 a16 a32 cnt =
     rbind (load_mem dump) (\<lambda>m.
       Inr (concat (map (\<lambda>(sz, signed, addrs).
              concat (map (\<lambda>addr. map (\<lambda>i. dump_line m sz signed (addr + i * int sz)) [0..cnt - 1]) addrs))
            [(1, False, a8), (1, True, s8), (2, False, a16), (4, False, a32)])))"

subsection \<open>Coverage\<close>

definition ALUCTL_NAMES :: "(nat \<times> string) list" where
  "ALUCTL_NAMES =
     [(0, ''ADD''), (1, ''SUB''), (2, ''SLL''), (3, ''SLT''), (4, ''SLTU''), (5, ''XOR''), (6, ''SRL''), (7, ''SRA''),
      (8, ''OR''), (9, ''AND''), (10, ''BEQ''), (11, ''BNE''), (12, ''BLT''), (13, ''BGE''), (14, ''BLE (custom)''),
      (16, ''BGT (custom)''), (17, ''BLTU''), (18, ''BGEU''), (19, ''MUL''), (20, ''MULH''), (21, ''CTZ (custom)''),
      (22, ''MULHSU''), (23, ''MULHU''), (24, ''DIV''), (25, ''DIVU''), (26, ''REM''), (27, ''REMU''), (31, ''ILLEGAL'')]"

definition BRANCH_F3_NAMES :: "string list" where
  "BRANCH_F3_NAMES = [''beq'', ''bne'', ''blt'', ''bge'', ''ble'', ''bgt'', ''bltu'', ''bgeu'']"

record totals =
  total_alu :: "int list"
  total_branch_taken :: "int list"
  total_branch_not_taken :: "int list"
  total_stall :: int
  total_flush :: int
  total_div :: int
  total_jump :: int

definition totals0 :: totals where
  "totals0 = \<lparr>total_alu = replicate 32 0, total_branch_taken = replicate 8 0, total_branch_not_taken = replicate 8 0,
     total_stall = 0, total_flush = 0, total_div = 0, total_jump = 0\<rparr>"

text \<open>\<open>xs[i] += v\<close> with Python's negative indices; \<open>parts[i]\<close> read as an integer.\<close>

definition py_add_at :: "int list \<Rightarrow> int \<Rightarrow> int \<Rightarrow> int list result" where
  "py_add_at xs i v =
     (let k = (if i < 0 then i + int (length xs) else i)
      in if 0 \<le> k \<and> k < int (length xs) then Inr (xs[nat k := xs ! nat k + v]) else Inl IndexError)"

definition part_int :: "string list \<Rightarrow> nat \<Rightarrow> int result" where
  "part_int parts i = (if i < length parts then py_int10 (parts ! i) else Inl IndexError)"

text \<open>
  \<open>xs[int(parts[1])] += int(parts[2])\<close>: the index is computed and the cell read before the amount.
\<close>

definition add_count :: "string list \<Rightarrow> int list \<Rightarrow> int list result" where
  "add_count parts xs =
     rbind (part_int parts 1) (\<lambda>i. rbind (py_index xs i) (\<lambda>_. rbind (part_int parts 2) (\<lambda>v. py_add_at xs i v)))"

definition coverage_line :: "totals \<Rightarrow> string \<Rightarrow> totals result" where
  "coverage_line t line =
     (let parts = py_split line
      in if parts = [] then Inl IndexError
         else if hd parts = ''alu_ctl'' then rbind (add_count parts (total_alu t)) (\<lambda>xs. Inr (t\<lparr>total_alu := xs\<rparr>))
         else if hd parts = ''branch_taken'' then
           rbind (add_count parts (total_branch_taken t)) (\<lambda>xs. Inr (t\<lparr>total_branch_taken := xs\<rparr>))
         else if hd parts = ''branch_not_taken'' then
           rbind (add_count parts (total_branch_not_taken t)) (\<lambda>xs. Inr (t\<lparr>total_branch_not_taken := xs\<rparr>))
         else if hd parts = ''stall_cycles'' then rbind (part_int parts 1) (\<lambda>v. Inr (t\<lparr>total_stall := total_stall t + v\<rparr>))
         else if hd parts = ''flush_cycles'' then rbind (part_int parts 1) (\<lambda>v. Inr (t\<lparr>total_flush := total_flush t + v\<rparr>))
         else if hd parts = ''div_cycles'' then rbind (part_int parts 1) (\<lambda>v. Inr (t\<lparr>total_div := total_div t + v\<rparr>))
         else if hd parts = ''jump_cycles'' then rbind (part_int parts 1) (\<lambda>v. Inr (t\<lparr>total_jump := total_jump t + v\<rparr>))
         else Inr t)"

fun coverage_lines :: "totals \<Rightarrow> string list \<Rightarrow> totals result" where
  "coverage_lines t [] = Inr t"
| "coverage_lines t (l # ls) = rbind (coverage_line t l) (\<lambda>t'. coverage_lines t' ls)"

text \<open>\<open>sep.join(xs)\<close>.\<close>

fun join_with :: "string \<Rightarrow> string list \<Rightarrow> string" where
  "join_with sep [] = []"
| "join_with sep [a] = a"
| "join_with sep (a # b # rest) = a @ sep @ join_with sep (b # rest)"

text \<open>What a test gives: it does not compile, it leaves no \<open>coverage.txt\<close>, or the text of that file.\<close>

datatype test_run = CompileFail | NoCoverage | Coverage string

fun aggregate :: "totals \<Rightarrow> test_run list \<Rightarrow> totals result" where
  "aggregate t [] = Inr t"
| "aggregate t (r # rs) =
     (case r of Coverage txt \<Rightarrow> rbind (coverage_lines t (file_lines txt)) (\<lambda>t'. aggregate t' rs)
      | _ \<Rightarrow> aggregate t rs)"

text \<open>The report: the operations never exercised, and the warnings on branches and stalls.\<close>

definition uncovered :: "totals \<Rightarrow> string list" where
  "uncovered t = map snd (filter (\<lambda>(code, _). total_alu t ! code = 0 \<and> code \<noteq> 31) ALUCTL_NAMES)"

definition alu_report :: "totals \<Rightarrow> string list" where
  "alu_report t =
     map (\<lambda>(code, name). ''  '' @ (if total_alu t ! code > 0 \<or> code = 31 then ''  '' else ''!!'') @ '' '' @
            pad_left 2 (show_int (int code)) @ '' '' @ pad_right 16 name @ '' '' @
            pad_left 6 (show_int (total_alu t ! code)) @ '' cycles'') ALUCTL_NAMES"

definition branch_report :: "totals \<Rightarrow> string list" where
  "branch_report t =
     map (\<lambda>f3. let tk = total_branch_taken t ! f3; nt = total_branch_not_taken t ! f3
                in ''  '' @ (if tk = 0 \<or> nt = 0 then ''!!'' else ''  '') @ '' '' @ pad_right 5 (BRANCH_F3_NAMES ! f3) @
                   '' taken='' @ pad_left 5 (show_int tk) @ ''  not-taken='' @ pad_left 5 (show_int nt)) [0..<8]"

definition branch_warnings :: "totals \<Rightarrow> string list" where
  "branch_warnings t =
     concat (map (\<lambda>f3.
       (if total_branch_taken t ! f3 = 0 then [''!! '' @ (BRANCH_F3_NAMES ! f3) @ '' never taken''] else []) @
       (if total_branch_not_taken t ! f3 = 0 then [''!! '' @ (BRANCH_F3_NAMES ! f3) @ '' never not-taken''] else [])) [0..<8])"

definition warnings :: "totals \<Rightarrow> string list" where
  "warnings t =
     (if uncovered t \<noteq> [] then
        [[newline] @ ''!! '' @ show_int (int (length (uncovered t))) @
         '' ALUCtl operation(s) never exercised by the directed suite: '' @ join_with '', '' (uncovered t)]
      else []) @
     (if total_stall t = 0 then [''!! load-use stall never exercised''] else []) @
     (if total_div t = 0 then [''!! multi-cycle divide stall never exercised''] else []) @ branch_warnings t"

text \<open>What \<open>main\<close> prints after the tests have run.\<close>

definition coverage_main :: "test_run list \<Rightarrow> string list result" where
  "coverage_main runs =
     rbind (aggregate totals0 runs) (\<lambda>t.
       Inr ([[newline] @ ''=== ALUCtl coverage (across '' @ show_int (int (length runs)) @ '' directed tests) ===''] @
            alu_report t @ [[newline] @ ''=== branch outcome coverage (each type, taken vs. not-taken) ===''] @
            branch_report t @ [[newline] @ ''=== hazard/control-flow event coverage ===''] @
            [''  load-use stall cycles (Hazard.v):     '' @ show_int (total_stall t),
             ''  load-use flush/bubble cycles:          '' @ show_int (total_flush t),
             ''  multi-cycle divide stall cycles:       '' @ show_int (total_div t),
             ''  jal/jalr cycles in EX:                 '' @ show_int (total_jump t)] @
            warnings t))"

subsection \<open>Pipeline traces\<close>

text \<open>
  A row that \<open>csv.DictReader\<close> yields is a map from column names to fields; a missing column is a
  \<open>KeyError\<close>. \<open>trace_disasm\<close> is the function \<open>disasm\<close> of \<open>gen_trace.py\<close>.
\<close>

type_synonym csv_row = "string \<rightharpoonup> string"

record trace_row =
  t_cycle :: int
  if_pc :: int
  if_inst :: string
  id_pc :: int
  id_inst :: string
  id_stall :: bool
  id_flush :: bool
  ex_pc :: int
  ex_inst :: string
  ex_branchTaken :: bool
  ex_jump :: bool
  ex_aluOut :: int
  ex_fwdA :: int
  ex_fwdB :: int
  mem_we :: bool
  mem_re :: bool
  mem_addr :: int
  mem_dest :: int
  mem_regWrite :: bool
  wb_dest :: int
  wb_val :: int
  wb_regWrite :: bool

definition trace_disasm :: "string \<Rightarrow> nat \<Rightarrow> string result" where
  "trace_disasm hex_word xl = rbind (py_int16 hex_word) (\<lambda>w. Inr (disasm w xl))"

definition field :: "csv_row \<Rightarrow> string \<Rightarrow> string result" where
  "field r k = (case r k of None \<Rightarrow> Inl KeyError | Some v \<Rightarrow> Inr v)"

definition int_field :: "csv_row \<Rightarrow> string \<Rightarrow> int result" where
  "int_field r k = rbind (field r k) py_int10"

definition bool_field :: "csv_row \<Rightarrow> string \<Rightarrow> bool result" where
  "bool_field r k = rbind (int_field r k) (\<lambda>v. Inr (v \<noteq> 0))"

definition inst_field :: "nat \<Rightarrow> csv_row \<Rightarrow> string \<Rightarrow> string result" where
  "inst_field xl r k = rbind (field r k) (\<lambda>w. trace_disasm w xl)"

definition build_row :: "nat \<Rightarrow> csv_row \<Rightarrow> trace_row result" where
  "build_row xl r =
     rbind (int_field r ''cycle'') (\<lambda>cyc.
     rbind (int_field r ''if_pc'') (\<lambda>ifpc. rbind (inst_field xl r ''if_inst'') (\<lambda>ifi.
     rbind (int_field r ''id_pc'') (\<lambda>idpc. rbind (inst_field xl r ''id_inst'') (\<lambda>idi.
     rbind (bool_field r ''stall'') (\<lambda>st. rbind (bool_field r ''flush'') (\<lambda>fl.
     rbind (int_field r ''ex_pc'') (\<lambda>expc. rbind (inst_field xl r ''ex_inst'') (\<lambda>exi.
     rbind (bool_field r ''branch_taken'') (\<lambda>bt. rbind (bool_field r ''jump'') (\<lambda>jp.
     rbind (int_field r ''alu_out'') (\<lambda>ao. rbind (int_field r ''forwardA'') (\<lambda>fa. rbind (int_field r ''forwardB'') (\<lambda>fb.
     rbind (bool_field r ''mem_we'') (\<lambda>mwe. rbind (bool_field r ''mem_re'') (\<lambda>mre.
     rbind (int_field r ''mem_addr'') (\<lambda>ma. rbind (int_field r ''mem_dest'') (\<lambda>md. rbind (bool_field r ''mem_regwrite'') (\<lambda>mrw.
     rbind (int_field r ''wb_dest'') (\<lambda>wd. rbind (int_field r ''wb_val'') (\<lambda>wv. rbind (bool_field r ''wb_regwrite'') (\<lambda>wrw.
       Inr \<lparr>t_cycle = cyc, if_pc = ifpc, if_inst = ifi, id_pc = idpc, id_inst = idi, id_stall = st, id_flush = fl,
            ex_pc = expc, ex_inst = exi, ex_branchTaken = bt, ex_jump = jp, ex_aluOut = ao, ex_fwdA = fa, ex_fwdB = fb,
            mem_we = mwe, mem_re = mre, mem_addr = ma, mem_dest = md, mem_regWrite = mrw,
            wb_dest = wd, wb_val = wv, wb_regWrite = wrw\<rparr>))))))))))))))))))))))"

fun build_rows :: "nat \<Rightarrow> csv_row list \<Rightarrow> trace_row list result" where
  "build_rows xl [] = Inr []"
| "build_rows xl (r # rs) = rbind (build_row xl r) (\<lambda>t. rbind (build_rows xl rs) (\<lambda>ts. Inr (t # ts)))"

text \<open>The loop that pops trailing rows; the dash of the source is its UTF-8 bytes, as in \<open>disasm\<close>.\<close>

definition EM_DASH :: string where
  "EM_DASH = [char_of (0xE2 :: nat), char_of (0x80 :: nat), char_of (0x94 :: nat)]"

definition drained :: "trace_row \<Rightarrow> bool" where
  "drained t \<longleftrightarrow> if_inst t = EM_DASH \<and> id_inst t = EM_DASH"

function trim_rows :: "trace_row list \<Rightarrow> trace_row list" where
  "trim_rows rows = (if rows \<noteq> [] \<and> drained (last rows) then trim_rows (butlast rows) else rows)"
  by pat_completeness auto

termination trim_rows
  by (relation "measure length") auto

declare trim_rows.simps [simp del]

definition gen_trace_main :: "nat \<Rightarrow> csv_row list \<Rightarrow> trace_row list result" where
  "gen_trace_main xl csv = rbind (build_rows xl csv) (\<lambda>rows. Inr (trim_rows rows))"

end
