(* ===== verification/Reports_Props.thy ===== *)
theory Reports_Props
  imports Reports Disasm_Text Iss_Bytes Dtb_Props
begin

text \<open>
  The report scripts: a dump is read as the simulator's loads read the memory, coverage totals are
  sums over the tests, and a trace loses exactly its drained tail.
\<close>

subsection \<open>Numbers in lines\<close>

lemma read_int10: "py_int10 (show_int v) = Inr v"
proof -
  have d: "0 \<le> n \<Longrightarrow> int_digits 10 False (show_base 10 n) 0 = Some n" for n using int_digits_show [of n 10] by simp
  show ?thesis using d [of v] d [of "- v"] first_digit [of v 10]
    unfolding py_int10_def read_int(2) by (auto simp: show_int_def)
qed

lemma show_int_nonempty: "show_int v \<noteq> []"
  using show_base_facts(1) [of 10 v] by (auto simp: show_int_def)

lemma show_int_spaceless: "list_all (\<lambda>c. \<not> py_space c) (show_int v)"
  by (auto simp: show_int_def show_base_no_space plain_consts)

lemma int_lines_show: "int_lines (map show_int vs) = Inr vs"
  by (induction vs) (simp_all add: read_int10)

definition number_lines :: "int list \<Rightarrow> string" where
  "number_lines vs = concat (map (\<lambda>v. show_int v @ [newline]) vs)"

lemma spaceless_newline: "list_all (\<lambda>c. \<not> py_space c) l \<Longrightarrow> newline \<notin> set l"
  using newline_space(1) by (auto simp: list_all_iff)

lemma file_ints_lines: "file_ints (number_lines vs) = Inr vs"
proof -
  have "file_lines (number_lines vs) = map (\<lambda>l. l @ [newline]) (map show_int vs)"
    unfolding number_lines_def using file_lines_concat [of "map show_int vs"] spaceless_newline [OF show_int_spaceless]
    by (fastforce simp: comp_def)
  moreover have "py_strip (show_int v @ [newline]) = show_int v" for v
    using show_int_spaceless [of v] by (intro strip_line) (auto simp: list_all_iff)
  ultimately have "map py_strip (file_lines (number_lines vs)) = map show_int vs" by simp
  then show ?thesis by (simp add: file_ints_def show_int_nonempty int_lines_show filter_id_conv)
qed

subsection \<open>Dumps\<close>

lemma or_bytes_le:
  "or_bytes bs i v = foldl (\<lambda>v k. v OR push_bit (8 * (i + k)) (bs ! k)) v [0..<length bs]"
proof (induction bs arbitrary: i v)
  case (Cons b bs)
  have "[0..<length (b # bs)] = 0 # map Suc [0..<length bs]" by (simp add: map_Suc_upt upt_conv_Cons del: upt_Suc)
  then show ?case using Cons by (simp add: foldl_map ac_simps)
qed simp

lemma py_bound_in: "0 \<le> i \<Longrightarrow> i \<le> int len \<Longrightarrow> py_bound len i = nat i"
  by (simp add: py_bound_def)

lemma slice_le:
  assumes "0 \<le> a" "a + int n \<le> int (length m)"
  shows "or_bytes (py_slice m a (a + int n)) 0 0 = le_bytes (\<lambda>b. m ! nat b) a n"
proof -
  have s: "py_slice m a (a + int n) = map (\<lambda>i. m ! nat (a + int i)) [0..<n]"
    using assms by (intro nth_equalityI) (auto simp: py_slice_def py_bound_in nat_add_distrib)
  have "foldl (\<lambda>v k. v OR push_bit (8 * k) (m ! nat (a + int k))) 0 [0..<n] = le_bytes (\<lambda>b. m ! nat b) a n"
    by (induction n) simp_all
  moreover have "foldl (\<lambda>v k. v OR push_bit (8 * (0 + k)) (map (\<lambda>i. m ! nat (a + int i)) [0..<n] ! k)) 0 [0..<n] =
      foldl (\<lambda>v k. v OR push_bit (8 * k) (m ! nat (a + int k))) 0 [0..<n]"
    by (intro foldl_cong) auto
  ultimately show ?thesis unfolding s or_bytes_le by simp
qed

lemma load_mem_dump:
  assumes "length rs = 32" "bytes m"
  shows "load_mem (number_lines (rs @ m)) = Inr m"
proof -
  have "map (\<lambda>v. v AND 0xFF) m = m" using assms(2) by (induction m) (auto simp: bytes_def bit_norm)
  then show ?thesis using assms(1) by (simp add: load_mem_def file_ints_lines drop_map)
qed

lemma load_le_mem:
  assumes "iss_wf s" "mem_mask s = 2 ^ k - 1" "0 \<le> a" "a + int n \<le> 2 ^ k" "a + int n \<le> 0x10000000"
  shows "load_le s a n = or_bytes (py_slice (mem s) a (a + int n)) 0 0"
proof -
  have "load_mem_byte s (a + int i) = mem s ! nat (a + int i)" if "i < n" for i
    using that assms by (simp add: load_mem_byte_def and_mask_mod mod_pos_pos_trivial)
  then have "load_le s a n = le_bytes (\<lambda>b. mem s ! nat b) a n" unfolding load_le_bytes by (intro le_bytes_cong)
  moreover have "int (length (mem s)) = 2 ^ k" using assms wf_simps(5) by simp
  ultimately show ?thesis using slice_le [of a n "mem s"] assms by simp
qed


lemma sign_bit_sext:
  assumes "0 \<le> v" "v < 2 ^ (8 * n)" "0 < n"
  shows "(if v AND push_bit (n * 8 - 1) 1 \<noteq> 0 then v - push_bit (n * 8) 1 else v) = sext v (8 * n)"
proof -
  have "v mod 2 ^ (8 * n) = v" using assms by simp
  moreover have "v AND push_bit (n * 8 - 1) 1 \<noteq> 0 \<longleftrightarrow> \<not> v < 2 ^ (8 * n - 1)"
  proof -
    have e: "(2 :: int) ^ (8 * n) = 2 ^ (8 * n - 1) * 2" using assms(3) by (simp flip: power_Suc2)
    have "v AND push_bit (n * 8 - 1) 1 \<noteq> 0 \<longleftrightarrow> bit v (8 * n - 1)"
      by (simp add: and_exp_eq_0_iff_not_bit push_bit_eq_mult mult.commute)
    also have "\<dots> \<longleftrightarrow> odd (v div 2 ^ (8 * n - 1))" by (simp add: bit_iff_odd)
    also have "\<dots> \<longleftrightarrow> \<not> v < 2 ^ (8 * n - 1)"
    proof (cases "v < 2 ^ (8 * n - 1)")
      case False
      then have "v div 2 ^ (8 * n - 1) = 1" using assms e by (intro int_div_pos_eq [where r = "v - 2 ^ (8 * n - 1)"]) auto
      with False show ?thesis by simp
    qed (use assms in simp)
    finally show ?thesis .
  qed
  ultimately show ?thesis using assms(3) by (simp add: sext_eq push_bit_eq_mult mult.commute)
qed


text \<open>
  C24. From a dump of 32 register lines and the memory of a well-formed simulator state whose size is
  a power of two, \<open>read_dump\<close> reads what the simulator's loads return wherever the reading lies
  inside the memory and below the MMIO range: its unsigned 8-, 16- and 32-bit readings are those of
  \<open>lbu\<close>, \<open>lhu\<close> and \<open>lwu\<close>, and its signed 8-bit reading is that of \<open>lb\<close>. A reading that starts past
  the end of the memory is zero, where a load wraps around.
\<close>

theorem dump_agrees_with_loads:
  assumes "iss_wf s" "mem_mask s = 2 ^ k - 1" "length rs = 32" "0 \<le> a"
  shows "\<exists>m. load_mem (number_lines (rs @ mem s)) = Inr m \<and>
    (a + 1 \<le> min (2 ^ k) 0x10000000 \<longrightarrow>
       load_value s 4 a = Inr (read_le m a 1 False) \<and> load_value s 0 a = Inr (read_le m a 1 True)) \<and>
    (a + 2 \<le> min (2 ^ k) 0x10000000 \<longrightarrow> load_value s 5 a = Inr (read_le m a 2 False)) \<and>
    (a + 4 \<le> min (2 ^ k) 0x10000000 \<longrightarrow> load_value s 6 a = Inr (read_le m a 4 False)) \<and>
    (2 ^ k \<le> a \<longrightarrow> read_le m a n sg = 0)"
proof (intro exI conjI impI)
  have l: "load_le s a n = or_bytes (py_slice (mem s) a (a + int n)) 0 0" if "a + int n \<le> min (2 ^ k) 0x10000000" for n
    using that by (intro load_le_mem [OF assms(1,2,4)]) auto
  note lv = load_value_le [OF assms(1), of a]
  show "load_mem (number_lines (rs @ mem s)) = Inr (mem s)"
    using assms(1,3) by (intro load_mem_dump) (simp_all add: bytes_def iss_wf_def)
  show "load_value s 5 a = Inr (read_le (mem s) a 2 False)" if "a + 2 \<le> min (2 ^ k) 0x10000000"
    unfolding lv using l [of 2] that by (simp add: read_le_def)
  show "load_value s 6 a = Inr (read_le (mem s) a 4 False)" if "a + 4 \<le> min (2 ^ k) 0x10000000"
    unfolding lv using l [of 4] that by (simp add: read_le_def)
  show "load_value s 4 a = Inr (read_le (mem s) a 1 False)" if "a + 1 \<le> min (2 ^ k) 0x10000000"
    unfolding lv using l [of 1] that by (simp add: read_le_def)
  show "load_value s 0 a = Inr (read_le (mem s) a 1 True)" if "a + 1 \<le> min (2 ^ k) 0x10000000"
  proof -
    have l1: "or_bytes (py_slice (mem s) a (a + int 1)) 0 0 = load_le s a 1" using l [of 1] that by simp
    have "sext (load_le s a 1) (8 * 1) = (if load_le s a 1 AND push_bit (1 * 8 - 1) 1 \<noteq> 0
        then load_le s a 1 - push_bit (1 * 8) 1 else load_le s a 1)"
      using load_le_range [OF assms(1), of a 1] by (intro sign_bit_sext [symmetric]) simp_all
    then show ?thesis unfolding lv read_le_def Let_def l1 by (simp only: simp_thms mult_1_right)
  qed
  show "read_le (mem s) a n sg = 0" if "2 ^ k \<le> a"
  proof -
    have "int (length (mem s)) = 2 ^ k" using wf_simps(5) [OF assms(1)] assms(2) by simp
    then have "length (mem s) \<le> py_bound (length (mem s)) a" using that assms(4) by (simp add: py_bound_def)
    then show ?thesis by (simp add: read_le_def py_slice_def)
  qed
qed

theorem dump_agrees_with_loads_witness:
  "\<exists>m. load_mem (number_lines (replicate 32 0 @ mem ((iss_init 8 32)\<lparr>mem := [1, 0, 0xFF, 2, 3, 4, 5, 0x80]\<rparr>))) = Inr m \<and>
    load_value ((iss_init 8 32)\<lparr>mem := [1, 0, 0xFF, 2, 3, 4, 5, 0x80]\<rparr>) 0 7 = Inr (read_le m 7 1 True) \<and>
    load_value ((iss_init 8 32)\<lparr>mem := [1, 0, 0xFF, 2, 3, 4, 5, 0x80]\<rparr>) 5 6 = Inr (read_le m 6 2 False)"
proof -
  let ?s = "(iss_init 8 32)\<lparr>mem := [1, 0, 0xFF, 2, 3, 4, 5, 0x80]\<rparr>"
  have "iss_wf (iss_init 8 32)" by (rule wf_init) simp_all
  then have s: "iss_wf ?s" "mem_mask ?s = 2 ^ 3 - 1" by (simp_all add: iss_wf_def) (simp_all add: iss_init_def)
  have r: "length (replicate 32 (0 :: int)) = 32" by simp
  obtain m where m: "load_mem (number_lines (replicate 32 0 @ mem ?s)) = Inr m"
      "7 + 1 \<le> min (2 ^ 3) (0x10000000 :: int) \<longrightarrow> load_value ?s 0 7 = Inr (read_le m 7 1 True)"
    using dump_agrees_with_loads [OF s r, of 7] by auto
  obtain m' where "load_mem (number_lines (replicate 32 0 @ mem ?s)) = Inr m'"
      "6 + 2 \<le> min (2 ^ 3) (0x10000000 :: int) \<longrightarrow> load_value ?s 5 6 = Inr (read_le m' 6 2 False)"
    using dump_agrees_with_loads [OF s r, of 6] by auto
  with m show ?thesis by simp
qed


subsection \<open>Coverage\<close>

text \<open>The lines of \<open>coverage.txt\<close> as the design writes them, and what each adds to the totals.\<close>

datatype counter = Alu nat | Taken nat | NotTaken nat | Stall | Flush | Div | Jump

fun counter_text :: "counter \<Rightarrow> string list" where
  "counter_text (Alu i) = [''alu_ctl'', show_int (int i)]"
| "counter_text (Taken i) = [''branch_taken'', show_int (int i)]"
| "counter_text (NotTaken i) = [''branch_not_taken'', show_int (int i)]"
| "counter_text Stall = [''stall_cycles'']"
| "counter_text Flush = [''flush_cycles'']"
| "counter_text Div = [''div_cycles'']"
| "counter_text Jump = [''jump_cycles'']"

definition entry_text :: "counter \<times> int \<Rightarrow> string" where
  "entry_text e = join_with '' '' (counter_text (fst e) @ [show_int (snd e)])"

definition coverage_text :: "(counter \<times> int) list \<Rightarrow> string" where
  "coverage_text es = concat (map (\<lambda>e. entry_text e @ [newline]) es)"

fun counter_ok :: "counter \<Rightarrow> bool" where
  "counter_ok (Alu i) \<longleftrightarrow> i < 32"
| "counter_ok (Taken i) \<longleftrightarrow> i < 8"
| "counter_ok (NotTaken i) \<longleftrightarrow> i < 8"
| "counter_ok _ \<longleftrightarrow> True"

text \<open>The total of a counter, and the sum of a counter over some entries.\<close>

definition total_of :: "totals \<Rightarrow> counter \<Rightarrow> int" where
  "total_of t c =
     (case c of Alu i \<Rightarrow> total_alu t ! i | Taken i \<Rightarrow> total_branch_taken t ! i | NotTaken i \<Rightarrow> total_branch_not_taken t ! i
      | Stall \<Rightarrow> total_stall t | Flush \<Rightarrow> total_flush t | Div \<Rightarrow> total_div t | Jump \<Rightarrow> total_jump t)"

definition tally_of :: "(counter \<times> int) list \<Rightarrow> counter \<Rightarrow> int" where
  "tally_of es c = (\<Sum>e\<leftarrow>es. if fst e = c then snd e else 0)"

definition shaped :: "totals \<Rightarrow> bool" where
  "shaped t \<longleftrightarrow> length (total_alu t) = 32 \<and> length (total_branch_taken t) = 8 \<and> length (total_branch_not_taken t) = 8"

lemma py_split_word:
  "list_all (\<lambda>c. \<not> py_space c) w \<Longrightarrow> w \<noteq> [] \<Longrightarrow> c = CHR '' '' \<or> c = newline \<Longrightarrow>
     py_split (w @ c # rest) = w # py_split (c # rest)"
proof -
  assume w: "list_all (\<lambda>c. \<not> py_space c) w" "w \<noteq> []" and c: "c = CHR '' '' \<or> c = newline"
  have sp: "py_space c" using c newline_space(1) by (auto simp: py_space_def)
  have d: "dropWhile py_space (w @ c # rest) = w @ c # rest"
    using w by (cases w) (auto simp: list_all_iff)
  have t: "takeWhile (\<lambda>c. \<not> py_space c) (w @ c # rest) = w" "dropWhile (\<lambda>c. \<not> py_space c) (w @ c # rest) = c # rest"
    using w sp by (auto simp: list_all_iff takeWhile_append2 dropWhile_append2)
  show ?thesis by (subst py_split.simps) (simp add: d t Let_def)
qed

lemma py_split_space: "c = CHR '' '' \<or> c = newline \<Longrightarrow> py_split (c # rest) = py_split rest"
  using newline_space(1) by (subst (1 2) py_split.simps) (auto simp: py_space_def)

lemma py_split_Nil: "py_split [] = []"
  by (subst py_split.simps) simp

lemma py_split_join:
  "\<forall>w \<in> set ws. list_all (\<lambda>c. \<not> py_space c) w \<and> w \<noteq> [] \<Longrightarrow> py_split (join_with '' '' ws @ [newline]) = ws"
proof (induction ws)
  case (Cons a ws)
  then show ?case
    by (cases ws) (simp_all add: py_split_word py_split_space py_split_Nil)
qed (simp add: py_split_space py_split_Nil)

lemma counter_words:
  "\<forall>w \<in> set (counter_text c @ [show_int v]). list_all (\<lambda>c. \<not> py_space c) w \<and> w \<noteq> []"
  using show_int_spaceless show_int_nonempty by (cases c) (simp_all add: py_space_def)

lemma entry_split: "py_split (entry_text e @ [newline]) = counter_text (fst e) @ [show_int (snd e)]"
  unfolding entry_text_def by (intro py_split_join counter_words)

text \<open>One line adds its amount to its own counter and to no other.\<close>

lemma add_at:
  "int i < int (length xs) \<Longrightarrow> py_index xs (int i) = Inr (xs ! i)"
  "int i < int (length xs) \<Longrightarrow> py_add_at xs (int i) v = Inr (xs[i := xs ! i + v])"
  by (simp_all add: py_index_def py_add_at_def)

lemma line_adds:
  assumes "shaped t" "counter_ok (fst e)"
  shows "\<exists>t'. coverage_line t (entry_text e @ [newline]) = Inr t' \<and> shaped t' \<and>
    (\<forall>c. counter_ok c \<longrightarrow> total_of t' c = total_of t c + (if c = fst e then snd e else 0))"
proof -
  obtain c v where e: "e = (c, v)" by (cases e)
  have "\<exists>t'. coverage_line t (entry_text e @ [newline]) = Inr t' \<and> shaped t' \<and>
      (\<forall>d. counter_ok d \<longrightarrow> total_of t' d = total_of t d + (if d = c then v else 0))"
    using assms unfolding coverage_line_def entry_split Let_def e
    by (cases c) (auto simp: add_count_def part_int_def read_int10 add_at shaped_def nth_list_update total_of_def split: counter.split)
  then show ?thesis unfolding e fst_conv snd_conv .
qed


lemma lines_add:
  assumes "shaped t" "\<forall>e \<in> set es. counter_ok (fst e)"
  shows "\<exists>t'. coverage_lines t (map (\<lambda>e. entry_text e @ [newline]) es) = Inr t' \<and> shaped t' \<and>
    (\<forall>c. counter_ok c \<longrightarrow> total_of t' c = total_of t c + tally_of es c)"
  using assms
proof (induction es arbitrary: t)
  case (Cons e es)
  obtain t1 where t1: "coverage_line t (entry_text e @ [newline]) = Inr t1" "shaped t1"
      "\<forall>c. counter_ok c \<longrightarrow> total_of t1 c = total_of t c + (if c = fst e then snd e else 0)"
    using line_adds [of t e] Cons.prems by auto
  obtain t2 where t2: "coverage_lines t1 (map (\<lambda>e. entry_text e @ [newline]) es) = Inr t2" "shaped t2"
      "\<forall>c. counter_ok c \<longrightarrow> total_of t2 c = total_of t1 c + tally_of es c"
    using Cons.IH [of t1] t1 Cons.prems by auto
  then show ?case using t1 by (auto simp: tally_of_def)
qed (simp add: tally_of_def)

lemma coverage_text_lines: "file_lines (coverage_text es) = map (\<lambda>e. entry_text e @ [newline]) es"
proof -
  have "newline \<noteq> CHR '' ''" by code_simp
  then have j: "\<forall>w \<in> set ws. newline \<notin> set w \<Longrightarrow> newline \<notin> set (join_with '' '' ws)" for ws
  proof (induction ws)
    case (Cons a ws)
    then show ?case by (cases ws) auto
  qed simp
  have "newline \<notin> set (entry_text e)" for e
    unfolding entry_text_def by (rule j) (use counter_words spaceless_newline in blast)
  then show ?thesis unfolding coverage_text_def using file_lines_concat [of "map entry_text es"] by (fastforce simp: comp_def)
qed

text \<open>A run of a test: it does not compile, it writes no file, or it writes these entries.\<close>

definition run_of :: "bool + (counter \<times> int) list \<Rightarrow> test_run" where
  "run_of r = (case r of Inl compiles \<Rightarrow> if compiles then NoCoverage else CompileFail | Inr es \<Rightarrow> Coverage (coverage_text es))"

definition entries_of :: "(bool + (counter \<times> int) list) list \<Rightarrow> (counter \<times> int) list" where
  "entries_of rs = concat (map (\<lambda>r. case r of Inl _ \<Rightarrow> [] | Inr es \<Rightarrow> es) rs)"

lemma run_of_simps [simp]: "run_of (Inl b) = (if b then NoCoverage else CompileFail)" "run_of (Inr es) = Coverage (coverage_text es)"
  by (simp_all add: run_of_def)

lemma aggregate_adds:
  assumes "shaped t" "\<forall>e \<in> set (entries_of rs). counter_ok (fst e)"
  shows "\<exists>t'. aggregate t (map run_of rs) = Inr t' \<and> shaped t' \<and>
    (\<forall>c. counter_ok c \<longrightarrow> total_of t' c = total_of t c + tally_of (entries_of rs) c)"
  using assms
proof (induction rs arbitrary: t)
  case (Cons r rs)
  show ?case
  proof (cases r)
    case (Inl b)
    then show ?thesis using Cons by (simp add: entries_of_def)
  next
    case (Inr es)
    obtain t1 where t1: "coverage_lines t (map (\<lambda>e. entry_text e @ [newline]) es) = Inr t1" "shaped t1"
        "\<forall>c. counter_ok c \<longrightarrow> total_of t1 c = total_of t c + tally_of es c"
      using lines_add [of t es] Cons.prems Inr by (auto simp: entries_of_def)
    obtain t2 where "aggregate t1 (map run_of rs) = Inr t2" "shaped t2"
        "\<forall>c. counter_ok c \<longrightarrow> total_of t2 c = total_of t1 c + tally_of (entries_of rs) c"
      using Cons.IH [of t1] t1 Cons.prems by (auto simp: entries_of_def)
    then show ?thesis using t1 Inr by (simp add: entries_of_def coverage_text_lines tally_of_def algebra_simps)
  qed
qed (simp add: entries_of_def tally_of_def)

text \<open>
  C25. Over any sequence of tests, some of which may fail, every total of the coverage report is the
  sum of that counter over all lines of all \<open>coverage.txt\<close> files, whatever their order; the
  operations listed as never exercised are exactly the named ones, \<open>ILLEGAL\<close> apart, whose sum is
  zero.
\<close>

theorem coverage_totals:
  assumes "\<forall>e \<in> set (entries_of rs). counter_ok (fst e)"
  shows "\<exists>t. aggregate totals0 (map run_of rs) = Inr t \<and>
    (\<forall>c. counter_ok c \<longrightarrow> total_of t c = tally_of (entries_of rs) c) \<and>
    set (uncovered t) = {name. \<exists>code. (code, name) \<in> set ALUCTL_NAMES \<and> code \<noteq> 31 \<and> tally_of (entries_of rs) (Alu code) = 0}"
proof -
  have z: "shaped totals0" "counter_ok c \<Longrightarrow> total_of totals0 c = 0" for c
    by (cases c; simp add: shaped_def totals0_def total_of_def)+
  obtain t where t: "aggregate totals0 (map run_of rs) = Inr t" "\<forall>c. counter_ok c \<longrightarrow> total_of t c = tally_of (entries_of rs) c"
    using aggregate_adds [OF z(1) assms] z(2) by auto
  have "\<forall>p \<in> set ALUCTL_NAMES. fst p < 32" by code_simp
  then have "total_alu t ! code = tally_of (entries_of rs) (Alu code)" if "(code, name) \<in> set ALUCTL_NAMES" for code name
    using t(2) [rule_format, of "Alu code"] that by (auto simp: total_of_def)
  then show ?thesis using t by (intro exI [of _ t]) (force simp: uncovered_def)
qed

theorem coverage_totals_witness:
  "\<exists>t. aggregate totals0 (map run_of [Inr [(Alu 0, 5), (Taken 4, 2)], Inl False, Inr [(Alu 0, 7), (Jump, 3)]]) = Inr t \<and>
     total_of t (Alu 0) = 12 \<and> total_of t (Taken 4) = 2 \<and> total_of t Jump = 3 \<and> ''SUB'' \<in> set (uncovered t)"
proof -
  let ?rs = "[Inr [(Alu 0, 5), (Taken 4, 2)], Inl False, Inr [(Alu 0, 7), (Jump, 3)]]"
  have "\<forall>e \<in> set (entries_of ?rs). counter_ok (fst e)" by (simp add: entries_of_def)
  from coverage_totals [OF this] obtain t where t: "aggregate totals0 (map run_of ?rs) = Inr t"
    "\<forall>c. counter_ok c \<longrightarrow> total_of t c = tally_of (entries_of ?rs) c"
    "set (uncovered t) = {name. \<exists>code. (code, name) \<in> set ALUCTL_NAMES \<and> code \<noteq> 31 \<and> tally_of (entries_of ?rs) (Alu code) = 0}"
    by blast
  have "(1, ''SUB'') \<in> set ALUCTL_NAMES" by code_simp
  then show ?thesis using t by (intro exI [of _ t]) (auto simp: entries_of_def tally_of_def intro!: exI [of _ "1 :: nat"])
qed


text \<open>The report's branch names against the assembler's encoding: four of them are exchanged.\<close>

lemma branch_names_exchanged:
  "map (\<lambda>(mn, f3). (mn, BRANCH_F3_NAMES ! nat f3)) BRANCH =
     [(''beq'', ''beq''), (''bne'', ''bne''), (''blt'', ''ble''), (''bge'', ''bgt''), (''ble'', ''blt''), (''bgt'', ''bge''),
      (''bltu'', ''bltu''), (''bgeu'', ''bgeu'')]"
  by code_simp

subsection \<open>Traces\<close>

lemma trim_rows_dropWhile: "trim_rows rows = rev (dropWhile drained (rev rows))"
proof (induction rows rule: rev_induct)
  case (snoc r rows)
  then show ?case by (subst trim_rows.simps) simp
qed (subst trim_rows.simps, simp)

lemma trim_rows_tail:
  "\<exists>tail. rows = trim_rows rows @ tail \<and> list_all drained tail"
  "trim_rows rows \<noteq> [] \<Longrightarrow> \<not> drained (last (trim_rows rows))"
proof -
  have "rows = rev (dropWhile drained (rev rows)) @ rev (takeWhile drained (rev rows))"
    by (metis rev_append rev_rev_ident takeWhile_dropWhile_id)
  moreover have "list_all drained (rev (takeWhile drained (rev rows)))"
    by (auto simp: list_all_iff dest: set_takeWhileD)
  ultimately show "\<exists>tail. rows = trim_rows rows @ tail \<and> list_all drained tail"
    unfolding trim_rows_dropWhile by blast
  show "trim_rows rows \<noteq> [] \<Longrightarrow> \<not> drained (last (trim_rows rows))"
    unfolding trim_rows_dropWhile by (simp add: last_rev hd_dropWhile)
qed

end
