(* ===== verification/Elf_Listing.thy ===== *)
theory Elf_Listing
  imports Boot_Image Reports_Props
begin

text \<open>
  What the binary utilities print, in the layout their manual gives: the section table of
  \<open>objdump -h\<close> with its columns Idx, Name, Size, VMA, LMA, File off and Algn and a line of flags under
  each row, and the value, type and name of each symbol in the list of \<open>nm\<close>. \<open>get_section_vma\<close> and
  \<open>get_symbol\<close> of \<open>elf2mem.py\<close> read the VMA and the value from them.
\<close>

subsection \<open>Lines of columns\<close>

text \<open>Words with the number of blanks before each.\<close>

definition columns :: "(nat \<times> string) list \<Rightarrow> string" where
  "columns cs = concat (map (\<lambda>(k, w). replicate k (CHR '' '') @ w) cs)"

definition good_word :: "string \<Rightarrow> bool" where
  "good_word w \<longleftrightarrow> w \<noteq> [] \<and> list_all (\<lambda>c. \<not> py_space c) w"

definition text_of :: "string list \<Rightarrow> string" where
  "text_of ls = concat (map (\<lambda>l. l @ [newline]) ls)"

lemma split_blanks: "py_split (replicate k (CHR '' '') @ rest) = py_split rest"
  by (induction k) (simp_all add: py_split_space)

lemma split_one: "good_word w \<Longrightarrow> py_split w = [w]"
proof -
  assume w: "good_word w"
  then have "dropWhile py_space w = w" by (cases w) (auto simp: good_word_def)
  moreover have "takeWhile (\<lambda>c. \<not> py_space c) w = w" "dropWhile (\<lambda>c. \<not> py_space c) w = []"
    using w by (auto simp: good_word_def list_all_iff)
  ultimately show ?thesis using w by (subst py_split.simps) (simp only: Let_def py_split_Nil good_word_def if_False)
qed

lemma split_columns:
  assumes "\<forall>c \<in> set cs. good_word (snd c)" "\<forall>c \<in> set (tl cs). 0 < fst c"
  shows "py_split (columns cs) = map snd cs"
  using assms
proof (induction cs)
  case (Cons c cs)
  obtain k w where c: "c = (k, w)" by (cases c)
  have IH: "py_split (columns cs) = map snd cs" using Cons by (cases cs) auto
  have w: "good_word w" using Cons.prems c by simp
  show ?case
  proof (cases cs)
    case Nil
    with w c show ?thesis by (simp add: columns_def split_blanks split_one)
  next
    case (Cons d ds)
    then obtain j u where d: "d = (Suc j, u)" using \<open>\<forall>c \<in> set (tl (c # cs)). 0 < fst c\<close> by (cases d; cases "fst d") auto
    have "columns cs = CHR '' '' # (replicate j (CHR '' '') @ u @ columns ds)" by (simp add: Cons d columns_def)
    then have "py_split (w @ columns cs) = w # py_split (columns cs)" using w py_split_word [of w] by (simp add: good_word_def)
    then show ?thesis using IH c by (simp add: columns_def split_blanks)
  qed
qed (simp add: columns_def py_split_Nil)

lemma line_end_space: "line_end c \<Longrightarrow> py_space c"
  by (auto simp: line_end_def py_space_def Let_def)

lemma columns_line: "\<forall>c \<in> set cs. good_word (snd c) \<Longrightarrow> list_all (\<lambda>c. \<not> line_end c) (columns cs)"
proof -
  assume g: "\<forall>c \<in> set cs. good_word (snd c)"
  have "\<not> line_end (CHR '' '')" by code_simp
  moreover have "\<not> line_end x" if "good_word w" "x \<in> set w" for x w
    using that line_end_space by (auto simp: good_word_def list_all_iff)
  ultimately show ?thesis using g by (fastforce simp: columns_def list_all_iff)
qed

lemma splitlines_text: "\<forall>l \<in> set ls. list_all (\<lambda>c. \<not> line_end c) l \<Longrightarrow> splitlines (text_of ls) = ls"
  unfolding splitlines_def text_of_def by (induction ls) (simp_all add: splitlines_line)

lemma not_hex_x: "is_digit 16 c \<Longrightarrow> py_lower_char c \<noteq> CHR ''x''"
proof
  assume d: "is_digit 16 c" and x: "py_lower_char c = CHR ''x''"
  have "(of_char (py_lower_char c) :: nat) = 120" by (simp add: x)
  then have "(of_char c :: nat) = 88 \<or> (of_char c :: nat) = 120"
    by (auto simp: py_lower_char_def py_upper_def Let_def split: if_splits)
  with d show False by (auto simp: is_digit_def digit_val_def Let_def)
qed

lemma hex_word:
  assumes "0 \<le> v"
  shows "good_word (zhex k v)" "py_int16 (zhex k v) = Inr v"
proof -
  let ?s = "show_base 16 v" and ?z = "replicate (k - length (show_base 16 v)) (CHR ''0'')"
  have e: "zhex k v = ?z @ ?s" using assms by (simp add: zhex_def zfill_def)
  have d: "list_all (is_digit 16) (zhex k v)" unfolding e
    using show_base_facts(2) [of 16 v] assms by (auto simp: list_all_iff) code_simp
  have n: "zhex k v \<noteq> []" unfolding e using show_base_facts(1) [of 16 v] assms by simp
  have sp: "list_all (\<lambda>c. \<not> py_space c) (zhex k v)" using d alnum_plain by (auto simp: list_all_iff is_digit_def)
  with n show "good_word (zhex k v)" by (simp add: good_word_def)
  have z: "foldl (\<lambda>a c. a * 16 + int (digit_val c)) 0 (replicate j (CHR ''0'')) = 0" for j
    by (induction j) (simp_all add: digit_val_def)
  have i: "int_digits 16 False (zhex k v) 0 = Some v"
    using int_digits_foldl [of "zhex k v" 16 False 0] d n show_base_facts(4) [of 16 v] z assms by (simp add: e)
  have "hex_body (zhex k v) = Some v"
    using d i not_hex_x by (auto simp: hex_body_def split: list.splits)
  moreover obtain c cs where "zhex k v = c # cs" "c \<noteq> CHR ''-''" "c \<noteq> CHR ''+''"
    using n d alnum_plain by (cases "zhex k v") (auto simp: is_digit_def)
  ultimately show "py_int16 (zhex k v) = Inr v"
    using strip_no_space [OF sp] by (simp add: py_int16_def)
qed

subsection \<open>The section table\<close>

record section_header =
  sh_name :: string
  sh_size :: int
  sh_vma :: int
  sh_lma :: int
  sh_off :: int
  sh_align :: int
  sh_flags :: "string list"

definition header_ok :: "section_header \<Rightarrow> bool" where
  "header_ok h \<longleftrightarrow> good_word (sh_name h) \<and> list_all good_word (sh_flags h) \<and>
     0 \<le> sh_size h \<and> 0 \<le> sh_vma h \<and> 0 \<le> sh_lma h \<and> 0 \<le> sh_off h \<and> 0 \<le> sh_align h"

text \<open>Numbers have \<open>w\<close> hexadecimal digits, 8 or 16 by the class of the file.\<close>

definition row_columns :: "nat \<Rightarrow> nat \<Rightarrow> section_header \<Rightarrow> (nat \<times> string) list" where
  "row_columns w i h =
     [(3 - length (show_int (int i)), show_int (int i)), (1, sh_name h), (max 1 (14 - length (sh_name h)), zhex w (sh_size h)),
      (2, zhex w (sh_vma h)), (2, zhex w (sh_lma h)), (2, zhex w (sh_off h)), (2, ''2**'' @ show_int (sh_align h))]"

fun flag_columns :: "nat \<Rightarrow> string list \<Rightarrow> (nat \<times> string) list" where
  "flag_columns k [] = []"
| "flag_columns k [f] = [(k, f)]"
| "flag_columns k (f # fs) = (k, f @ '','') # flag_columns 1 fs"

fun table_lines :: "nat \<Rightarrow> nat \<Rightarrow> section_header list \<Rightarrow> string list" where
  "table_lines w i [] = []"
| "table_lines w i (h # hs) = columns (row_columns w i h) # columns (flag_columns 18 (sh_flags h)) # table_lines w (i + 1) hs"

definition objdump_lines :: "nat \<Rightarrow> string \<Rightarrow> string \<Rightarrow> section_header list \<Rightarrow> string list" where
  "objdump_lines w path fmt hs =
     [columns [], columns [(0, path @ '':''), (5, ''file''), (1, ''format''), (1, fmt)], columns [], columns [(0, ''Sections:'')],
      columns [(0, ''Idx''), (1, ''Name''), (10, ''Size''), (6, ''VMA''), (7, ''LMA''), (7, ''File''), (1, ''off''), (2, ''Algn'')]] @
     table_lines w 0 hs"

definition vma_of :: "section_header list \<Rightarrow> string \<Rightarrow> int option" where
  "vma_of hs sec = map_option sh_vma (List.find (\<lambda>h. sh_name h = sec) hs)"

lemma number_word: "good_word (show_int v)"
  by (simp add: good_word_def show_int_nonempty show_int_spaceless)

lemma good_append: "good_word u \<Longrightarrow> good_word v \<Longrightarrow> good_word (u @ v)"
  by (simp add: good_word_def)

lemma good_consts:
  "good_word ''2**''" "good_word '',''" "good_word ''file''" "good_word ''format''" "good_word ''Sections:''"
  "list_all good_word [''Idx'', ''Name'', ''Size'', ''VMA'', ''LMA'', ''File'', ''off'', ''Algn'']"
  by code_simp+

lemma row_words: "header_ok h \<Longrightarrow> \<forall>c \<in> set (row_columns w i h). good_word (snd c)"
  using good_append [OF good_consts(1) number_word, of "sh_align h"]
  by (simp add: row_columns_def header_ok_def number_word hex_word)

lemma row_split:
  "header_ok h \<Longrightarrow> py_split (columns (row_columns w i h)) =
     [show_int (int i), sh_name h, zhex w (sh_size h), zhex w (sh_vma h), zhex w (sh_lma h), zhex w (sh_off h), ''2**'' @ show_int (sh_align h)]"
  by (subst split_columns [OF row_words]) (simp_all add: row_columns_def)

lemma flag_words:
  "list_all good_word fs \<Longrightarrow> \<forall>c \<in> set (flag_columns k fs). good_word (snd c)"
  by (induction k fs rule: flag_columns.induct) (auto intro: good_append good_consts)

lemma flag_gaps: "\<forall>c \<in> set (flag_columns (Suc k) fs). 0 < fst c"
  by (induction "Suc k" fs arbitrary: k rule: flag_columns.induct) auto

text \<open>No second word of a line of flags is the name of a section, since all but the last end in a comma.\<close>

lemma flag_split:
  assumes "list_all good_word fs" "CHR '','' \<notin> set sec"
  shows "\<not> (4 \<le> length (py_split (columns (flag_columns 18 fs))) \<and> py_split (columns (flag_columns 18 fs)) ! 1 = sec)"
proof -
  have "\<forall>c \<in> set (tl (flag_columns (Suc 17) fs)). 0 < fst c" using flag_gaps [of 17 fs] by (cases "flag_columns (Suc 17) fs") auto
  then have s: "py_split (columns (flag_columns 18 fs)) = map snd (flag_columns 18 fs)"
    using flag_words [OF assms(1)] by (intro split_columns) simp_all
  show ?thesis unfolding s using assms(2)
    by (cases fs; cases "tl fs"; cases "tl (tl fs)") auto
qed

lemma find_vma_table:
  "list_all header_ok hs \<Longrightarrow> CHR '','' \<notin> set sec \<Longrightarrow> find_vma sec (table_lines w i hs) = Inr (vma_of hs sec)"
proof (induction hs arbitrary: i)
  case (Cons h hs)
  then have h: "header_ok h" "0 \<le> sh_vma h" "list_all good_word (sh_flags h)" by (simp_all add: header_ok_def)
  show ?case
    using Cons row_split [OF h(1), of w i] flag_split [OF h(3) Cons.prems(2)] hex_word(2) [OF h(2), of w]
    by (auto simp: vma_of_def Let_def)
qed (simp add: vma_of_def)

lemma objdump_split:
  assumes "good_word (path @ '':'')" "good_word fmt"
  shows "map py_split (take 5 (objdump_lines w path fmt hs)) =
    [[], [path @ '':'', ''file'', ''format'', fmt], [], [''Sections:''], [''Idx'', ''Name'', ''Size'', ''VMA'', ''LMA'', ''File'', ''off'', ''Algn'']]"
proof -
  have c: "py_split (columns []) = []" by (simp add: split_columns)
  have "py_split (columns [(0, path @ '':''), (5, ''file''), (1, ''format''), (1, fmt)]) = [path @ '':'', ''file'', ''format'', fmt]"
    "py_split (columns [(0, ''Sections:'')]) = [''Sections:'']"
    "py_split (columns [(0, ''Idx''), (1, ''Name''), (10, ''Size''), (6, ''VMA''), (7, ''LMA''), (7, ''File''), (1, ''off''), (2, ''Algn'')]) =
      [''Idx'', ''Name'', ''Size'', ''VMA'', ''LMA'', ''File'', ''off'', ''Algn'']"
    using assms good_consts by (simp_all add: split_columns)
  with c show ?thesis by (simp add: objdump_lines_def)
qed

lemma find_vma_objdump:
  assumes "list_all header_ok hs" "CHR '','' \<notin> set sec" "good_word (path @ '':'')" "good_word fmt" "sec \<noteq> ''file''" "sec \<noteq> ''Name''"
  shows "find_vma sec (objdump_lines w path fmt hs) = Inr (vma_of hs sec)"
  using objdump_split [OF assms(3,4), of w hs] assms(5,6) find_vma_table [OF assms(1,2)]
  by (simp add: objdump_lines_def Let_def)

lemma table_splitlines:
  "list_all header_ok hs \<Longrightarrow> l \<in> set (table_lines w i hs) \<Longrightarrow> list_all (\<lambda>c. \<not> line_end c) l"
proof (induction hs arbitrary: i)
  case (Cons h hs)
  then have "header_ok h" "list_all good_word (sh_flags h)" by (simp_all add: header_ok_def)
  from columns_line [OF row_words [OF this(1)]] columns_line [OF flag_words [OF this(2)]] show ?case using Cons by auto
qed simp

lemma objdump_splitlines:
  assumes "list_all header_ok hs" "good_word (path @ '':'')" "good_word fmt" "l \<in> set (objdump_lines w path fmt hs)"
  shows "list_all (\<lambda>c. \<not> line_end c) l"
proof -
  have "list_all (\<lambda>c. \<not> line_end c) (columns [])"
    "list_all (\<lambda>c. \<not> line_end c) (columns [(0, path @ '':''), (5, ''file''), (1, ''format''), (1, fmt)])"
    "list_all (\<lambda>c. \<not> line_end c) (columns [(0, ''Sections:'')])"
    "list_all (\<lambda>c. \<not> line_end c)
       (columns [(0, ''Idx''), (1, ''Name''), (10, ''Size''), (6, ''VMA''), (7, ''LMA''), (7, ''File''), (1, ''off''), (2, ''Algn'')])"
    using assms(2,3) good_consts by (auto intro!: columns_line)
  then show ?thesis using assms(4) table_splitlines [OF assms(1)] by (auto simp: objdump_lines_def)
qed

subsection \<open>The symbol list\<close>

record elf_symbol =
  sy_value :: "int option"
  sy_type :: char
  sy_name :: string

definition symbol_ok :: "elf_symbol \<Rightarrow> bool" where
  "symbol_ok y \<longleftrightarrow> good_word [sy_type y] \<and> good_word (sy_name y) \<and> (\<forall>v. sy_value y = Some v \<longrightarrow> 0 \<le> v)"

text \<open>An undefined symbol has blanks for its value.\<close>

definition symbol_columns :: "nat \<Rightarrow> elf_symbol \<Rightarrow> (nat \<times> string) list" where
  "symbol_columns w y =
     (case sy_value y of Some v \<Rightarrow> [(0, zhex w v), (1, [sy_type y]), (1, sy_name y)] | None \<Rightarrow> [(w + 1, [sy_type y]), (1, sy_name y)])"

definition nm_lines :: "nat \<Rightarrow> elf_symbol list \<Rightarrow> string list" where
  "nm_lines w ys = map (\<lambda>y. columns (symbol_columns w y)) ys"

definition address_of :: "elf_symbol list \<Rightarrow> string \<Rightarrow> int option" where
  "address_of ys name = Option.bind (List.find (\<lambda>y. sy_value y \<noteq> None \<and> sy_name y = name) ys) sy_value"

lemma symbol_words: "symbol_ok y \<Longrightarrow> \<forall>c \<in> set (symbol_columns w y). good_word (snd c)"
  by (auto simp: symbol_columns_def symbol_ok_def hex_word split: option.splits)

lemma symbol_split: "symbol_ok y \<Longrightarrow> py_split (columns (symbol_columns w y)) =
    (case sy_value y of Some v \<Rightarrow> [zhex w v, [sy_type y], sy_name y] | None \<Rightarrow> [[sy_type y], sy_name y])"
  by (subst split_columns [OF symbol_words]) (auto simp: symbol_columns_def split: option.splits)

lemma find_symbol_nm:
  "list_all symbol_ok ys \<Longrightarrow> find_symbol name (nm_lines w ys) = (case address_of ys name of None \<Rightarrow> Inl ValueError | Some v \<Rightarrow> Inr v)"
proof (induction ys)
  case (Cons y ys)
  then have y: "symbol_ok y" by simp
  then have "sy_value y = Some v \<Longrightarrow> py_int16 (zhex w v) = Inr v" for v by (simp add: symbol_ok_def hex_word)
  with Cons symbol_split [OF y, of w] show ?case
    by (auto simp: nm_lines_def address_of_def Let_def split: option.splits)
qed (simp add: nm_lines_def address_of_def)

subsection \<open>A file as the utilities describe it\<close>

text \<open>
  The contents \<open>objcopy\<close> extracts, the section table and the symbols. A section called \<open>file\<close> or
  \<open>Name\<close> is excluded: these words stand in the second column of the lines above the table.
\<close>

definition elf_listed :: "elf_tools \<Rightarrow> section_header list \<Rightarrow> elf_symbol list \<Rightarrow> (string \<Rightarrow> int list) \<Rightarrow> string list \<Rightarrow> bool" where
  "elf_listed tools hs ys raw secs \<longleftrightarrow>
     (\<forall>s \<in> set (''.rodata'' # ''.data'' # secs). objcopy_out tools s = Some (raw s) \<and> bytes (raw s)) \<and>
     (\<exists>w path fmt. good_word (path @ '':'') \<and> good_word fmt \<and>
        objdump_out tools = Some (text_of (objdump_lines w path fmt hs)) \<and> nm_out tools = Some (text_of (nm_lines w ys))) \<and>
     list_all header_ok hs \<and> list_all symbol_ok ys \<and> ''file'' \<notin> set secs \<and> ''Name'' \<notin> set secs"

lemma listed_vma:
  assumes "elf_listed tools hs ys raw secs" "s \<in> set secs" "CHR '','' \<notin> set s"
  shows "get_section_vma tools s = Inr (vma_of hs s)"
proof -
  obtain w path fmt where p: "good_word (path @ '':'')" "good_word fmt"
      "objdump_out tools = Some (text_of (objdump_lines w path fmt hs))" "list_all header_ok hs" "s \<noteq> ''file''" "s \<noteq> ''Name''"
    using assms(1,2) unfolding elf_listed_def by blast
  have "splitlines (text_of (objdump_lines w path fmt hs)) = objdump_lines w path fmt hs"
    using objdump_splitlines [OF p(4,1,2)] by (intro splitlines_text) blast
  with p find_vma_objdump [OF p(4) assms(3) p(1,2,5,6)] show ?thesis by (simp add: get_section_vma_def)
qed

lemma listed_symbol:
  assumes "elf_listed tools hs ys raw secs"
  shows "get_symbol tools name = (case address_of ys name of None \<Rightarrow> Inl ValueError | Some v \<Rightarrow> Inr v)"
proof -
  obtain w where p: "nm_out tools = Some (text_of (nm_lines w ys))" "list_all symbol_ok ys"
    using assms unfolding elf_listed_def by blast
  have "splitlines (text_of (nm_lines w ys)) = nm_lines w ys"
    using p(2) columns_line [OF symbol_words] by (intro splitlines_text) (auto simp: nm_lines_def list_all_iff [of symbol_ok])
  with p find_symbol_nm [OF p(2)] show ?thesis by (simp add: get_symbol_def)
qed

lemma split_on_pure: "s \<in> set (split_on k names) \<Longrightarrow> k \<notin> set s"
proof -
  have "k \<notin> set cur \<Longrightarrow> s \<in> set (split_on_aux k names cur) \<Longrightarrow> k \<notin> set s" for cur
    by (induction k names cur rule: split_on_aux.induct) (auto split: if_splits)
  then show "s \<in> set (split_on k names) \<Longrightarrow> k \<notin> set s" unfolding split_on_def by force
qed

text \<open>Every section with content has a row, and the symbol of a data section with content is defined.\<close>

definition located :: "section_header list \<Rightarrow> (string \<Rightarrow> int list) \<Rightarrow> string list \<Rightarrow> bool" where
  "located hs raw secs \<longleftrightarrow> (\<forall>s \<in> set secs. raw s \<noteq> [] \<longrightarrow> vma_of hs s \<noteq> None)"

definition symbol_found :: "elf_symbol list \<Rightarrow> (string \<Rightarrow> int list) \<Rightarrow> string \<Rightarrow> string \<Rightarrow> bool" where
  "symbol_found ys raw sec name \<longleftrightarrow> (raw sec \<noteq> [] \<longrightarrow> address_of ys name \<noteq> None)"

definition data_part :: "elf_symbol list \<Rightarrow> (string \<Rightarrow> int list) \<Rightarrow> string \<Rightarrow> string \<Rightarrow> int \<times> int list" where
  "data_part ys raw sec name = (if raw sec = [] then 0 else the (address_of ys name), raw sec)"

lemma vma_nonneg: "list_all header_ok hs \<Longrightarrow> vma_of hs s = Some v \<Longrightarrow> 0 \<le> v"
  by (auto simp: vma_of_def list_all_iff header_ok_def find_Some_iff)

lemma address_nonneg: "list_all symbol_ok ys \<Longrightarrow> address_of ys s = Some v \<Longrightarrow> 0 \<le> v"
  by (auto simp: address_of_def list_all_iff symbol_ok_def find_Some_iff bind_eq_Some_conv)

lemma listed_describes:
  assumes "elf_listed tools hs ys raw secs" "\<forall>s \<in> set secs. CHR '','' \<notin> set s" "located hs raw secs"
  shows "describes tools (\<lambda>s. the (vma_of hs s)) raw secs"
proof -
  have "list_all header_ok hs" using assms(1) by (simp add: elf_listed_def)
  then show ?thesis using assms listed_vma [OF assms(1)] vma_nonneg
    by (fastforce simp: describes_def elf_listed_def located_def)
qed

lemma unlocated_section:
  assumes "\<forall>s \<in> set secs. objcopy_out tools s = Some (raw s) \<and> get_section_vma tools s = Inr (vma_of hs s)" "\<not> located hs raw secs"
  shows "place_sections tools n secs imem = Inl ValueError"
  using assms
proof (induction secs arbitrary: imem)
  case (Cons s secs)
  then show ?case by (cases "vma_of hs s") (auto simp: extract_raw_def located_def)
qed (simp add: located_def)

lemma listed_data:
  assumes "elf_listed tools hs ys raw secs"
  shows "symbol_unless_empty tools name (raw sec) =
    (if symbol_found ys raw sec name then Inr (fst (data_part ys raw sec name)) else Inl ValueError)"
  using listed_symbol [OF assms, of name]
  by (auto simp: symbol_unless_empty_def symbol_found_def data_part_def split: option.splits)

lemma elf2mem_listed:
  assumes "elf_listed tools hs ys raw (split_on CHR '','' names)" "0 \<le> imem_size" "0 \<le> dmem_size"
  defines "secs \<equiv> split_on CHR '','' names"
  defines "code \<equiv> code_parts (\<lambda>s. the (vma_of hs s)) raw secs"
    and "data \<equiv> [data_part ys raw ''.rodata'' ''_rodata_start'', data_part ys raw ''.data'' ''_data_start'']"
  shows "elf2mem_main tools imem_size dmem_size names =
    (if located hs raw secs \<and> symbol_found ys raw ''.rodata'' ''_rodata_start'' \<and> symbol_found ys raw ''.data'' ''_data_start'' \<and>
        fit imem_size code \<and> fit dmem_size data
     then Inr (elf_write_mem (image_of (nat imem_size) code), elf_write_mem (image_of (nat dmem_size) data))
     else Inl ValueError)"
proof -
  have c: "\<forall>s \<in> set secs. CHR '','' \<notin> set s" using split_on_pure unfolding secs_def by blast
  have raws: "objcopy_out tools s = Some (raw s)" "bytes (raw s)" if "s \<in> set (''.rodata'' # ''.data'' # secs)" for s
    using assms(1) that unfolding elf_listed_def secs_def by blast+
  have ok: "list_all symbol_ok ys" using assms(1) by (simp add: elf_listed_def)
  note syms = listed_data [OF assms(1)]
  have x: "extract_raw tools ''.rodata'' = Inr (raw ''.rodata'')" "extract_raw tools ''.data'' = Inr (raw ''.data'')"
    using raws by (simp_all add: extract_raw_def)
  consider (no_row) "\<not> located hs raw secs"
    | (no_symbol) "located hs raw secs" "\<not> (symbol_found ys raw ''.rodata'' ''_rodata_start'' \<and> symbol_found ys raw ''.data'' ''_data_start'')"
    | (found) "located hs raw secs" "symbol_found ys raw ''.rodata'' ''_rodata_start''" "symbol_found ys raw ''.data'' ''_data_start''" by blast
  then show ?thesis
  proof cases
    case no_row
    have "\<forall>s \<in> set secs. objcopy_out tools s = Some (raw s) \<and> get_section_vma tools s = Inr (vma_of hs s)"
      using raws listed_vma [OF assms(1)] c unfolding secs_def by auto
    from unlocated_section [OF this no_row] no_row show ?thesis
      unfolding elf2mem_main_def secs_def by (simp add: bytearray_Inr assms(2))
  next
    case no_symbol
    have d: "describes tools (\<lambda>s. the (vma_of hs s)) raw secs" using listed_describes [of tools hs ys raw secs] assms(1) c no_symbol(1) unfolding secs_def by blast
    have "elf2mem_main tools imem_size dmem_size names = Inl ValueError"
      using no_symbol(2) place_sections_parts [OF d, of imem_size "replicate (nat imem_size) 0"] unfolding elf2mem_main_def secs_def
      by (auto simp: bytearray_Inr assms(2) x syms)
    then show ?thesis using no_symbol(2) by auto
  next
    case found
    have d: "describes tools (\<lambda>s. the (vma_of hs s)) raw secs" using listed_describes [of tools hs ys raw secs] assms(1) c found(1) unfolding secs_def by blast
    have nn: "symbol_found ys raw sec name \<Longrightarrow> 0 \<le> fst (data_part ys raw sec name)" for sec name
      using address_nonneg [OF ok] by (auto simp: symbol_found_def data_part_def)
    have "describes_data tools (data_part ys raw ''.rodata'' ''_rodata_start'') (data_part ys raw ''.data'' ''_data_start'')"
      using found(2,3) raws syms nn unfolding describes_data_def by (auto simp: data_part_def)
    from elf2mem_parts [OF d [unfolded secs_def] this assms(2,3)] found show ?thesis
      unfolding code_def data_def secs_def by simp
  qed
qed

end
