(* ===== verification/Image_Props.thy ===== *)
theory Image_Props
  imports Elf_Listing
begin

text \<open>The properties of the image tools: \<open>elf2mem.py\<close>, \<open>build_linux_boot.py\<close>, \<open>build_sbi_firmware.py\<close>.\<close>

definition sample_tools :: elf_tools where
  "sample_tools =
     \<lparr>objcopy_out = (\<lambda>s. if s = ''.text.boot'' then Some [0x13, 0, 0, 0] else if s = ''.data'' then Some [7, 8, 9] else Some []),
      objdump_out = Some (''Sections:'' @ [newline] @ ''  0 .text.boot 00000004  00000020  00008020  00001000  2**2'' @ [newline]),
      nm_out = Some (''00000020 T _start'' @ [newline] @ ''00001010 D _data_start'' @ [newline])\<rparr>"

definition sample_kernel :: "int list" where
  "sample_kernel = replicate 8 0 @ [0, 0, 0x20, 0, 0, 0, 0, 0] @ replicate 32 0 @ map of_char ''RISCV'' @ replicate 11 0"

lemma sample_described:
  "describes sample_tools (\<lambda>s. 0x20) (\<lambda>s. if s = ''.text.boot'' then [0x13, 0, 0, 0] else []) [''.text.boot'']"
  "describes sample_tools (\<lambda>s. 0x20) (\<lambda>s. if s = ''.text.boot'' then [0x13, 0, 0, 0] else []) [''.text.boot'', ''.text.payload'']"
  "describes_data sample_tools (0, []) (0x1010, [7, 8, 9])"
  "code_parts (\<lambda>s. 0x20) (\<lambda>s. if s = ''.text.boot'' then [0x13, 0, 0, 0] else []) [''.text.boot''] = [(0x20, [0x13, 0, 0, 0])]"
  "code_parts (\<lambda>s. 0x20) (\<lambda>s. if s = ''.text.boot'' then [0x13, 0, 0, 0] else []) [''.text.boot'', ''.text.payload''] =
     [(0x20, [0x13, 0, 0, 0])]"
  by code_simp+

lemma code_names: "split_on CHR '','' ''.text.boot'' = [''.text.boot'']"
  "split_on CHR '','' ''.text.boot,.text.payload'' = [''.text.boot'', ''.text.payload'']"
  by code_simp+

text \<open>
  C22. For an ELF file that the binary utilities list (the contents that \<open>objcopy\<close> extracts, the table of
  \<open>objdump -h\<close> with its VMA and LMA columns, the symbols of \<open>nm\<close>), the two images that \<open>elf2mem\<close> writes
  hold every code section that has content at its VMA, the read-only and initialised data at the
  addresses of \<open>_rodata_start\<close> and \<open>_data_start\<close>, and zero everywhere else (a later section wins an
  overlap). It raises \<open>ValueError\<close> exactly when a section with content is missing from the table,
  such a symbol is not defined or a section reaches past its memory, and there is no other failure.
\<close>

theorem elf2mem_places_sections:
  assumes "elf_listed tools hs ys raw (split_on CHR '','' names)" "0 \<le> imem_size" "0 \<le> dmem_size"
  shows "let secs = split_on CHR '','' names;
      code = code_parts (\<lambda>s. the (vma_of hs s)) raw secs;
      data = [data_part ys raw ''.rodata'' ''_rodata_start'', data_part ys raw ''.data'' ''_data_start'']
    in elf2mem_main tools imem_size dmem_size names =
      (if located hs raw secs \<and> symbol_found ys raw ''.rodata'' ''_rodata_start'' \<and> symbol_found ys raw ''.data'' ''_data_start'' \<and>
          fit imem_size code \<and> fit dmem_size data
       then Inr (elf_write_mem (image_of (nat imem_size) code), elf_write_mem (image_of (nat dmem_size) data))
       else Inl ValueError)"
  unfolding Let_def by (rule elf2mem_listed [OF assms])

text \<open>A file whose sections are linked at one address and loaded at another.\<close>

definition sample_headers :: "section_header list" where
  "sample_headers =
     [\<lparr>sh_name = ''.text.boot'', sh_size = 4, sh_vma = 0x20, sh_lma = 0x8020, sh_off = 0x1000, sh_align = 2,
       sh_flags = [''CONTENTS'', ''ALLOC'', ''LOAD'', ''READONLY'', ''CODE'']\<rparr>,
      \<lparr>sh_name = ''.data'', sh_size = 3, sh_vma = 0x1010, sh_lma = 0x9010, sh_off = 0x2010, sh_align = 0,
       sh_flags = [''CONTENTS'', ''ALLOC'', ''LOAD'', ''DATA'']\<rparr>]"

definition sample_symbols :: "elf_symbol list" where
  "sample_symbols = [\<lparr>sy_value = Some 0x20, sy_type = CHR ''T'', sy_name = ''_start''\<rparr>,
     \<lparr>sy_value = None, sy_type = CHR ''U'', sy_name = ''_rodata_start''\<rparr>,
     \<lparr>sy_value = Some 0x1010, sy_type = CHR ''D'', sy_name = ''_data_start''\<rparr>]"

definition sample_contents :: "string \<Rightarrow> int list" where
  "sample_contents s = (if s = ''.text.boot'' then [0x13, 0, 0, 0] else if s = ''.data'' then [7, 8, 9] else [])"

definition listed_tools :: elf_tools where
  "listed_tools = \<lparr>objcopy_out = (\<lambda>s. Some (sample_contents s)),
     objdump_out = Some (text_of (objdump_lines 8 ''fw.elf'' ''elf32-littleriscv'' sample_headers)),
     nm_out = Some (text_of (nm_lines 8 sample_symbols))\<rparr>"

lemma sample_listed: "elf_listed listed_tools sample_headers sample_symbols sample_contents [''.text.boot'', ''.text.payload'']"
proof -
  have "good_word (''fw.elf'' @ '':'')" "good_word ''elf32-littleriscv''" "list_all header_ok sample_headers"
    "\<forall>s \<in> set [''.rodata'', ''.data'', ''.text.boot'', ''.text.payload'']. bytes (sample_contents s)"
    by code_simp+
  moreover have "list_all symbol_ok sample_symbols"
    by (simp add: sample_symbols_def symbol_ok_def good_word_def py_space_def)
  moreover have "\<exists>w path fmt. good_word (path @ '':'') \<and> good_word fmt \<and>
      objdump_out listed_tools = Some (text_of (objdump_lines w path fmt sample_headers)) \<and>
      nm_out listed_tools = Some (text_of (nm_lines w sample_symbols))"
    using calculation(1,2)
    by (intro exI [of _ 8] exI [of _ "''fw.elf''"] exI [of _ "''elf32-littleriscv''"]) (simp add: listed_tools_def)
  ultimately show ?thesis unfolding elf_listed_def by (simp add: listed_tools_def)
qed

theorem elf2mem_places_sections_witness:
  "elf2mem_main listed_tools 64 8192 ''.text.boot,.text.payload'' =
     Inr (elf_write_mem (image_of 64 [(0x20, [0x13, 0, 0, 0])]), elf_write_mem (image_of 8192 [(0, []), (0x1010, [7, 8, 9])])) \<and>
   elf2mem_main listed_tools 32 8192 ''.text.boot,.text.payload'' = Inl ValueError"
proof -
  let ?secs = "[''.text.boot'', ''.text.payload'']"
  have l: "located sample_headers sample_contents ?secs" "symbol_found sample_symbols sample_contents ''.rodata'' ''_rodata_start''"
    "symbol_found sample_symbols sample_contents ''.data'' ''_data_start''"
    "code_parts (\<lambda>s. the (vma_of sample_headers s)) sample_contents ?secs = [(0x20, [0x13, 0, 0, 0])]"
    "[data_part sample_symbols sample_contents ''.rodata'' ''_rodata_start'', data_part sample_symbols sample_contents ''.data'' ''_data_start''] =
      [(0, []), (0x1010, [7, 8, 9])]"
    by code_simp+
  have e: "elf_listed listed_tools sample_headers sample_symbols sample_contents (split_on CHR '','' ''.text.boot,.text.payload'')"
    unfolding code_names by (rule sample_listed)
  show ?thesis
    using elf2mem_places_sections [OF e, of 64 8192] elf2mem_places_sections [OF e, of 32 8192]
    unfolding Let_def code_names l(4,5) using l(1-3) by (simp add: fit_def)
qed

text \<open>
  \<open>read_mem\<close> inverts \<open>write_mem\<close>: the text image of any bytes reads back as these bytes padded
  with zeros to the requested length, and a longer image is an \<open>IndexError\<close>.
\<close>

lemma image_text_roundtrip:
  assumes "bytes data"
  shows "read_mem (elf_write_mem data) n =
    (if n < 0 then Inl ValueError else if length data \<le> nat n then Inr (data @ replicate (nat n - length data) 0)
     else Inl IndexError)"
  by (rule read_mem_image [OF assms])

subsection \<open>Linux\<close>

lemma firmware_read_back:
  assumes "describes tools vma raw [''.text.boot'']" "describes_data tools ro da"
    "fit FW_LINK_SIZE (code_parts vma raw [''.text.boot''])" "fit FW_LINK_SIZE [ro, da]"
  shows "build_firmware (Some tools) =
    Inr (image_of 32768 (code_parts vma raw [''.text.boot'']), image_of 32768 [ro, da])"
proof -
  have e: "elf2mem_main tools FW_LINK_SIZE FW_LINK_SIZE ''.text.boot'' =
      Inr (elf_write_mem (image_of 32768 (code_parts vma raw [''.text.boot''])), elf_write_mem (image_of 32768 [ro, da]))"
    using elf2mem_parts [of tools vma raw "''.text.boot''" ro da FW_LINK_SIZE FW_LINK_SIZE] assms
    unfolding code_names by (simp add: FW_LINK_SIZE_def)
  have "bytes (image_of 32768 (code_parts vma raw [''.text.boot'']))" "bytes (image_of 32768 [ro, da])"
    using assms parts_good [OF assms(1)]
    by (auto intro!: bytes_image_of simp: inside_def fit_def describes_data_def FW_LINK_SIZE_def)
  then show ?thesis 
    by (simp add: build_firmware_def compiled_def run_tool_def e read_mem_image) (simp add: FW_LINK_SIZE_def)
qed

lemma bootargs_ascii: "ascii LINUX_BOOTARGS" "length LINUX_BOOTARGS < 1000"
  by code_simp+


lemma slice_of_image:
  assumes "\<forall>part \<in> set (before @ p # after). bytes (snd part) \<and> inside n part" "\<forall>part \<in> set after. span part \<inter> span p = {}"
  shows "Dtb.slice (image_of n (before @ p # after)) (nat (fst p)) (nat (fst p) + length (snd p)) = snd p"
  using buffer.part_reads_back [of "replicate n 0" before "fst p" "snd p" after] placed_image [of "before @ p # after" n] assms
  by (simp add: bytes_zero)

text \<open>The parts of the combined images lie inside the image, in the order of their addresses.\<close>

lemma combined_spans:
  assumes "check_parts k r = Inr ()" "length fw = 32768"
  shows "inside (nat (zero_init_limit dtb)) (0, fw)" "inside (nat (zero_init_limit dtb)) (KERNEL_LOAD_ADDR, k)"
    "inside (nat (zero_init_limit dtb)) (INITRD_ADDR, r)" "inside (nat (zero_init_limit dtb)) (DTB_ADDR_KERNEL, dtb)"
    "span (KERNEL_LOAD_ADDR, k) \<inter> span (0, fw) = {}" "span (INITRD_ADDR, r) \<inter> span (0, fw) = {}"
    "span (DTB_ADDR_KERNEL, dtb) \<inter> span (0, fw) = {}" "span (INITRD_ADDR, r) \<inter> span (KERNEL_LOAD_ADDR, k) = {}"
    "span (DTB_ADDR_KERNEL, dtb) \<inter> span (KERNEL_LOAD_ADDR, k) = {}" "span (DTB_ADDR_KERNEL, dtb) \<inter> span (INITRD_ADDR, r) = {}"
  using check_parts_ok [OF assms(1)] limit_covers [of dtb] assms(2)
  by (auto simp: inside_def addr_defs)

lemma limit_exact: "0 < length dtb \<Longrightarrow> length dtb \<le> 4096 \<Longrightarrow> zero_init_limit dtb = 0x1501000"
proof -
  assume "0 < length dtb" "length dtb \<le> 4096"
  then have "(DTB_ADDR_KERNEL + int (length dtb) + 4095) div 4096 = 0x1501"
    by (intro int_div_pos_eq [where r = "int (length dtb) - 1"]) (auto simp: DTB_ADDR_KERNEL_def)
  then show ?thesis by (simp add: zero_init_limit_def Let_def)
qed


lemma imem_slices:
  assumes "check_parts k r = Inr ()" "length fw = 32768" "bytes fw" "bytes k"
  defines "parts \<equiv> [(0, fw), (KERNEL_LOAD_ADDR, k)]"
  shows "combine_imem (zero_init_limit dtb) fw k = Inr (image_of (nat (zero_init_limit dtb)) parts)"
    "Dtb.slice (image_of (nat (zero_init_limit dtb)) parts) 0 32768 = fw"
    "Dtb.slice (image_of (nat (zero_init_limit dtb)) parts) 0x200000 (0x200000 + length k) = k"
proof -
  let ?n = "nat (zero_init_limit dtb)"
  note sp = combined_spans [OF assms(1,2)]
  have p: "\<forall>part \<in> set parts. bytes (snd part) \<and> inside ?n part" using sp assms by (auto simp: parts_def)
  have "0 \<le> zero_init_limit dtb" using limit_covers [of dtb] by (simp add: DTB_ADDR_KERNEL_def)
  then show "combine_imem (zero_init_limit dtb) fw k = Inr (image_of ?n parts)"
    using placed_image [OF p] by (simp only: combine_imem_parts parts_def)
  show "Dtb.slice (image_of ?n parts) 0 32768 = fw"
    using slice_of_image [of "[]" "(0, fw)" "[(KERNEL_LOAD_ADDR, k)]" ?n] p sp assms(2) by (simp add: parts_def)
  show "Dtb.slice (image_of ?n parts) 0x200000 (0x200000 + length k) = k"
    using slice_of_image [of "[(0, fw)]" "(KERNEL_LOAD_ADDR, k)" "[]" ?n] p by (simp add: parts_def KERNEL_LOAD_ADDR_def)
qed

lemma dmem_slices:
  assumes "check_parts k r = Inr ()" "length fw = 32768" "bytes fw" "bytes k" "bytes r" "bytes dtb"
  shows "combine_dmem (zero_init_limit dtb) fw k r dtb =
      Inr (image_of (nat (zero_init_limit dtb)) [(0, fw), (KERNEL_LOAD_ADDR, k), (INITRD_ADDR, r), (DTB_ADDR_KERNEL, dtb)])"
    "Dtb.slice (image_of (nat (zero_init_limit dtb)) [(0, fw), (KERNEL_LOAD_ADDR, k), (INITRD_ADDR, r), (DTB_ADDR_KERNEL, dtb)]) 0 32768 = fw"
    "Dtb.slice (image_of (nat (zero_init_limit dtb)) [(0, fw), (KERNEL_LOAD_ADDR, k), (INITRD_ADDR, r), (DTB_ADDR_KERNEL, dtb)])
       0x200000 (0x200000 + length k) = k"
    "Dtb.slice (image_of (nat (zero_init_limit dtb)) [(0, fw), (KERNEL_LOAD_ADDR, k), (INITRD_ADDR, r), (DTB_ADDR_KERNEL, dtb)])
       0x1000000 (0x1000000 + length r) = r"
    "Dtb.slice (image_of (nat (zero_init_limit dtb)) [(0, fw), (KERNEL_LOAD_ADDR, k), (INITRD_ADDR, r), (DTB_ADDR_KERNEL, dtb)])
       0x1500000 (0x1500000 + length dtb) = dtb"
proof -
  let ?n = "nat (zero_init_limit dtb)" and ?parts = "[(0, fw), (KERNEL_LOAD_ADDR, k), (INITRD_ADDR, r), (DTB_ADDR_KERNEL, dtb)]"
  note sp = combined_spans [OF assms(1,2)]
  have p: "\<forall>part \<in> set ?parts. bytes (snd part) \<and> inside ?n part" using sp assms by auto
  have "0 \<le> zero_init_limit dtb" using limit_covers [of dtb] by (simp add: DTB_ADDR_KERNEL_def)
  then show "combine_dmem (zero_init_limit dtb) fw k r dtb = Inr (image_of ?n ?parts)"
    using placed_image [OF p] by (simp only: combine_dmem_parts)
  show "Dtb.slice (image_of ?n ?parts) 0 32768 = fw"
    using slice_of_image [of "[]" "(0, fw)" "tl ?parts" ?n] p sp assms(2) by simp
  show "Dtb.slice (image_of ?n ?parts) 0x200000 (0x200000 + length k) = k"
    using slice_of_image [of "take 1 ?parts" "(KERNEL_LOAD_ADDR, k)" "drop 2 ?parts" ?n] p sp by (simp add: KERNEL_LOAD_ADDR_def)
  show "Dtb.slice (image_of ?n ?parts) 0x1000000 (0x1000000 + length r) = r"
    using slice_of_image [of "take 2 ?parts" "(INITRD_ADDR, r)" "drop 3 ?parts" ?n] p sp by (simp add: INITRD_ADDR_def)
  show "Dtb.slice (image_of ?n ?parts) 0x1500000 (0x1500000 + length dtb) = dtb"
    using slice_of_image [of "take 3 ?parts" "(DTB_ADDR_KERNEL, dtb)" "[]" ?n] p by (simp add: DTB_ADDR_KERNEL_def)
qed


lemma linux_dtb:
  "\<exists>dtb info. gen_dtb_main msize 1000000 1843200 LINUX_BOOTARGS st en = Inr (dtb, info) \<and> bytes dtb \<and>
     int (length dtb) \<le> 4060 \<and> dtb \<noteq> [] \<and>
     read_events (struct_block dtb) (strings_block dtb) = Some (core_events msize 1000000 1843200 LINUX_BOOTARGS st en)"
proof -
  obtain dtb where "gen_dtb_main msize 1000000 1843200 LINUX_BOOTARGS st en =
        Inr (dtb, 4, if st = None \<or> en = None then 34 else 36, int (length dtb))" "bytes dtb"
      "56 \<le> length dtb" "int (length dtb) \<le> int (length LINUX_BOOTARGS) + 3060"
      "read_events (struct_block dtb) (strings_block dtb) = Some (core_events msize 1000000 1843200 LINUX_BOOTARGS st en)"
    using gen_dtb_ok [of LINUX_BOOTARGS msize 1000000 1843200 st en] bootargs_ascii by auto
  then show ?thesis using bootargs_ascii(2) by auto
qed

text \<open>
  C21. A kernel image and a ramdisk that pass the header and placement checks, with firmware that
  fits its region and a memory that reaches past the device tree, give one image per memory, both
  21 megabytes and a page long: the instruction memory holds the firmware's code and the kernel, the
  data memory the firmware's data, the same kernel, the ramdisk and a device tree which describes
  this core, its memory and that ramdisk; every part is at its address and none overwrites another.
\<close>

theorem linux_image_layout:
  assumes "describes tools vma raw [''.text.boot'']" "describes_data tools ro da"
    "fit FW_LINK_SIZE (code_parts vma raw [''.text.boot''])" "fit FW_LINK_SIZE [ro, da]"
    and parts: "check_parts kern initrd = Inr ()" "bytes kern" "bytes initrd" and room: "DTB_ADDR_KERNEL + 4096 \<le> msize"
  shows "\<exists>imem dmem dtb. linux_boot_main kern initrd (Some tools) msize = Inr (elf_write_mem imem, elf_write_mem dmem, 0x1501000) \<and>
    length imem = 0x1501000 \<and> length dmem = 0x1501000 \<and>
    Dtb.slice imem 0 32768 = image_of 32768 (code_parts vma raw [''.text.boot'']) \<and>
    Dtb.slice imem 0x200000 (0x200000 + length kern) = kern \<and>
    Dtb.slice dmem 0 32768 = image_of 32768 [ro, da] \<and>
    Dtb.slice dmem 0x200000 (0x200000 + length kern) = kern \<and>
    Dtb.slice dmem 0x1000000 (0x1000000 + length initrd) = initrd \<and>
    Dtb.slice dmem 0x1500000 (0x1500000 + length dtb) = dtb \<and>
    read_events (struct_block dtb) (strings_block dtb) =
      Some (core_events msize 1000000 1843200 LINUX_BOOTARGS (Some 0x1000000) (Some (0x1000000 + int (length initrd))))"
proof -
  let ?fi = "image_of 32768 (code_parts vma raw [''.text.boot''])" and ?fd = "image_of 32768 [ro, da]"
  have fw: "bytes ?fi" "bytes ?fd"
    using assms parts_good [OF assms(1)]
    by (auto intro!: bytes_image_of simp: inside_def fit_def describes_data_def FW_LINK_SIZE_def)
  obtain dtb info where dtb: "gen_dtb_main msize 1000000 1843200 LINUX_BOOTARGS (Some INITRD_ADDR)
        (Some (INITRD_ADDR + int (length initrd))) = Inr (dtb, info)" "bytes dtb" "int (length dtb) \<le> 4060" "dtb \<noteq> []"
      "read_events (struct_block dtb) (strings_block dtb) =
        Some (core_events msize 1000000 1843200 LINUX_BOOTARGS (Some INITRD_ADDR) (Some (INITRD_ADDR + int (length initrd))))"
    using linux_dtb by blast
  have l: "zero_init_limit dtb = 0x1501000" using dtb by (intro limit_exact) auto
  note im = imem_slices [OF parts(1) length_image_of fw(1) parts(2), of dtb]
  note dm = dmem_slices [OF parts(1) length_image_of fw(2) parts(2,3) dtb(2)]
  have "linux_boot_main kern initrd (Some tools) msize =
      Inr (elf_write_mem (image_of 0x1501000 [(0, ?fi), (KERNEL_LOAD_ADDR, kern)]),
        elf_write_mem (image_of 0x1501000 [(0, ?fd), (KERNEL_LOAD_ADDR, kern), (INITRD_ADDR, initrd), (DTB_ADDR_KERNEL, dtb)]), 0x1501000)"
    using firmware_read_back [OF assms(1-4)] dtb(1,3) room im(1) dm(1)
    by (simp add: linux_boot_main_def parts(1) run_tool_def l)
  then show ?thesis using im(2,3) dm(2-5) dtb(5) unfolding l INITRD_ADDR_def
    by (intro exI conjI) (assumption | simp)+
qed


theorem linux_image_layout_witness:
  "\<exists>imem dmem dtb. linux_boot_main sample_kernel [1, 2, 3] (Some sample_tools) MEM_SIZE_BYTES =
      Inr (elf_write_mem imem, elf_write_mem dmem, 0x1501000) \<and>
    Dtb.slice imem 0x200000 0x200040 = sample_kernel \<and> Dtb.slice dmem 0x1000000 0x1000003 = [1, 2, 3] \<and>
    Dtb.slice dmem 0x1500000 (0x1500000 + length dtb) = dtb \<and>
    read_events (struct_block dtb) (strings_block dtb) =
      Some (core_events MEM_SIZE_BYTES 1000000 1843200 LINUX_BOOTARGS (Some 0x1000000) (Some 0x1000003))"
proof -
  have f: "fit FW_LINK_SIZE (code_parts (\<lambda>s. 0x20) (\<lambda>s. if s = ''.text.boot'' then [0x13, 0, 0, 0] else []) [''.text.boot''])"
    "fit FW_LINK_SIZE [(0, []), (0x1010, [7, 8, 9])]" unfolding sample_described by (simp_all add: fit_def FW_LINK_SIZE_def)
  have c: "check_parts sample_kernel [1, 2, 3] = Inr ()" "bytes sample_kernel" "bytes [1, 2, 3]" "length sample_kernel = 0x40"
    by code_simp+
  have m: "DTB_ADDR_KERNEL + 4096 \<le> MEM_SIZE_BYTES" by (simp add: DTB_ADDR_KERNEL_def MEM_SIZE_BYTES_def)
  show ?thesis
    using linux_image_layout [OF sample_described(1,3) f c(1-3) m] c(4) by auto
qed

subsection \<open>Firmware\<close>

lemma firmware_args: "ascii ''console=ttyS0 earlycon''" "length ''console=ttyS0 earlycon'' = 22"
  by code_simp+

text \<open>
  For every firmware whose sections fit their memory, \<open>build_sbi_firmware\<close> succeeds: the
  instruction image holds the code sections, and the data image is the firmware's data with the
  device tree of this core, a memory of 32768 bytes and no ramdisk, over it from 0x4000 on.
\<close>

lemma firmware_carries_tree:
  assumes "describes tools vma raw [''.text.boot'', ''.text.payload'']" "describes_data tools ro da"
    "fit MEM_SIZE (code_parts vma raw [''.text.boot'', ''.text.payload''])" "fit MEM_SIZE [ro, da]"
  shows "\<exists>dtb. sbi_firmware_main (Some tools) =
      Inr (elf_write_mem (image_of 32768 (code_parts vma raw [''.text.boot'', ''.text.payload''])),
        elf_write_mem (image_of 32768 [ro, da, (0x4000, dtb)])) \<and>
    Dtb.slice (image_of 32768 [ro, da, (0x4000, dtb)]) 0x4000 (0x4000 + length dtb) = dtb \<and>
    read_events (struct_block dtb) (strings_block dtb) =
      Some (core_events 32768 1000000 1843200 ''console=ttyS0 earlycon'' None None)"
proof -
  obtain dtb info where d: "gen_dtb_main MEM_SIZE 1000000 1843200 ''console=ttyS0 earlycon'' None None = Inr (dtb, info)" "bytes dtb"
      "int (length dtb) \<le> 3082" "read_events (struct_block dtb) (strings_block dtb) =
        Some (core_events MEM_SIZE 1000000 1843200 ''console=ttyS0 earlycon'' None None)"
    using gen_dtb_ok [OF firmware_args(1), of MEM_SIZE 1000000 1843200 None None] unfolding firmware_args(2) by auto
  have p: "\<forall>part \<in> set ([ro, da] @ [(int DTB_ADDR, dtb)]). bytes (snd part) \<and> inside 32768 part"
    using assms(2,4) d(2,3) by (auto simp: describes_data_def fit_def inside_def DTB_ADDR_def MEM_SIZE_def)
  have dm: "bytes (image_of 32768 [ro, da])" using p by (intro bytes_image_of) auto
  have o: "overlay_dtb_into_dmem (elf_write_mem (image_of 32768 [ro, da])) dtb DTB_ADDR =
      Inr (elf_write_mem (image_of 32768 ([ro, da] @ [(int DTB_ADDR, dtb)])))"
    using overlay_image [OF dm d(2), of DTB_ADDR] overwrite_image [OF p] d(3)
    by (simp add: DTB_ADDR_def image_of_def)
  have e: "elf2mem_main tools MEM_SIZE MEM_SIZE ''.text.boot,.text.payload'' =
      Inr (elf_write_mem (image_of 32768 (code_parts vma raw [''.text.boot'', ''.text.payload''])), elf_write_mem (image_of 32768 [ro, da]))"
    using elf2mem_parts [of tools vma raw "''.text.boot,.text.payload''" ro da MEM_SIZE MEM_SIZE] assms
    unfolding code_names by (simp add: MEM_SIZE_def)
  have "Dtb.slice (image_of 32768 ([ro, da] @ [(int DTB_ADDR, dtb)])) 0x4000 (0x4000 + length dtb) = dtb"
    using slice_of_image [of "[ro, da]" "(int DTB_ADDR, dtb)" "[]" 32768] p by (simp add: DTB_ADDR_def)
  then show ?thesis using d e o by (auto simp: sbi_firmware_main_def compiled_def run_tool_def DTB_ADDR_def MEM_SIZE_def)
qed

end
