(* ===== verification/Py_Float.thy ===== *)
theory Py_Float
  imports Disasm "HOL-Library.Log_Nat"
begin

text \<open>
  Python's floating-point numbers as far as the reports use them: division of integers, products
  and quotients, each the exact value rounded once to a double, and the decimal output. A number is
  a sign and a magnitude, an exact rational, or an infinity; no operation of the reports gives a NaN.
\<close>

subsection \<open>Rounding\<close>

text \<open>To the nearest integer, ties to even.\<close>

definition round_even :: "rat \<Rightarrow> int" where
  "round_even x = (let f = \<lfloor>x\<rfloor>; d = x - of_int f in if d < 1 / 2 \<or> d = 1 / 2 \<and> even f then f else f + 1)"

definition rat_exponent :: "rat \<Rightarrow> int" where
  "rat_exponent x = (let (p, q) = quotient_of x; e = bitlen p - bitlen q in if x < 2 powi e then e - 1 else e)"

text \<open>The weight of the last place: 53 bits of precision, down to the smallest subnormal number.\<close>

definition unit_exponent :: "rat \<Rightarrow> int" where
  "unit_exponent x = max (rat_exponent x - 52) (- 1074)"

definition round_double :: "rat \<Rightarrow> rat" where
  "round_double x =
     (if x \<le> 0 then 0 else of_int (round_even (x / 2 powi unit_exponent x)) * 2 powi unit_exponent x)"

lemma round_even_le: "x \<le> of_int n \<Longrightarrow> round_even x \<le> n"
  unfolding round_even_def Let_def by (auto, linarith+)

lemma round_even_ge: "of_int n \<le> x \<Longrightarrow> n \<le> round_even x"
  unfolding round_even_def Let_def by (auto, linarith+)

lemma round_even_error: "\<bar>of_int (round_even x) - x\<bar> \<le> 1 / 2"
proof -
  have "of_int \<lfloor>x\<rfloor> \<le> x" "x < of_int \<lfloor>x\<rfloor> + 1" by linarith+
  then show ?thesis unfolding round_even_def Let_def abs_le_iff by (auto simp: not_less; linarith)
qed

text \<open>The exponent of the leading bit.\<close>

lemma powi_less: "(2::rat) powi a < 2 powi b \<Longrightarrow> a < b"
  using power_int_increasing [of b a "2::rat"] by (cases "a < b") auto

lemma rat_exponent_bounds:
  assumes "0 < x"
  shows "2 powi rat_exponent x \<le> x" "x < 2 powi (rat_exponent x + 1)"
proof -
  obtain p q where pq: "quotient_of x = (p, q)" by fastforce
  have q: "0 < q" "x = of_int p / of_int q" using quotient_of_denom_pos [OF pq] quotient_of_div [OF pq] by auto
  then have p: "0 < p" using assms by (simp add: zero_less_divide_iff)
  define e where "e = bitlen p - bitlen q"
  have bl: "1 \<le> bitlen p" "1 \<le> bitlen q" using p q(1) by (auto simp: bitlen_ge_iff_power)
  have w: "(2::rat) powi (bitlen v - 1) \<le> of_int v" "of_int v < (2::rat) powi bitlen v" if "0 < v" "1 \<le> bitlen v" for v
  proof -
    have "(of_int (2 ^ nat (bitlen v - 1)) :: rat) \<le> of_int v" "(of_int v :: rat) < of_int (2 ^ nat (bitlen v))"
      using bitlen_bounds [OF that(1)] by (simp_all only: of_int_le_iff of_int_less_iff)
    then show "(2::rat) powi (bitlen v - 1) \<le> of_int v" "of_int v < (2::rat) powi bitlen v"
      using that(2) by (simp_all add: power_int_def)
  qed
  have "x < 2 powi (e + 1)"
  proof -
    have "x < 2 powi bitlen p / 2 powi (bitlen q - 1)"
      unfolding q(2) using w [OF p bl(1)] w [OF q(1) bl(2)] q(1) p by (intro frac_less) simp_all
    then show ?thesis by (simp add: e_def power_int_diff power_int_add field_simps)
  qed
  moreover have "2 powi (e - 1) \<le> x"
  proof -
    have "2 powi (bitlen p - 1) / 2 powi bitlen q \<le> x"
      unfolding q(2) using w [OF p bl(1)] w [OF q(1) bl(2)] q(1) p by (intro frac_le) simp_all
    then show ?thesis by (simp add: e_def power_int_diff power_int_add field_simps)
  qed
  moreover have "rat_exponent x = (if x < 2 powi e then e - 1 else e)" by (simp add: rat_exponent_def pq e_def)
  ultimately show "2 powi rat_exponent x \<le> x" "x < 2 powi (rat_exponent x + 1)" by (auto simp: not_less)
qed

text \<open>The result is within half a unit of the last place, so within \<open>2 ^ (-53)\<close> relatively for normal numbers.\<close>

lemma round_double_error:
  assumes "0 < x"
  shows "\<bar>round_double x - x\<bar> \<le> 2 powi unit_exponent x / 2" "2 powi (- 1022) \<le> x \<Longrightarrow> \<bar>round_double x - x\<bar> \<le> x * 2 powi (- 53)"
proof -
  let ?u = "(2::rat) powi unit_exponent x"
  have u: "0 < ?u" by simp
  have "round_double x - x = (of_int (round_even (x / ?u)) - x / ?u) * ?u"
    using assms by (simp add: round_double_def left_diff_distrib)
  then have "\<bar>round_double x - x\<bar> = \<bar>of_int (round_even (x / ?u)) - x / ?u\<bar> * ?u" by (simp add: abs_mult)
  also have "\<dots> \<le> 1 / 2 * ?u" using round_even_error [of "x / ?u"] u by (intro mult_right_mono) simp_all
  finally show e: "\<bar>round_double x - x\<bar> \<le> ?u / 2" by simp
  assume n: "2 powi (- 1022) \<le> x"
  note b = rat_exponent_bounds [OF assms]
  have "(2::rat) powi (- 1022) < 2 powi (rat_exponent x + 1)" using n b(2) by (rule order_le_less_trans)
  then have "- 1022 < rat_exponent x + 1" by (rule powi_less)
  then have "unit_exponent x = rat_exponent x - 52" by (simp add: unit_exponent_def)
  then have "?u / 2 = 2 powi rat_exponent x * 2 powi (- 53)"
    by (simp add: power_int_diff power_int_minus divide_simps)
  also have "\<dots> \<le> x * 2 powi (- 53)" using b(1) by (intro mult_right_mono) simp_all
  finally show "\<bar>round_double x - x\<bar> \<le> x * 2 powi (- 53)" using e by simp
qed

lemma round_double_nonneg: "0 \<le> round_double x"
proof (cases "x \<le> 0")
  case False
  then have "0 \<le> x / 2 powi unit_exponent x" by simp
  then have "0 \<le> round_even (x / 2 powi unit_exponent x)" using round_even_ge [of 0] by simp
  then show ?thesis using False by (simp add: round_double_def)
qed (simp add: round_double_def)

lemma round_double_le:
  assumes "x \<le> of_int n" "0 \<le> n" "n < 2 ^ 53"
  shows "round_double x \<le> of_int n"
proof (cases "x \<le> 0")
  case False
  then have x: "0 < x" by simp
  have "(of_int n :: rat) < of_int (2 ^ 53)" using assms(3) by (simp only: of_int_less_iff)
  then have "(2::rat) powi rat_exponent x < 2 powi 53"
    using rat_exponent_bounds(1) [OF x] assms(1) by simp
  then have "rat_exponent x < 53" by (rule powi_less)
  then have u: "unit_exponent x \<le> 0" by (simp add: unit_exponent_def)
  let ?k = "nat (- unit_exponent x)"
  have p: "1 / (2::rat) powi unit_exponent x = 2 ^ ?k" using u by (simp add: power_int_def field_simps)
  have "x / 2 powi unit_exponent x \<le> of_int (n * 2 ^ ?k)"
    using mult_right_mono [OF assms(1), of "2 ^ ?k"] p by (simp add: divide_inverse)
  then have "round_even (x / 2 powi unit_exponent x) \<le> n * 2 ^ ?k" by (rule round_even_le)
  then have "(of_int (round_even (x / 2 powi unit_exponent x)) :: rat) \<le> of_int (n * 2 ^ ?k)" by (simp only: of_int_le_iff)
  then have "round_double x \<le> of_int (n * 2 ^ ?k) * 2 powi unit_exponent x" using x by (simp add: round_double_def)
  also have "\<dots> = of_int n" using p by (simp add: field_simps)
  finally show ?thesis .
qed (use assms(2) in \<open>simp add: round_double_def\<close>)

subsection \<open>Numbers\<close>

text \<open>\<open>Fl neg m\<close> is the number of magnitude \<open>m\<close> with the sign \<open>neg\<close>, \<open>-0.0\<close> included.\<close>

datatype py_float = Fl bool rat | Inf bool

fun float_value :: "py_float \<Rightarrow> rat option" where
  "float_value (Fl neg m) = Some (if neg then - m else m)"
| "float_value (Inf neg) = None"

definition mk_float :: "bool \<Rightarrow> rat \<Rightarrow> py_float" where
  "mk_float neg r = (if round_double r \<ge> 2 ^ 1024 then Inf neg else Fl neg (round_double r))"

lemma mk_float_small:
  assumes "round_double r \<le> 1"
  shows "mk_float neg r = Fl neg (round_double r)"
proof -
  have "(1::rat) < 2 ^ 1024" by (rule one_less_power) simp_all
  then have "round_double r < 2 ^ 1024" by (rule order_le_less_trans [OF assms])
  then show ?thesis by (simp only: mk_float_def not_le [symmetric] if_False)
qed

text \<open>\<open>a / b\<close> of integers, and \<open>float(a)\<close>: too large a result raises \<open>OverflowError\<close>.\<close>

definition int_truediv :: "int \<Rightarrow> int \<Rightarrow> py_float result" where
  "int_truediv a b =
     (if b = 0 then Inl ZeroDivisionError
      else case mk_float ((a < 0) \<noteq> (b < 0)) (of_int \<bar>a\<bar> / of_int \<bar>b\<bar>) of
             Inf _ \<Rightarrow> Inl OverflowError | x \<Rightarrow> Inr x)"

definition int_float :: "int \<Rightarrow> py_float result" where
  "int_float a = int_truediv a 1"

fun times_hundred :: "py_float \<Rightarrow> py_float" where
  "times_hundred (Fl neg m) = mk_float neg (100 * m)"
| "times_hundred (Inf neg) = Inf neg"

text \<open>\<open>1.0 - x\<close> and, for a number other than zero, \<open>1.0 / x\<close>.\<close>

fun one_minus :: "py_float \<Rightarrow> py_float" where
  "one_minus (Fl neg m) = (let v = (if neg then 1 + m else 1 - m) in mk_float (v < 0) \<bar>v\<bar>)"
| "one_minus (Inf neg) = Inf (\<not> neg)"

fun one_over :: "py_float \<Rightarrow> py_float" where
  "one_over (Fl neg m) = mk_float neg (1 / m)"
| "one_over (Inf neg) = Fl neg 0"

text \<open>\<open>x / y\<close> for a finite number \<open>y\<close> other than zero.\<close>

fun over_finite :: "py_float \<Rightarrow> bool \<Rightarrow> rat \<Rightarrow> py_float" where
  "over_finite (Fl neg m) neg' m' = mk_float (neg \<noteq> neg') (m / m')"
| "over_finite (Inf neg) neg' m' = Inf (neg \<noteq> neg')"

text \<open>\<open>bool(x)\<close>.\<close>

fun float_true :: "py_float \<Rightarrow> bool" where
  "float_true (Fl neg m) = (m \<noteq> 0)"
| "float_true (Inf neg) = True"

subsection \<open>Decimal output\<close>

text \<open>\<open>{x:.kf}\<close>, and \<open>{x:+.kf}\<close> with \<open>pl\<close>: the exact value rounded to \<open>k > 0\<close> decimals,
  ties to even.\<close>

definition sign_text :: "bool \<Rightarrow> bool \<Rightarrow> string" where
  "sign_text pl neg = (if neg then ''-'' else if pl then ''+'' else [])"

fun float_text :: "bool \<Rightarrow> nat \<Rightarrow> py_float \<Rightarrow> string" where
  "float_text pl k (Fl neg m) =
     (let n = round_even (m * 10 ^ k)
      in sign_text pl neg @ show_int (n div 10 ^ k) @ ''.'' @ zfill k (show_int (n mod 10 ^ k)))"
| "float_text pl k (Inf neg) = sign_text pl neg @ ''inf''"

text \<open>\<open>{s:<k}\<close>.\<close>

definition ljust :: "nat \<Rightarrow> string \<Rightarrow> string" where
  "ljust k s = s @ replicate (k - length s) (CHR '' '')"

end
