(* ===== verification/Profiler.thy ===== *)
theory Profiler
  imports Reports Random_Gen Py_Float
begin

text \<open>
  The profiler, \<open>profiler.py\<close>: the static instruction mix, the two instrumented programs of a
  kernel, what is read from their simulation, the ratios and the printed report. The simulator is a
  parameter.
\<close>

subsection \<open>Running a test bench\<close>

text \<open>
  What the simulator gives for a memory image and the text of a test bench: the bench does not
  compile, the simulation fails, or the output file.
\<close>

datatype sim_run = CompileError | SimulationError | Output string

definition replace_all :: "(string \<times> string) list \<Rightarrow> string \<Rightarrow> string" where
  "replace_all subst tpl = foldl (\<lambda>t (key, val). py_replace key val t) tpl subst"

subsection \<open>Tables\<close>

definition MCYCLE :: int where "MCYCLE = 0xB00"
definition MINSTRET :: int where "MINSTRET = 0xB02"
definition MHPMCOUNTER3_BASE :: int where "MHPMCOUNTER3_BASE = 0xB03"
definition MHPMEVENT3_BASE :: int where "MHPMEVENT3_BASE = 0x323"
definition NUM_HPM :: nat where "NUM_HPM = 9"

definition STALL_CAUSE_NAMES :: "string list" where
  "STALL_CAUSE_NAMES = [''hazard'', ''div'', ''mem'', ''fp'', ''float_lu'', ''itlb'', ''dtlb'', ''icache'', ''imem_wait'']"

definition ORIGINAL_EVENT_NAMES :: "string list" where
  "ORIGINAL_EVENT_NAMES = [''branches_retired'', ''mispredicts'', ''icache_hit'', ''icache_miss'', ''dcache_hit'',
     ''dcache_miss'', ''stall_aggregate'', ''interrupts'', ''exceptions'']"

definition MIX_BUCKETS :: "(string \<times> string list) list" where
  "MIX_BUCKETS =
     [(''branch'', [''beq'', ''bne'', ''blt'', ''bge'', ''ble'', ''bgt'']),
      (''jump'', [''jal'', ''jalr'']),
      (''load'', [''lw'', ''lh'', ''lb'', ''lhu'', ''lbu'', ''flw'']),
      (''store'', [''sw'', ''sh'', ''sb'', ''fsw'']),
      (''muldiv'', [''mul'', ''mulh'', ''mulhsu'', ''mulhu'', ''div'', ''divu'', ''rem'', ''remu'']),
      (''fp'', [''fadd.s'', ''fsub.s'', ''fmul.s'', ''fdiv.s'', ''fsqrt.s'', ''fmadd.s'', ''fmsub.s'',
         ''fnmadd.s'', ''fnmsub.s'', ''fcvt.w.s'', ''fcvt.wu.s'', ''fcvt.s.w'', ''fcvt.s.wu'',
         ''fmv.x.w'', ''fmv.w.x'', ''fclass.s'', ''feq.s'', ''flt.s'', ''fle.s'', ''fmin.s'', ''fmax.s'']),
      (''csr'', [''csrrw'', ''csrrs'', ''csrrc'', ''csrrwi'', ''csrrsi'', ''csrrci'']),
      (''system'', [''ecall'', ''ebreak'', ''mret'', ''sret'', ''sfence.vma'', ''fence'', ''nop''])]"

subsection \<open>The instruction mix\<close>

text \<open>A dictionary of counts in insertion order.\<close>

fun count_one :: "string \<Rightarrow> (string \<times> int) list \<Rightarrow> (string \<times> int) list" where
  "count_one b [] = [(b, 1)]"
| "count_one b ((k, n) # rest) = (if k = b then (k, n + 1) # rest else (k, n) # count_one b rest)"

definition mix_bucket :: "string \<Rightarrow> string" where
  "mix_bucket mn = (case find (\<lambda>(name, mns). mn \<in> set mns) MIX_BUCKETS of None \<Rightarrow> ''alu'' | Some (name, _) \<Rightarrow> name)"

fun mix_loop :: "string list \<Rightarrow> (string \<times> int) list \<Rightarrow> int \<Rightarrow> (string \<times> int) list \<times> int" where
  "mix_loop [] counts total_n = (counts, total_n)"
| "mix_loop (raw # rest) counts total_n =
     (let line = py_strip (takeWhile (\<lambda>c. c \<noteq> CHR ''#'') raw)
      in if line = [] \<or> last line = CHR '':'' then mix_loop rest counts total_n
         else mix_loop rest (count_one (mix_bucket (py_lower (hd (re_split line)))) counts) (total_n + 1))"

definition classify_mix :: "string list \<Rightarrow> (string \<times> int) list \<times> int" where
  "classify_mix kernel_lines = mix_loop kernel_lines [] 0"

subsection \<open>Instrumented programs\<close>

definition csrrs_line :: "int \<Rightarrow> int \<Rightarrow> string" where
  "csrrs_line rd csr_addr = ''csrrs x'' @ show_int rd @ '', '' @ hex_alt csr_addr @ '', x0''"

definition csrrwi_line :: "int \<Rightarrow> int \<Rightarrow> string" where
  "csrrwi_line csr_addr uimm = ''csrrwi x0, '' @ hex_alt csr_addr @ '', '' @ show_int uimm"

fun insert_loop :: "string list \<Rightarrow> string list \<Rightarrow> bool \<Rightarrow> string list \<times> bool" where
  "insert_loop new [] inserted = ([], inserted)"
| "insert_loop new (line # rest) inserted =
     (if \<not> inserted \<and> py_strip line = ''halt:''
      then (let (out, ins) = insert_loop new rest True in (new @ line # out, ins))
      else (let (out, ins) = insert_loop new rest inserted in (line # out, ins)))"

definition insert_before_halt :: "string list \<Rightarrow> string list \<Rightarrow> string list result" where
  "insert_before_halt lines new_lines =
     (let (out, inserted) = insert_loop new_lines lines False in if inserted then Inr out else Inl ValueError)"

definition epilogue_a :: "string list" where
  "epilogue_a = [csrrs_line 19 MCYCLE, csrrs_line 20 MINSTRET] @
     map (\<lambda>i. csrrs_line (21 + int i) (MHPMCOUNTER3_BASE + int i)) [0..<NUM_HPM]"

definition build_run_a :: "string list \<Rightarrow> string list result" where
  "build_run_a kernel_lines = insert_before_halt kernel_lines epilogue_a"

definition preamble_b :: "string list" where
  "preamble_b = map (\<lambda>i. csrrwi_line (MHPMEVENT3_BASE + int i) (10 + int i)) [0..<NUM_HPM] @
     map (\<lambda>i. ''csrrw x0, '' @ hex_alt (MHPMCOUNTER3_BASE + int i) @ '', x0'') [0..<NUM_HPM]"

definition epilogue_b :: "string list" where
  "epilogue_b = map (\<lambda>i. csrrs_line (19 + int i) (MHPMCOUNTER3_BASE + int i)) [0..<NUM_HPM]"

definition build_run_b :: "string list \<Rightarrow> string list result" where
  "build_run_b kernel_lines = rbind (insert_before_halt kernel_lines epilogue_b) (\<lambda>ls. Inr (preamble_b @ ls))"

subsection \<open>Simulation\<close>

definition profiler_max_time :: "int list \<Rightarrow> int" where
  "profiler_max_time words = (int (length words) * 80 + 2000) * 10"

definition profiler_bench :: "string \<Rightarrow> string \<Rightarrow> string \<Rightarrow> int list \<Rightarrow> int \<Rightarrow> string" where
  "profiler_bench tpl init_file out_path words msize =
     replace_all
       [(''__INIT_FILE__'', init_file), (''__MAX_TIME__'', show_int (profiler_max_time words)), (''__OUT_FILE__'', out_path),
        (''__MEM_SIZE__'', show_int msize), (''__HAZARD_STRATEGY__'', ''0''), (''__PIPELINE_PROFILE__'', ''0''),
        (''__BRANCH_PREDICTOR__'', ''0''), (''__CACHE_MODE__'', ''0''), (''__MEM_LATENCY_I__'', ''0''),
        (''__MEM_LATENCY_D__'', ''0''), (''__XLEN__'', ''32'')] tpl"

text \<open>The simulator sees the image and the bench; \<open>files\<close> gives the two paths of a tag.\<close>

record sim_env =
  simulate :: "string \<Rightarrow> string \<Rightarrow> sim_run"
  template :: string
  files :: "string \<Rightarrow> string \<times> string"

definition run_sim :: "sim_env \<Rightarrow> string list \<Rightarrow> string \<Rightarrow> int \<Rightarrow> (int \<times> int list) result" where
  "run_sim env lines tag msize =
     rbind (assemble lines 32) (\<lambda>words.
     rbind (write_mem words msize) (\<lambda>image_text.
       case simulate env image_text (profiler_bench (template env) (fst (files env tag)) (snd (files env tag)) words msize) of
         CompileError \<Rightarrow> Inl RuntimeError
       | SimulationError \<Rightarrow> Inl RuntimeError
       | Output out \<Rightarrow>
           rbind (file_ints out) (\<lambda>vals.
           rbind (py_index vals 0) (\<lambda>cycles. Inr (cycles, py_slice vals 1 33)))))"

record profile =
  p_name :: string
  cycles_a :: int
  cycles_b :: int
  mcycle :: int
  minstret :: int
  ipc :: py_float
  cpi :: "py_float option"
  branch_accuracy :: "py_float option"
  icache_hit_rate :: "py_float option"
  dcache_hit_rate :: "py_float option"
  stall_pct :: py_float
  original_events :: "(string \<times> int) list"
  stall_causes :: "(string \<times> int) list"
  stall_cause_sum :: int
  instruction_mix :: "(string \<times> int) list"
  instruction_mix_total :: int

fun name_regs :: "string list \<Rightarrow> int list \<Rightarrow> int \<Rightarrow> (string \<times> int) list result" where
  "name_regs [] rs i = Inr []"
| "name_regs (n # ns) rs i = rbind (py_index rs i) (\<lambda>v. rbind (name_regs ns rs (i + 1)) (\<lambda>m. Inr ((n, v) # m)))"

text \<open>\<open>a / b if b else None\<close> and \<open>a / b if b else 0.0\<close>.\<close>

definition rate_or_none :: "int \<Rightarrow> int \<Rightarrow> py_float option result" where
  "rate_or_none a b = (if b \<noteq> 0 then rbind (int_truediv a b) (\<lambda>x. Inr (Some x)) else Inr None)"

definition rate_or_zero :: "int \<Rightarrow> int \<Rightarrow> py_float result" where
  "rate_or_zero a b = (if b \<noteq> 0 then int_truediv a b else Inr (Fl False 0))"

definition hit_rate :: "(string \<times> int) list \<Rightarrow> string \<Rightarrow> string \<Rightarrow> py_float option result" where
  "hit_rate original hit miss =
     rbind (lookup original hit) (\<lambda>h. rbind (lookup original miss) (\<lambda>m. rate_or_none h (h + m)))"

definition profile_kernel :: "sim_env \<Rightarrow> string \<Rightarrow> string list \<Rightarrow> int \<Rightarrow> profile result" where
  "profile_kernel env name kernel_lines msize =
     (let (mix_counts, mix_total) = classify_mix kernel_lines in
      rbind (build_run_a kernel_lines) (\<lambda>lines_a.
      rbind (run_sim env lines_a (name @ ''_a'') msize) (\<lambda>(cyc_a, regs_a).
      rbind (py_index regs_a 19) (\<lambda>mc.
      rbind (py_index regs_a 20) (\<lambda>mi.
      rbind (name_regs ORIGINAL_EVENT_NAMES regs_a 21) (\<lambda>original.
      rbind (build_run_b kernel_lines) (\<lambda>lines_b.
      rbind (run_sim env lines_b (name @ ''_b'') msize) (\<lambda>(cyc_b, regs_b).
      rbind (name_regs STALL_CAUSE_NAMES regs_b 19) (\<lambda>causes.
      rbind (rate_or_zero mi mc) (\<lambda>ipc_v.
      rbind (lookup original ''branches_retired'') (\<lambda>branches.
      rbind (lookup original ''mispredicts'') (\<lambda>mispredicts.
      rbind (rate_or_none mispredicts branches) (\<lambda>missed.
      rbind (hit_rate original ''icache_hit'' ''icache_miss'') (\<lambda>i_rate.
      rbind (hit_rate original ''dcache_hit'' ''dcache_miss'') (\<lambda>d_rate.
      rbind (lookup original ''stall_aggregate'') (\<lambda>stalls.
      rbind (rate_or_zero stalls mc) (\<lambda>stall_v.
        Inr \<lparr>p_name = name, cycles_a = cyc_a, cycles_b = cyc_b, mcycle = mc, minstret = mi, ipc = ipc_v,
             cpi = (if float_true ipc_v then Some (one_over ipc_v) else None), branch_accuracy = map_option one_minus missed,
             icache_hit_rate = i_rate, dcache_hit_rate = d_rate, stall_pct = stall_v,
             original_events = original, stall_causes = causes, stall_cause_sum = sum_list (map snd causes),
             instruction_mix = mix_counts, instruction_mix_total = mix_total\<rparr>)))))))))))))))))"

definition profiler_mem_size :: "string \<Rightarrow> int" where
  "profiler_mem_size name = (if name = ''bench_bubble_sort'' then 1024 else 256)"

text \<open>The loop of \<open>main\<close>: a kernel whose simulation fails is reported and left out.\<close>

fun profile_all :: "sim_env \<Rightarrow> (string \<times> string list) list \<Rightarrow> profile list result" where
  "profile_all env [] = Inr []"
| "profile_all env ((name, lines) # rest) =
     (case profile_kernel env name lines (profiler_mem_size name) of
        Inr p \<Rightarrow> rbind (profile_all env rest) (\<lambda>ps. Inr (p # ps))
      | Inl e \<Rightarrow> if e = RuntimeError then profile_all env rest else Inl e)"

subsection \<open>The report\<close>

definition fmt_pct :: "py_float option \<Rightarrow> string" where
  "fmt_pct x = (case x of None \<Rightarrow> ''n/a'' | Some v \<Rightarrow> float_text False 1 (times_hundred v) @ ''%'')"

text \<open>A line per counter, with its share of \<open>agg\<close>; the names are padded to ten columns, the counts to \<open>w\<close>.\<close>

fun share_lines :: "nat \<Rightarrow> int \<Rightarrow> (string \<times> int) list \<Rightarrow> string list result" where
  "share_lines w agg [] = Inr []"
| "share_lines w agg ((name, count) # rest) =
     rbind (int_truediv count agg) (\<lambda>x.
     rbind (share_lines w agg rest) (\<lambda>ls.
       Inr ((''    '' @ ljust 10 name @ '' '' @ ljust w (show_int count) @ '' ('' @ fmt_pct (Some x) @ '')'') # ls)))"

definition cycles_line :: "profile \<Rightarrow> string" where
  "cycles_line r =
     (case cpi r of
        Some c \<Rightarrow>
          (if float_true c
           then ''  cycles='' @ ljust 8 (show_int (mcycle r)) @ '' instructions(minstret)='' @ ljust 8 (show_int (minstret r)) @
             '' IPC='' @ float_text False 3 (ipc r) @ ''  CPI='' @ float_text False 3 c
           else ''  cycles='' @ show_int (mcycle r))
      | None \<Rightarrow> ''  cycles='' @ show_int (mcycle r))"

definition report_kernel :: "profile \<Rightarrow> string list result" where
  "report_kernel r =
     rbind (lookup (original_events r) ''stall_aggregate'') (\<lambda>stalls.
     rbind (share_lines 6 (if stalls \<noteq> 0 then stalls else 1) (stall_causes r)) (\<lambda>causes.
     rbind (share_lines 4 (instruction_mix_total r) (sort_key (\<lambda>kv. - snd kv) (instruction_mix r))) (\<lambda>mix.
       Inr ([''=== '' @ p_name r @ '' ==='', cycles_line r,
             ''  branch accuracy: '' @ fmt_pct (branch_accuracy r) @ ''  I$ hit rate: '' @ fmt_pct (icache_hit_rate r) @
               ''  D$ hit rate: '' @ fmt_pct (dcache_hit_rate r),
             ''  stall cycles: '' @ fmt_pct (Some (stall_pct r)) @ '' of total ('' @ show_int stalls @ '' cycles)'',
             ''  stall breakdown (per-cause / aggregate):''] @ causes @
            [''  instruction mix (static, '' @ show_int (instruction_mix_total r) @ '' instructions):''] @ mix @ [[]]))))"

fun print_report :: "profile list \<Rightarrow> string list result" where
  "print_report [] = Inr []"
| "print_report (r # rs) = rbind (report_kernel r) (\<lambda>ls. rbind (print_report rs) (\<lambda>ls'. Inr (ls @ ls')))"

text \<open>
  \<open>main\<close>: the report and the exit status; a kernel that failed makes the status 1. The line printed
  for such a kernel carries the simulator's message and is left out.
\<close>

definition profiler_main :: "sim_env \<Rightarrow> string \<Rightarrow> (string \<times> string list) list \<Rightarrow> (string list \<times> int) result" where
  "profiler_main env programs_dir progs =
     (if progs = [] then Inr ([''No bench_*.s programs found under '' @ programs_dir], 1)
      else
        rbind (profile_all env progs) (\<lambda>results.
        rbind (print_report results) (\<lambda>ls. Inr (ls, if length results \<noteq> length progs then 1 else 0))))"

end
