(* ===== verification/Asm_Modules.thy ===== *)
theory Asm_Modules
  imports Asm_Sem Asm_Image
begin

text \<open>
  Assembling a concatenation: labels are resolved relative to the statement, so a text that
  assembles on its own gives the same words wherever it is put, as long as the labels of the other
  texts are neither its own nor numerals.
\<close>

subsection \<open>Moving a statement\<close>

text \<open>\<open>r'\<close> succeeds at least where \<open>r\<close> does, with the same value.\<close>

definition kept :: "'a result \<Rightarrow> 'a result \<Rightarrow> bool" where
  "kept r r' \<longleftrightarrow> (\<forall>v. r = Inr v \<longrightarrow> r' = Inr v)"

definition kept_option :: "'a result option \<Rightarrow> 'a result option \<Rightarrow> bool" where
  "kept_option = rel_option kept"

lemma kept_refl: "kept r r"
  by (simp add: kept_def)

lemma kept_rbind: "kept r r' \<Longrightarrow> (\<And>x. kept (f x) (f' x)) \<Longrightarrow> kept (rbind r f) (rbind r' f')"
  by (cases r) (auto simp: kept_def)

lemma kept_option_refl: "kept_option r r"
  by (cases r) (simp_all add: kept_option_def kept_refl)

lemma kept_option_Some: "kept r r' \<Longrightarrow> kept_option (Some r) (Some r')"
  by (simp add: kept_option_def)

lemma kept_option_if:
  "(c \<Longrightarrow> kept_option x x') \<Longrightarrow> (\<not> c \<Longrightarrow> kept_option y y') \<Longrightarrow> kept_option (if c then x else y) (if c then x' else y')"
  by simp

lemma kept_int:
  assumes "\<And>tok. kept (resolve ls tok a) (resolve ls' tok a')"
  shows "kept_option (assemble_int ls xl a mn args) (assemble_int ls' xl a' mn args)"
  unfolding assemble_int_def
  by (rule kept_option_refl kept_option_if kept_option_Some kept_refl kept_rbind assms)+

text \<open>A statement that assembles does so wherever every operand that resolves still resolves to the same offset.\<close>

lemma assemble_stmt_moves:
  assumes "assemble_stmt ls xl (a, line) = Inr w" "\<And>tok. kept (resolve ls tok a) (resolve ls' tok a')"
  shows "assemble_stmt ls' xl (a', line) = Inr w"
  using assms(1) kept_int [OF assms(2), of xl "py_lower (hd (re_split (py_strip line)))" "tl (re_split (py_strip line))"]
  by (auto simp: assemble_stmt_def Let_def kept_option_def kept_def split: option.splits)

subsection \<open>Concatenation\<close>

text \<open>The labels a text defines; none of them is a numeral.\<close>

definition label_names :: "string list \<Rightarrow> string list" where
  "label_names lines =
     map (\<lambda>raw. py_strip (butlast (clean_line raw))) (filter (\<lambda>raw. clean_line raw \<noteq> [] \<and> \<not> is_stmt raw) lines)"

definition named_labels :: "string list \<Rightarrow> bool" where
  "named_labels lines \<longleftrightarrow> list_all (\<lambda>l. isl (py_int0 l)) (label_names lines)"

lemma label_names_Cons: "l \<in> set (label_names (raw # lines)) \<longleftrightarrow> defines_label raw l \<or> l \<in> set (label_names lines)"
  by (auto simp: label_names_def is_stmt_def defines_label_def)

lemma label_address_None: "label_address lines a l = None \<longleftrightarrow> l \<notin> set (label_names lines)"
proof (induction lines arbitrary: a)
  case (Cons raw lines)
  show ?case using Cons.IH [of a] Cons.IH [of "a + 4"] unfolding label_names_Cons by (auto split: option.split)
qed (simp add: label_names_def)

lemma label_names_dom: "labels_of lines l \<noteq> None \<longleftrightarrow> l \<in> set (label_names lines)"
  by (simp add: label_address_None)

lemma named_label: "named_labels lines \<Longrightarrow> labels_of lines l = Some b \<Longrightarrow> isl (py_int0 l)"
  using label_names_dom [of lines l] by (auto simp: named_labels_def list_all_iff)

lemma label_address_shift: "label_address lines (a + d) l = map_option (\<lambda>b. b + d) (label_address lines a l)"
proof (induction lines arbitrary: a)
  case (Cons raw lines)
  show ?case using Cons.IH [of a] Cons.IH [of "a + 4"] by (auto simp: algebra_simps split: option.splits)
qed simp

lemma kept_resolve:
  assumes "\<And>l b. ls l = Some b \<Longrightarrow> ls' l = Some (b + d)" "\<And>l c. ls l = None \<Longrightarrow> ls' l = Some c \<Longrightarrow> isl (py_int0 l)"
  shows "kept (resolve ls tok a) (resolve ls' tok (a + d))"
  using assms(1) [of "py_strip tok"] assms(2) [of "py_strip tok"]
  by (cases "ls (py_strip tok)"; cases "ls' (py_strip tok)") (fastforce simp: resolve_def kept_def)+

lemma assemble_append:
  assumes "assemble xs xl = Inr us" "assemble ys xl = Inr vs" "set (label_names xs) \<inter> set (label_names ys) = {}"
    "named_labels xs" "named_labels ys"
  shows "assemble (xs @ ys) xl = Inr (us @ vs)"
proof -
  let ?d = "4 * int (length (filter is_stmt xs))"
  have ls: "labels_of (xs @ ys) l = (case labels_of ys l of Some b \<Rightarrow> Some (b + ?d) | None \<Rightarrow> labels_of xs l)" for l
    using label_address_append [of xs ys 0 l] label_address_shift [of ys 0 ?d l] by (cases "labels_of ys l") simp_all
  have u: "length us = length (filter is_stmt xs)"
    "\<And>i. i < length us \<Longrightarrow> assemble_stmt (labels_of xs) xl (4 * int i, clean_line (filter is_stmt xs ! i)) = Inr (us ! i)"
    using assms(1) unfolding assemble_words by auto
  have v: "length vs = length (filter is_stmt ys)"
    "\<And>i. i < length vs \<Longrightarrow> assemble_stmt (labels_of ys) xl (4 * int i, clean_line (filter is_stmt ys ! i)) = Inr (vs ! i)"
    using assms(2) unfolding assemble_words by auto
  have kx: "kept (resolve (labels_of xs) tok a) (resolve (labels_of (xs @ ys)) tok (a + 0))" for tok a
  proof (rule kept_resolve)
    show "labels_of (xs @ ys) l = Some (b + 0)" if "labels_of xs l = Some b" for l b
      using that assms(3) label_names_dom [of xs l] label_names_dom [of ys l] by (auto simp: ls split: option.split)
    show "isl (py_int0 l)" if "labels_of xs l = None" "labels_of (xs @ ys) l = Some c" for l c
      using that named_label [OF assms(5)] by (auto simp: ls split: option.splits)
  qed
  have ky: "kept (resolve (labels_of ys) tok a) (resolve (labels_of (xs @ ys)) tok (a + ?d))" for tok a
    using named_label [OF assms(4)] by (intro kept_resolve) (auto simp: ls)
  have "assemble_stmt (labels_of (xs @ ys)) xl (4 * int i, clean_line (filter is_stmt (xs @ ys) ! i)) = Inr ((us @ vs) ! i)"
    if i: "i < length (us @ vs)" for i
  proof (cases "i < length us")
    case True
    then show ?thesis using assemble_stmt_moves [OF u(2) [OF True] kx] u(1) by (simp add: nth_append)
  next
    case False
    define j where "j = i - length us"
    have j: "j < length vs" "i = length us + j" using i False by (auto simp: j_def)
    from assemble_stmt_moves [OF v(2) [OF j(1)] ky]
    show ?thesis using u(1) j(2) by (simp add: nth_append algebra_simps)
  qed
  then show ?thesis unfolding assemble_words using u(1) v(1) by simp
qed

end
