(* ===== verification/Profiler_Props.thy ===== *)
theory Profiler_Props
  imports Profiler Asm_Modules Random_Const
begin

text \<open>
  The profiler's programs: the instrumented text is the kernel with counter reads before its halt
  loop, it assembles to the kernel's own words with the instrumentation around them, and the
  instruction mix counts every word of the kernel once.
\<close>

subsection \<open>Insertion\<close>

lemma insert_loop_done: "insert_loop new lines True = (lines, True)"
  by (induction lines) simp_all

lemma insert_loop_halt:
  "list_all (\<lambda>l. py_strip l \<noteq> ''halt:'') body \<Longrightarrow> py_strip halt = ''halt:'' \<Longrightarrow>
     insert_loop new (body @ halt # tail) False = (body @ new @ halt # tail, True)"
  by (induction body) (simp_all add: insert_loop_done)

lemma insert_loop_none: "list_all (\<lambda>l. py_strip l \<noteq> ''halt:'') lines \<Longrightarrow> insert_loop new lines False = (lines, False)"
  by (induction lines) simp_all

lemma insert_before_halt_exact:
  "insert_before_halt lines new = Inl ValueError \<longleftrightarrow> list_all (\<lambda>l. py_strip l \<noteq> ''halt:'') lines"
proof (cases "list_all (\<lambda>l. py_strip l \<noteq> ''halt:'') lines")
  case False
  then obtain halt where "halt \<in> set lines" "py_strip halt = ''halt:''" by (auto simp: list_all_iff)
  then obtain body h tail where "lines = body @ h # tail" "py_strip h = ''halt:''" "\<forall>l \<in> set body. py_strip l \<noteq> ''halt:''"
    using split_list_first_prop [of lines "\<lambda>l. py_strip l = ''halt:''"] by blast
  then show ?thesis using False insert_loop_halt [of body h new tail] by (simp add: insert_before_halt_def list_all_iff)
qed (simp add: insert_before_halt_def insert_loop_none)

text \<open>The instrumentation as words: reading a counter into a register, programming an event, clearing a counter.\<close>

definition read_counter :: "int \<Rightarrow> int \<Rightarrow> int" where
  "read_counter rd c = push_bit 20 c OR push_bit 12 2 OR push_bit 7 rd OR 0x73"

definition set_event :: "int \<Rightarrow> int \<Rightarrow> int" where
  "set_event c v = push_bit 20 c OR push_bit 15 v OR push_bit 12 5 OR 0x73"

definition clear_counter :: "int \<Rightarrow> int" where
  "clear_counter c = push_bit 20 c OR push_bit 12 1 OR 0x73"

definition reads_a :: "int list" where
  "reads_a = [read_counter 19 0xB00, read_counter 20 0xB02] @ map (\<lambda>i. read_counter (21 + int i) (0xB03 + int i)) [0..<9]"

definition events_b :: "int list" where
  "events_b = map (\<lambda>i. set_event (0x323 + int i) (10 + int i)) [0..<9] @ map (\<lambda>i. clear_counter (0xB03 + int i)) [0..<9]"

definition reads_b :: "int list" where
  "reads_b = map (\<lambda>i. read_counter (19 + int i) (0xB03 + int i)) [0..<9]"

lemma hex_operand:
  assumes "0 \<le> c" "c < 4096"
  shows "plain (hex_alt c)" "csr_lookup (hex_alt c) = Inr c"
proof -
  have h: "hex_alt c = ''0x'' @ show_base 16 c" using assms by (simp add: hex_alt_def)
  show "plain (hex_alt c)" using hex_token(1) [of c] assms by (simp add: h show_hex_def)
  have "map_of CSR_ADDR (hex_alt c) = None" by (simp add: h CSR_ADDR_def)
  then show "csr_lookup (hex_alt c) = Inr c" using read_hex(1) [of c 0] assms by (simp add: csr_lookup_def h)
qed

lemma show_zero: "show_int 0 = ''0''"
  by code_simp

lemma csr_lines:
  "csrrs_line rd c = stmt ''csrrs'' [xr rd, hex_alt c, xr 0]"
  "csrrwi_line c u = stmt ''csrrwi'' [xr 0, hex_alt c, show_int u]"
  "''csrrw x0, '' @ hex_alt c @ '', x0'' = stmt ''csrrw'' [xr 0, hex_alt c, xr 0]"
  by (simp_all add: csrrs_line_def csrrwi_line_def stmt_def xr_def show_zero)

lemma csr_codes:
  assumes "0 \<le> c" "c < 4096"
  shows "fits rd 5 \<Longrightarrow> codes 32 (csrrs_line rd c) (read_counter rd c)"
    "fits u 5 \<Longrightarrow> codes 32 (csrrwi_line c u) (set_event c u)"
    "codes 32 (''csrrw x0, '' @ hex_alt c @ '', x0'') (clear_counter c)"
proof -
  have z: "fits 0 5" by (simp add: fits_def)
  have u: "asm_u c 12 = c" using assms by (simp add: asm_u_def bit_norm)
  have k: "codes 32 (stmt mn ops) w" if "good_name mn" "ops \<noteq> []" "list_all plain ops" "\<And>ls a. assemble_op ls 32 a mn ops = Inr w" for mn ops w
    using stmt_clean(3) [OF _ that(2,3), of mn] assemble_stmt_op [OF that(1-3)] that(1,4) by (simp add: codes_def good_name_def)
  have g: "good_name ''csrrs''" "good_name ''csrrwi''" "good_name ''csrrw''" by (rule key_good [OF key_members(1) good_names(8)] key_good [OF key_members(2) good_names(8)]; simp)+
  have l: "lookup CSR_OP ''csrrs'' = Inr 2" "lookup CSR_OP ''csrrwi'' = Inr 5" "lookup CSR_OP ''csrrw'' = Inr 1" by code_simp+
  note h = hex_operand [OF assms]
  show "codes 32 (csrrs_line rd c) (read_counter rd c)" if "fits rd 5"
    unfolding csr_lines using that z h l u
    by (intro k g) (simp_all add: tokens assemble_op_def dispatch_csr regs_arg arg_def csr_reg_def read_counter_def)
  show "codes 32 (''csrrw x0, '' @ hex_alt c @ '', x0'') (clear_counter c)"
    unfolding csr_lines using z h l u
    by (intro k g) (simp_all add: tokens assemble_op_def dispatch_csr regs_arg arg_def csr_reg_def clear_counter_def)
  show "codes 32 (csrrwi_line c u) (set_event c u)" if "fits u 5"
  proof -
    have "asm_imm (Tok (show_int u)) 5 False = Inr u" using that by (simp add: asm_imm_unsigned operand_show fits_def)
    then show ?thesis unfolding csr_lines using z h l u
      by (intro k g) (simp_all add: tokens assemble_op_def dispatch_csr regs_arg arg_def csr_imm_def set_event_def)
  qed
qed

lemma codes_unlabelled: "list_all2 (codes xl) lines ws \<Longrightarrow> label_names lines = []"
  by (induction rule: list_all2_induct) (auto simp: label_names_def codes_def)

lemma instrumentation_codes:
  "list_all2 (codes 32) epilogue_a reads_a" "list_all2 (codes 32) preamble_b events_b" "list_all2 (codes 32) epilogue_b reads_b"
  unfolding epilogue_a_def reads_a_def preamble_b_def events_b_def epilogue_b_def reads_b_def
    MCYCLE_def MINSTRET_def MHPMCOUNTER3_BASE_def MHPMEVENT3_BASE_def NUM_HPM_def
  by (auto simp: list_all2_map1 list_all2_map2 list_all2_same fits_def intro!: list_all2_appendI csr_codes csr_codes(3) [simplified])

lemmas instrumentation_words = instrumentation_codes [THEN codes_assemble] instrumentation_codes [THEN codes_unlabelled]

lemma named_unlabelled: "label_names lines = [] \<Longrightarrow> named_labels lines"
  by (simp add: named_labels_def)

lemma label_names_append: "label_names (xs @ ys) = label_names xs @ label_names ys"
  by (simp add: label_names_def)

lemma named_append: "named_labels (xs @ ys) \<longleftrightarrow> named_labels xs \<and> named_labels ys"
  by (simp add: named_labels_def label_names_append)

lemma assemble_before:
  assumes "assemble xs xl = Inr us" "assemble ys xl = Inr vs" "label_names xs = []" "named_labels ys"
  shows "assemble (xs @ ys) xl = Inr (us @ vs)"
  using assemble_append [OF assms(1,2)] assms(3,4) by (simp add: named_unlabelled)

text \<open>
  C23. Let a kernel consist of a body and a tail that starts with its \<open>halt:\<close> line, each of which
  assembles on its own, with distinct labels that are not numerals. Both instrumented programs
  exist and assemble, and the kernel's words are unchanged in them: the first program reads
  \<open>mcycle\<close>, \<open>minstret\<close> and the nine event counters into \<open>x19\<close> to \<open>x29\<close> between the body and the halt
  loop; the second programs and clears the nine counters before the body and reads them into \<open>x19\<close>
  to \<open>x27\<close>.
\<close>

theorem instrumentation_keeps_kernel:
  assumes kern: "list_all (\<lambda>l. py_strip l \<noteq> ''halt:'') body" "py_strip halt = ''halt:''"
    and words: "assemble body 32 = Inr ws" "assemble (halt # tail) 32 = Inr vs"
    and labels: "set (label_names body) \<inter> set (label_names (halt # tail)) = {}" "named_labels body" "named_labels (halt # tail)"
  shows "assemble (body @ halt # tail) 32 = Inr (ws @ vs) \<and>
    (\<exists>a b. build_run_a (body @ halt # tail) = Inr a \<and> assemble a 32 = Inr (ws @ reads_a @ vs) \<and>
      build_run_b (body @ halt # tail) = Inr b \<and> assemble b 32 = Inr (events_b @ ws @ reads_b @ vs))"
proof -
  have ins: "insert_before_halt (body @ halt # tail) new = Inr (body @ new @ halt # tail)" for new
    using insert_loop_halt [OF kern] by (simp add: insert_before_halt_def)
  have mid: "assemble (body @ new @ halt # tail) 32 = Inr (ws @ ns @ vs)"
    if "assemble new 32 = Inr ns" "label_names new = []" for new ns
    using assemble_append [OF words(1) assemble_before [OF that(1) words(2) that(2) labels(3)]] labels that(2)
    by (simp add: label_names_append named_append named_unlabelled)
  have "assemble (preamble_b @ body @ epilogue_b @ halt # tail) 32 = Inr (events_b @ ws @ reads_b @ vs)"
    using labels by (intro assemble_before mid instrumentation_words)
      (simp add: named_append named_unlabelled instrumentation_words)
  then show ?thesis
    using assemble_append [OF words labels] mid [OF instrumentation_words(1,4)]
    by (simp add: build_run_a_def build_run_b_def ins)
qed

text \<open>The Fibonacci kernel of the repository, without its leading comments.\<close>

definition fib_body :: "string list" where
  "fib_body = [''addi x1, x0, 0       # a = fib(0)'', ''addi x2, x0, 1       # b = fib(1)'', ''addi x3, x0, 30      # iteration counter'',
     '''', ''loop:'', ''add  x4, x1, x2      # tmp = a + b'', ''add  x1, x0, x2      # a = b'', ''add  x2, x0, x4      # b = tmp'',
     ''addi x3, x3, -1'', ''bne  x3, x0, loop'', '''', ''add x10, x1, x0      # result'', '''', ''fence'']"

definition fib_tail :: "string list" where
  "fib_tail = [''jal x0, halt   # spin here forever'']"

definition fib_words :: "int list" where
  "fib_words = [0x93, 0x00100113, 0x01E00193, 0x00208233, 0x002000B3, 0x00400133, 0xFFF18193, 0xFE0198E3, 0x00008533, 0x0FF0000F]"

lemma fib_assembles: "assemble fib_body 32 = Inr fib_words"
  by code_simp

lemma fib_facts:
  "list_all (\<lambda>l. py_strip l \<noteq> ''halt:'') fib_body" "py_strip ''halt:'' = ''halt:''" "assemble (''halt:'' # fib_tail) 32 = Inr [0x6F]"
  "set (label_names fib_body) \<inter> set (label_names (''halt:'' # fib_tail)) = {}" "named_labels fib_body" "named_labels (''halt:'' # fib_tail)"
  by code_simp+

lemma fib_kernel: "assemble (fib_body @ ''halt:'' # fib_tail) 32 = Inr (fib_words @ [0x6F])"
  by (rule assemble_append [OF fib_assembles fib_facts(3-6)])

theorem instrumentation_keeps_kernel_witness:
  "assemble (fib_body @ ''halt:'' # fib_tail) 32 = Inr (fib_words @ [0x6F]) \<and>
    (\<exists>a b. build_run_a (fib_body @ ''halt:'' # fib_tail) = Inr a \<and> assemble a 32 = Inr (fib_words @ reads_a @ [0x6F]) \<and>
      build_run_b (fib_body @ ''halt:'' # fib_tail) = Inr b \<and> assemble b 32 = Inr (events_b @ fib_words @ reads_b @ [0x6F]))"
  by (rule instrumentation_keeps_kernel [OF fib_facts(1,2) fib_assembles fib_facts(3-6)])

subsection \<open>The instruction mix\<close>

lemma py_strip_idem: "py_strip (py_strip s) = py_strip s"
proof (cases "py_strip s = []")
  case False
  let ?u = "dropWhile py_space s" and ?t = "py_strip s"
  have t: "?t = rev (dropWhile py_space (rev ?u))" by (simp add: py_strip_def)
  have "rev (rev ?u) = rev (dropWhile py_space (rev ?u)) @ rev (takeWhile py_space (rev ?u))"
    by (metis rev_append takeWhile_dropWhile_id)
  then have u: "?u = ?t @ rev (takeWhile py_space (rev ?u))" by (simp add: t)
  then have "hd ?u = hd ?t" "?u \<noteq> []" using False by (metis hd_append2) (metis u False append_is_Nil_conv)
  then have h: "\<not> py_space (hd ?t)" by (metis hd_dropWhile)
  have "dropWhile py_space (rev ?u) \<noteq> []" using False t by auto
  then have "\<not> py_space (hd (rev ?t))" unfolding t rev_rev_ident by (rule hd_dropWhile)
  then show ?thesis using dropWhile_hd [of ?t py_space] dropWhile_hd [of "rev ?t" py_space] h False
    by (simp add: py_strip_def [of ?t])
next
  case True
  show ?thesis unfolding True by (simp add: py_strip_def)
qed

definition mix_at :: "(string \<times> int) list \<Rightarrow> string \<Rightarrow> int" where
  "mix_at counts b = (case map_of counts b of None \<Rightarrow> 0 | Some n \<Rightarrow> n)"

lemma count_one_facts:
  "(\<Sum>c\<leftarrow>count_one b counts. snd c) = (\<Sum>c\<leftarrow>counts. snd c) + 1"
  "mix_at (count_one b counts) k = mix_at counts k + (if k = b then 1 else 0)"
  by (induction counts) (auto simp: mix_at_def)

lemma mix_loop_counts:
  assumes "mix_loop lines counts n = (c, t)"
  shows "t = n + int (length (filter is_stmt lines)) \<and>
    (\<Sum>e\<leftarrow>c. snd e) = (\<Sum>e\<leftarrow>counts. snd e) + int (length (filter is_stmt lines)) \<and>
    mix_at c b = mix_at counts b +
      int (length (filter (\<lambda>raw. mix_bucket (py_lower (hd (re_split (clean_line raw)))) = b) (filter is_stmt lines)))"
  using assms
proof (induction lines arbitrary: counts n)
  case (Cons raw lines)
  let ?b = "mix_bucket (py_lower (hd (re_split (clean_line raw))))"
  have s: "is_stmt raw \<Longrightarrow> mix_loop lines (count_one ?b counts) (n + 1) = (c, t)" "\<not> is_stmt raw \<Longrightarrow> mix_loop lines counts n = (c, t)"
    using Cons.prems by (auto simp: is_stmt_def Let_def clean_line_def split: if_splits)
  show ?case
  proof (cases "is_stmt raw")
    case True
    from Cons.IH [OF s(1) [OF True]] True show ?thesis by (simp add: count_one_facts)
  next
    case False
    from Cons.IH [OF s(2) [OF False]] False show ?thesis by simp
  qed
qed simp

text \<open>
  For every kernel that assembles, the total of the instruction mix is the number of its words
  and the buckets add up to it; each bucket counts the statements whose mnemonic it lists, and
  \<open>alu\<close> those that no bucket lists. The unsigned branches, the doubleword loads and stores, the
  word-sized multiplications and divisions and the sign injections are among the latter.
\<close>

lemma mix_counts_every_word:
  assumes "assemble lines xl = Inr ws" "classify_mix lines = (counts, total_n)"
  shows "total_n = int (length ws) \<and> (\<Sum>c\<leftarrow>counts. snd c) = total_n \<and>
    (\<forall>b. mix_at counts b = int (length (filter (\<lambda>raw. mix_bucket (mnemonic (clean_line raw)) = b) (filter is_stmt lines)))) \<and>
    list_all (\<lambda>mn. mix_bucket mn = ''alu'')
      [''bltu'', ''bgeu'', ''ld'', ''lwu'', ''sd'', ''mulw'', ''divw'', ''divuw'', ''remw'', ''remuw'', ''fsgnj.s'', ''fsgnjn.s'', ''fsgnjx.s'']"
proof -
  have l: "length ws = length (filter is_stmt lines)" using assms(1) unfolding assemble_words by simp
  have m: "mnemonic (clean_line raw) = py_lower (hd (re_split (clean_line raw)))" for raw
    by (simp add: mnemonic_def clean_line_def py_strip_idem)
  have "list_all (\<lambda>mn. mix_bucket mn = ''alu'')
      [''bltu'', ''bgeu'', ''ld'', ''lwu'', ''sd'', ''mulw'', ''divw'', ''divuw'', ''remw'', ''remuw'', ''fsgnj.s'', ''fsgnjn.s'', ''fsgnjx.s'']"
    by code_simp
  then show ?thesis using mix_loop_counts [of lines "[]" 0 counts total_n] assms(2) l
    by (simp add: classify_mix_def m) (simp add: mix_at_def)
qed

subsection \<open>The ratios\<close>

text \<open>A part of a whole that is not negative: a number between 0 and 1, correctly rounded.\<close>

lemma part_of_whole:
  assumes "0 \<le> a" "a \<le> b" "0 < b"
  shows "\<exists>r. int_truediv a b = Inr (Fl False r) \<and> 0 \<le> r \<and> r \<le> 1 \<and> r = round_double (of_int a / of_int b)"
proof -
  let ?r = "round_double (of_int a / of_int b)"
  have "(of_int a / of_int b :: rat) \<le> of_int 1" using assms by (simp add: divide_le_eq)
  then have u: "?r \<le> 1" using round_double_le [of _ 1] by simp
  then have "mk_float False (of_int a / of_int b) = Fl False ?r" by (rule mk_float_small)
  then show ?thesis using assms u round_double_nonneg by (auto simp: int_truediv_def)
qed

text \<open>\<open>1.0 - x\<close> of such a number is one, too.\<close>

lemma rest_of_whole:
  assumes "0 \<le> r" "r \<le> 1"
  shows "\<exists>q. one_minus (Fl False r) = Fl False q \<and> 0 \<le> q \<and> q \<le> 1"
proof -
  have u: "round_double (1 - r) \<le> 1" using round_double_le [of "1 - r" 1] assms by simp
  then have "one_minus (Fl False r) = Fl False (round_double (1 - r))"
    using assms(2) mk_float_small [OF u] by (simp add: Let_def)
  then show ?thesis using u round_double_nonneg by blast
qed

definition percentage :: "py_float option \<Rightarrow> bool" where
  "percentage x \<longleftrightarrow> (case x of None \<Rightarrow> True | Some v \<Rightarrow> (\<exists>r. v = Fl False r \<and> 0 \<le> r \<and> r \<le> 1))"

lemma rate_percentage:
  assumes "0 \<le> a" "a \<le> b"
  shows "\<exists>x. rate_or_none a b = Inr x \<and> percentage x \<and> percentage (map_option one_minus x)"
proof (cases "b = 0")
  case False
  then obtain r where r: "int_truediv a b = Inr (Fl False r)" "0 \<le> r" "r \<le> 1" using part_of_whole [of a b] assms by auto
  then show ?thesis using False rest_of_whole [OF r(2,3)] by (auto simp: rate_or_none_def percentage_def)
qed (simp add: rate_or_none_def percentage_def)

text \<open>
  For counters that are not negative, with no more mispredictions than branches, the accuracy and
  the two hit rates of a profile are missing or lie between 0 and 1.
\<close>

lemma profile_percentages:
  assumes "profile_kernel env name lines msize = Inr p" "\<And>n v. (n, v) \<in> set (original_events p) \<Longrightarrow> 0 \<le> v"
    "\<And>b m. lookup (original_events p) ''branches_retired'' = Inr b \<Longrightarrow> lookup (original_events p) ''mispredicts'' = Inr m \<Longrightarrow> m \<le> b"
  shows "percentage (branch_accuracy p)" "percentage (icache_hit_rate p)" "percentage (dcache_hit_rate p)"
proof -
  from assms(1) obtain b m missed where o: "lookup (original_events p) ''branches_retired'' = Inr b"
    "lookup (original_events p) ''mispredicts'' = Inr m" "rate_or_none m b = Inr missed" "branch_accuracy p = map_option one_minus missed"
    "hit_rate (original_events p) ''icache_hit'' ''icache_miss'' = Inr (icache_hit_rate p)"
    "hit_rate (original_events p) ''dcache_hit'' ''dcache_miss'' = Inr (dcache_hit_rate p)"
    unfolding profile_kernel_def by (auto simp: rbind_Inr split: prod.splits)
  have n: "0 \<le> v" if "lookup (original_events p) k = Inr v" for k v
    using that assms(2) map_of_SomeD [of "original_events p" k v] by (auto simp: lookup_def split: option.splits)
  show "percentage (branch_accuracy p)" using rate_percentage [of m b] n [OF o(2)] assms(3) [OF o(1,2)] o(3,4) by auto
  have h: "percentage x" if hr: "hit_rate (original_events p) hit miss = Inr x" for hit miss x
  proof -
    obtain a b where ab: "lookup (original_events p) hit = Inr a" "lookup (original_events p) miss = Inr b" "rate_or_none a (a + b) = Inr x"
      using hr by (auto simp: hit_rate_def rbind_Inr)
    then show ?thesis using rate_percentage [of a "a + b"] n [OF ab(1)] n [OF ab(2)] by auto
  qed
  show "percentage (icache_hit_rate p)" "percentage (dcache_hit_rate p)" using h o(5,6) by blast+
qed

end
