(* ===== verification/Bench.thy ===== *)
theory Bench
  imports Profiler
begin

text \<open>
  The benchmark runner, \<open>bench_runner.py\<close>: it assembles a benchmark, runs its image on the
  instruction-set simulator, checks the result and measures the pipeline, and it compares two
  configurations. The Verilog simulator is a parameter.
\<close>

definition MEM_SIZE_OVERRIDES :: "(string \<times> nat) list" where
  "MEM_SIZE_OVERRIDES = [(''bench_bubble_sort'', 512)]"

definition EXPECTED_X10 :: "(string \<times> int) list" where
  "EXPECTED_X10 = [(''bench_fib'', 832040), (''bench_sum_array'', 136), (''bench_bubble_sort'', 1)]"

record bench_config =
  c_strategy :: int
  c_profile :: int
  c_predictor :: int
  c_cache :: int
  c_latency_i :: int
  c_latency_d :: int

record bench_result =
  r_instructions :: int
  r_cycles :: int
  r_ipc :: py_float
  r_icache_misses :: int
  r_icache_accesses :: int
  r_dcache_misses :: int

text \<open>Why \<open>run_bench\<close> returns no result.\<close>

datatype bench_error = AssemblerError | IssError py_error | WrongResult int int | BenchCompileError | BenchSimError

subsection \<open>One benchmark\<close>

definition bench_max_time :: "int \<Rightarrow> bench_config \<Rightarrow> int" where
  "bench_max_time instrs c =
     (instrs * (60 + 2 * (c_latency_i c + c_latency_d c)) + 500) * 10 + (if c_cache c \<noteq> 0 then 4000 else 0)"

definition bench_tag :: "string \<Rightarrow> bench_config \<Rightarrow> string" where
  "bench_tag name c =
     name @ ''_hs'' @ show_int (c_strategy c) @ ''_p'' @ show_int (c_profile c) @ ''_bp'' @ show_int (c_predictor c) @
     ''_cm'' @ show_int (c_cache c) @ ''_li'' @ show_int (c_latency_i c) @ ''_ld'' @ show_int (c_latency_d c)"

definition bench_text :: "sim_env \<Rightarrow> string \<Rightarrow> int \<Rightarrow> nat \<Rightarrow> bench_config \<Rightarrow> nat \<Rightarrow> string" where
  "bench_text env name instrs msize c xl =
     replace_all
       [(''__INIT_FILE__'', fst (files env name)), (''__MAX_TIME__'', show_int (bench_max_time instrs c)),
        (''__OUT_FILE__'', snd (files env (bench_tag name c))), (''__MEM_SIZE__'', show_int (int msize)),
        (''__HAZARD_STRATEGY__'', show_int (c_strategy c)), (''__PIPELINE_PROFILE__'', show_int (c_profile c)),
        (''__BRANCH_PREDICTOR__'', show_int (c_predictor c)), (''__CACHE_MODE__'', show_int (c_cache c)),
        (''__XLEN__'', show_int (int xl)), (''__MEM_LATENCY_I__'', show_int (c_latency_i c)),
        (''__MEM_LATENCY_D__'', show_int (c_latency_d c))] (template env)"

text \<open>The part after the simulator's check: the pipeline is simulated and its output read.\<close>

definition measure_bench :: "sim_env \<Rightarrow> string \<Rightarrow> string \<Rightarrow> int \<Rightarrow> nat \<Rightarrow> bench_config \<Rightarrow> nat \<Rightarrow> (bench_error + bench_result) result" where
  "measure_bench env name image_text instrs msize c xl =
     (case simulate env image_text (bench_text env name instrs msize c xl) of
        CompileError \<Rightarrow> Inr (Inl BenchCompileError)
      | SimulationError \<Rightarrow> Inr (Inl BenchSimError)
      | Output out \<Rightarrow>
          rbind (file_ints out) (\<lambda>vals.
          rbind (py_index vals 0) (\<lambda>cycles.
          rbind (py_index vals 1) (\<lambda>im.
          rbind (py_index vals 2) (\<lambda>ia.
          rbind (py_index vals 3) (\<lambda>dm.
          rbind (int_truediv instrs cycles) (\<lambda>v.
            Inr (Inr \<lparr>r_instructions = instrs, r_cycles = cycles, r_ipc = v, r_icache_misses = im,
                      r_icache_accesses = ia, r_dcache_misses = dm\<rparr>))))))))"

text \<open>
  \<open>run_bench\<close>; \<open>None\<close> when the instruction-set simulator never returns. Every exception of the
  simulator is caught.
\<close>

definition run_bench :: "sim_env \<Rightarrow> string \<Rightarrow> string list \<Rightarrow> nat \<Rightarrow> bench_config \<Rightarrow> nat \<Rightarrow> (bench_error + bench_result) result option" where
  "run_bench env name lines msize c xl =
     (case asm_main lines (int msize) xl of
        Written image_text \<Rightarrow>
          (case load_words image_text of
             Inl e \<Rightarrow> Some (Inl e)
           | Inr words \<Rightarrow>
               (case run (iss_init msize xl) words 200000 of
                  None \<Rightarrow> None
                | Some (Inl e) \<Rightarrow> if e = Diverges then None else Some (Inr (Inl (IssError e)))
                | Some (Inr (instrs, s)) \<Rightarrow>
                    (case map_of EXPECTED_X10 name of
                       Some expected \<Rightarrow>
                         if regs s ! 10 \<noteq> expected then Some (Inr (Inl (WrongResult (regs s ! 10) expected)))
                         else Some (measure_bench env name image_text instrs msize c xl)
                     | None \<Rightarrow> Some (measure_bench env name image_text instrs msize c xl))))
      | _ \<Rightarrow> Some (Inr (Inl AssemblerError)))"

subsection \<open>Configurations\<close>

datatype axis = Strategy | Profile | Predictor | CacheMode | Latency

record bench_args =
  a_compare :: "axis option"
  a_config :: bench_config

definition effective_config :: "bench_args \<Rightarrow> bench_config" where
  "effective_config args =
     (let c = a_config args
      in if a_compare args = Some Latency \<and> c_latency_i c = 0 \<and> c_latency_d c = 0
         then c\<lparr>c_latency_i := 3, c_latency_d := 3\<rparr> else c)"

text \<open>\<open>zip(keys, pairs)\<close>.\<close>

definition bench_pairs :: "bench_args \<Rightarrow> (int \<times> bench_config) list" where
  "bench_pairs args =
     (let c = effective_config args
      in case a_compare args of
           Some Strategy \<Rightarrow> map (\<lambda>k. (k, c\<lparr>c_strategy := k\<rparr>)) [0, 1]
         | Some Profile \<Rightarrow> map (\<lambda>k. (k, c\<lparr>c_profile := k\<rparr>)) [0, 1]
         | Some Predictor \<Rightarrow> map (\<lambda>k. (k, c\<lparr>c_predictor := k\<rparr>)) [0, 1]
         | Some CacheMode \<Rightarrow> map (\<lambda>k. (k, c\<lparr>c_cache := k\<rparr>)) [0, 1]
         | Some Latency \<Rightarrow> [(0, c\<lparr>c_latency_i := 0, c_latency_d := 0\<rparr>), (1, c)]
         | None \<Rightarrow> [(c_strategy c, c)])"

subsection \<open>The session\<close>

type_synonym bench_row = "string \<times> bench_result option"

text \<open>What is printed: a line, or the line of a failed benchmark with its reason.\<close>

datatype printed = Text string | Failed string bench_error

definition axis_banner :: "axis option \<Rightarrow> bench_config \<Rightarrow> printed list" where
  "axis_banner ax c =
     (case ax of
        Some Strategy \<Rightarrow> [Text (''--- HAZARD_STRATEGY='' @ show_int (c_strategy c) @ '' ('' @
          (if c_strategy c = 0 then ''forwarding'' else ''stall-only'') @ '') ---'')]
      | Some Profile \<Rightarrow> [Text (''--- PIPELINE_PROFILE='' @ show_int (c_profile c) @ '' ('' @
          (if c_profile c = 0 then ''PROFILE_5STAGE'' else ''PROFILE_6STAGE_SPLIT_FETCH'') @ '') ---'')]
      | Some Predictor \<Rightarrow> [Text (''--- BRANCH_PREDICTOR='' @ show_int (c_predictor c) @ '' ('' @
          (if c_predictor c = 0 then ''PREDICTOR_STATIC'' else ''PREDICTOR_DYNAMIC_BHT_BTB'') @ '') ---'')]
      | Some CacheMode \<Rightarrow> [Text (''--- CACHE_MODE='' @ show_int (c_cache c) @ '' ('' @
          (if c_cache c = 0 then ''CACHE_NONE'' else ''CACHE_WRITEBACK_SETASSOC'') @ '') ---'')]
      | Some Latency \<Rightarrow> [Text (''--- MEM_LATENCY_I='' @ show_int (c_latency_i c) @ '' MEM_LATENCY_D='' @
          show_int (c_latency_d c) @ '' ---'')]
      | None \<Rightarrow> [])"

definition cache_info :: "string \<Rightarrow> bench_result \<Rightarrow> string" where
  "cache_info gap r =
     gap @ ''I$miss='' @ show_int (r_icache_misses r) @ ''/'' @ show_int (r_icache_accesses r) @ '' D$miss='' @ show_int (r_dcache_misses r)"

definition result_line :: "string \<Rightarrow> bench_config \<Rightarrow> bench_result \<Rightarrow> string" where
  "result_line name c r =
     ljust 20 name @ '' instructions='' @ ljust 6 (show_int (r_instructions r)) @ '' cycles='' @ ljust 6 (show_int (r_cycles r)) @
     '' IPC='' @ float_text False 3 (r_ipc r) @ (if c_cache c \<noteq> 0 then cache_info ''  '' r else [])"

text \<open>One pass over the programs: \<open>None\<close> if one never returns, \<open>Inl\<close> for an uncaught exception.\<close>

fun run_progs :: "sim_env \<Rightarrow> bench_config \<Rightarrow> (string \<times> string list) list \<Rightarrow> (bench_row list \<times> printed list) result option" where
  "run_progs env c [] = Some (Inr ([], []))"
| "run_progs env c ((name, lines) # rest) =
     (let msize = (case map_of MEM_SIZE_OVERRIDES name of Some n \<Rightarrow> n | None \<Rightarrow> 128)
      in case run_bench env name lines msize c 32 of
           None \<Rightarrow> None
         | Some (Inl e) \<Rightarrow> Some (Inl e)
         | Some (Inr r) \<Rightarrow>
             map_option (\<lambda>q. rbind q (\<lambda>(rows, out).
               Inr (case r of Inl err \<Rightarrow> ((name, None) # rows, Failed name err # out)
                    | Inr res \<Rightarrow> ((name, Some res) # rows, Text (result_line name c res) # out))))
               (run_progs env c rest))"

fun run_pairs :: "sim_env \<Rightarrow> axis option \<Rightarrow> (int \<times> bench_config) list \<Rightarrow> (string \<times> string list) list \<Rightarrow>
    ((int \<times> bench_row list) list \<times> printed list) result option" where
  "run_pairs env ax [] progs = Some (Inr ([], []))"
| "run_pairs env ax ((key, c) # rest) progs =
     (case run_progs env c progs of
        None \<Rightarrow> None
      | Some (Inl e) \<Rightarrow> Some (Inl e)
      | Some (Inr (rows, out)) \<Rightarrow>
          map_option (\<lambda>r. rbind r (\<lambda>(rs, out'). Inr ((key, rows) # rs, axis_banner ax c @ out @ [Text []] @ out')))
            (run_pairs env ax rest progs))"

subsection \<open>The comparison\<close>

text \<open>\<open>100.0 * delta / cycles\<close>.\<close>

definition delta_percent :: "int \<Rightarrow> int \<Rightarrow> py_float result" where
  "delta_percent delta cycles =
     rbind (int_float delta) (\<lambda>d.
     rbind (int_float cycles) (\<lambda>c.
       case c of Fl neg m \<Rightarrow> if m = 0 then Inl ZeroDivisionError else Inr (over_finite (times_hundred d) neg m)
       | Inf _ \<Rightarrow> Inl OverflowError))"

definition compare_line :: "axis \<Rightarrow> string \<Rightarrow> bench_result \<Rightarrow> bench_result \<Rightarrow> string result" where
  "compare_line ax name r0 r1 =
     (let delta = r_cycles r1 - r_cycles r0
      in rbind (delta_percent delta (r_cycles r0)) (\<lambda>pct.
           Inr (ljust 20 name @ '' cycles: '' @ ljust 6 (show_int (r_cycles r0)) @ '' -> '' @ ljust 6 (show_int (r_cycles r1)) @
             ''  ('' @ show_signed delta @ '', '' @ float_text True 1 pct @ ''%)   IPC: '' @ float_text False 3 (r_ipc r0) @ '' -> '' @
             float_text False 3 (r_ipc r1) @ (if ax = CacheMode then cache_info ''   '' r1 else []))))"

fun compare_rows :: "axis \<Rightarrow> bench_row list \<Rightarrow> bench_row list \<Rightarrow> string list result" where
  "compare_rows ax [] rows1 = Inr []"
| "compare_rows ax ((name, r0) # rest) rows1 =
     rbind (case (r0, map_of (rev rows1) name) of
              (Some a, Some (Some b)) \<Rightarrow> compare_line ax name a b
            | _ \<Rightarrow> Inr (ljust 20 name @ '' (incomplete, see FAIL above)'')) (\<lambda>l.
     rbind (compare_rows ax rest rows1) (\<lambda>ls. Inr (l # ls)))"

definition axis_labels :: "axis \<Rightarrow> bench_config \<Rightarrow> string \<times> string" where
  "axis_labels ax c =
     (case ax of
        Strategy \<Rightarrow> (''forwarding (HS=0)'', ''stall-only (HS=1)'')
      | Profile \<Rightarrow> (''PROFILE_5STAGE (PP=0)'', ''PROFILE_6STAGE_SPLIT_FETCH (PP=1)'')
      | Predictor \<Rightarrow> (''PREDICTOR_STATIC (BP=0)'', ''PREDICTOR_DYNAMIC_BHT_BTB (BP=1)'')
      | CacheMode \<Rightarrow> (''CACHE_NONE (CM=0)'', ''CACHE_WRITEBACK_SETASSOC (CM=1)'')
      | Latency \<Rightarrow> (''MEM_LATENCY_I=D=0'', ''MEM_LATENCY_I='' @ show_int (c_latency_i c) @ '' MEM_LATENCY_D='' @ show_int (c_latency_d c)))"

definition comparison :: "bench_args \<Rightarrow> (int \<times> bench_row list) list \<Rightarrow> string list result" where
  "comparison args results =
     (case a_compare args of
        None \<Rightarrow> Inr []
      | Some ax \<Rightarrow>
          (let (label0, label1) = axis_labels ax (effective_config args)
           in rbind (compare_rows ax (snd (results ! 0)) (snd (results ! 1))) (\<lambda>ls.
                Inr ((''=== comparison: '' @ label0 @ '' vs. '' @ label1 @ '' ==='') # ls))))"

definition failed_runs :: "(int \<times> bench_row list) list \<Rightarrow> string list" where
  "failed_runs results = concat (map (\<lambda>(_, rows). map fst (filter (\<lambda>(_, r). r = None) rows)) results)"

text \<open>The last line and the exit status.\<close>

definition bench_verdict :: "(int \<times> bench_row list) list \<Rightarrow> string \<times> int" where
  "bench_verdict results =
     (let failed = failed_runs results; total = sum_list (map (\<lambda>(_, rows). int (length rows)) results)
      in if failed \<noteq> []
         then (''=== '' @ show_int (int (length failed)) @ ''/'' @ show_int total @ '' benchmark run(s) FAILED: '' @ comma_list failed @ '' ==='', 1)
         else (''=== '' @ show_int total @ ''/'' @ show_int total @ '' benchmark run(s) completed cleanly ==='', 0))"

text \<open>\<open>main\<close>: everything printed, and the exit status.\<close>

definition bench_main :: "sim_env \<Rightarrow> bench_args \<Rightarrow> string \<Rightarrow> (string \<times> string list) list \<Rightarrow> (printed list \<times> int) result option" where
  "bench_main env args programs_dir progs =
     (if progs = [] then Some (Inr ([Text (''No bench_*.s programs found under '' @ programs_dir)], 1))
      else map_option (\<lambda>r. rbind r (\<lambda>(results, out).
        rbind (comparison args results) (\<lambda>ls.
          let (last_line, status) = bench_verdict results
          in Inr (out @ map Text ls @ [Text [], Text last_line], status))))
        (run_pairs env (a_compare args) (bench_pairs args) progs))"

end
