(* ===== verification/Bench_Props.thy ===== *)
theory Bench_Props
  imports Bench Profiler_Props Iss_Inv
begin

text \<open>
  The benchmark runner: what a comparison varies, and the programs the simulator really gets.
\<close>

subsection \<open>Undefined opcodes\<close>

definition OPCODES :: "int list" where
  "OPCODES = [0x33, 0x3B, 0x2A, 0x13, 0x1B, 0x03, 0x23, 0x63, 0x6F, 0x67, 0x37, 0x17, 0x73, 0x07, 0x27, 0x53,
     0x43, 0x47, 0x4B, 0x4F, 0x0F]"

lemma undefined_traps: "w \<noteq> 0 \<Longrightarrow> op_of w \<notin> set OPCODES \<Longrightarrow> step s w = Inr (trap s MCAUSE_ILLEGAL_INSTRUCTION 0)"
  by (simp add: step_def OPCODES_def Let_def)

text \<open>
  The reset state and the states an illegal instruction at address 0 leads to: trap and fetch
  address are 0, whether or not an interrupt is scheduled.
\<close>

definition trap_at_zero :: "iss \<Rightarrow> bool" where
  "trap_at_zero s \<longleftrightarrow> pc s = 0 \<and> priv_mode s = PRIV_M \<and> csr_at s CSR_MTVEC = 0"

lemma trap_at_zero_init: "trap_at_zero (iss_init n xl)" "trap_at_zero (schedule_interrupt (iss_init n xl) after cause)"
  by (simp_all add: trap_at_zero_def iss_init_def csr_at_def csr_reset_def schedule_interrupt_def)

lemma csr_at_pending: "csr_at (s\<lparr>pending_interrupt := p\<rparr>) a = csr_at s a"
  by (simp add: csr_at_def)

lemma trap_at_zero_trap:
  "trap_at_zero s \<Longrightarrow> trap_at_zero (trap s cause 0)" "trap_at_zero s \<Longrightarrow> trap_at_zero ((trap s cause 0)\<lparr>pending_interrupt := None\<rparr>)"
  "pending_interrupt (trap s cause 0) = pending_interrupt s"
  by (simp_all add: trap_at_zero_def trap_def Let_def csr_at_put csr_at_pending)

lemma undefined_loops:
  assumes "words \<noteq> []" "words ! 0 \<noteq> 0" "op_of (words ! 0) \<notin> set OPCODES"
  shows "trap_at_zero s \<Longrightarrow> run_loop words max_steps s k = Some (Inl RuntimeError)"
proof (induction "2 * nat (max_steps - k) + of_bool (pending_interrupt s \<noteq> None)" arbitrary: s k rule: less_induct)
  case less
  have z: "translate s (pc s) Fetch = (Some 0, s)"
    using less.prems by (auto simp: trap_at_zero_def translate_def uxlen_def uXLEN_def)
  have h: "\<not> is_self_loop (words ! 0)"
    using assms(3) by (auto simp: is_self_loop_def op_of_def OPCODES_def)
  have illegal: "run_loop words max_steps (trap s MCAUSE_ILLEGAL_INSTRUCTION 0) (k + 1) = Some (Inl RuntimeError)" if "k < max_steps"
    using that less.prems by (intro less.hyps trap_at_zero_trap) (simp_all add: trap_at_zero_trap)
  have interrupt: "run_loop words max_steps ((trap s c 0)\<lparr>pending_interrupt := None\<rparr>) k = Some (Inl RuntimeError)"
    if "pending_interrupt s = Some p" for c p
    using that less.prems by (intro less.hyps trap_at_zero_trap) simp_all
  show ?case using assms h undefined_traps [OF assms(2,3), of s] illegal interrupt
    by (subst run_loop.simps) (auto simp: z split: option.splits)
qed

subsection \<open>The simulated words\<close>

lemma byte_swap_op: "op_of (byte_swap w) = w div 2 ^ 24 mod 128"
proof -
  have "byte_swap w mod 128 = w div 2 ^ 24 mod 256 mod 128"
  proof -
    have "byte_swap w = (w div 2 ^ 24 mod 256) + 128 * ((w mod 256) * 2 ^ 17 + (w div 2 ^ 8 mod 256) * 2 ^ 9 + (w div 2 ^ 16 mod 256) * 2)"
      by (simp add: byte_swap_def)
    then show ?thesis by (simp only: mod_mult_self2)
  qed
  then show ?thesis by (simp add: op_of_def bit_norm mod_mod_cancel)
qed

lemma byte_swap_zero:
  assumes "byte_swap w = 0" "fits w 32"
  shows "w = 0"
proof -
  let ?a = "w mod 256" and ?b = "w div 2 ^ 8 mod 256" and ?c = "w div 2 ^ 16 mod 256" and ?d = "w div 2 ^ 24 mod 256"
  have n: "0 \<le> ?a" "0 \<le> ?b" "0 \<le> ?c" "0 \<le> ?d" by simp_all
  have z: "?a * 2 ^ 24 + ?b * 2 ^ 16 + ?c * 2 ^ 8 + ?d = 0" using assms(1) by (simp add: byte_swap_def)
  have "a = 0 \<and> b = 0 \<and> c = 0 \<and> d = 0"
    if "0 \<le> a" "0 \<le> b" "0 \<le> c" "0 \<le> d" "a * 2 ^ 24 + b * 2 ^ 16 + c * 2 ^ 8 + d = 0" for a b c d :: int
    using that by (simp add: add_nonneg_eq_0_iff)
  from this [OF n z] have "?a = 0" "?b = 0" "?c = 0" "?d = 0" by blast+
  moreover have "w div 2 ^ 24 mod 256 = w div 2 ^ 24" 
    using assms(2) zdiv_mono1 [of w "2 ^ 32 - 1" "2 ^ 24"] by (intro mod_pos_pos_trivial) (simp_all add: fits_def pos_imp_zdiv_nonneg_iff)
  ultimately show ?thesis
    using div_mult_mod_eq [of w 256] div_mult_mod_eq [of "w div 2 ^ 8" 256] div_mult_mod_eq [of "w div 2 ^ 16" 256]
    by (simp add: zdiv_zmult2_eq [symmetric])
qed

text \<open>The image that \<open>run_bench\<close> loads is read with the bytes of every word reversed.\<close>

lemma bench_words:
  assumes "assemble lines xl = Inr ws" "4 * length ws \<le> msize"
  obtains image_text where "asm_main lines (int msize) xl = Written image_text"
    "load_words image_text = Inr (map byte_swap (ws @ replicate (msize div 4 - length ws) 0))"
  using assms load_words_image [OF assms(2)] by (simp add: asm_main_def write_mem_layout)

lemma first_word_fits: "assemble lines xl = Inr (w # ws) \<Longrightarrow> fits w 32"
  unfolding assemble_words using assemble_stmt_outcome [of "labels_of lines" xl "(0, clean_line (filter is_stmt lines ! 0))"]
  by (force simp: outcome_def)

text \<open>
  \<open>run_bench\<close> executes the words of a benchmark with their bytes reversed: whenever the most
  significant byte of the first word, which the simulator then takes for an opcode, is not one of
  the opcodes of this core, the run is rejected with the simulator's step limit, whatever the
  benchmark computes and whatever the Verilog simulation would give.
\<close>

lemma benchmarks_run_swapped:
  assumes "assemble lines xl = Inr (w # ws)" "4 * length (w # ws) \<le> msize" "w \<noteq> 0" "w div 2 ^ 24 mod 128 \<notin> set OPCODES"
  shows "run_bench env name lines msize c xl = Some (Inr (Inl (IssError RuntimeError)))"
proof -
  obtain image_text where i: "asm_main lines (int msize) xl = Written image_text"
      "load_words image_text = Inr (map byte_swap ((w # ws) @ replicate (msize div 4 - length (w # ws)) 0))"
    using bench_words [OF assms(1,2)] by blast
  let ?words = "map byte_swap ((w # ws) @ replicate (msize div 4 - length (w # ws)) 0)"
  have "byte_swap w \<noteq> 0" using byte_swap_zero first_word_fits [OF assms(1)] assms(3) by blast
  then have "run (iss_init msize xl) ?words 200000 = Some (Inl RuntimeError)"
    unfolding run_def using assms(4) by (intro undefined_loops trap_at_zero_init) (simp_all add: byte_swap_op)
  then show ?thesis using i by (simp add: run_bench_def)
qed

text \<open>The Fibonacci benchmark of the repository is such a program.\<close>

lemma fib_run_swapped:
  "run_bench env ''bench_fib'' (fib_body @ ''halt:'' # fib_tail) 128 c 32 = Some (Inr (Inl (IssError RuntimeError)))"
proof (rule benchmarks_run_swapped)
  show "assemble (fib_body @ ''halt:'' # fib_tail) 32 = Inr (0x93 # tl fib_words @ [0x6F])"
    using fib_kernel by (simp add: fib_words_def)
qed (simp_all add: fib_words_def OPCODES_def)

subsection \<open>Comparisons\<close>

definition setting :: "bench_config \<Rightarrow> axis \<Rightarrow> int \<times> int" where
  "setting c x =
     (case x of Strategy \<Rightarrow> (c_strategy c, 0) | Profile \<Rightarrow> (c_profile c, 0) | Predictor \<Rightarrow> (c_predictor c, 0)
      | CacheMode \<Rightarrow> (c_cache c, 0) | Latency \<Rightarrow> (c_latency_i c, c_latency_d c))"

text \<open>
  A comparison runs two configurations, keyed 0 and 1, which differ on the chosen axis, where the
  first has the default, and on no other.
\<close>

lemma comparison_varies_one_axis:
  assumes "a_compare args = Some x"
  shows "\<exists>c0 c1. bench_pairs args = [(0, c0), (1, c1)] \<and> setting c0 x = (0, 0) \<and> setting c1 x \<noteq> (0, 0) \<and>
    (\<forall>y. y \<noteq> x \<longrightarrow> setting c0 y = setting c1 y)"
  using assms by (cases x) (auto simp: bench_pairs_def effective_config_def setting_def Let_def split: axis.splits)

subsection \<open>The exit status\<close>

text \<open>Every program has a row in a pass, and a row without a result is one that was reported as failed.\<close>

lemma run_progs_rows:
  "run_progs env c progs = Some (Inr (rows, out)) \<Longrightarrow>
     map fst rows = map fst progs \<and> ((\<exists>n e. Failed n e \<in> set out) \<longleftrightarrow> (\<exists>n. (n, None) \<in> set rows))"
proof (induction progs arbitrary: rows out)
  case (Cons prog progs)
  obtain name lines where prog: "prog = (name, lines)" by fastforce
  let ?m = "case map_of MEM_SIZE_OVERRIDES name of Some n \<Rightarrow> n | None \<Rightarrow> 128"
  obtain r where r: "run_bench env name lines ?m c 32 = Some (Inr r)"
    using Cons.prems by (cases "run_bench env name lines ?m c 32"; cases "the (run_bench env name lines ?m c 32)") (auto simp: prog Let_def)
  obtain rows' out' where q: "run_progs env c progs = Some (Inr (rows', out'))"
    using Cons.prems by (auto simp: prog Let_def r rbind_Inr)
  note ih = Cons.IH [OF q]
  show ?case
  proof (cases r)
    case (Inl e)
    then have "rows = (name, None) # rows'" "out = Failed name e # out'" using Cons.prems by (simp_all add: prog Let_def r q)
    then show ?thesis using ih prog by (auto intro: exI [of _ name] exI [of _ e])
  next
    case (Inr res)
    then have "rows = (name, Some res) # rows'" "out = Text (result_line name c res) # out'"
      using Cons.prems by (simp_all add: prog Let_def r q)
    then show ?thesis using ih prog by simp
  qed
qed simp

lemma failed_runs_iff: "failed_runs results \<noteq> [] \<longleftrightarrow> (\<exists>(k, rows) \<in> set results. \<exists>n. (n, None) \<in> set rows)"
  by (force simp: failed_runs_def filter_empty_conv)

lemma run_pairs_rows:
  "run_pairs env ax pairs progs = Some (Inr (results, out)) \<Longrightarrow>
     length results = length pairs \<and> (\<forall>(k, rows) \<in> set results. length rows = length progs) \<and>
     ((\<exists>n e. Failed n e \<in> set out) \<longleftrightarrow> failed_runs results \<noteq> [])"
proof (induction pairs arbitrary: results out)
  case (Cons pair pairs)
  obtain key c where pair: "pair = (key, c)" by fastforce
  from Cons.prems obtain rows o1 rs o2 where r: "run_progs env c progs = Some (Inr (rows, o1))"
    "run_pairs env ax pairs progs = Some (Inr (rs, o2))" "results = (key, rows) # rs" "out = axis_banner ax c @ o1 @ [Text []] @ o2"
    by (auto simp: pair rbind_Inr split: option.splits sum.splits)
  have b: "Failed n e \<notin> set (axis_banner ax c)" for n e by (auto simp: axis_banner_def split: option.splits axis.splits)
  have "length rows = length progs" using run_progs_rows [OF r(1)] by (auto dest: map_eq_imp_length_eq)
  moreover have "(\<exists>n e. Failed n e \<in> set out) \<longleftrightarrow> (\<exists>n e. Failed n e \<in> set o1) \<or> (\<exists>n e. Failed n e \<in> set o2)"
    using b by (auto simp: r(4))
  ultimately show ?case using Cons.IH [OF r(2)] run_progs_rows [OF r(1)] unfolding failed_runs_iff by (auto simp: r(3))
qed (simp add: failed_runs_def)

text \<open>
  The exit status of the runner is 0 exactly when no benchmark was reported as failed, and then the
  last line counts every run: one per program and configuration.
\<close>

lemma bench_status:
  assumes "bench_main env args programs_dir progs = Some (Inr (out, status))" "progs \<noteq> []"
  shows "status = 0 \<longleftrightarrow> (\<forall>n e. Failed n e \<notin> set out)" "status = 0 \<or> status = 1"
    "status = 0 \<Longrightarrow> let k = show_int (int (length (bench_pairs args) * length progs))
       in last out = Text (''=== '' @ k @ ''/'' @ k @ '' benchmark run(s) completed cleanly ==='')"
proof -
  obtain results o1 ls where r: "run_pairs env (a_compare args) (bench_pairs args) progs = Some (Inr (results, o1))"
    "out = o1 @ map Text ls @ [Text [], Text (fst (bench_verdict results))]" "status = snd (bench_verdict results)"
    using assms by (auto simp: bench_main_def rbind_Inr Let_def case_prod_beta)
  note f = run_pairs_rows [OF r(1)]
  have o: "Failed n e \<in> set out \<longleftrightarrow> Failed n e \<in> set o1" for n e by (auto simp: r(2))
  show "status = 0 \<longleftrightarrow> (\<forall>n e. Failed n e \<notin> set out)" "status = 0 \<or> status = 1"
    using f unfolding o r(3) by (auto simp: bench_verdict_def Let_def)
  have m: "map (\<lambda>(_, rows). int (length rows)) results = map (\<lambda>_. int (length progs)) results" using f by auto
  have "sum_list (map (\<lambda>(_, rows). int (length rows)) results) = int (length (bench_pairs args) * length progs)"
    unfolding m using f by (simp add: sum_list_triv)
  then show "status = 0 \<Longrightarrow> let k = show_int (int (length (bench_pairs args) * length progs))
       in last out = Text (''=== '' @ k @ ''/'' @ k @ '' benchmark run(s) completed cleanly ==='')"
    unfolding r by (auto simp: bench_verdict_def Let_def split: if_splits)
qed

end
