(* ===== verification/C_Bench.thy ===== *)
theory C_Bench
  imports Bench Boot Elf_Image Reports_Props
begin

text \<open>
  Compiled benchmarks, \<open>build_c_bench.py\<close>: the ELF file of a C program is converted to the two memory
  images, simulated, and the registers and memory are read from the simulator's dump. The compiler
  and the Verilog simulator are parameters.
\<close>

text \<open>
  What the simulator gives for the two images and the bench: the bench does not compile, or the
  output files, if both were written.
\<close>

datatype c_run = CBenchError | CBenchOutput "(string \<times> string) option"

record c_paths =
  c_imem :: string
  c_dmem :: string
  c_cycles_out :: string
  c_state_out :: string

definition c_bench_text :: "string \<Rightarrow> c_paths \<Rightarrow> int \<Rightarrow> int \<Rightarrow> int \<Rightarrow> string" where
  "c_bench_text tpl p msize max_time strategy =
     replace_all
       [(''__INIT_FILE__'', c_imem p), (''__DATA_INIT_FILE__'', c_dmem p), (''__MEM_SIZE__'', show_int msize),
        (''__MAX_TIME__'', show_int max_time), (''__CYCLES_OUT_FILE__'', c_cycles_out p),
        (''__STATE_OUT_FILE__'', c_state_out p), (''__HAZARD_STRATEGY__'', show_int strategy)] tpl"

text \<open>The registers, the memory and the cycles of a finished run; \<open>regs[10]\<close> is read for the summary.\<close>

definition read_state :: "string \<Rightarrow> string \<Rightarrow> int \<Rightarrow> (int list \<times> int list \<times> int) result" where
  "read_state cycles_text state_text msize =
     rbind (py_int10 (py_strip cycles_text)) (\<lambda>cycles.
     rbind (file_ints state_text) (\<lambda>raw.
       let vals = map (\<lambda>v. v AND 0xFFFFFFFF) raw; rs = take 32 vals; m = py_slice vals 32 (32 + msize)
       in rbind (py_index rs 10) (\<lambda>_. Inr (rs, m, cycles))))"

text \<open>\<open>main\<close>: \<open>None\<close> is \<open>sys.exit(1)\<close> because an output file is missing.\<close>

definition c_bench_main ::
  "elf_tools option \<Rightarrow> (string \<Rightarrow> string \<Rightarrow> string \<Rightarrow> c_run) \<Rightarrow> string \<Rightarrow> c_paths \<Rightarrow> int \<Rightarrow> int \<Rightarrow> int \<Rightarrow>
     (int list \<times> int list \<times> int) option result" where
  "c_bench_main prog sim tpl p msize max_time strategy =
     rbind (compiled prog) (\<lambda>tools.
     rbind (run_tool (elf2mem_main tools msize msize ''.text.init,.text'')) (\<lambda>(imem, dmem).
       case sim imem dmem (c_bench_text tpl p msize max_time strategy) of
         CBenchError \<Rightarrow> Inl RuntimeError
       | CBenchOutput None \<Rightarrow> Inr None
       | CBenchOutput (Some (cycles_text, state_text)) \<Rightarrow>
           rbind (read_state cycles_text state_text msize) (\<lambda>r. Inr (Some r))))"

text \<open>A dump of 32 registers and the memory, with the cycle count, is returned as it was dumped.\<close>

lemma read_state_dump:
  assumes "length rs = 32" "list_all (\<lambda>v. 0 \<le> v \<and> v < 2 ^ 32) rs" "bytes m" "int (length m) = msize"
  shows "read_state (show_int cycles @ [newline]) (number_lines (rs @ m)) msize = Inr (rs, m, cycles)"
proof -
  have "map (\<lambda>v. v AND 0xFFFFFFFF) rs = rs" using assms(2) by (induction rs) (auto simp: bit_norm)
  moreover have "map (\<lambda>v. v AND 0xFFFFFFFF) m = m"
    using assms(3) by (induction m) (auto simp: bytes_def bit_norm)
  moreover have "py_slice (rs @ m) 32 (32 + msize) = m"
    using assms(1,4) by (simp add: py_slice_def py_bound_def)
  moreover have "py_strip (show_int cycles @ [newline]) = show_int cycles"
    using show_int_spaceless [of cycles] by (intro strip_line) (auto simp: list_all_iff)
  ultimately show ?thesis using assms(1)
    by (simp add: read_state_def file_ints_lines read_int10 Let_def py_index_def)
qed

text \<open>
  For a program whose sections fit the memory and a simulator that ends with a dump of registers and
  memory, the images given to the simulator hold the program's sections and the dump is returned.
\<close>

lemma c_bench_returns:
  assumes "describes tools vma raw [''.text.init'', ''.text'']" "describes_data tools ro da" "0 \<le> msize"
    "fit msize (code_parts vma raw [''.text.init'', ''.text''])" "fit msize [ro, da]"
    and sim: "sim (elf_write_mem (image_of (nat msize) (code_parts vma raw [''.text.init'', ''.text''])))
        (elf_write_mem (image_of (nat msize) [ro, da])) (c_bench_text tpl p msize max_time strategy) =
      CBenchOutput (Some (show_int cycles @ [newline], number_lines (rs @ m)))"
    and dump: "length rs = 32" "list_all (\<lambda>v. 0 \<le> v \<and> v < 2 ^ 32) rs" "bytes m" "int (length m) = msize"
  shows "c_bench_main (Some tools) sim tpl p msize max_time strategy = Inr (Some (rs, m, cycles))"
proof -
  have n: "split_on CHR '','' ''.text.init,.text'' = [''.text.init'', ''.text'']" by code_simp
  have "elf2mem_main tools msize msize ''.text.init,.text'' =
      Inr (elf_write_mem (image_of (nat msize) (code_parts vma raw [''.text.init'', ''.text''])), elf_write_mem (image_of (nat msize) [ro, da]))"
    using elf2mem_parts [of tools vma raw "''.text.init,.text''" ro da msize msize] assms(1-5) unfolding n by simp
  then show ?thesis using read_state_dump [OF dump] sim by (simp add: c_bench_main_def compiled_def run_tool_def)
qed

end
