(* ===== verification/Cross_Check.thy ===== *)
theory Cross_Check
  imports Bench
begin

text \<open>
  The constrained-random cross-check, \<open>run_random_tests.py\<close>: for every seed a program is generated,
  assembled and run on the instruction-set simulator; the same image is simulated in Verilog, and
  the two final states are compared. The Verilog simulator and the tapes of the seeds are
  parameters. Argument parsing, the printed lines and the copies kept of failing programs are left
  out.
\<close>

definition SCALEUP_WINDOW_BYTES :: nat where "SCALEUP_WINDOW_BYTES = 65536"

text \<open>
  The paths of a seed: the source and the image as they are passed to the assembler, the image
  relative to the working directory, and the output file. \<open>x_template\<close> gives the text of a template.
\<close>

record cross_env =
  x_draws :: "int \<Rightarrow> tape"
  x_simulate :: "string \<Rightarrow> string \<Rightarrow> sim_run"
  x_template :: "string \<Rightarrow> string"
  x_source :: "int \<Rightarrow> string"
  x_image :: "int \<Rightarrow> string"
  x_init_file :: "int \<Rightarrow> string"
  x_out_path :: "int \<Rightarrow> string"

record cross_args =
  x_count :: int
  x_n_instrs :: int
  x_seed_start :: int
  x_config :: bench_config
  x_interrupt :: "string option"
  x_mem_size :: "nat option"
  x_mmu :: bool
  x_xlen :: nat

text \<open>What \<open>run_one\<close> returns: \<open>True, None\<close>, or \<open>False\<close> with the reason.\<close>

datatype verdict = Passed | AssemblerFailed | IssFailed py_error | CompileFailed | SimFailed | Mismatch string

subsection \<open>The number of instructions\<close>

text \<open>\<open>re.search(r":\s*(\d+)\s+instructions", stdout)\<close>: the match at one position, and the search.\<close>

definition count_at :: "string \<Rightarrow> int option" where
  "count_at s =
     (case s of
        [] \<Rightarrow> None
      | c # cs \<Rightarrow>
          (let r = dropWhile py_space cs; ds = takeWhile py_digit r; t = dropWhile py_digit r
           in if c = CHR '':'' \<and> ds \<noteq> [] \<and> t \<noteq> [] \<and> py_space (hd t) \<and>
                take 12 (dropWhile py_space t) = ''instructions''
              then int_digits 10 False ds 0 else None))"

fun search_count :: "string \<Rightarrow> int option" where
  "search_count [] = None"
| "search_count (c # cs) = (case count_at (c # cs) of None \<Rightarrow> search_count cs | Some v \<Rightarrow> Some v)"

text \<open>What \<open>asm.main\<close> prints on success.\<close>

definition asm_stdout :: "string \<Rightarrow> string \<Rightarrow> int list \<Rightarrow> string" where
  "asm_stdout src out words = src @ '': '' @ show_int (int (length words)) @ '' instructions -> '' @ out @ [newline]"

definition real_n_instrs :: "cross_env \<Rightarrow> int \<Rightarrow> string list \<Rightarrow> nat \<Rightarrow> int \<Rightarrow> int" where
  "real_n_instrs env seed lines xl n_instrs =
     (case assemble lines xl of
        Inl _ \<Rightarrow> n_instrs
      | Inr words \<Rightarrow>
          (case search_count (asm_stdout (x_source env seed) (x_image env seed) words) of None \<Rightarrow> n_instrs | Some v \<Rightarrow> v))"

subsection \<open>The test bench\<close>

definition cross_max_time :: "int \<Rightarrow> int" where
  "cross_max_time n = (n * 70 + 200) * 10"

definition uart_stimulus :: "string option \<Rightarrow> string" where
  "uart_stimulus interrupt =
     (if interrupt = Some ''uart'' \<or> interrupt = Some ''both''
      then ''repeat (5) @(posedge clk);'' @ [newline] @ ''        drive_rx_byte(8'' @ [CHR 0x27] @ ''hA5);'' else [])"

definition cross_text :: "cross_env \<Rightarrow> int \<Rightarrow> cross_args \<Rightarrow> nat \<Rightarrow> string \<Rightarrow> int \<Rightarrow> string" where
  "cross_text env seed args msize tname n =
     (let c = x_config args
      in replace_all
       [(''__INIT_FILE__'', x_init_file env seed), (''__MAX_TIME__'', show_int (cross_max_time n)),
        (''__OUT_FILE__'', x_out_path env seed), (''__HAZARD_STRATEGY__'', show_int (c_strategy c)),
        (''__PIPELINE_PROFILE__'', show_int (c_profile c)), (''__MEM_SIZE__'', show_int (int msize)),
        (''__DUMP_WINDOW__'', show_int (int (min msize SCALEUP_WINDOW_BYTES))),
        (''__BRANCH_PREDICTOR__'', show_int (c_predictor c)), (''__CACHE_MODE__'', show_int (c_cache c)),
        (''__MEM_LATENCY_I__'', show_int (c_latency_i c)), (''__MEM_LATENCY_D__'', show_int (c_latency_d c)),
        (''__XLEN__'', show_int (int (x_xlen args))), (''__UART_STIMULUS__'', uart_stimulus (x_interrupt args))]
       (x_template env tname))"

subsection \<open>The comparison\<close>

text \<open>\<open>{v:#010x}\<close>.\<close>

definition hex_alt10 :: "int \<Rightarrow> string" where
  "hex_alt10 v = (if v < 0 then ''-0x'' @ zfill 7 (show_base 16 (- v)) else ''0x'' @ zfill 8 (show_base 16 v))"

definition differ :: "(int \<Rightarrow> string) \<Rightarrow> string \<Rightarrow> int \<Rightarrow> int \<Rightarrow> string list" where
  "differ fmt what rtl iss_val =
     (if rtl \<noteq> iss_val then [what @ '': RTL='' @ fmt rtl @ '' ISS='' @ fmt iss_val] else [])"

text \<open>
  The two last values are indexed first, so that the slices below have all their elements when the
  loops read them.
\<close>

definition compare_state :: "iss \<Rightarrow> nat \<Rightarrow> int list \<Rightarrow> string list result" where
  "compare_state s mem_window vals =
     (let w = int mem_window; rtl_regs = py_slice vals 0 32; rtl_mem = py_slice vals 32 (32 + w);
          rtl_fregs = py_slice vals (32 + w) (32 + w + 32)
      in rbind (py_index vals (32 + w + 32)) (\<lambda>rtl_fflags.
         rbind (py_index vals (32 + w + 33)) (\<lambda>rtl_frm.
           Inr (concat (map (\<lambda>i. differ hex_alt (''x'' @ show_int (int i)) (rtl_regs ! i) (regs s ! i)) [0..<32]) @
                concat (map (\<lambda>i. differ hex_alt (''mem['' @ show_int (int i) @ '']'') (rtl_mem ! i) (mem s ! i)) [0..<mem_window]) @
                concat (map (\<lambda>i. differ hex_alt10 (''f'' @ show_int (int i)) (rtl_fregs ! i) (fregs s ! i)) [0..<32]) @
                differ hex_alt ''fflags'' rtl_fflags (fflags s) @ differ hex_alt ''frm'' rtl_frm (frm s)))))"

definition judge :: "iss \<Rightarrow> nat \<Rightarrow> nat \<Rightarrow> string \<Rightarrow> verdict result" where
  "judge s xl mem_window out =
     (let reg_mask = push_bit xl 1 - 1
      in rbind (file_ints out) (\<lambda>raw.
         rbind (compare_state s mem_window (map (\<lambda>v. v AND reg_mask) raw)) (\<lambda>mismatches.
           Inr (if mismatches \<noteq> []
                then Mismatch (join_with ''; '' (take 8 mismatches) @ (if length mismatches > 8 then '' ...'' else []))
                else Passed))))"

subsection \<open>One seed\<close>

definition INTERRUPT_TEMPLATE :: string where "INTERRUPT_TEMPLATE = ''dump_regs_interrupt_template.v''"

definition cross_iss :: "nat \<Rightarrow> nat \<Rightarrow> (int \<times> int) option \<Rightarrow> iss" where
  "cross_iss msize xl info =
     (case info of None \<Rightarrow> iss_init msize xl | Some (after, cause) \<Rightarrow> schedule_interrupt (iss_init msize xl) after cause)"

text \<open>\<open>None\<close> when the instruction-set simulator never returns; every exception of it is caught.\<close>

definition run_one :: "cross_env \<Rightarrow> int \<Rightarrow> cross_args \<Rightarrow> nat \<Rightarrow> string \<Rightarrow> verdict result option" where
  "run_one env seed args msize tname =
     (let xl = x_xlen args; dump_window = min msize SCALEUP_WINDOW_BYTES
      in case gen_program (x_draws env seed) (x_n_instrs args) 32 (int msize) (x_interrupt args) (x_mmu args) xl of
           Inl e \<Rightarrow> Some (Inl e)
         | Inr (text, info) \<Rightarrow>
             (case asm_main (file_lines text) (int dump_window) xl of
                Written image_text \<Rightarrow>
                  (case load_words image_text of
                     Inl e \<Rightarrow> Some (Inl e)
                   | Inr words \<Rightarrow>
                       (case run (cross_iss msize xl info) words 5000 of
                          None \<Rightarrow> None
                        | Some (Inl e) \<Rightarrow> if e = Diverges then None else Some (Inr (IssFailed e))
                        | Some (Inr (_, s)) \<Rightarrow>
                            (case x_simulate env image_text
                                    (cross_text env seed args msize tname
                                       (real_n_instrs env seed (file_lines text) xl (x_n_instrs args))) of
                               CompileError \<Rightarrow> Some (Inr CompileFailed)
                             | SimulationError \<Rightarrow> Some (Inr SimFailed)
                             | Output out \<Rightarrow>
                                 Some (judge s xl (if tname = INTERRUPT_TEMPLATE then dump_window else msize) out))))
              | _ \<Rightarrow> Some (Inr AssemblerFailed)))"

subsection \<open>All seeds\<close>

definition cross_mem_size :: "cross_args \<Rightarrow> nat" where
  "cross_mem_size args =
     (case x_mem_size args of
        Some m \<Rightarrow> m
      | None \<Rightarrow> if x_mmu args then (if x_xlen args = 64 then 16384 else 8192)
                else if x_interrupt args \<noteq> None then 256 else 128)"

definition template_name :: "cross_args \<Rightarrow> string" where
  "template_name args =
     (if x_interrupt args \<noteq> None \<or> x_mmu args \<or> (x_mem_size args \<noteq> None \<and> x_mem_size args \<noteq> Some 128)
      then INTERRUPT_TEMPLATE else ''dump_regs_template.v'')"

fun run_seeds :: "cross_env \<Rightarrow> cross_args \<Rightarrow> int list \<Rightarrow> (int \<times> verdict) list result option" where
  "run_seeds env args [] = Some (Inr [])"
| "run_seeds env args (seed # rest) =
     (case run_one env seed args (cross_mem_size args) (template_name args) of
        None \<Rightarrow> None
      | Some (Inl e) \<Rightarrow> Some (Inl e)
      | Some (Inr v) \<Rightarrow> map_option (\<lambda>r. rbind r (\<lambda>vs. Inr ((seed, v) # vs))) (run_seeds env args rest))"

text \<open>The verdicts of the seeds and the exit status.\<close>

definition cross_main :: "cross_env \<Rightarrow> cross_args \<Rightarrow> ((int \<times> verdict) list \<times> int) result option" where
  "cross_main env args =
     (if x_interrupt args \<noteq> None \<and> x_mmu args then Some (Inr ([], 2))
      else map_option (\<lambda>r. rbind r (\<lambda>vs. Inr (vs, if list_all (\<lambda>(_, v). v = Passed) vs then 0 else 1)))
        (run_seeds env args (map (\<lambda>i. x_seed_start args + i) [0..x_count args - 1])))"

end
