(* ===== verification/Cross_Props.thy ===== *)
theory Cross_Props
  imports Cross_Check Bench_Props Random_Props Reports_Props Asm_Props
begin

text \<open>
  The cross-check: the comparison accepts exactly the dumps of the state the simulator computed,
  the number of instructions is read back from what the assembler prints, and, as images are
  read with the wrong byte order, no test of the driver passes.
\<close>

subsection \<open>The comparison\<close>

text \<open>The part of a state that the templates print.\<close>

definition observable :: "iss \<Rightarrow> nat \<Rightarrow> int list" where
  "observable s w = regs s @ take w (mem s) @ fregs s @ [fflags s, frm s]"

lemma differ_Nil [simp]: "differ fmt what a b = [] \<longleftrightarrow> a = b"
  by (simp add: differ_def)

lemma all_differ_Nil:
  "length xs = n \<Longrightarrow> n \<le> length ys \<Longrightarrow>
     concat (map (\<lambda>i. differ fmt (what i) (xs ! i) (ys ! i)) [0..<n]) = [] \<longleftrightarrow> xs = take n ys"
proof -
  assume l: "length xs = n" "n \<le> length ys"
  have "concat (map (\<lambda>i. differ fmt (what i) (xs ! i) (ys ! i)) [0..<n]) = [] \<longleftrightarrow> (\<forall>i < n. xs ! i = ys ! i)" by auto
  also have "\<dots> \<longleftrightarrow> xs = take n ys"
  proof
    assume "\<forall>i < n. xs ! i = ys ! i"
    with l show "xs = take n ys" by (intro nth_equalityI) simp_all
  qed (use l in auto)
  finally show ?thesis .
qed

lemma compare_exact:
  assumes "length as = 32" "length bs = w" "length cs = 32" "length (regs s) = 32" "length (fregs s) = 32" "w \<le> length (mem s)"
  shows "\<exists>ms. compare_state s w (as @ bs @ cs @ [d, e]) = Inr ms \<and>
    (ms = [] \<longleftrightarrow> as @ bs @ cs @ [d, e] = observable s w)"
proof -
  let ?vs = "as @ bs @ cs @ [d, e]"
  have sl: "py_slice ?vs 0 32 = as" "py_slice ?vs 32 (32 + int w) = bs" "py_slice ?vs (32 + int w) (32 + int w + 32) = cs"
    using assms by (simp_all add: py_slice_def py_bound_in nat_add_distrib)
  have ix: "py_index ?vs (32 + int w + 32) = Inr d" "py_index ?vs (32 + int w + 33) = Inr e"
    using assms by (simp_all add: py_index_def nth_append nat_add_distrib)
  have eq: "?vs = observable s w \<longleftrightarrow> as = regs s \<and> bs = take w (mem s) \<and> cs = fregs s \<and> d = fflags s \<and> e = frm s"
    using assms by (simp add: observable_def)
  show ?thesis unfolding compare_state_def Let_def sl ix eq using assms by (simp add: all_differ_Nil del: concat_eq_Nil_conv)
qed

lemma observable_fits: "iss_wf s \<Longrightarrow> 32 \<le> xlen s \<Longrightarrow> v \<in> set (observable s w) \<Longrightarrow> 0 \<le> v \<and> v < 2 ^ xlen s"
proof -
  assume a: "iss_wf s" "32 \<le> xlen s" "v \<in> set (observable s w)"
  have p: "(2 :: int) ^ 32 \<le> 2 ^ xlen s" using a(2) by (intro power_increasing) simp_all
  from a(3) consider "v \<in> set (regs s)" | "v \<in> set (mem s)" | "v \<in> set (fregs s)" | "v = fflags s" | "v = frm s"
    by (auto simp: observable_def dest: in_set_takeD)
  then show ?thesis using a(1) p by cases (force simp: iss_wf_def list_all_iff)+
qed

text \<open>
  C19. The cross-check compares states exactly. When the Verilog simulation prints the registers, the
  memory window, the floating-point registers and the flags of some well-formed state of the same
  width, the test passes if that state agrees with the simulator's on all of them, and is reported
  as a mismatch otherwise, at every register width from 32 bits up.
\<close>

theorem cross_check_exact:
  assumes "iss_wf s" "iss_wf s'" "xlen s' = xl" "32 \<le> xl" "w \<le> length (mem s)" "w \<le> length (mem s')"
  shows "if observable s' w = observable s w then judge s xl w (number_lines (observable s' w)) = Inr Passed
    else \<exists>msg. judge s xl w (number_lines (observable s' w)) = Inr (Mismatch msg)"
proof -
  have "v AND (push_bit xl 1 - 1) = v" if "v \<in> set (observable s' w)" for v
    using observable_fits [OF assms(2) _ that] assms(3,4) by (simp add: push_bit_eq_mult and_mask_mod)
  then have m: "map (\<lambda>v. v AND (push_bit xl 1 - 1)) (observable s' w) = observable s' w" by (intro map_idI)
  have "length (regs s') = 32" "length (fregs s') = 32" "length (regs s) = 32" "length (fregs s) = 32"
    using assms(1,2) by (simp_all add: iss_wf_def)
  then obtain ms where ms: "compare_state s w (observable s' w) = Inr ms" "ms = [] \<longleftrightarrow> observable s' w = observable s w"
    unfolding observable_def [of s'] using compare_exact [of "regs s'" "take w (mem s')" w "fregs s'" s] assms(5,6) by auto
  show ?thesis unfolding judge_def Let_def file_ints_lines rbind_simps m ms(1) using ms(2) by simp
qed

theorem cross_check_exact_witness:
  "judge (iss_init 8 64) 64 8 (number_lines (observable (iss_init 8 64) 8)) = Inr Passed \<and>
   (\<exists>msg. judge (iss_init 8 64) 64 8
      (number_lines (observable ((iss_init 8 64)\<lparr>regs := (regs (iss_init 8 64))[1 := 2 ^ 40]\<rparr>) 8)) = Inr (Mismatch msg))"
proof -
  let ?s = "iss_init 8 64"
  let ?t = "?s\<lparr>regs := (regs ?s)[1 := 2 ^ 40]\<rparr>"
  have w: "iss_wf ?s" by (rule wf_init) simp_all
  then have t: "iss_wf ?t" by (simp add: iss_wf_def list_all_update) (simp add: iss_init_def list_all_update)
  have m: "8 \<le> length (mem ?s)" "8 \<le> length (mem ?t)" by (simp_all add: iss_init_def)
  have "observable ?t 8 \<noteq> observable ?s 8" by (simp add: observable_def iss_init_def numeral_eq_Suc)
  then show ?thesis using cross_check_exact [OF w w _ _ m(1) m(1), of 64] cross_check_exact [OF w t _ _ m, of 64]
    by (simp add: iss_init_def)
qed

subsection \<open>The number of instructions\<close>

text \<open>Whatever the paths are called, as long as the source path holds no colon, the count that is read is the number of words.\<close>

lemma search_skip: "CHR '':'' \<notin> set p \<Longrightarrow> search_count (p @ s) = search_count s"
  by (induction p) (auto simp: count_at_def)

lemma count_read_back: "CHR '':'' \<notin> set src \<Longrightarrow> search_count (asm_stdout src out words) = Some (int (length words))"
proof -
  assume src: "CHR '':'' \<notin> set src"
  let ?n = "show_base 10 (int (length words))"
  let ?t = "'' instructions -> '' @ out @ [newline]"
  have d: "?n \<noteq> []" "list_all py_digit ?n" "int_digits 10 False ?n 0 = Some (int (length words))"
    using show_base_facts [of 10 "int (length words)"] int_digits_show [of "int (length words)" 10 False] by simp_all
  have "\<not> py_space c" if "py_digit c" for c using that by (simp add: py_digit_def py_space_def Let_def)
  then have r: "dropWhile py_space ('' '' @ ?n @ ?t) = ?n @ ?t"
    using d(1,2) by (cases ?n) (simp_all add: py_space_def)
  have nd: "\<not> py_digit (CHR '' '')" by (simp add: py_digit_def)
  have t: "takeWhile py_digit (?n @ ?t) = ?n" "dropWhile py_digit (?n @ ?t) = ?t"
    using d(2) nd by (simp_all add: list_all_iff takeWhile_append2 dropWhile_append2)
  have s: "py_space (CHR '' '')" "\<not> py_space (CHR ''i'')" by (simp_all add: py_space_def)
  have "count_at (CHR '':'' # '' '' @ ?n @ ?t) = Some (int (length words))"
    unfolding count_at_def list.case Let_def r t using d(1,3) s by simp
  moreover have "asm_stdout src out words = src @ CHR '':'' # '' '' @ ?n @ ?t" by (simp add: asm_stdout_def show_int_def)
  ultimately show ?thesis using search_skip [OF src, of "CHR '':'' # '' '' @ ?n @ ?t"] by simp
qed

subsection \<open>What the driver simulates\<close>

text \<open>The first line of every generated program, in each mode.\<close>

definition FIRST_LINES :: "(string \<times> int) list" where
  "FIRST_LINES =
     [(''addi x31, x0, 32'', 0x02000F93), (''lui x1, 0x0'', 0x000000B7), (''lui   x2, 0x10104'', 0x10104137),
      (''lui   x1, 0x10000'', 0x100000B7), (''lui   x2, 0x10100'', 0x10100137)]"

lemma first_codes: "(l, w) \<in> set FIRST_LINES \<Longrightarrow> codes xl l w"
proof -
  have "is_stmt ''addi x31, x0, 32''" "is_stmt ''lui x1, 0x0''" "is_stmt ''lui   x2, 0x10104''" "is_stmt ''lui   x1, 0x10000''"
    "is_stmt ''lui   x2, 0x10100''" by code_simp+
  moreover have "assemble_stmt ls xl (a, clean_line ''addi x31, x0, 32'') = Inr 0x02000F93"
    "assemble_stmt ls xl (a, clean_line ''lui x1, 0x0'') = Inr 0x000000B7"
    "assemble_stmt ls xl (a, clean_line ''lui   x2, 0x10104'') = Inr 0x10104137"
    "assemble_stmt ls xl (a, clean_line ''lui   x1, 0x10000'') = Inr 0x100000B7"
    "assemble_stmt ls xl (a, clean_line ''lui   x2, 0x10100'') = Inr 0x10100137" for ls a
    by code_simp+
  moreover assume "(l, w) \<in> set FIRST_LINES"
  ultimately show ?thesis unfolding FIRST_LINES_def codes_def by auto
qed

lemma first_facts: "(l, w) \<in> set FIRST_LINES \<Longrightarrow> w \<noteq> 0 \<and> fits w 32 \<and> w div 2 ^ 24 mod 128 \<notin> set OPCODES \<and> newline \<notin> set l \<and> CHR ''_'' \<notin> set l"
  by (auto simp: FIRST_LINES_def OPCODES_def fits_def simp flip: newline_char)

lemma body_first: "g_base c = 32 \<Longrightarrow> \<exists>rest. fst (run_state (gen_body c n) r) = ''addi x31, x0, 32'' # rest"
proof -
  have "stmt ''addi'' [xr BASE_REG, ''x0'', show_int 32] = ''addi x31, x0, 32''" by code_simp
  moreover assume "g_base c = 32"
  ultimately show ?thesis by (simp add: gen_body_def split: prod.splits)
qed

lemma mmu_prefix_first: "\<exists>rest. mmu_prefix xl = ''lui x1, 0x0'' # rest"
proof -
  have "const_to_reg_instrs 1 0x401 = [''lui x1, 0x0'', ''addi x1, x1, 1025'']" by code_simp
  then show ?thesis using replace_absent [of "CHR ''_''" "''lui x1, 0x0''"] unfolding mmu_prefix_def Let_def by auto
qed

lemma interrupt_prefix_first:
  "interrupt_prefix i k = Inr (prefix, cause) \<Longrightarrow> \<exists>l w rest. prefix = l # rest \<and> (l, w) \<in> set FIRST_LINES"
  unfolding interrupt_prefix_def Let_def by (auto simp: FIRST_LINES_def split: if_splits)

lemma first_line:
  assumes "gen_lines rnd n 32 msz interrupt mmu xl = Inr (ls, info)"
  shows "\<exists>l w rest. ls = l # rest \<and> (l, w) \<in> set FIRST_LINES"
proof (cases interrupt)
  case None
  have m: "(''addi x31, x0, 32'', 0x02000F93) \<in> set FIRST_LINES" "(''lui x1, 0x0'', 0x000000B7) \<in> set FIRST_LINES"
    by (simp_all add: FIRST_LINES_def)
  define c where "c = \<lparr>g_xlen = xl, g_base = 32, g_space = (if mmu then min msz 4096 else msz), g_csrs = RG_CSR_NAMES, g_mmu = mmu\<rparr>"
  have ls: "ls = (if mmu then mmu_prefix xl else []) @ fst (run_state (gen_body c n) rnd)"
    using assms None by (auto simp: gen_lines_def Let_def c_def split: if_splits)
  have "g_base c = 32" by (simp add: c_def)
  then show ?thesis using ls body_first [of c n rnd] mmu_prefix_first [of xl] m by (cases mmu) fastforce+
next
  case (Some i)
  obtain k out prefix cause where p: "interrupt_prefix i k = Inr (prefix, cause)"
      "ls = map (py_replace ''__MTVEC_PLACEHOLDER__'' (show_int ((instr_count prefix + instr_count out) * 4))) prefix @
         out @ [''handler:'', ''csrrw x0, mie, x0'', ''mret'']"
    using assms Some by (auto simp: gen_lines_def Let_def rbind_Inr split: if_splits prod.splits)
  obtain l w rest where l: "prefix = l # rest" "(l, w) \<in> set FIRST_LINES" using interrupt_prefix_first [OF p(1)] by blast
  then have "py_replace ''__MTVEC_PLACEHOLDER__'' x l = l" for x
    using first_facts [OF l(2)] by (intro replace_absent) simp
  then show ?thesis using p(2) l by auto
qed

text \<open>The word the simulator starts with is that of the first line, its bytes reversed.\<close>

lemma first_word:
  assumes "gen_program rnd n 32 msz interrupt mmu xl = Inr (text, info)" "assemble (file_lines text) xl = Inr ws"
  shows "ws \<noteq> [] \<and> byte_swap (hd ws) \<noteq> 0 \<and> op_of (byte_swap (hd ws)) \<notin> set OPCODES"
proof -
  obtain ls where ls: "gen_lines rnd n 32 msz interrupt mmu xl = Inr (ls, info)" "text = concat (map (\<lambda>l. l @ [newline]) ls)"
    using assms(1) by (auto simp: gen_program_def rbind_Inr newline_char)
  obtain l w rest where l: "ls = l # rest" "(l, w) \<in> set FIRST_LINES" using first_line [OF ls(1)] by blast
  note f = first_facts [OF l(2)]
  have c: "is_stmt l" "assemble_stmt m xl (a, clean_line l) = Inr w" for m a
    using first_codes [OF l(2)] by (simp_all add: codes_def)
  have "file_lines text = (l @ [newline]) # file_lines (concat (map (\<lambda>l. l @ [newline]) rest))"
    using f ls(2) l(1) by (simp add: file_lines_def file_lines_append)
  moreover have "is_stmt (l @ [newline])" using c(1) by (simp add: is_stmt_def clean_newline)
  ultimately have "length ws \<noteq> 0" "assemble_stmt (labels_of (file_lines text)) xl (0, clean_line l) = Inr (ws ! 0)"
    using assms(2) unfolding assemble_words by (force simp: clean_newline)+
  then have "ws \<noteq> []" "hd ws = w" using c(2) by (simp_all add: hd_conv_nth)
  then show ?thesis using f byte_swap_zero [of w] by (auto simp: byte_swap_op)
qed

lemma run_one_fails: "run_one env seed args msize tname \<noteq> Some (Inr Passed)"
proof
  assume p: "run_one env seed args msize tname = Some (Inr Passed)"
  let ?xl = "x_xlen args" and ?size = "int (min msize SCALEUP_WINDOW_BYTES)"
  obtain prog info where g:
      "gen_program (x_draws env seed) (x_n_instrs args) 32 (int msize) (x_interrupt args) (x_mmu args) ?xl = Inr (prog, info)"
    using p by (auto simp: run_one_def Let_def split: sum.splits)
  obtain img where a: "asm_main (file_lines prog) ?size ?xl = Written img"
    using p g by (auto simp: run_one_def Let_def split: asm_exit.splits)
  then obtain ws where ws: "assemble (file_lines prog) ?xl = Inr ws" "write_mem ws ?size = Inr img"
    by (auto simp: asm_main_def split: sum.splits if_splits)
  note w = first_word [OF g ws(1)] and l = load_words_swaps_bytes [OF ws(2)]
  let ?words = "map byte_swap (ws @ replicate (nat ?size div 4 - length ws) 0)"
  have "?words \<noteq> []" "?words ! 0 = byte_swap (hd ws)" using w by (cases ws; simp)+
  then have "run (cross_iss msize ?xl info) ?words 5000 = Some (Inl RuntimeError)"
    unfolding run_def using w by (intro undefined_loops) (auto simp: cross_iss_def trap_at_zero_init split: option.split)
  with p g a l show False by (simp add: run_one_def Let_def)
qed

text \<open>
  C20. No test of the driver passes. Whatever the seed, the number of instructions, the configuration,
  the mode, the register width and the memory size, and whatever the Verilog simulation prints,
  \<open>run_one\<close> does not return success: \<open>load_words\<close> reverses the bytes of the image, the first word of
  every generated program is then an undefined instruction, and the reference run ends with the
  step limit. Hence the driver never exits with status 0 after testing a seed.
\<close>

theorem random_tests_never_pass:
  "run_one env seed args msize tname \<noteq> Some (Inr Passed) \<and> cross_main env args \<noteq> Some (Inr (v # vs, 0))"
proof
  show "run_one env seed args msize tname \<noteq> Some (Inr Passed)" by (rule run_one_fails)
  have "list_all (\<lambda>(_, v). v \<noteq> Passed) vs" if "run_seeds env args seeds = Some (Inr vs)" for seeds vs
    using that run_one_fails by (induction seeds arbitrary: vs) (auto simp: rbind_Inr split: option.splits sum.splits)
  then show "cross_main env args \<noteq> Some (Inr (v # vs, 0))"
    by (fastforce simp: cross_main_def rbind_Inr split: if_splits)
qed

end
