(* ===== verification/Twin_Step.thy ===== *)
theory Twin_Step
  imports Forward_Run Iss_Priv
begin

text \<open>
  States that differ only in the CSR file and the scheduled interrupt. A straight word, a branch or
  a jump takes such twins to twins, as long as the CSRs it accesses hold the same values.
\<close>

subsection \<open>Other control state\<close>

definition recsr :: "(int \<rightharpoonup> int) \<Rightarrow> (int \<times> int) option \<Rightarrow> iss \<Rightarrow> iss" where
  "recsr c p s = s\<lparr>csr := c, pending_interrupt := p\<rparr>"

lemma recsr_sel [simp]:
  "xlen (recsr c p s) = xlen s" "regs (recsr c p s) = regs s" "mem (recsr c p s) = mem s" "mem_mask (recsr c p s) = mem_mask s"
  "pc (recsr c p s) = pc s" "halted (recsr c p s) = halted s" "csr (recsr c p s) = c" "priv_mode (recsr c p s) = priv_mode s"
  "fregs (recsr c p s) = fregs s" "frm (recsr c p s) = frm s" "fflags (recsr c p s) = fflags s" "pending_interrupt (recsr c p s) = p"
  by (simp_all add: recsr_def)

lemma recsr_upd:
  "(recsr c p s)\<lparr>pc := a\<rparr> = recsr c p (s\<lparr>pc := a\<rparr>)" "(recsr c p s)\<lparr>regs := r\<rparr> = recsr c p (s\<lparr>regs := r\<rparr>)"
  "(recsr c p s)\<lparr>mem := m\<rparr> = recsr c p (s\<lparr>mem := m\<rparr>)" "(recsr c p s)\<lparr>fregs := f\<rparr> = recsr c p (s\<lparr>fregs := f\<rparr>)"
  "(recsr c p s)\<lparr>frm := x\<rparr> = recsr c p (s\<lparr>frm := x\<rparr>)" "(recsr c p s)\<lparr>fflags := y\<rparr> = recsr c p (s\<lparr>fflags := y\<rparr>)"
  by (simp_all add: recsr_def)

lemma recsr_ops:
  "uxlen (recsr c p s) v = uxlen s v" "sxlen (recsr c p s) v = sxlen s v" "reg_a (recsr c p s) w = reg_a s w" "reg_b (recsr c p s) w = reg_b s w"
  "resolve_rm (recsr c p s) f = resolve_rm s f" "load_mem_byte (recsr c p s) a = load_mem_byte s a"
  "wr (recsr c p s) rd v = recsr c p (wr s rd v)" "set_fflags (recsr c p s) fl = recsr c p (set_fflags s fl)"
  "set_freg (recsr c p s) rd v = recsr c p (set_freg s rd v)" "store_mem_byte (recsr c p s) a v = recsr c p (store_mem_byte s a v)"
  by (simp_all add: uxlen_def sxlen_def reg_a_def reg_b_def resolve_rm_def load_mem_byte_def wr_def set_fflags_def set_freg_def
      store_mem_byte_def recsr_upd)

lemma recsr_mem:
  "load_le (recsr c p s) a n = load_le s a n" "store_le (recsr c p s) a v n = recsr c p (store_le s a v n)"
  "load_value (recsr c p s) f3 a = load_value s f3 a" "store_value (recsr c p s) f3 a v = map_sum id (recsr c p) (store_value s f3 a v)"
proof -
  show l: "load_le (recsr c p s) a n = load_le s a n" for a n by (induction n) (simp_all add: recsr_ops)
  show t: "store_le (recsr c p s) a v n = recsr c p (store_le s a v n)" for a v n by (induction n) (simp_all add: recsr_ops)
  show "load_value (recsr c p s) f3 a = load_value s f3 a" by (simp only: load_value_def l recsr_ops)
  show "store_value (recsr c p s) f3 a v = map_sum id (recsr c p) (store_value s f3 a v)" unfolding store_value_def by (simp add: t recsr_ops)
qed

lemma recsr_put:
  "put_f (recsr c p s) rd r = map_sum id (recsr c p) (put_f s rd r)" "put_x (recsr c p s) rd x = map_sum id (recsr c p) (put_x s rd x)"
  by (simp_all add: put_f_def put_x_def recsr_ops split: sum.split prod.split)

lemmas recsr_simps = recsr_upd recsr_ops recsr_mem recsr_put

subsection \<open>Straight words\<close>

lemma recsr_int_arms:
  "step_op (recsr c p s) w = map_sum id (recsr c p) (step_op s w)" "step_op_32 (recsr c p s) w = map_sum id (recsr c p) (step_op_32 s w)"
  "step_op_imm (recsr c p s) w = map_sum id (recsr c p) (step_op_imm s w)"
  "step_op_imm_32 (recsr c p s) w = map_sum id (recsr c p) (step_op_imm_32 s w)"
  "step_lui (recsr c p s) w = map_sum id (recsr c p) (step_lui s w)" "step_branch (recsr c p s) w = map_sum id (recsr c p) (step_branch s w)"
  "step_jal (recsr c p s) w = map_sum id (recsr c p) (step_jal s w)"
  by (simp_all add: step_op_def step_op_32_def step_op_imm_def step_op_imm_32_def step_lui_def step_branch_def step_jal_def
      recsr_simps Let_def split: sum.split)

lemma recsr_mem_arms:
  assumes "priv_mode s = PRIV_M"
  shows "step_load (recsr c p s) w = map_sum id (recsr c p) (step_load s w)" "step_store (recsr c p s) w = map_sum id (recsr c p) (step_store s w)"
    "step_flw (recsr c p s) w = map_sum id (recsr c p) (step_flw s w)" "step_fsw (recsr c p s) w = map_sum id (recsr c p) (step_fsw s w)"
proof -
  have t: "translate (recsr c p s) v acc = (Some (uxlen s v), recsr c p s)" "translate s v acc = (Some (uxlen s v), s)" for v acc
    using assms by (simp_all add: translate_M recsr_ops)
  show "step_load (recsr c p s) w = map_sum id (recsr c p) (step_load s w)" "step_store (recsr c p s) w = map_sum id (recsr c p) (step_store s w)"
    "step_flw (recsr c p s) w = map_sum id (recsr c p) (step_flw s w)" "step_fsw (recsr c p s) w = map_sum id (recsr c p) (step_fsw s w)"
    unfolding step_load_def step_store_def step_flw_def step_fsw_def recsr_ops recsr_sel t
    by (simp_all add: recsr_simps Let_def split: sum.split)
qed

lemma recsr_fp_arms:
  "step_op_fp (recsr c p s) w = map_sum id (recsr c p) (step_op_fp s w)" "step_fmadd (recsr c p s) w = map_sum id (recsr c p) (step_fmadd s w)"
proof -
  have m: "map_sum id (\<lambda>s. s\<lparr>pc := a\<rparr>) (map_sum id (recsr c p) r) = map_sum id (recsr c p) (map_sum id (\<lambda>s. s\<lparr>pc := a\<rparr>) r)" for a and r :: "iss result"
    by (cases r) (simp_all add: recsr_upd)
  have "op_fp (recsr c p s) w = map_sum id (recsr c p) (op_fp s w)"
    unfolding op_fp_def Let_def recsr_ops recsr_sel by (simp add: recsr_put)
  then show "step_op_fp (recsr c p s) w = map_sum id (recsr c p) (step_op_fp s w)" by (simp add: step_op_fp_def m)
  show "step_fmadd (recsr c p s) w = map_sum id (recsr c p) (step_fmadd s w)"
    unfolding step_fmadd_def Let_def recsr_ops recsr_sel by (simp add: recsr_put m)
qed

text \<open>A straight word that is no CSR instruction does not look at the control state.\<close>

lemma recsr_step:
  assumes "priv_mode s = PRIV_M" "straight C w \<and> op_of w \<noteq> 0x73 \<or> op_of w = 0x63 \<or> op_of w = 0x6F"
  shows "step (recsr c p s) w = map_sum id (recsr c p) (step s w)"
proof -
  have j: "op_of w = 0x63 \<Longrightarrow> step s w = step_branch s w" "op_of w = 0x6F \<Longrightarrow> step s w = step_jal s w" for s
    by (auto simp: step_def op_of_0)
  from assms(2) consider "straight C w" "op_of w \<noteq> 0x73" | "op_of w = 0x63" | "op_of w = 0x6F" by blast
  then show ?thesis
  proof cases
    case 1
    then show ?thesis
      using straight_arms [of w] recsr_int_arms [of c p s w] recsr_mem_arms [OF assms(1), of c p w] recsr_fp_arms [of c p s w]
      unfolding straight_def insert_iff empty_iff by (elim conjE disjE) (simp_all add: recsr_upd)
  qed (simp_all add: j recsr_int_arms)
qed

subsection \<open>Twins\<close>

text \<open>States that agree on everything but CSRs outside \<open>K\<close> and the scheduled interrupt.\<close>

definition twin :: "int set \<Rightarrow> iss \<Rightarrow> iss \<Rightarrow> bool" where
  "twin K s t \<longleftrightarrow> t = recsr (csr t) (pending_interrupt t) s \<and> (\<forall>a \<in> K. csr t a = csr s a)"

lemma twin_refl: "twin K s s"
  by (simp add: twin_def recsr_def)

lemma twin_fields:
  assumes "twin K s t"
  shows "xlen t = xlen s" "regs t = regs s" "mem t = mem s" "pc t = pc s" "priv_mode t = priv_mode s" "fregs t = fregs s"
    "frm t = frm s" "fflags t = fflags s" "a \<in> K \<Longrightarrow> csr t a = csr s a"
proof -
  have t: "t = recsr (csr t) (pending_interrupt t) s" using assms by (simp add: twin_def)
  show "xlen t = xlen s" "regs t = regs s" "mem t = mem s" "pc t = pc s" "priv_mode t = priv_mode s" "fregs t = fregs s"
    "frm t = frm s" "fflags t = fflags s" by (subst t, simp)+
  show "a \<in> K \<Longrightarrow> csr t a = csr s a" using assms by (simp add: twin_def)
qed

text \<open>The CSRs whose reads and writes concern the register itself only.\<close>

definition OWN :: "int set" where
  "OWN = - {CSR_SSTATUS, CSR_SIE, CSR_SIP, CSR_MIP}"

definition FCSRS :: "int set" where "FCSRS = {CSR_FFLAGS, CSR_FRM, CSR_FCSR}"

lemma csr_read_twin:
  assumes "twin K s t" "a \<in> K \<union> FCSRS" "a \<in> OWN"
  shows "csr_read t a = csr_read s a"
  using assms twin_fields [OF assms(1)] by (auto simp: csr_read_def OWN_def FCSRS_def csr_at_def)

lemma csr_write_own:
  assumes "a \<in> OWN"
  shows "csr_write s a v = recsr (csr (csr_write s a v)) (pending_interrupt s)
      (s\<lparr>frm := frm (csr_write s a v), fflags := fflags (csr_write s a v)\<rparr>)"
    "b \<noteq> a \<Longrightarrow> csr (csr_write s a v) b = csr s b"
  using assms by (auto simp: csr_write_def csr_store_def csr_put_def OWN_def recsr_def)

lemma csr_write_twin:
  assumes "twin K s t" "a \<in> K \<union> FCSRS" "a \<in> OWN"
  shows "twin K (csr_write s a v) (csr_write t a v)"
proof -
  note f = twin_fields [OF assms(1)]
  have e: "frm (csr_write t a v) = frm (csr_write s a v)" "fflags (csr_write t a v) = fflags (csr_write s a v)"
    using f(7,8) by (simp_all add: csr_write_def csr_store_def csr_put_def Let_def)
  have st: "csr t b = csr s b \<Longrightarrow> csr (csr_store t b x) b = csr (csr_store s b x) b" for b x
    by (simp add: csr_store_def csr_put_def)
  have same: "csr t a = csr s a \<Longrightarrow> csr (csr_write t a v) a = csr (csr_write s a v) a"
    using assms(3) st unfolding csr_write_def OWN_def by auto
  have c: "csr (csr_write t a v) b = csr (csr_write s a v) b" if "b \<in> K" for b
    using f(9) [OF that] same csr_write_own(2) [OF assms(3), of b] by (cases "b = a") simp_all
  have "t = recsr (csr t) (pending_interrupt t) s" using assms(1) by (simp add: twin_def)
  then have u: "t\<lparr>frm := x, fflags := y\<rparr> = recsr (csr t) (pending_interrupt t) (s\<lparr>frm := x, fflags := y\<rparr>)" for x y
    by (metis recsr_upd(5,6))
  have "csr_write t a v = recsr (csr (csr_write t a v)) (pending_interrupt t)
      (recsr (csr t) (pending_interrupt t) (s\<lparr>frm := frm (csr_write s a v), fflags := fflags (csr_write s a v)\<rparr>))"
    using csr_write_own(1) [OF assms(3), of t v] unfolding e u .
  also have "\<dots> = recsr (csr (csr_write t a v)) (pending_interrupt t) (csr_write s a v)"
    by (subst (3) csr_write_own(1) [OF assms(3)]) (simp add: recsr_def)
  finally show ?thesis using c unfolding twin_def by (metis recsr_sel(12))
qed

lemma twin_wr: "twin K s t \<Longrightarrow> twin K ((wr s rd v)\<lparr>pc := a\<rparr>) ((wr t rd v)\<lparr>pc := a\<rparr>)"
proof -
  assume w: "twin K s t"
  then have "t = recsr (csr t) (pending_interrupt t) s" by (simp add: twin_def)
  then have "(wr t rd v)\<lparr>pc := a\<rparr> = recsr (csr t) (pending_interrupt t) ((wr s rd v)\<lparr>pc := a\<rparr>)"
    by (metis recsr_ops(7) recsr_upd(1))
  moreover have "csr ((wr s rd v)\<lparr>pc := a\<rparr>) = csr s" by (simp add: wr_def)
  ultimately show ?thesis using w unfolding twin_def by (metis recsr_sel(7,12))
qed

lemma twin_csr:
  assumes "twin K s t" "iss_wf s" "priv_mode s = PRIV_M" "csr_of w \<in> K \<union> FCSRS" "csr_of w \<in> OWN"
  shows "\<exists>s' t'. step_csr s w = Inr s' \<and> step_csr t w = Inr t' \<and> twin K s' t'"
proof -
  have p: "\<not> priv_mode s < drop_bit 8 (csr_of w) AND 3" using assms(3) and_le_mask [of 3] by (simp add: not_less)
  have a: "reg_a t w = reg_a s w" using twin_fields(2) [OF assms(1)] by (simp add: reg_a_def)
  show ?thesis
    using p csr_read_twin [OF assms(1,4,5)] csr_write_twin [OF assms(1,4,5)] twin_fields(4,5) [OF assms(1)]
    unfolding step_csr_def Let_def csr_of_def [symmetric] a by (auto intro!: twin_wr)
qed

text \<open>A straight word changes no CSR outside \<open>C\<close>, a jump none.\<close>

lemma unseen_csr:
  assumes "priv_mode s = PRIV_M" "straight C w \<and> op_of w \<noteq> 0x73 \<or> op_of w = 0x63 \<or> op_of w = 0x6F" "step s w = Inr s'"
  shows "csr s' = csr s"
proof -
  have e: "recsr (csr s) (pending_interrupt s) s = s" by (simp add: recsr_def)
  have "step s w = map_sum id (recsr (csr s) (pending_interrupt s)) (step s w)"
    using recsr_step [OF assms(1,2), of "csr s" "pending_interrupt s"] unfolding e .
  then show ?thesis using assms(3) by (metis map_sum.simps(2) recsr_sel(7) sum.inject(2))
qed

lemma twin_unseen:
  assumes "twin K s t" "priv_mode s = PRIV_M" "straight C w \<and> op_of w \<noteq> 0x73 \<or> op_of w = 0x63 \<or> op_of w = 0x6F" "step s w = Inr s'"
  shows "\<exists>t'. step t w = Inr t' \<and> twin K s' t'"
proof -
  have "recsr (csr t) (pending_interrupt t) s = t" using assms(1) by (simp add: twin_def)
  then have "step t w = Inr (recsr (csr t) (pending_interrupt t) s')"
    using recsr_step [OF assms(2,3), of "csr t" "pending_interrupt t"] assms(4) by (metis map_sum.simps(2))
  then show ?thesis using unseen_csr [OF assms(2-4)] assms(1) by (simp add: twin_def)
qed

lemma straight_keeps_csr:
  assumes "iss_wf s" "priv_mode s = PRIV_M" "straight C w" "C \<subseteq> OWN" "step s w = Inr s'" "a \<notin> C"
  shows "csr s' a = csr s a"
proof (cases "op_of w = 0x73")
  case True
  then have w: "f3_of w \<noteq> 0" "csr_of w \<in> C" using assms(3) by (auto simp: straight_def)
  then have "step_csr s w = Inr s'" using assms(5) straight_arms(12) [OF True w(1)] by simp
  then obtain v where "csr s' = csr (csr_write s (csr_of w) v)"
    using assms(2) and_le_mask [of 3] by (auto simp: step_csr_def Let_def csr_of_def wr_def not_less [symmetric] split: if_splits)
  then show ?thesis using csr_write_own(2) [of "csr_of w" a] w(2) assms(4,6) by auto
next
  case False
  then show ?thesis using unseen_csr [OF assms(2) _ assms(5), of C] assms(3) by simp
qed

lemma twin_straight:
  assumes "twin K s t" "iss_wf s" "priv_mode s = PRIV_M" "straight C w" "C \<subseteq> (K \<union> FCSRS) \<inter> OWN" "step s w = Inr s'"
  shows "\<exists>t'. step t w = Inr t' \<and> twin K s' t'"
proof (cases "op_of w = 0x73")
  case True
  then have w: "f3_of w \<noteq> 0" "csr_of w \<in> C" using assms(4) by (auto simp: straight_def)
  then show ?thesis using twin_csr [OF assms(1-3), of w] assms(5,6) straight_arms(12) [OF True w(1)] by auto
next
  case False
  then show ?thesis using twin_unseen [OF assms(1,3) _ assms(6)] assms(4) by blast
qed

end
