(* ===== verification/Twin_Run.thy ===== *)
theory Twin_Run
  imports Twin_Step
begin

text \<open>
  A forward program with an interrupt handler behind it. The interrupt may be taken between any two
  instructions; the handler switches its source off and returns, and the run ends as the run
  without the interrupt does.
\<close>

subsection \<open>Iterations of the loop\<close>

lemma fetch_word:
  assumes "priv_mode s = PRIV_M" "pc s = 4 * int k" "k < length W" "4 * int (length W) < 2 ^ xlen s"
  shows "translate s (pc s) Fetch = (Some (4 * int k), s)" "fetch_stops W (4 * int k) \<longleftrightarrow> is_self_loop (W ! k)"
  using assms by (simp_all add: translate_M uxlen_def uXLEN_def and_mask_mod push_bit_eq_mult fetch_stops_def)

lemma loop_next:
  assumes "priv_mode s = PRIV_M" "pc s = 4 * int k" "k < length W" "4 * int (length W) < 2 ^ xlen s"
    "\<not> irq_due (s, n)" "n < mx" "\<not> is_self_loop (W ! k)" "step s (W ! k) = Inr s'"
  shows "run_loop W mx s n = run_loop W mx s' (n + 1)"
  unfolding run_loop_unfold [of W mx s n] loop_body_def using assms(5-8) fetch_word [OF assms(1-4)] by simp

lemma loop_stop:
  assumes "priv_mode s = PRIV_M" "pc s = 4 * int k" "k < length W" "4 * int (length W) < 2 ^ xlen s"
    "\<not> irq_due (s, n)" "n < mx" "is_self_loop (W ! k)"
  shows "run_loop W mx s n = Some (Inr (n, s))"
  unfolding run_loop_unfold [of W mx s n] loop_body_def using assms(5-7) fetch_word [OF assms(1-4)] by simp

lemma loop_irq: "irq_due (s, n) \<Longrightarrow> n < mx \<Longrightarrow> run_loop W mx s n = run_loop W mx (take_irq s) n"
  unfolding run_loop_unfold [of W mx s n] loop_body_def by simp

lemma quiet: "pending_interrupt s = None \<Longrightarrow> \<not> irq_due (s, n)" "\<not> bit (csr_at s CSR_MSTATUS) 3 \<Longrightarrow> \<not> irq_due (s, n)"
  by (auto simp: irq_due_def low_bit split: option.splits)

subsection \<open>The handler\<close>

definition IRQ_CSRS :: "int set" where
  "IRQ_CSRS = {CSR_MSTATUS, CSR_MEPC, CSR_MCAUSE, CSR_MTVAL, CSR_MIE}"

text \<open>\<open>csrrw x0, mie, x0\<close> and \<open>mret\<close>.\<close>

definition HANDLER :: "int list" where "HANDLER = [0x30401073, 0x30200073]"

lemma handler_fields:
  "op_of 0x30401073 = 0x73" "f3_of 0x30401073 = 1" "csr_of 0x30401073 = CSR_MIE" "rd_of 0x30401073 = 0" "rs1_of 0x30401073 = 0"
  "op_of 0x30200073 = 0x73" "f3_of 0x30200073 = 0" "csr_of 0x30200073 = 0x302" "f7_of 0x30200073 \<noteq> 9"
  by code_simp+

lemma clear_mie:
  assumes "iss_wf s" "priv_mode s = PRIV_M"
  shows "step s 0x30401073 = Inr (s\<lparr>csr := (csr s)(CSR_MIE \<mapsto> 0), pc := pc s + 4\<rparr>)"
proof -
  have "reg_a s 0x30401073 = 0" using wf_simps(3) [OF assms(1)] by (simp add: reg_a_def handler_fields)
  moreover have "csr s CSR_MIE \<noteq> None" using assms(1) by (auto simp: iss_wf_def csr_ok_def csr_keys_def)
  ultimately show ?thesis
    using assms(2) by (simp add: straight_arms(12) handler_fields step_csr_def Let_def csr_of_def [symmetric]
        csr_write_def csr_store_def csr_put_def wr_def u32_mod)
qed

lemma return_step: "priv_mode s = PRIV_M \<Longrightarrow> step s 0x30200073 = Inr (mret s)"
  by (simp add: step_def handler_fields step_system_def step_priv_def Let_def csr_of_def [symmetric])

lemma handler_returns:
  assumes "iss_wf s" "priv_mode s = PRIV_M" "pending_interrupt s = Some (after, cause)"
  shows "\<exists>u c. step (take_irq s) 0x30401073 = Inr u \<and> pc u = csr_at s CSR_MTVEC + 4 \<and> priv_mode u = PRIV_M \<and>
    step u 0x30200073 = Inr (recsr c None s) \<and> (\<forall>a. a \<notin> IRQ_CSRS \<longrightarrow> c a = csr s a) \<and> c CSR_MCAUSE = Some (u32 cause)"
proof -
  let ?v = "take_irq s"
  have m: "\<not> takes_to_s s cause" using assms(2) by (simp add: takes_to_s_def)
  have v: "?v = (trap s cause 0)\<lparr>pending_interrupt := None\<rparr>" using assms(3) by (simp add: take_irq_def)
  note f = trap_m_fields [OF m, of 0]
  have pv: "priv_mode ?v = PRIV_M" "pc ?v = csr_at s CSR_MTVEC" using f by (simp_all add: v)
  let ?u = "?v\<lparr>csr := (csr ?v)(CSR_MIE \<mapsto> 0), pc := pc ?v + 4\<rparr>"
  have u: "step ?v 0x30401073 = Inr ?u" by (rule clear_mie [OF wf_take_irq [OF assms(1)] pv(1)])
  have au: "csr_at ?u a = (if a = CSR_MIE then 0 else csr_at (trap s cause 0) a)" for a by (simp add: csr_at_def v)
  have r: "mret ?u = recsr (csr (mret ?u)) None s"
  proof (rule iss.equality)
    show "priv_mode (mret ?u) = priv_mode (recsr (csr (mret ?u)) None s)"
      unfolding mret_fields au using f(6) assms(2) by (simp add: status_bits)
    show "pc (mret ?u) = pc (recsr (csr (mret ?u)) None s)" unfolding mret_fields au using f(3) by simp
  qed (use assms(2) in \<open>simp_all add: v mret_def trap_def Let_def csr_put_def\<close>)
  have c: "csr (mret ?u) a = csr s a" if "a \<notin> IRQ_CSRS" for a
    using that assms(2) by (simp add: v IRQ_CSRS_def mret_def trap_def Let_def csr_put_def)
  have "csr (mret ?u) CSR_MCAUSE = Some (u32 cause)"
    using assms(2) by (simp add: v mret_def trap_def Let_def csr_put_def)
  then show ?thesis using u r c pv return_step [of ?u] by (intro exI [of _ ?u] exI [of _ "csr (mret ?u)"]) simp
qed

subsection \<open>Running twins\<close>

lemma twin_moves:
  assumes "twin K s t" "iss_wf s" "iss_wf t" "priv_mode s = PRIV_M" "moves_on C ws i" "C \<subseteq> (K \<union> FCSRS) \<inter> OWN" "i + 1 < length ws"
    "pc s = b + 4 * int i" "0 \<le> b" "b + 4 * int (length ws) < 2 ^ xlen s"
  obtains s' t' j where "step s (ws ! i) = Inr s'" "step t (ws ! i) = Inr t'" "twin K s' t'" "i < j" "j < length ws"
    "pc s' = b + 4 * int j" "priv_mode s' = PRIV_M" "\<And>a. a \<notin> C \<Longrightarrow> csr s' a = csr s a" "\<And>a. a \<notin> C \<Longrightarrow> csr t' a = csr t a"
proof -
  obtain s' j where s: "step s (ws ! i) = Inr s'" "i < j" "j < length ws" "pc s' = b + 4 * int j" "priv_mode s' = PRIV_M"
    using moves_on_step [OF assms(2,4,5,7-10)] by blast
  have pt: "priv_mode t = PRIV_M" using twin_fields(5) [OF assms(1)] assms(4) by simp
  have o: "C \<subseteq> OWN" using assms(6) by blast
  consider "straight C (ws ! i)" | "op_of (ws ! i) = 0x63 \<or> op_of (ws ! i) = 0x6F" using assms(5) by (auto simp: moves_on_def)
  then show ?thesis
  proof cases
    case 1
    obtain t' where t: "step t (ws ! i) = Inr t'" "twin K s' t'" using twin_straight [OF assms(1,2,4) 1 assms(6) s(1)] by blast
    show ?thesis using that [OF s(1) t s(2-5)] straight_keeps_csr [OF assms(2,4) 1 o s(1)] straight_keeps_csr [OF assms(3) pt 1 o t(1)]
      by blast
  next
    case 2
    then have w: "straight C (ws ! i) \<and> op_of (ws ! i) \<noteq> 0x73 \<or> op_of (ws ! i) = 0x63 \<or> op_of (ws ! i) = 0x6F" by blast
    obtain t' where t: "step t (ws ! i) = Inr t'" "twin K s' t'" using twin_unseen [OF assms(1,4) w s(1)] by blast
    show ?thesis using that [OF s(1) t s(2-5)] unseen_csr [OF assms(4) w s(1)] unseen_csr [OF pt w t(1)] by simp
  qed
qed

lemma program_word: "i < length ws \<Longrightarrow> (pre @ ws @ post) ! (length pre + i) = ws ! i"
  by (simp add: nth_append)

lemma frame_sel: "frame s' = frame s \<Longrightarrow> xlen s' = xlen s \<and> pending_interrupt s' = pending_interrupt s"
  by (simp add: frame_def)

text \<open>One iteration of both runs of a forward program.\<close>

lemma twin_loop:
  assumes "forward_program C ws" "C \<subseteq> (K \<union> FCSRS) \<inter> OWN" "W = pre @ ws @ post" "4 * int (length W) < 2 ^ xlen s"
    "twin K s t" "iss_wf s" "iss_wf t" "priv_mode s = PRIV_M" "pc s = 4 * int (length pre + i)" "i < length ws"
    "\<not> irq_due (s, n)" "\<not> irq_due (t, m)" "n < mx" "m < mx"
  shows "i = length ws - 1 \<and> run_loop W mx s n = Some (Inr (n, s)) \<and> run_loop W mx t m = Some (Inr (m, t)) \<or>
    (\<exists>s' t' j. run_loop W mx s n = run_loop W mx s' (n + 1) \<and> run_loop W mx t m = run_loop W mx t' (m + 1) \<and> twin K s' t' \<and>
      i < j \<and> j < length ws \<and> pc s' = 4 * int (length pre + j) \<and> priv_mode s' = PRIV_M \<and> iss_wf s' \<and> iss_wf t' \<and>
      frame s' = frame s \<and> frame t' = frame t \<and> (\<forall>a. a \<notin> C \<longrightarrow> csr s' a = csr s a) \<and> (\<forall>a. a \<notin> C \<longrightarrow> csr t' a = csr t a))"
proof -
  let ?k = "length pre + i"
  note tf = twin_fields [OF assms(5)]
  have k: "?k < length W" "W ! ?k = ws ! i" "4 * int (length W) < 2 ^ xlen t" "pc t = 4 * int ?k" "priv_mode t = PRIV_M"
    using assms(3,4,8-10) tf program_word by auto
  show ?thesis
  proof (cases "i + 1 < length ws")
    case False
    then have i: "i = length ws - 1" using assms(10) by simp
    then have "is_self_loop (W ! ?k)" using assms(1,10) k(2) by (auto simp: forward_program_def last_conv_nth)
    then show ?thesis
      using i loop_stop [OF assms(8,9) k(1) assms(4,11,13)] loop_stop [OF k(5,4,1,3) assms(12,14)] by blast
  next
    case True
    then have m: "moves_on C ws i" using assms(1) by (simp add: forward_program_def)
    have "pc s = 4 * int (length pre) + 4 * int i" "4 * int (length pre) + 4 * int (length ws) < 2 ^ xlen s"
      using assms(3,4,9) by simp_all
    then obtain s' t' j where st: "step s (ws ! i) = Inr s'" "step t (ws ! i) = Inr t'" "twin K s' t'" "i < j" "j < length ws"
        "pc s' = 4 * int (length pre) + 4 * int j" "priv_mode s' = PRIV_M"
        "\<And>a. a \<notin> C \<Longrightarrow> csr s' a = csr s a" "\<And>a. a \<notin> C \<Longrightarrow> csr t' a = csr t a"
      using twin_moves [OF assms(5-8) m assms(2) True, of "4 * int (length pre)"] by auto
    have "\<not> is_self_loop (W ! ?k)" using moves_on_not_loop [OF m] k(2) by simp
    then have "run_loop W mx s n = run_loop W mx s' (n + 1)" "run_loop W mx t m = run_loop W mx t' (m + 1)"
      using loop_next [OF assms(8,9) k(1) assms(4,11,13)] loop_next [OF k(5,4,1,3) assms(12,14)] st(1,2) k(2) by auto
    moreover have "pc s' = 4 * int (length pre + j)" using st(6) by simp
    ultimately show ?thesis
      using st step_wf [OF assms(6) st(1)] step_wf [OF assms(7) st(2)] step_frame [OF st(1)] step_frame [OF st(2)] by blast
  qed
qed

lemma csr_at_cong: "csr s' a = csr s a \<Longrightarrow> csr_at s' a = csr_at s a"
  by (simp add: csr_at_def)

text \<open>Without an interrupt both runs take the same number of steps.\<close>

lemma twin_run:
  assumes fp: "forward_program C ws" "C \<subseteq> (K \<union> FCSRS) \<inter> OWN" "W = pre @ ws @ post"
  shows "4 * int (length W) < 2 ^ xlen s \<Longrightarrow> twin K s t \<Longrightarrow> iss_wf s \<Longrightarrow> iss_wf t \<Longrightarrow> priv_mode s = PRIV_M \<Longrightarrow>
    pc s = 4 * int (length pre + i) \<Longrightarrow> i < length ws \<Longrightarrow> pending_interrupt s = None \<Longrightarrow> pending_interrupt t = None \<Longrightarrow>
    n + int (length ws - i) \<le> mx \<Longrightarrow> m + int (length ws - i) \<le> mx \<Longrightarrow>
    \<exists>d s' t'. run_loop W mx s n = Some (Inr (n + d, s')) \<and> run_loop W mx t m = Some (Inr (m + d, t')) \<and> twin K s' t' \<and>
      0 \<le> d \<and> d < int (length ws - i) \<and> pc s' = 4 * int (length pre + length ws - 1) \<and> pending_interrupt s' = None \<and>
      (\<forall>a. a \<notin> C \<longrightarrow> csr s' a = csr s a)"
proof (induction "length ws - i" arbitrary: s t i n m rule: less_induct)
  case less
  have lt: "n < mx" "m < mx" using less.prems(7,10,11) by linarith+
  note q = quiet(1) [OF less.prems(8)] quiet(1) [OF less.prems(9)]
  from twin_loop [OF fp less.prems(1-7) q lt] show ?case
  proof (elim disjE exE conjE)
    assume "i = length ws - 1" "run_loop W mx s n = Some (Inr (n, s))" "run_loop W mx t m = Some (Inr (m, t))"
    then show ?thesis using less.prems by (intro exI [of _ 0] exI [of _ s] exI [of _ t]) auto
  next
    fix s' t' j
    assume st: "run_loop W mx s n = run_loop W mx s' (n + 1)" "run_loop W mx t m = run_loop W mx t' (m + 1)" "twin K s' t'"
      "i < j" "j < length ws" "pc s' = 4 * int (length pre + j)" "priv_mode s' = PRIV_M" "iss_wf s'" "iss_wf t'"
      "frame s' = frame s" "frame t' = frame t" "\<forall>a. a \<notin> C \<longrightarrow> csr s' a = csr s a"
    have "\<exists>d s'' t''. run_loop W mx s' (n + 1) = Some (Inr (n + 1 + d, s'')) \<and> run_loop W mx t' (m + 1) = Some (Inr (m + 1 + d, t'')) \<and>
      twin K s'' t'' \<and> 0 \<le> d \<and> d < int (length ws - j) \<and> pc s'' = 4 * int (length pre + length ws - 1) \<and>
      pending_interrupt s'' = None \<and> (\<forall>a. a \<notin> C \<longrightarrow> csr s'' a = csr s' a)"
      using less.prems st frame_sel [OF st(10)] frame_sel [OF st(11)] by (intro less.hyps) auto
    then obtain d s'' t'' where "run_loop W mx s' (n + 1) = Some (Inr (n + 1 + d, s''))" "run_loop W mx t' (m + 1) = Some (Inr (m + 1 + d, t''))"
      "twin K s'' t''" "0 \<le> d" "d < int (length ws - j)" "pc s'' = 4 * int (length pre + length ws - 1)"
      "pending_interrupt s'' = None" "\<forall>a. a \<notin> C \<longrightarrow> csr s'' a = csr s' a" by blast
    then show ?thesis using st(1,2,4,5,12) by (intro exI [of _ "d + 1"] exI [of _ s''] exI [of _ t'']) (auto simp: ac_simps)
  qed
qed

text \<open>Taking the interrupt: two more steps, and the run goes on where it was.\<close>

lemma irq_detour:
  assumes "W = pre @ ws @ HANDLER" "4 * int (length W) < 2 ^ xlen s" "iss_wf s" "priv_mode s = PRIV_M"
    "pending_interrupt s = Some (after, cause)" "csr_at s CSR_MTVEC = 4 * int (length pre + length ws)" "irq_due (s, n)" "n + 2 \<le> mx"
  shows "\<exists>c. run_loop W mx s n = run_loop W mx (recsr c None s) (n + 2) \<and> iss_wf (recsr c None s) \<and>
    (\<forall>a. a \<notin> IRQ_CSRS \<longrightarrow> c a = csr s a) \<and> c CSR_MCAUSE = Some (u32 cause)"
proof -
  let ?v = "take_irq s" and ?k = "length pre + length ws"
  obtain u c where u: "step ?v 0x30401073 = Inr u" "pc u = csr_at s CSR_MTVEC + 4" "priv_mode u = PRIV_M"
      "step u 0x30200073 = Inr (recsr c None s)" "\<forall>a. a \<notin> IRQ_CSRS \<longrightarrow> c a = csr s a" "c CSR_MCAUSE = Some (u32 cause)"
    using handler_returns [OF assms(3-5)] by blast
  have m: "\<not> takes_to_s s cause" using assms(4) by (simp add: takes_to_s_def)
  have v: "priv_mode ?v = PRIV_M" "pc ?v = 4 * int ?k" "pending_interrupt ?v = None" "xlen ?v = xlen s"
    using trap_m_fields [OF m, of 0] assms(5,6) frame_sel [of "trap s cause 0" s] by (simp_all add: take_irq_def)
  have w: "?k < length W" "?k + 1 < length W" "W ! ?k = 0x30401073" "W ! (?k + 1) = 0x30200073"
    using assms(1) by (simp_all add: HANDLER_def nth_append)
  have nl: "\<not> is_self_loop 0x30401073" "\<not> is_self_loop 0x30200073" by code_simp+
  have wf: "iss_wf ?v" "iss_wf u" "iss_wf (recsr c None s)"
    using wf_take_irq [OF assms(3)] step_wf u(1,4) by blast+
  have xu: "xlen u = xlen s" "pending_interrupt u = None" using frame_sel [OF step_frame [OF u(1)]] v by auto
  have "run_loop W mx s n = run_loop W mx ?v n" using loop_irq [OF assms(7)] assms(8) by simp
  also have "\<dots> = run_loop W mx u (n + 1)"
    using loop_next [OF v(1,2) w(1), of n mx u] v(4) assms(2,8) quiet(1) [OF v(3)] w(3) nl(1) u(1) by simp
  also have "\<dots> = run_loop W mx (recsr c None s) (n + 2)"
    using loop_next [OF u(3) _ w(2), of "n + 1" mx "recsr c None s"] u(2,4) assms(2,6,8) xu quiet(1) [OF xu(2)] w(4) nl(2) by (simp add: add.commute)
  finally show ?thesis using u(5,6) wf(3) by blast
qed

lemma irq_run:
  assumes fp: "forward_program C ws" "C \<subseteq> (K \<union> FCSRS) \<inter> OWN" "W = pre @ ws @ HANDLER"
    and c: "C \<inter> IRQ_CSRS = {}" "CSR_MTVEC \<notin> C" "K \<inter> IRQ_CSRS = {}"
  shows "4 * int (length W) < 2 ^ xlen s \<Longrightarrow> twin K s t \<Longrightarrow> iss_wf s \<Longrightarrow> iss_wf t \<Longrightarrow> priv_mode s = PRIV_M \<Longrightarrow>
    pc s = 4 * int (length pre + i) \<Longrightarrow> i < length ws \<Longrightarrow> pending_interrupt s = Some (after, cause) \<Longrightarrow> pending_interrupt t = None \<Longrightarrow>
    bit (csr_at s CSR_MSTATUS) 3 \<Longrightarrow> csr_at s CSR_MTVEC = 4 * int (length pre + length ws) \<Longrightarrow>
    n + int (length ws - i) + 2 \<le> mx \<Longrightarrow> n + int (length ws - i) \<le> mx \<Longrightarrow>
    \<exists>k s' k' t'. run_loop W mx s n = Some (Inr (k, s')) \<and> run_loop W mx t n = Some (Inr (k', t')) \<and> twin K s' t' \<and>
      k' < n + int (length ws - i) \<and> pc s' = 4 * int (length pre + length ws - 1) \<and>
      (if pending_interrupt s' = None then k = k' + 2 \<and> csr s' CSR_MCAUSE = Some (u32 cause) else k = k' \<and> k < after)"
proof (induction "length ws - i" arbitrary: s t i n rule: less_induct)
  case less
  have lt: "n < mx" using less.prems(7,13) by linarith
  note q = quiet(1) [OF less.prems(9)]
  show ?case
  proof (cases "irq_due (s, n)")
    case True
    have "n + 2 \<le> mx" using less.prems(12) by linarith
    from irq_detour [OF fp(3) less.prems(1,3,5,8,11) True this] obtain d where
      d: "run_loop W mx s n = run_loop W mx (recsr d None s) (n + 2)" "iss_wf (recsr d None s)"
        "\<And>a. a \<notin> IRQ_CSRS \<Longrightarrow> d a = csr s a" "d CSR_MCAUSE = Some (u32 cause)" by blast
    have "d a = csr s a" if "a \<in> K" for a using d(3) [of a] c(3) that by blast
    then have "twin K (recsr d None s) t" using less.prems(2) by (simp add: twin_def recsr_def)
    from twin_run [OF fp, of "recsr d None s" t i "n + 2" mx n] this d(2) less.prems
    obtain e s' t' where "run_loop W mx (recsr d None s) (n + 2) = Some (Inr (n + 2 + e, s'))" "run_loop W mx t n = Some (Inr (n + e, t'))"
      "twin K s' t'" "0 \<le> e" "e < int (length ws - i)" "pc s' = 4 * int (length pre + length ws - 1)" "pending_interrupt s' = None"
      "\<forall>a. a \<notin> C \<longrightarrow> csr s' a = csr (recsr d None s) a" by auto
    moreover have "CSR_MCAUSE \<notin> C" using c(1) by (auto simp: IRQ_CSRS_def)
    ultimately show ?thesis unfolding d(1) using d(4) by (intro exI [of _ "n + 2 + e"] exI [of _ s'] exI [of _ "n + e"] exI [of _ t']) simp
  next
    case False
    have after: "n < after" using False less.prems(8,10) by (auto simp: irq_due_def low_bit)
    from twin_loop [OF fp less.prems(1-7) False q lt lt] show ?thesis
    proof (elim disjE exE conjE)
      assume "i = length ws - 1" "run_loop W mx s n = Some (Inr (n, s))" "run_loop W mx t n = Some (Inr (n, t))"
      then show ?thesis using less.prems after by (intro exI [of _ n] exI [of _ s] exI [of _ n] exI [of _ t]) auto
    next
      fix s' t' j
      assume st: "run_loop W mx s n = run_loop W mx s' (n + 1)" "run_loop W mx t n = run_loop W mx t' (n + 1)" "twin K s' t'"
        "i < j" "j < length ws" "pc s' = 4 * int (length pre + j)" "priv_mode s' = PRIV_M" "iss_wf s'" "iss_wf t'"
        "frame s' = frame s" "frame t' = frame t" "\<forall>a. a \<notin> C \<longrightarrow> csr s' a = csr s a"
      have k: "csr_at s' CSR_MSTATUS = csr_at s CSR_MSTATUS" "csr_at s' CSR_MTVEC = csr_at s CSR_MTVEC"
        using st(12) c(1,2) by (auto simp: IRQ_CSRS_def intro!: csr_at_cong)
      have "\<exists>k s'' k' t''. run_loop W mx s' (n + 1) = Some (Inr (k, s'')) \<and> run_loop W mx t' (n + 1) = Some (Inr (k', t'')) \<and> twin K s'' t'' \<and>
        k' < n + 1 + int (length ws - j) \<and> pc s'' = 4 * int (length pre + length ws - 1) \<and>
        (if pending_interrupt s'' = None then k = k' + 2 \<and> csr s'' CSR_MCAUSE = Some (u32 cause) else k = k' \<and> k < after)"
        using less.prems st frame_sel [OF st(10)] frame_sel [OF st(11)] k by (intro less.hyps) auto
      then show ?thesis using st(1,2,4,5) by fastforce
    qed
  qed
qed

end
