(* ===== verification/Irq_Prefix.thy ===== *)
theory Irq_Prefix
  imports Random_Const Asm_Modules Twin_Run
begin

text \<open>
  The prefix that the generator puts before a program with an interrupt: it installs the handler,
  arms the source and enables interrupts. Until its last instruction interrupts are disabled, so
  the runs with and without a scheduled interrupt agree.
\<close>

subsection \<open>Assembling lists of statements\<close>

lemma stmts_no_labels: "list_all is_stmt ls \<Longrightarrow> label_names ls = []"
  by (auto simp: label_names_def list_all_iff)

lemma stmts_append:
  assumes "assemble xs xl = Inr us" "assemble ys xl = Inr vs" "list_all is_stmt xs" "list_all is_stmt ys"
  shows "assemble (xs @ ys) xl = Inr (us @ vs)"
  using assms by (intro assemble_append) (simp_all add: stmts_no_labels named_labels_def)

lemma falls_assemble:
  assumes "list_all (fall_line C xl) ls"
  shows "\<exists>ws. assemble ls xl = Inr ws \<and> length ws = length ls \<and> list_all (straight C) ws"
  using assms
proof (induction ls)
  case (Cons l ls)
  then obtain ws where ws: "assemble ls xl = Inr ws" "length ws = length ls" "list_all (straight C) ws" by auto
  have l: "fall_line C xl l" "list_all is_stmt ls" using Cons.prems by (auto simp: fall_line_def list_all_iff)
  then obtain w where w: "assemble_stmt (labels_of [l]) xl (0, clean_line l) = Inr w" "straight C w" by (auto simp: fall_line_def)
  have "assemble [l] xl = Inr [w]" using w(1) l(1) by (simp add: assemble_words fall_line_def)
  from stmts_append [OF this ws(1)] l w(2) ws show ?case by (intro exI [of _ "w # ws"]) (simp add: fall_line_def)
qed (simp add: assemble_words)

lemma codes_single: "codes xl l w \<Longrightarrow> assemble [l] xl = Inr [w]"
  by (rule codes_assemble) simp

lemma fall_codes: "codes xl l w \<Longrightarrow> tidy l \<Longrightarrow> straight C w \<Longrightarrow> fall_line C xl l"
  by (simp add: codes_def fall_line_def)

subsection \<open>The lines of the prefix\<close>

text \<open>The lines that are the same in every program, with their words.\<close>

definition SETUP_LUI :: "(string \<times> int) list" where
  "SETUP_LUI =
     [(''lui   x1, 0x10000'', 0x100000B7), (''lui   x2, 0x10104'', 0x10104137), (''lui   x2, 0x10100'', 0x10100137),
      (''csrrw x0, mie, x6'', 0x30431073)]"

definition SETUP_ADDI :: "(string \<times> int) list" where
  "SETUP_ADDI =
     [(''addi  x6, x0, 128'', 0x08000313), (''addi  x6, x0, -2048'', 0x80000313), (''addi  x6, x0, 8'', 0x00800313),
      (''addi  x6, x0, -1920'', 0x88000313), (''addi  x7, x0, 1'', 0x00100393), (''addi  x8, x0, 1'', 0x00100413)]"

definition SETUP_STORE :: "(string \<times> int) list" where
  "SETUP_STORE = [(''sw    x7, 0(x2)'', 0x00712023), (''sw    x8, 4(x1)'', 0x0080A223)]"

definition ENABLE :: "(string \<times> int) list" where
  "ENABLE = [(''csrrw x0, mtvec, x5'', 0x30529073), (''csrrsi x0, mstatus, 8'', 0x30046073)]"

definition fixed_at :: "label_map \<Rightarrow> nat \<Rightarrow> int \<Rightarrow> string \<times> int \<Rightarrow> bool" where
  "fixed_at ls xl a = (\<lambda>(l, w). is_stmt l \<and> tidy l \<and> CHR ''_'' \<notin> set l \<and> assemble_stmt ls xl (a, clean_line l) = Inr w)"

lemma fixed_tables:
  "list_all (fixed_at ls xl a) SETUP_LUI" "list_all (fixed_at ls xl a) SETUP_ADDI"
  "list_all (fixed_at ls xl a) SETUP_STORE" "list_all (fixed_at ls xl a) ENABLE"
  by code_simp+

lemma fixed_words:
  "list_all (\<lambda>(l, w). op_of w = 0x37 \<or> op_of w = 0x73 \<and> f3_of w \<noteq> 0 \<and> csr_of w = CSR_MIE) SETUP_LUI"
  "list_all (\<lambda>(l, w). op_of w = 0x13) SETUP_ADDI" "list_all (\<lambda>(l, w). op_of w = 0x23 \<and> f3_of w < 4) SETUP_STORE"
  by code_simp+

definition SETUP :: "(string \<times> int) list" where
  "SETUP = SETUP_LUI @ SETUP_ADDI @ SETUP_STORE"

lemma fixed_line:
  assumes "(l, w) \<in> set (SETUP @ ENABLE)"
  shows "codes xl l w" "tidy l" "CHR ''_'' \<notin> set l"
proof -
  have "fixed_at ls xl a (l, w)" for ls a
    using fixed_tables [of ls xl a] assms by (auto simp: SETUP_def list_all_iff)
  then show "codes xl l w" "tidy l" "CHR ''_'' \<notin> set l" by (auto simp: fixed_at_def codes_def)
qed

lemma setup_falls:
  assumes "(l, w) \<in> set SETUP"
  shows "fall_line {CSR_MIE} xl l"
proof -
  have "straight {CSR_MIE} w"
    using fixed_words assms by (auto simp: SETUP_def list_all_iff straight_def undefined_alu_def)
  moreover have "(l, w) \<in> set (SETUP @ ENABLE)" using assms by simp
  ultimately show ?thesis using fall_codes [OF fixed_line(1) fixed_line(2)] by blast
qed

subsection \<open>The shape of the prefix\<close>

lemma no_underscore:
  "CHR ''_'' \<notin> set (show_int v)" "0 \<le> v \<Longrightarrow> CHR ''_'' \<notin> set (hex0x v)"
proof -
  have b: "0 \<le> n \<Longrightarrow> 2 \<le> b \<Longrightarrow> b \<le> 16 \<Longrightarrow> CHR ''_'' \<notin> set (show_base b n)" for b n
    using show_base_facts(2) [of b n] by (auto simp: list_all_iff is_digit_def py_alnum_def py_digit_def py_upper_def)
  show "CHR ''_'' \<notin> set (show_int v)" using b by (auto simp: show_int_def)
  show "0 \<le> v \<Longrightarrow> CHR ''_'' \<notin> set (hex0x v)" using b by (auto simp: hex0x_def show_hex_def)
qed

lemma const_no_underscore: "l \<in> set (const_to_reg_instrs rd bits) \<Longrightarrow> CHR ''_'' \<notin> set l"
  using no_underscore mask12_range by (auto simp: const_to_reg_instrs_def Let_def stmt_def xr_def split: if_splits)

text \<open>A line of the prefix that does not touch the interrupt state but for \<open>mie\<close>.\<close>

definition quiet_line :: "nat \<Rightarrow> string \<Rightarrow> bool" where
  "quiet_line xl l \<longleftrightarrow> fall_line {CSR_MIE} xl l \<and> CHR ''_'' \<notin> set l"

lemma quiet_const: "fits rd 5 \<Longrightarrow> list_all (quiet_line xl) (const_to_reg_instrs rd bits)"
  using const_falls [of rd "{CSR_MIE}" xl bits] const_no_underscore by (auto simp: quiet_line_def list_all_iff)

lemma quiet_setup: "l \<in> set (map fst SETUP) \<Longrightarrow> quiet_line xl l"
  using setup_falls fixed_line(3) unfolding quiet_line_def by fastforce

text \<open>Setting up the source around the installation of the handler; enabling interrupts comes last.\<close>

lemma prefix_shape:
  assumes "interrupt_prefix i k = Inr (prefix, cause)"
  obtains A B where "prefix = A @ [''addi  x5, x0, __MTVEC_PLACEHOLDER__'', ''csrrw x0, mtvec, x5''] @ B @ [''csrrsi x0, mstatus, 8'']"
    "list_all (quiet_line xl) A" "list_all (quiet_line xl) B" "length prefix \<le> 12"
proof -
  let ?c = "const_to_reg_instrs 7 (100 + k * 10)"
  have c: "list_all (quiet_line xl) ?c" by (rule quiet_const) (simp add: fits_def)
  have l: "length ?c \<le> 2" by (simp add: const_to_reg_instrs_def Let_def)
  note q = quiet_setup [of _ xl, unfolded SETUP_def SETUP_LUI_def SETUP_ADDI_def SETUP_STORE_def, simplified]
  consider "prefix = [''lui   x2, 0x10104''] @ [''addi  x5, x0, __MTVEC_PLACEHOLDER__'', ''csrrw x0, mtvec, x5''] @
      ([''addi  x6, x0, 128'', ''csrrw x0, mie, x6''] @ ?c @ [''sw    x7, 0(x2)'']) @ [''csrrsi x0, mstatus, 8'']"
    | "prefix = [''lui   x1, 0x10000''] @ [''addi  x5, x0, __MTVEC_PLACEHOLDER__'', ''csrrw x0, mtvec, x5''] @
      [''addi  x6, x0, -2048'', ''csrrw x0, mie, x6'', ''addi  x8, x0, 1'', ''sw    x8, 4(x1)''] @ [''csrrsi x0, mstatus, 8'']"
    | "prefix = [''lui   x2, 0x10100''] @ [''addi  x5, x0, __MTVEC_PLACEHOLDER__'', ''csrrw x0, mtvec, x5''] @
      [''addi  x6, x0, 8'', ''csrrw x0, mie, x6'', ''addi  x7, x0, 1'', ''sw    x7, 0(x2)''] @ [''csrrsi x0, mstatus, 8'']"
    | "prefix = [''lui   x1, 0x10000'', ''lui   x2, 0x10104''] @ [''addi  x5, x0, __MTVEC_PLACEHOLDER__'', ''csrrw x0, mtvec, x5''] @
      ([''addi  x6, x0, -1920'', ''csrrw x0, mie, x6''] @ ?c @ [''sw    x7, 0(x2)'', ''addi  x8, x0, 1'', ''sw    x8, 4(x1)'']) @
      [''csrrsi x0, mstatus, 8'']"
    using assms unfolding interrupt_prefix_def Let_def by (simp split: if_splits)
  then show ?thesis
  proof cases
    case 1 show ?thesis using c l q by (intro that [OF 1]) (simp_all add: 1)
  next
    case 2 show ?thesis using q by (intro that [OF 2]) (simp_all add: 2)
  next
    case 3 show ?thesis using q by (intro that [OF 3]) (simp_all add: 3)
  next
    case 4 show ?thesis using c l q by (intro that [OF 4]) (simp_all add: 4)
  qed
qed

subsection \<open>The address of the handler\<close>

definition mtvec_line :: "int \<Rightarrow> string" where
  "mtvec_line h = ''addi  x5, x0, '' @ show_int h"

lemma replace_mtvec: "py_replace ''__MTVEC_PLACEHOLDER__'' (show_int h) ''addi  x5, x0, __MTVEC_PLACEHOLDER__'' = mtvec_line h"
  by (simp add: py_replace.simps mtvec_line_def)

lemma replace_quiet: "list_all (quiet_line xl) ls \<Longrightarrow> map (py_replace ''__MTVEC_PLACEHOLDER__'' new) ls = ls"
  using replace_absent [of "CHR ''_''"] by (intro map_idI) (auto simp: quiet_line_def list_all_iff)

lemma codes_cong:
  assumes "codes xl l w" "is_stmt l'" "re_split (py_strip (clean_line l')) = re_split (py_strip (clean_line l))"
  shows "codes xl l' w"
  using assms by (simp add: codes_def assemble_stmt_def)

lemma mtvec_text:
  shows "tidy (mtvec_line h)" "is_stmt (mtvec_line h)" "re_split (py_strip (clean_line (mtvec_line h))) = [''addi'', ''x5'', ''x0'', show_int h]"
proof -
  let ?ops = "[''x5'', ''x0'', show_int h]" and ?l = "mtvec_line h"
  have p: "list_all plain ?ops" "plain ''addi''" using show_int_plain [of h] by (simp_all, simp_all add: plain_def sep_char_def py_space_def)
  have l: "?l = ''addi'' @ '' '' @ '' '' @ comma_list ?ops" by (simp add: mtvec_line_def)
  have d: "\<not> py_space c \<and> c \<noteq> CHR ''#'' \<and> c \<noteq> CHR '':''" if "c \<in> set (show_int h)" for c
    using that show_int_plain [of h] plain_space [of "show_int h"] by (auto simp: plain_def list_all_iff)
  have e: "last ?l \<in> set (show_int h)" using show_int_plain [of h] by (simp add: mtvec_line_def plain_def)
  have m: "newline \<notin> set ''addi  x5, x0, ''" "CHR ''#'' \<notin> set ''addi  x5, x0, ''" "\<not> py_space (CHR ''a'')" "py_space newline" by code_simp+
  have n: "newline \<notin> set ?l" "CHR ''#'' \<notin> set ?l"
    using m d unfolding mtvec_line_def set_append by blast+
  have f: "?l \<noteq> []" "\<not> py_space (hd ?l)" using m(3) by (simp_all add: mtvec_line_def)
  show s: "tidy ?l" "is_stmt ?l" using clean_text [OF f _ n(2)] d [OF e] n(1) f(1) by (simp_all add: tidy_def)
  have "re_split ?l = ''addi'' # re_split (comma_list ?ops)"
    unfolding l by (subst re_split.simps) (simp add: sep_char_def py_space_def)
  then show "re_split (py_strip (clean_line ?l)) = ''addi'' # ?ops"
    using s(1) split_comma_list [OF _ p(1)] by (simp only: tidy_def) simp
qed

lemma mtvec_loads:
  assumes "0 \<le> h" "h < 2048" "xl = 32 \<or> xl = 64"
  obtains w where "codes xl (mtvec_line h) w" "straight {CSR_MIE} w" "\<And>s. iss_wf s \<Longrightarrow> xlen s = xl \<Longrightarrow> step s w = Inr (put_reg 5 h s)"
proof -
  have k: "has_key I_TYPE ''addi''" by code_simp
  have x: "xr 5 = ''x5''" "xr 0 = ''x0''" by code_simp+
  have f: "fits 5 5" "fits 0 5" "(5::int) \<noteq> 0" by (simp_all add: fits_def)
  let ?l = "stmt ''addi'' [xr 5, xr 0, show_int h]"
  have b: "- 2048 \<le> h" using assms(1) by simp
  from execute_addi [OF f(1,3,2) b assms(2), of xl] obtain ws where ws: "list_all2 (codes xl) [?l] ws"
      "\<And>s. iss_wf s \<Longrightarrow> xlen s = xl \<Longrightarrow> steps s ws = Inr (put_reg 5 (regs s ! 0 + h) s)"
    unfolding executes_def by auto
  then obtain w where w: "ws = [w]" "codes xl ?l w" by (auto simp: list_all2_Cons1)
  have "fall_line {CSR_MIE} xl ?l" by (rule fall_i [OF k _ f(1,2) b assms(2)]) simp
  then have st: "straight {CSR_MIE} w" using w(2) by (auto simp: fall_line_def codes_def)
  have t: "re_split (py_strip (clean_line ?l)) = [''addi'', xr 5, xr 0, show_int h]"
    using stmt_clean [of "''addi''" "[xr 5, xr 0, show_int h]"] key_good [OF k good_names(3)] by (simp add: tokens good_name_def)
  have c: "codes xl (mtvec_line h) w" using codes_cong [OF w(2) mtvec_text(2)] mtvec_text(3) t unfolding x by simp
  have "step s w = Inr (put_reg 5 h s)" if "iss_wf s" "xlen s = xl" for s
    using ws(2) [OF that] wf_simps(3) [OF that(1)] by (cases "step s w") (simp_all add: w(1))
  with c st show ?thesis by (rule that)
qed

subsection \<open>The words of the prefix\<close>

lemma prefix_assembles:
  assumes "interrupt_prefix i k = Inr (prefix, cause)" "0 \<le> h" "h < 2048" "xl = 32 \<or> xl = 64"
  obtains qa w qb where
    "assemble (map (py_replace ''__MTVEC_PLACEHOLDER__'' (show_int h)) prefix) xl = Inr (qa @ [w, 0x30529073] @ qb @ [0x30046073])"
    "list_all (straight {CSR_MIE}) qa" "list_all (straight {CSR_MIE}) qb" "straight {CSR_MIE} w"
    "\<And>s. iss_wf s \<Longrightarrow> xlen s = xl \<Longrightarrow> step s w = Inr (put_reg 5 h s)" "length qa + length qb + 3 = length prefix"
    "list_all (\<lambda>l. tidy l \<and> is_stmt l) (map (py_replace ''__MTVEC_PLACEHOLDER__'' (show_int h)) prefix)"
proof -
  obtain A B where p: "prefix = A @ [''addi  x5, x0, __MTVEC_PLACEHOLDER__'', ''csrrw x0, mtvec, x5''] @ B @ [''csrrsi x0, mstatus, 8'']"
    "list_all (quiet_line xl) A" "list_all (quiet_line xl) B"
    by (rule prefix_shape [OF assms(1)])
  obtain w where w: "codes xl (mtvec_line h) w" "straight {CSR_MIE} w" "\<And>s. iss_wf s \<Longrightarrow> xlen s = xl \<Longrightarrow> step s w = Inr (put_reg 5 h s)"
    using mtvec_loads [OF assms(2-4)] by blast
  have e: "(''csrrw x0, mtvec, x5'', 0x30529073) \<in> set (SETUP @ ENABLE)" "(''csrrsi x0, mstatus, 8'', 0x30046073) \<in> set (SETUP @ ENABLE)"
    by (simp_all add: ENABLE_def)
  note ce = fixed_line(1) [OF e(1)] fixed_line(1) [OF e(2)] and te = fixed_line(2) [OF e(1)] fixed_line(2) [OF e(2)]
  have r: "map (py_replace ''__MTVEC_PLACEHOLDER__'' (show_int h)) prefix =
      A @ [mtvec_line h, ''csrrw x0, mtvec, x5''] @ B @ [''csrrsi x0, mstatus, 8'']"
    using replace_absent [OF fixed_line(3) [OF e(1)], of "''_MTVEC_PLACEHOLDER__''"]
      replace_absent [OF fixed_line(3) [OF e(2)], of "''_MTVEC_PLACEHOLDER__''"]
    by (simp add: p(1) replace_quiet [OF p(2)] replace_quiet [OF p(3)] replace_mtvec)
  have q: "list_all (fall_line {CSR_MIE} xl) A" "list_all (fall_line {CSR_MIE} xl) B" using p(2,3) by (auto simp: quiet_line_def list_all_iff)
  have s: "list_all (\<lambda>l. tidy l \<and> is_stmt l) A" "list_all (\<lambda>l. tidy l \<and> is_stmt l) B"
    using q by (auto simp: fall_line_def list_all_iff)
  obtain qa qb where qa: "assemble A xl = Inr qa" "length qa = length A" "list_all (straight {CSR_MIE}) qa"
    and qb: "assemble B xl = Inr qb" "length qb = length B" "list_all (straight {CSR_MIE}) qb"
    using falls_assemble q by blast
  have c: "list_all2 (codes xl) [mtvec_line h, ''csrrw x0, mtvec, x5''] [w, 0x30529073]" using w(1) ce by simp
  have st: "is_stmt ''csrrw x0, mtvec, x5''" "is_stmt ''csrrsi x0, mstatus, 8''" "is_stmt (mtvec_line h)"
    using ce [of xl] w(1) by (simp_all add: codes_def)
  have all: "list_all is_stmt A" "list_all is_stmt B" using s by (auto simp: list_all_iff)
  have wa: "assemble (A @ [mtvec_line h, ''csrrw x0, mtvec, x5''] @ B @ [''csrrsi x0, mstatus, 8'']) xl = Inr (qa @ [w, 0x30529073] @ qb @ [0x30046073])"
    by (intro stmts_append qa(1) qb(1) codes_assemble [OF c] codes_single [OF ce(2)]) (use st all in simp_all)
  have ta: "list_all (\<lambda>l. tidy l \<and> is_stmt l) (A @ [mtvec_line h, ''csrrw x0, mtvec, x5''] @ B @ [''csrrsi x0, mstatus, 8''])"
    using s st te mtvec_text(1) by simp
  have "length qa + length qb + 3 = length prefix" using p(1) qa(2) qb(2) by simp
  with wa ta qa(3) qb(3) w(2,3) show ?thesis unfolding r [symmetric] by (intro that)
qed

lemma strip_last: "py_strip l = l \<Longrightarrow> l \<noteq> [] \<Longrightarrow> \<not> py_space (last l)"
  using hd_dropWhile [of py_space "rev (dropWhile py_space l)"] unfolding py_strip_def by (metis hd_rev rev_is_Nil_conv rev_rev_ident)

lemma counted_line: "tidy l \<Longrightarrow> (let t = dropWhile py_space (rev l) in t = [] \<or> hd t \<noteq> CHR '':'') \<longleftrightarrow> is_stmt l"
proof -
  assume t: "tidy l"
  then have "l \<noteq> []" "\<not> py_space (last l)" using strip_last [of l] by (auto simp: tidy_def)
  then have "dropWhile py_space (rev l) = rev l" by (cases l rule: rev_cases) auto
  then show ?thesis using t by (simp add: is_stmt_def tidy_def hd_rev)
qed

lemma instr_count_words:
  assumes "list_all tidy ls" "assemble ls xl = Inr ws"
  shows "instr_count ls = int (length ws)"
proof -
  have "instr_count ls = int (length (filter is_stmt ls))"
    unfolding instr_count_def using assms(1) by (intro arg_cong [where f = "\<lambda>x. int (length x)"] filter_cong refl) (auto simp: list_all_iff counted_line)
  then show ?thesis using assms(2) by (auto simp: assemble_words)
qed

lemma prefix_count:
  assumes "interrupt_prefix i k = Inr (prefix, cause)"
  shows "instr_count prefix = int (length prefix)" "length prefix \<le> 12"
proof -
  obtain A B where p: "prefix = A @ [''addi  x5, x0, __MTVEC_PLACEHOLDER__'', ''csrrw x0, mtvec, x5''] @ B @ [''csrrsi x0, mstatus, 8'']"
    "list_all (quiet_line 32) A" "list_all (quiet_line 32) B" "length prefix \<le> 12"
    by (rule prefix_shape [OF assms])
  have c: "instr_count [''addi  x5, x0, __MTVEC_PLACEHOLDER__'', ''csrrw x0, mtvec, x5''] = 2" "instr_count [''csrrsi x0, mstatus, 8''] = 1"
    by code_simp+
  have a: "instr_count (xs @ ys) = instr_count xs + instr_count ys" for xs ys by (simp add: instr_count_def)
  have q: "instr_count ls = int (length ls)" if "list_all (quiet_line 32) ls" for ls
    using that counted_line unfolding instr_count_def by (induction ls) (auto simp: quiet_line_def fall_line_def)
  show "instr_count prefix = int (length prefix)" unfolding p(1) a c q [OF p(2)] q [OF p(3)] by simp
  show "length prefix \<le> 12" by (rule p(4))
qed

end
