(* ===== verification/Random_Irq.thy ===== *)
theory Random_Irq
  imports Random_Props Irq_Prefix
begin

text \<open>
  Generated programs with an interrupt: the run with the interrupt scheduled at any step ends in
  the state of the run without it, the trap registers apart.
\<close>

subsection \<open>Running the prefix\<close>

text \<open>Both runs at word \<open>k\<close>, the states equal but for the scheduled interrupt.\<close>

definition paired :: "int list \<Rightarrow> nat \<Rightarrow> iss \<Rightarrow> iss \<Rightarrow> bool" where
  "paired W k s t \<longleftrightarrow> twin UNIV s t \<and> iss_wf s \<and> iss_wf t \<and> priv_mode s = PRIV_M \<and> pc s = 4 * int k \<and> 4 * int (length W) < 2 ^ xlen s"

definition goes :: "int list \<Rightarrow> nat \<Rightarrow> iss \<Rightarrow> iss \<Rightarrow> nat \<Rightarrow> iss \<Rightarrow> iss \<Rightarrow> bool" where
  "goes W k s t k' s' t' \<longleftrightarrow> paired W k' s' t' \<and> frame s' = frame s \<and> frame t' = frame t \<and>
     (\<forall>mx. int k' \<le> mx \<longrightarrow> run_loop W mx s (int k) = run_loop W mx s' (int k') \<and> run_loop W mx t (int k) = run_loop W mx t' (int k'))"

lemma goes_trans: "goes W k s t k' s' t' \<Longrightarrow> goes W k' s' t' k'' s'' t'' \<Longrightarrow> k' \<le> k'' \<Longrightarrow> goes W k s t k'' s'' t''"
  unfolding goes_def by force

lemma quiet_step:
  assumes "paired W k s t" "straight C (W ! k)" "C \<subseteq> OWN" "k < length W" "\<not> bit (csr_at s CSR_MSTATUS) 3"
  obtains s' t' where "step s (W ! k) = Inr s'" "step t (W ! k) = Inr t'" "goes W k s t (k + 1) s' t'" "\<And>a. a \<notin> C \<Longrightarrow> csr s' a = csr s a"
proof -
  have p: "twin UNIV s t" "iss_wf s" "iss_wf t" "priv_mode s = PRIV_M" "pc s = 4 * int k" "4 * int (length W) < 2 ^ xlen s"
    using assms(1) by (simp_all add: paired_def)
  note tf = twin_fields [OF p(1)]
  obtain s' where s: "step s (W ! k) = Inr s'" "falls s s'" by (rule straight_step [OF p(2,4) assms(2)])
  have "C \<subseteq> (UNIV \<union> FCSRS) \<inter> OWN" using assms(3) by blast
  from twin_straight [OF p(1,2,4) assms(2) this s(1)] obtain t' where t: "step t (W ! k) = Inr t'" "twin UNIV s' t'" by blast
  have nl: "\<not> is_self_loop (W ! k)" using assms(2) by (auto simp: straight_def self_loop_op)
  have mt: "\<not> bit (csr_at t CSR_MSTATUS) 3" using assms(5) csr_at_cong [OF tf(9) [of CSR_MSTATUS]] by simp
  have pt: "priv_mode t = PRIV_M" "pc t = 4 * int k" "4 * int (length W) < 2 ^ xlen t" using p tf by simp_all
  have "run_loop W mx s (int k) = run_loop W mx s' (int (k + 1)) \<and> run_loop W mx t (int k) = run_loop W mx t' (int (k + 1))" if "int (k + 1) \<le> mx" for mx
    using loop_next [OF p(4,5) assms(4) p(6) quiet(2) [OF assms(5)] _ nl s(1), of "int k" mx]
      loop_next [OF pt(1,2) assms(4) pt(3) quiet(2) [OF mt] _ nl t(1), of "int k" mx] that by (simp add: add.commute)
  moreover have "paired W (k + 1) s' t'"
    using t(2) step_wf [OF p(2) s(1)] step_wf [OF p(3) t(1)] s(2) p(4-6) frame_xlen [OF step_frame [OF s(1)]] by (simp add: paired_def falls_def)
  ultimately have "goes W k s t (k + 1) s' t'" using step_frame [OF s(1)] step_frame [OF t(1)] by (simp add: goes_def)
  then show ?thesis using that s(1) t(1) straight_keeps_csr [OF p(2,4) assms(2,3) s(1)] by blast
qed

lemma quiet_at:
  assumes "paired W k s t" "W ! k = w" "straight {c} w" "{c} \<subseteq> OWN" "k < length W" "\<not> bit (csr_at s CSR_MSTATUS) 3"
  shows "\<exists>s' t'. step s w = Inr s' \<and> goes W k s t (k + 1) s' t' \<and> (\<forall>a. a \<noteq> c \<longrightarrow> csr s' a = csr s a)"
  using quiet_step [OF assms(1) _ assms(4-6)] assms(2,3) by (metis singletonD)

lemma quiet_words:
  assumes "CSR_MSTATUS \<notin> C" "C \<subseteq> OWN"
  shows "paired W k s t \<Longrightarrow> list_all (straight C) ws \<Longrightarrow> W = pre @ ws @ post \<Longrightarrow> k = length pre \<Longrightarrow> \<not> bit (csr_at s CSR_MSTATUS) 3 \<Longrightarrow>
    \<exists>s' t'. goes W k s t (k + length ws) s' t' \<and> (\<forall>a. a \<notin> C \<longrightarrow> csr s' a = csr s a)"
proof (induction ws arbitrary: k s t pre)
  case Nil
  then show ?case by (intro exI [of _ s] exI [of _ t]) (simp add: goes_def)
next
  case (Cons w ws)
  have w: "W ! k = w" "k < length W" "straight C w" using Cons.prems(2-4) by simp_all
  obtain s' t' where s: "goes W k s t (k + 1) s' t'" "\<And>a. a \<notin> C \<Longrightarrow> csr s' a = csr s a"
    using quiet_step [OF Cons.prems(1) _ assms(2) w(2) Cons.prems(5)] w(1,3) by metis
  have "\<not> bit (csr_at s' CSR_MSTATUS) 3" using Cons.prems(5) csr_at_cong [OF s(2) [OF assms(1)]] by simp
  then have "\<exists>s'' t''. goes W (k + 1) s' t' (k + 1 + length ws) s'' t'' \<and> (\<forall>a. a \<notin> C \<longrightarrow> csr s'' a = csr s' a)"
    using s(1) Cons.prems(2-4) by (intro Cons.IH [of "k + 1" s' t' "pre @ [w]"]) (simp_all add: goes_def)
  then obtain s'' t'' where "goes W (k + 1) s' t' (k + 1 + length ws) s'' t''" "\<forall>a. a \<notin> C \<longrightarrow> csr s'' a = csr s' a" by blast
  then show ?case using goes_trans [OF s(1)] s(2) by (intro exI [of _ s''] exI [of _ t'']) simp
qed

text \<open>Installing the handler and enabling interrupts.\<close>

lemma enable_fields:
  "op_of 0x30529073 = 0x73" "f3_of 0x30529073 = 1" "csr_of 0x30529073 = CSR_MTVEC" "rd_of 0x30529073 = 0" "rs1_of 0x30529073 = 5"
  "op_of 0x30046073 = 0x73" "f3_of 0x30046073 = 6" "csr_of 0x30046073 = CSR_MSTATUS" "rd_of 0x30046073 = 0" "rs1_of 0x30046073 = 8"
  by code_simp+

lemma install_step:
  assumes "iss_wf s" "priv_mode s = PRIV_M" "step s 0x30529073 = Inr s'"
  shows "csr_at s' CSR_MTVEC = u32 (regs s ! 5)"
proof -
  have "csr s CSR_MTVEC \<noteq> None" using assms(1) by (auto simp: iss_wf_def csr_ok_def csr_keys_def)
  then show ?thesis
    using assms(2,3) by (auto simp: straight_arms(12) enable_fields step_csr_def Let_def csr_of_def [symmetric] reg_a_def
        csr_write_def csr_store_def csr_put_def wr_def csr_at_def)
qed

lemma enable_step:
  assumes "iss_wf s" "priv_mode s = PRIV_M" "step s 0x30046073 = Inr s'"
  shows "bit (csr_at s' CSR_MSTATUS) 3"
proof -
  have k: "csr s CSR_MSTATUS \<noteq> None" using assms(1) by (auto simp: iss_wf_def csr_ok_def csr_keys_def)
  have b: "bit (u32 ((v OR 8) AND MSTATUS_MASK)) 3" for v by (simp add: u32_def bit_simps)
  then show ?thesis
    using assms(2,3) k by (auto simp: straight_arms(12) enable_fields step_csr_def Let_def csr_of_def [symmetric]
        csr_write_def csr_store_def csr_put_def wr_def csr_at_def)
qed

lemma enable_straight: "straight {CSR_MTVEC} 0x30529073" "straight {CSR_MSTATUS} 0x30046073"
  by (intro straight_csr; simp add: enable_fields)+

lemma prefix_runs:
  assumes "paired W 0 s t" "W = (qa @ [w, 0x30529073] @ qb @ [0x30046073]) @ rest"
    "list_all (straight {CSR_MIE}) qa" "list_all (straight {CSR_MIE}) qb" "straight {CSR_MIE} w"
    "\<And>s. iss_wf s \<Longrightarrow> xlen s = xl \<Longrightarrow> step s w = Inr (put_reg 5 h s)" "xlen s = xl" "xl = 32 \<or> xl = 64" "0 \<le> h" "h < 2048"
    "\<not> bit (csr_at s CSR_MSTATUS) 3"
  obtains s' t' where "goes W 0 s t (length qa + length qb + 3) s' t'" "csr_at s' CSR_MTVEC = h" "bit (csr_at s' CSR_MSTATUS) 3"
proof -
  let ?m = "\<lambda>s. bit (csr_at s CSR_MSTATUS) 3"
  have o: "{CSR_MIE} \<subseteq> OWN" "{CSR_MTVEC} \<subseteq> OWN" "{CSR_MSTATUS} \<subseteq> OWN" by (simp_all add: OWN_def)
  have m: "CSR_MSTATUS \<notin> {CSR_MIE}" by simp
  define a where "a = length qa"
  define b where "b = length qb"
  have at: "W ! a = w" "W ! (a + 1) = 0x30529073" "W ! (a + 2 + b) = 0x30046073" "a + 2 + b < length W"
    by (simp_all add: assms(2) a_def b_def nth_append)
  have la: "a < length W" "a + 1 < length W" using at(4) by simp_all
  obtain s1 t1 where 1: "goes W 0 s t a s1 t1" "\<And>c. c \<noteq> CSR_MIE \<Longrightarrow> csr s1 c = csr s c"
    using quiet_words [OF m o(1) assms(1,3) _ _ assms(11), of "[]" "[w, 0x30529073] @ qb @ [0x30046073] @ rest"] assms(2) unfolding a_def
    by (simp only: append_Nil append_assoc list.size add_0 singleton_iff) blast
  have m1: "\<not> ?m s1" using assms(11) csr_at_cong [OF 1(2) [of CSR_MSTATUS]] by simp
  have p1: "paired W a s1 t1" "xlen s1 = xl" "iss_wf s1" using 1(1) assms(7) frame_xlen [of s1 s] by (simp_all add: goes_def paired_def)
  obtain s2 t2 where 2: "step s1 w = Inr s2" "goes W a s1 t1 (a + 1) s2 t2" "\<And>c. c \<noteq> CSR_MIE \<Longrightarrow> csr s2 c = csr s1 c"
    using quiet_at [OF p1(1) at(1) assms(5) o(1) la(1) m1] by blast
  have m2: "\<not> ?m s2" using m1 csr_at_cong [OF 2(3) [of CSR_MSTATUS]] by simp
  have p2: "paired W (a + 1) s2 t2" "iss_wf s2" "priv_mode s2 = PRIV_M" using 2(2) by (simp_all add: goes_def paired_def)
  have "s2 = put_reg 5 h s1" using assms(6) [OF p1(3,2)] 2(1) by simp
  moreover have "5 < length (regs s1)" using p1(3) by (auto simp: iss_wf_def)
  ultimately have h: "regs s2 ! 5 = h" using p1(2) assms(8-10) by (auto simp: put_reg_def)
  obtain s3 t3 where 3: "step s2 0x30529073 = Inr s3" "goes W (a + 1) s2 t2 (a + 2) s3 t3" "\<And>c. c \<noteq> CSR_MTVEC \<Longrightarrow> csr s3 c = csr s2 c"
    using quiet_at [OF p2(1) at(2) enable_straight(1) o(2) la(2) m2] by auto
  have m3: "\<not> ?m s3" using m2 csr_at_cong [OF 3(3) [of CSR_MSTATUS]] by simp
  have v3: "csr_at s3 CSR_MTVEC = h" using install_step [OF p2(2,3) 3(1)] assms(9,10) h by (simp add: u32_mod)
  have p3: "paired W (a + 2) s3 t3" using 3(2) by (simp add: goes_def)
  obtain s4 t4 where 4: "goes W (a + 2) s3 t3 (a + 2 + b) s4 t4" "\<And>c. c \<noteq> CSR_MIE \<Longrightarrow> csr s4 c = csr s3 c"
    using quiet_words [OF m o(1) p3 assms(4) _ _ m3, of "qa @ [w, 0x30529073]" "[0x30046073] @ rest"] assms(2) unfolding a_def b_def
    by (simp only: append_assoc singleton_iff, simp, blast)
  have m4: "\<not> ?m s4" using m3 csr_at_cong [OF 4(2) [of CSR_MSTATUS]] by simp
  have p4: "paired W (a + 2 + b) s4 t4" "iss_wf s4" "priv_mode s4 = PRIV_M" using 4(1) by (simp_all add: goes_def paired_def)
  obtain s5 t5 where 5: "step s4 0x30046073 = Inr s5" "goes W (a + 2 + b) s4 t4 (a + 2 + b + 1) s5 t5" "\<And>c. c \<noteq> CSR_MSTATUS \<Longrightarrow> csr s5 c = csr s4 c"
    using quiet_at [OF p4(1) at(3) enable_straight(2) o(3) at(4) m4] by blast
  have "csr_at s5 CSR_MTVEC = h" using v3 csr_at_cong [OF 4(2) [of CSR_MTVEC]] csr_at_cong [OF 5(3) [of CSR_MTVEC]] by simp
  moreover have "goes W 0 s t (a + 2 + b + 1) s5 t5"
    using goes_trans [OF goes_trans [OF goes_trans [OF goes_trans [OF 1(1) 2(2)] 3(2)] 4(1)] 5(2)] by simp
  ultimately show ?thesis using that [of s5 t5] enable_step [OF p4(2,3) 5(1)] by (simp add: a_def b_def eval_nat_numeral)
qed

subsection \<open>The whole program\<close>

lemma strip_head: "\<not> py_space c \<Longrightarrow> py_strip (c # x) = c # rev (dropWhile py_space (rev x))"
  by (cases "\<forall>d \<in> set x. py_space d") (auto simp: py_strip_def dropWhile_append)

lemma underscore_name: "isl (py_int0 (py_strip (CHR ''_'' # x)))" "hd (py_strip (CHR ''_'' # x)) = CHR ''_''"
proof -
  have u: "\<not> py_space (CHR ''_'')" by code_simp
  show "hd (py_strip (CHR ''_'' # x)) = CHR ''_''" by (simp add: strip_head [OF u])
  have "int_body (CHR ''_'' # y) = None" for y by (cases y) (simp_all add: int_body_def)
  then show "isl (py_int0 (py_strip (CHR ''_'' # x)))" by (simp add: py_int0_def strip_head [OF u])
qed

lemma body_labels:
  assumes "\<forall>l \<in> set ls. body_line l"
  shows "named_labels ls" "n \<in> set (label_names ls) \<Longrightarrow> hd n = CHR ''_''"
proof -
  have "\<exists>k. n = py_strip (CHR ''_'' # k)" if n: "n \<in> set (label_names ls)" for n
  proof -
    obtain l where l: "l \<in> set ls" "\<not> is_stmt l" "n = py_strip (butlast (clean_line l))" using n by (auto simp: label_names_def)
    then obtain k where "l = ''__'' @ k @ '':''" "clean_line l = l" using assms by (auto simp: body_line_def tidy_def)
    then show ?thesis using l(3) by (auto simp: butlast_append)
  qed
  then show "named_labels ls" "n \<in> set (label_names ls) \<Longrightarrow> hd n = CHR ''_''"
    using underscore_name by (fastforce simp: named_labels_def list_all_iff)+
qed

lemma handler_lines:
  "assemble [''handler:'', ''csrrw x0, mie, x0'', ''mret''] xl = Inr HANDLER" "label_names [''handler:'', ''csrrw x0, mie, x0'', ''mret''] = [''handler'']"
  "isl (py_int0 ''handler'')" "list_all tidy [''handler:'', ''csrrw x0, mie, x0'', ''mret'']"
  by code_simp+

definition PROGRAM_CSRS :: "int set" where
  "PROGRAM_CSRS = {CSR_FFLAGS, CSR_FRM, CSR_FCSR, CSR_MSCRATCH}"

lemma irq_config:
  assumes "xl = 32 \<or> xl = 64"
  shows "config_ok PROGRAM_CSRS \<lparr>g_xlen = xl, g_base = b, g_space = m,
    g_csrs = filter (\<lambda>n. n \<notin> {''mstatus'', ''mepc'', ''mcause'', ''mtvec''}) RG_CSR_NAMES, g_mmu = False\<rparr>"
proof -
  have f: "filter (\<lambda>n. n \<notin> {''mstatus'', ''mepc'', ''mcause'', ''mtvec''}) RG_CSR_NAMES = [''mscratch'']" by code_simp
  have l: "csr_lookup ''mscratch'' = Inr CSR_MSCRATCH" "asm_u CSR_MSCRATCH 12 = CSR_MSCRATCH" "''mscratch'' \<in> set RG_CSR_NAMES" by code_simp+
  show ?thesis unfolding f config_ok_def using assms l by (simp add: PROGRAM_CSRS_def)
qed

lemma interrupt_lines:
  assumes "gen_lines rnd n base_addr mem_size (Some src) False xl = Inr (ls, info)"
  obtains k rnd' prefix cause out h where "1 \<le> n" "interrupt_prefix src k = Inr (prefix, cause)"
    "out = fst (run_state (gen_body \<lparr>g_xlen = xl, g_base = base_addr, g_space = mem_size,
       g_csrs = filter (\<lambda>n. n \<notin> {''mstatus'', ''mepc'', ''mcause'', ''mtvec''}) RG_CSR_NAMES, g_mmu = False\<rparr> n) rnd')"
    "h = (instr_count prefix + instr_count out) * 4"
    "ls = map (py_replace ''__MTVEC_PLACEHOLDER__'' (show_int h)) prefix @ out @ [''handler:'', ''csrrw x0, mie, x0'', ''mret'']"
proof -
  define c where "c = \<lparr>g_xlen = xl, g_base = base_addr, g_space = mem_size,
    g_csrs = filter (\<lambda>n. n \<notin> {''mstatus'', ''mepc'', ''mcause'', ''mtvec''}) RG_CSR_NAMES, g_mmu = False\<rparr>"
  obtain k r where k: "run_state (randint 1 n) rnd = (k, r)" by fastforce
  obtain out r' where o: "run_state (gen_body c n) r = (out, r')" by fastforce
  have "1 \<le> n" "\<exists>prefix cause. interrupt_prefix src k = Inr (prefix, cause) \<and>
      ls = map (py_replace ''__MTVEC_PLACEHOLDER__'' (show_int ((instr_count prefix + instr_count out) * 4))) prefix @ out @
        [''handler:'', ''csrrw x0, mie, x0'', ''mret'']"
    using assms o unfolding gen_lines_def c_def by (auto simp: rbind_Inr Let_def k split: if_splits)
  then show ?thesis using that [of k] o unfolding c_def by (metis fst_conv)
qed

lemma interrupt_program:
  assumes "gen_program rnd n base_addr mem_size (Some src) False xl = Inr (text, info)" "xl = 32 \<or> xl = 64" "n \<le> 450"
    "- 2048 \<le> base_addr" "base_addr < 2048"
  obtains qa w qb bw h where
    "assemble (file_lines text) xl = Inr ((qa @ [w, 0x30529073] @ qb @ [0x30046073]) @ bw @ HANDLER)"
    "list_all (straight {CSR_MIE}) qa" "list_all (straight {CSR_MIE}) qb" "straight {CSR_MIE} w"
    "\<And>s. iss_wf s \<Longrightarrow> xlen s = xl \<Longrightarrow> step s w = Inr (put_reg 5 h s)" "forward_program PROGRAM_CSRS bw"
    "h = 4 * int (length qa + length qb + 3 + length bw)" "0 \<le> h" "h < 2048"
proof -
  define c where "c = \<lparr>g_xlen = xl, g_base = base_addr, g_space = mem_size,
    g_csrs = filter (\<lambda>n. n \<notin> {''mstatus'', ''mepc'', ''mcause'', ''mtvec''}) RG_CSR_NAMES, g_mmu = False\<rparr>"
  let ?h = "[''handler:'', ''csrrw x0, mie, x0'', ''mret'']"
  obtain ls where ls: "gen_lines rnd n base_addr mem_size (Some src) False xl = Inr (ls, info)" "text = concat (map (\<lambda>l. l @ [newline]) ls)"
    using assms(1) by (auto simp: gen_program_def rbind_Inr newline_char)
  obtain k rnd' prefix cause out h where g: "1 \<le> n" "interrupt_prefix src k = Inr (prefix, cause)" and
      out_def: "out = fst (run_state (gen_body c n) rnd')" and h_def: "h = (instr_count prefix + instr_count out) * 4" and
      l: "ls = map (py_replace ''__MTVEC_PLACEHOLDER__'' (show_int h)) prefix @ out @ ?h"
    unfolding c_def by (rule interrupt_lines [OF ls(1)])
  let ?p = "map (py_replace ''__MTVEC_PLACEHOLDER__'' (show_int h)) prefix"
  have tx: "text = concat (map (\<lambda>l. l @ [newline]) (?p @ out @ ?h))" using ls(2) l by simp
  have ok: "config_ok PROGRAM_CSRS c" unfolding c_def by (rule irq_config [OF assms(2)])
  have n: "0 \<le> n" "n < 900" using g(1) assms(3) by simp_all
  obtain bw where bw: "\<forall>l \<in> set out. body_line l" "assemble out xl = Inr bw" "forward_program PROGRAM_CSRS bw"
      "int (length bw) = n + (if xl \<ge> 64 then 23 else 15)"
    using pred_state_run_state [OF body_forward [OF ok _ _ n], of rnd'] assms(4,5) unfolding out_def c_def by auto
  have tb: "list_all tidy out" using bw(1) by (auto simp: body_line_def list_all_iff)
  have h: "h = 4 * int (length prefix + length bw)" using prefix_count(1) [OF g(2)] instr_count_words [OF tb bw(2)] by (simp add: h_def)
  then have r: "0 \<le> h" "h < 2048" using prefix_count(2) [OF g(2)] bw(4) assms(3) by (simp_all split: if_splits)
  obtain qa w qb where q: "assemble ?p xl = Inr (qa @ [w, 0x30529073] @ qb @ [0x30046073])"
      "list_all (straight {CSR_MIE}) qa" "list_all (straight {CSR_MIE}) qb" "straight {CSR_MIE} w"
      "\<And>s. iss_wf s \<Longrightarrow> xlen s = xl \<Longrightarrow> step s w = Inr (put_reg 5 h s)" "length qa + length qb + 3 = length prefix"
      "list_all (\<lambda>l. tidy l \<and> is_stmt l) ?p"
    using prefix_assembles [OF g(2) r assms(2)] by blast
  have np: "label_names ?p = []" using stmts_no_labels [of ?p] q(7) by (simp add: list_all_iff)
  note nb = body_labels [OF bw(1)]
  have "set (label_names out) \<inter> set (label_names ?h) = {}" using nb(2) handler_lines(2) by fastforce
  then have oh: "assemble (out @ ?h) xl = Inr (bw @ HANDLER)"
    using assemble_append [OF bw(2) handler_lines(1)] nb(1) handler_lines(2,3) by (simp add: named_labels_def)
  have "label_names (out @ ?h) = label_names out @ label_names ?h" by (simp add: label_names_def)
  then have "named_labels (out @ ?h)" using nb(1) handler_lines(2,3) by (simp add: named_labels_def)
  then have a: "assemble (?p @ out @ ?h) xl = Inr ((qa @ [w, 0x30529073] @ qb @ [0x30046073]) @ bw @ HANDLER)"
    using assemble_append [OF q(1) oh] np by (simp only: named_labels_def) simp
  have nl: "newline \<notin> set l" if "l \<in> set (?p @ out @ ?h)" for l
    using that q(7) tb handler_lines(4) unfolding list_all_iff tidy_def by auto
  have "assemble (file_lines text) xl = Inr ((qa @ [w, 0x30529073] @ qb @ [0x30046073]) @ bw @ HANDLER)"
    unfolding tx a [symmetric] by (rule assemble_text) (rule nl)
  moreover have "h = 4 * int (length qa + length qb + 3 + length bw)" using h q(6) by simp
  ultimately show ?thesis using q(2-5) bw(3) r by (intro that)
qed

lemma scheduled:
  assumes "0 < m" "xl = 32 \<or> xl = 64" "int m < 2 ^ xl" "4 * int (length W) < 2 ^ xl"
  shows "paired W 0 (schedule_interrupt (iss_init m xl) after cause) (iss_init m xl)"
    "\<not> bit (csr_at (schedule_interrupt (iss_init m xl) after cause) CSR_MSTATUS) 3"
proof -
  have wf: "iss_wf (iss_init m xl)" using wf_init [OF assms(1) _ assms(3)] assms(2) by auto
  then have "iss_wf (schedule_interrupt (iss_init m xl) after cause)" by (simp add: iss_wf_def schedule_interrupt_def)
  then show "paired W 0 (schedule_interrupt (iss_init m xl) after cause) (iss_init m xl)"
    using wf assms(4) by (simp add: paired_def twin_def recsr_def schedule_interrupt_def init_facts)
  show "\<not> bit (csr_at (schedule_interrupt (iss_init m xl) after cause) CSR_MSTATUS) 3"
    by (simp add: csr_at_def schedule_interrupt_def iss_init_def csr_reset_def)
qed

lemma irq_csrs:
  "PROGRAM_CSRS \<subseteq> ({CSR_MSCRATCH} \<union> FCSRS) \<inter> OWN" "PROGRAM_CSRS \<inter> IRQ_CSRS = {}" "CSR_MTVEC \<notin> PROGRAM_CSRS" "{CSR_MSCRATCH} \<inter> IRQ_CSRS = {}"
  by (simp_all add: PROGRAM_CSRS_def FCSRS_def OWN_def IRQ_CSRS_def)

text \<open>Both runs of a program of this shape.\<close>

lemma irq_program_runs:
  assumes "W = pre @ bw @ HANDLER" "pre = qa @ [w, 0x30529073] @ qb @ [0x30046073]"
    "list_all (straight {CSR_MIE}) qa" "list_all (straight {CSR_MIE}) qb" "straight {CSR_MIE} w"
    "\<And>s. iss_wf s \<Longrightarrow> xlen s = xl \<Longrightarrow> step s w = Inr (put_reg 5 h s)" "forward_program PROGRAM_CSRS bw"
    "h = 4 * int (length pre + length bw)" "h < 2048" "xl = 32 \<or> xl = 64" "0 < m" "int m < 2 ^ xl" "int (length W) \<le> mx"
  shows "\<exists>k s k' t. run (schedule_interrupt (iss_init m xl) after cause) W mx = Some (Inr (k, s)) \<and>
    run (iss_init m xl) W mx = Some (Inr (k', t)) \<and> twin {CSR_MSCRATCH} s t \<and> pc s = 4 * int (length pre + length bw - 1) \<and>
    (if pending_interrupt s = None then k = k' + 2 \<and> csr s CSR_MCAUSE = Some (u32 cause) else k = k' \<and> k < after)"
proof -
  let ?s = "schedule_interrupt (iss_init m xl) after cause" and ?t = "iss_init m xl"
  have l: "length pre = length qa + length qb + 3" "0 < length bw" using assms(2,7) by (auto simp: forward_program_def)
  have n: "int (length W) = int (length pre + length bw) + 2" by (simp add: assms(1) HANDLER_def)
  have b: "4 * int (length W) < 2 ^ xl" using n assms(8-10) by auto
  note s0 = scheduled [OF assms(11,10,12) b, of after cause]
  have W: "W = (qa @ [w, 0x30529073] @ qb @ [0x30046073]) @ bw @ HANDLER" by (simp add: assms(1,2))
  have x: "xlen ?s = xl" by (simp add: schedule_interrupt_def init_facts)
  have "0 \<le> h" using assms(8) by simp
  then obtain s t where g: "goes W 0 ?s ?t (length pre) s t" "csr_at s CSR_MTVEC = h" "bit (csr_at s CSR_MSTATUS) 3"
    using prefix_runs [OF s0(1) W assms(3-6) x assms(10) _ assms(9) s0(2)] l(1) by metis
  have f: "twin UNIV s t" "iss_wf s" "iss_wf t" "priv_mode s = PRIV_M" "pc s = 4 * int (length pre)" "4 * int (length W) < 2 ^ xlen s"
    "frame s = frame ?s" "frame t = frame ?t"
    using g(1) by (simp_all add: goes_def paired_def)
  have pd: "pending_interrupt s = Some (after, cause)" "pending_interrupt t = None"
    using frame_sel [OF f(7)] frame_sel [OF f(8)] by (simp_all add: schedule_interrupt_def init_facts)
  have "twin {CSR_MSCRATCH} s t" using f(1) by (simp add: twin_def)
  from irq_run [OF assms(7) irq_csrs(1) assms(1) irq_csrs(2-4) f(6) this f(2-4), of 0 after cause "int (length pre)" mx]
  have "\<exists>k s' k' t'. run_loop W mx s (int (length pre)) = Some (Inr (k, s')) \<and> run_loop W mx t (int (length pre)) = Some (Inr (k', t')) \<and>
    twin {CSR_MSCRATCH} s' t' \<and> pc s' = 4 * int (length pre + length bw - 1) \<and>
    (if pending_interrupt s' = None then k = k' + 2 \<and> csr s' CSR_MCAUSE = Some (u32 cause) else k = k' \<and> k < after)"
    using f(5) pd g(2,3) l assms(8,13) n by fastforce
  moreover have "run_loop W mx ?s 0 = run_loop W mx s (int (length pre))" "run_loop W mx ?t 0 = run_loop W mx t (int (length pre))"
    using g(1) n assms(13) by (simp_all add: goes_def)
  ultimately show ?thesis by (simp add: run_def)
qed

subsection \<open>Properties\<close>

text \<open>
  C15. An interrupt does not change what a generated program computes. A program the generator
  returns with an interrupt source, for every seed, on both register widths, with at most 450 random
  instructions and a base address that fits the immediate of \<open>addi\<close>, assembles (a longer program may
  not: its handler lies beyond the 12-bit immediate that loads the trap vector); and when
  the simulator is told to deliver an interrupt of any cause after any number of steps, its run and
  the run with no interrupt both end at the halt loop with the same integer and floating-point
  registers, memory, flags, rounding mode and \<open>mscratch\<close>. If the interrupt was taken, the run took
  two steps more, those of the handler, and \<open>mcause\<close> holds the cause; otherwise it ended before
  the step the interrupt was scheduled for.
\<close>

theorem interrupts_are_transparent:
  assumes "gen_program rnd n base_addr mem_size (Some src) False xl = Inr (text, info)" "xl = 32 \<or> xl = 64" "n \<le> 450"
    "- 2048 \<le> base_addr" "base_addr < 2048" "0 < m" "int m < 2 ^ xl"
  shows "\<exists>ws. assemble (file_lines text) xl = Inr ws \<and>
    (\<forall>after cause mx. int (length ws) \<le> mx \<longrightarrow> (\<exists>k s k' t.
      run (schedule_interrupt (iss_init m xl) after cause) ws mx = Some (Inr (k, s)) \<and>
      run (iss_init m xl) ws mx = Some (Inr (k', t)) \<and>
      regs s = regs t \<and> mem s = mem t \<and> fregs s = fregs t \<and> fflags s = fflags t \<and> frm s = frm t \<and>
      csr s CSR_MSCRATCH = csr t CSR_MSCRATCH \<and> pc s = 4 * (int (length ws) - 3) \<and> pc t = pc s \<and>
      (if pending_interrupt s = None then k = k' + 2 \<and> csr s CSR_MCAUSE = Some (u32 cause) else k = k' \<and> k < after)))"
proof -
  obtain qa w qb bw h where p: "assemble (file_lines text) xl = Inr ((qa @ [w, 0x30529073] @ qb @ [0x30046073]) @ bw @ HANDLER)"
    "list_all (straight {CSR_MIE}) qa" "list_all (straight {CSR_MIE}) qb" "straight {CSR_MIE} w"
    "\<And>s. iss_wf s \<Longrightarrow> xlen s = xl \<Longrightarrow> step s w = Inr (put_reg 5 h s)" "forward_program PROGRAM_CSRS bw"
    "h = 4 * int (length qa + length qb + 3 + length bw)" "0 \<le> h" "h < 2048"
    using interrupt_program [OF assms(1-5)] by blast
  define pre where "pre = qa @ [w, 0x30529073] @ qb @ [0x30046073]"
  define W where "W = pre @ bw @ HANDLER"
  have l: "length pre = length qa + length qb + 3" "0 < length bw" using p(6) by (auto simp: pre_def forward_program_def)
  have n: "int (length W) = int (length pre + length bw) + 2" by (simp add: W_def HANDLER_def)
  have h: "h = 4 * int (length pre + length bw)" using p(7) l(1) by simp
  show ?thesis
  proof (intro exI [of _ W] conjI allI impI)
    show "assemble (file_lines text) xl = Inr W" using p(1) by (simp add: W_def pre_def)
    fix after cause mx
    assume mx: "int (length W) \<le> mx"
    obtain k s k' t where r: "run (schedule_interrupt (iss_init m xl) after cause) W mx = Some (Inr (k, s))"
      "run (iss_init m xl) W mx = Some (Inr (k', t))" "twin {CSR_MSCRATCH} s t" "pc s = 4 * int (length pre + length bw - 1)"
      "if pending_interrupt s = None then k = k' + 2 \<and> csr s CSR_MCAUSE = Some (u32 cause) else k = k' \<and> k < after"
      using irq_program_runs [OF W_def pre_def p(2-4) _ p(6) h p(9) assms(2,6,7) mx] p(5) by blast
    have "pc s = 4 * (int (length W) - 3)" using r(4) n l(2) by simp
    with r twin_fields [OF r(3)] show "\<exists>k s k' t.
      run (schedule_interrupt (iss_init m xl) after cause) W mx = Some (Inr (k, s)) \<and> run (iss_init m xl) W mx = Some (Inr (k', t)) \<and>
      regs s = regs t \<and> mem s = mem t \<and> fregs s = fregs t \<and> fflags s = fflags t \<and> frm s = frm t \<and>
      csr s CSR_MSCRATCH = csr t CSR_MSCRATCH \<and> pc s = 4 * (int (length W) - 3) \<and> pc t = pc s \<and>
      (if pending_interrupt s = None then k = k' + 2 \<and> csr s CSR_MCAUSE = Some (u32 cause) else k = k' \<and> k < after)"
      by (intro exI [of _ k] exI [of _ s] exI [of _ k'] exI [of _ t]) simp
  qed
qed

lemma timer_returns:
  assumes "1 \<le> n" "budget n xl False 11 \<le> mem_size div 4"
  shows "\<exists>text info. gen_program rnd n base_addr mem_size (Some ''timer'') False xl = Inr (text, info)"
proof -
  have "lookup SOURCE_COST ''timer'' = Inr 4" by code_simp
  then show ?thesis using assms
    by (simp add: gen_program_def gen_lines_def interrupt_prefix_def Let_def split: prod.split)
qed

theorem interrupts_are_transparent_witness:
  "\<exists>text info ws k s k' t. gen_program (\<lambda>i. 5 * i) 8 32 1024 (Some ''timer'') False 32 = Inr (text, info) \<and>
     assemble (file_lines text) 32 = Inr ws \<and>
     run (schedule_interrupt (iss_init 128 32) 3 0x80000007) ws (int (length ws)) = Some (Inr (k, s)) \<and>
     run (iss_init 128 32) ws (int (length ws)) = Some (Inr (k', t)) \<and> regs s = regs t \<and> mem s = mem t"
proof -
  have "budget 8 32 False 11 \<le> 1024 div 4" by (simp add: budget_def FLOAT_SEED_BITS_def)
  then obtain tx info where g: "gen_program (\<lambda>i. 5 * i) 8 32 1024 (Some ''timer'') False 32 = Inr (tx, info)"
    using timer_returns [of 8 32 1024 "\<lambda>i. 5 * i" 32] by auto
  from interrupts_are_transparent [OF g, of 128] g show ?thesis by force
qed

end
