(* ===== verification/Viewer.thy ===== *)
theory Viewer
  imports Reports Random_Gen Disasm_Text
begin

text \<open>
  The file that \<open>gen_trace.py\<close> writes, a JSON text of the trace rows, and the page that
  \<open>build_viewer.py\<close> makes of it.
\<close>

subsection \<open>JSON\<close>

datatype json = JInt int | JBool bool | JStr string | JObj "(string \<times> json) list" | JList "json list"

text \<open>
  A character of a string: printable ASCII but for the quote and the backslash stands for itself,
  the rest is escaped.
\<close>

definition backslash :: char where "backslash = CHR 0x5C"
definition quote :: char where "quote = CHR 0x22"

definition json_char :: "char \<Rightarrow> string" where
  "json_char c =
     (let n = of_char c :: nat
      in if c = quote \<or> c = backslash then [backslash, c]
         else if 0x20 \<le> n \<and> n < 0x7F then [c]
         else case map_of [(8, CHR ''b''), (9, CHR ''t''), (10, CHR ''n''), (12, CHR ''f''), (13, CHR ''r'')] n of
                Some e \<Rightarrow> [backslash, e]
              | None \<Rightarrow> backslash # CHR ''u'' # zhex 4 (int n))"

text \<open>The dash, three bytes here, is one character in Python.\<close>

definition json_string :: "string \<Rightarrow> string" where
  "json_string s = quote # (if s = EM_DASH then backslash # ''u2014'' else concat (map json_char s)) @ [quote]"

fun json_text :: "json \<Rightarrow> string"
  and members_text :: "(string \<times> json) list \<Rightarrow> string"
  and items_text :: "json list \<Rightarrow> string" where
  "json_text (JInt v) = show_int v"
| "json_text (JBool b) = (if b then ''true'' else ''false'')"
| "json_text (JStr s) = json_string s"
| "json_text (JObj kvs) = ''{'' @ members_text kvs @ ''}''"
| "json_text (JList js) = ''['' @ items_text js @ '']''"
| "members_text [] = []"
| "members_text ((k, v) # rest) =
     json_string k @ '': '' @ json_text v @ (if rest = [] then [] else '', '' @ members_text rest)"
| "items_text [] = []"
| "items_text (j # rest) = json_text j @ (if rest = [] then [] else '', '' @ items_text rest)"

subsection \<open>The trace file\<close>

definition row_json :: "trace_row \<Rightarrow> json" where
  "row_json t = JObj
     [(''cycle'', JInt (t_cycle t)),
      (''if'', JObj [(''pc'', JInt (if_pc t)), (''inst'', JStr (if_inst t))]),
      (''id'', JObj [(''pc'', JInt (id_pc t)), (''inst'', JStr (id_inst t)),
         (''stall'', JBool (id_stall t)), (''flush'', JBool (id_flush t))]),
      (''ex'', JObj [(''pc'', JInt (ex_pc t)), (''inst'', JStr (ex_inst t)),
         (''branchTaken'', JBool (ex_branchTaken t)), (''jump'', JBool (ex_jump t)),
         (''aluOut'', JInt (ex_aluOut t)), (''fwdA'', JInt (ex_fwdA t)), (''fwdB'', JInt (ex_fwdB t))]),
      (''mem'', JObj [(''we'', JBool (mem_we t)), (''re'', JBool (mem_re t)),
         (''addr'', JInt (mem_addr t)), (''dest'', JInt (mem_dest t)), (''regWrite'', JBool (mem_regWrite t))]),
      (''wb'', JObj [(''dest'', JInt (wb_dest t)), (''val'', JInt (wb_val t)), (''regWrite'', JBool (wb_regWrite t))])]"

definition gen_trace_text :: "nat \<Rightarrow> csv_row list \<Rightarrow> string result" where
  "gen_trace_text xl csv = rbind (gen_trace_main xl csv) (\<lambda>rows. Inr (json_text (JList (map row_json rows))))"

subsection \<open>The page\<close>

text \<open>\<open>main\<close> of the viewer builder; \<open>None\<close> when the trace generator fails.\<close>

definition viewer_main :: "csv_row list \<Rightarrow> string \<Rightarrow> string option" where
  "viewer_main csv html =
     (case gen_trace_text 32 csv of Inl _ \<Rightarrow> None | Inr trace_json \<Rightarrow> Some (py_replace ''__TRACE_JSON__'' trace_json html))"

subsection \<open>What a page holds\<close>

lemma replace_once:
  assumes "old \<noteq> []" "\<And>i. i < length pre \<Longrightarrow> take (length old) (drop i (pre @ old @ post)) \<noteq> old"
    "\<And>i. take (length old) (drop i post) \<noteq> old"
  shows "py_replace old new (pre @ old @ post) = pre @ new @ post"
proof -
  have none: "py_replace old new s = s" if "\<And>i. take (length old) (drop i s) \<noteq> old" for s
    using that
  proof (induction s)
    case Nil
    show ?case by (simp add: py_replace.simps)
  next
    case (Cons c s)
    have "take (length old) (c # s) \<noteq> old" using Cons.prems [of 0] by simp
    moreover have "py_replace old new s = s" using Cons.prems [of "Suc _"] by (intro Cons.IH) simp
    ultimately show ?case using assms(1) by (subst py_replace.simps) simp
  qed
  show ?thesis using assms(2)
  proof (induction pre)
    case Nil
    have "take (length old) (old @ post) = old" by simp
    then show ?case using assms(1) none [OF assms(3)] by (subst py_replace.simps) simp
  next
    case (Cons c pre)
    have "take (length old) (c # pre @ old @ post) \<noteq> old" using Cons.prems [of 0] by simp
    moreover have "py_replace old new (pre @ old @ post) = pre @ new @ post" using Cons.prems [of "Suc _"] by (intro Cons.IH) simp
    ultimately show ?case using assms(1) by (subst py_replace.simps) simp
  qed
qed

text \<open>The text of a trace is printable ASCII, whatever the trace.\<close>

definition printable :: "string \<Rightarrow> bool" where
  "printable s \<longleftrightarrow> list_all (\<lambda>c. 0x20 \<le> (of_char c :: nat) \<and> (of_char c :: nat) < 0x7F) s"

lemma printable_simps [simp]:
  "printable []" "printable (c # s) \<longleftrightarrow> 0x20 \<le> (of_char c :: nat) \<and> (of_char c :: nat) < 0x7F \<and> printable s"
  "printable (s @ t) \<longleftrightarrow> printable s \<and> printable t"
  by (simp_all add: printable_def)

lemma printable_alnum: "list_all py_alnum s \<Longrightarrow> printable s"
  unfolding printable_def
  by (rule list.pred_mono_strong, assumption)
     (auto simp: py_alnum_def py_digit_def py_upper_def Let_def)

lemma printable_numbers: "printable (show_int v)" "0 \<le> v \<Longrightarrow> printable (zhex k v)"
proof -
  have b: "0 \<le> n \<Longrightarrow> 2 \<le> b \<Longrightarrow> b \<le> 16 \<Longrightarrow> printable (show_base b n)" for b n
    using show_base_facts(2) [of b n] by (intro printable_alnum) (auto simp: list_all_iff is_digit_def)
  have m: "printable ''-''" "printable (replicate i (CHR ''0''))" for i by (simp_all add: printable_def list_all_iff)
  show "printable (show_int v)" using b [of "- v" 10] b [of v 10] m(1) by (simp add: show_int_def)
  show "0 \<le> v \<Longrightarrow> printable (zhex k v)" using b [of v 16] m(2) by (simp add: zhex_def zfill_def)
qed

lemma printable_string: "printable (json_string s)"
proof -
  have e: "printable [quote]" "printable [backslash]" "printable (backslash # ''u2014'')"
    by (simp_all add: printable_def quote_def backslash_def)
  have "printable (json_char c)" for c
  proof -
    have h: "printable (backslash # CHR ''u'' # zhex 4 (int (of_char c)))"
      using printable_numbers(2) [of "int (of_char c)" 4] by (simp add: printable_def backslash_def)
    show ?thesis
    proof (cases "c = quote \<or> c = backslash \<or> 0x20 \<le> (of_char c :: nat) \<and> (of_char c :: nat) < 0x7F")
      case True
      then show ?thesis by (auto simp: json_char_def Let_def printable_def quote_def backslash_def)
    next
      case False
      then show ?thesis using h by (auto simp: json_char_def Let_def printable_def backslash_def)
    qed
  qed
  then have "printable (concat (map json_char s))" for s by (induction s) simp_all
  then show ?thesis using e by (simp add: json_string_def printable_def)
qed

lemma printable_json:
  "printable (json_text j)" "printable (members_text kvs)" "printable (items_text js)"
  by (induction j and kvs and js rule: json_text_members_text_items_text.induct)
     (simp_all add: printable_numbers printable_string)

text \<open>
  A page whose template has the placeholder once is the template with the trace in its place, and
  the trace is printable ASCII.
\<close>

lemma viewer_page:
  assumes "viewer_main csv (pre @ ''__TRACE_JSON__'' @ post) = Some page"
    "\<And>i. i < length pre \<Longrightarrow> take 14 (drop i (pre @ ''__TRACE_JSON__'' @ post)) \<noteq> ''__TRACE_JSON__''"
    "\<And>i. take 14 (drop i post) \<noteq> ''__TRACE_JSON__''"
  shows "\<exists>rows. gen_trace_main 32 csv = Inr rows \<and> page = pre @ json_text (JList (map row_json rows)) @ post \<and>
    printable (json_text (JList (map row_json rows)))"
proof -
  obtain rows where "gen_trace_main 32 csv = Inr rows"
    "page = py_replace ''__TRACE_JSON__'' (json_text (JList (map row_json rows))) (pre @ ''__TRACE_JSON__'' @ post)"
    using assms(1) by (cases "gen_trace_main 32 csv") (simp_all only: viewer_main_def gen_trace_text_def rbind_simps sum.case option.sel, simp_all)
  moreover have "length ''__TRACE_JSON__'' = 14" by simp
  ultimately show ?thesis using replace_once [of "''__TRACE_JSON__''" pre post] assms(2,3) printable_json(1) by (metis list.distinct(1))
qed

end
