(* ===== verification/Build_Commands.thy ===== *)
theory Build_Commands
  imports C_Bench
begin

text \<open>
  The commands that the image builders run: the compiler on every source of the firmware and the
  linker on the objects, one compiler command for a C benchmark, and Verilator and a C++ compiler for
  the simulation of a kernel boot. A process is a parameter: for the state of the world, whether it
  succeeded, and the next state.
\<close>

subsection \<open>Paths\<close>

text \<open>\<open>os.path.join\<close>, \<open>os.path.basename\<close> and \<open>os.path.splitext(p)[0]\<close> of a name without directories, on a POSIX system.\<close>

definition os_join :: "string \<Rightarrow> string \<Rightarrow> string" where
  "os_join a b =
     (if b \<noteq> [] \<and> hd b = CHR ''/'' then b else if a = [] \<or> last a = CHR ''/'' then a @ b else a @ ''/'' @ b)"

definition os_path :: "string list \<Rightarrow> string" where
  "os_path parts = (case parts of [] \<Rightarrow> [] | p # ps \<Rightarrow> foldl os_join p ps)"

definition base_name :: "string \<Rightarrow> string" where
  "base_name p = rev (takeWhile (\<lambda>c. c \<noteq> CHR ''/'') (rev p))"

definition stem :: "string \<Rightarrow> string" where
  "stem s =
     (let r = dropWhile (\<lambda>c. c \<noteq> CHR ''.'') (rev s)
      in if r = [] \<or> list_all (\<lambda>c. c = CHR ''.'') (tl r) then s else rev (tl r))"

text \<open>\<open>os.path.normpath\<close>: empty parts and dots are dropped, a parent cancels the part before it.\<close>

fun norm_parts :: "bool \<Rightarrow> string list \<Rightarrow> string list \<Rightarrow> string list" where
  "norm_parts slash [] new = rev new"
| "norm_parts slash (part # comps) new =
     (if part = [] \<or> part = ''.'' then norm_parts slash comps new
      else if part \<noteq> ''..'' \<or> \<not> slash \<and> new = [] \<or> new \<noteq> [] \<and> hd new = ''..'' then norm_parts slash comps (part # new)
      else if new \<noteq> [] then norm_parts slash comps (tl new)
      else norm_parts slash comps new)"

definition os_normpath :: "string \<Rightarrow> string" where
  "os_normpath p =
     (let slashes = takeWhile (\<lambda>c. c = CHR ''/'') p;
          front = (if slashes = [] then [] else if length slashes = 2 then ''//'' else ''/'');
          path = front @ join_with ''/'' (norm_parts (front \<noteq> []) (split_on CHR ''/'' p) [])
      in if path = [] then ''.'' else path)"

text \<open>\<open>p.replace("\\", "/")\<close>.\<close>

definition forward_slashes :: "string \<Rightarrow> string" where
  "forward_slashes p = py_replace [CHR 0x5C] ''/'' p"

subsection \<open>Processes\<close>

type_synonym argv = "string list"
type_synonym 'w process = "argv \<Rightarrow> 'w \<Rightarrow> bool \<times> 'w"

text \<open>\<open>run\<close>: a return code other than zero is a \<open>RuntimeError\<close>.\<close>

definition run_cmd :: "'w process \<Rightarrow> argv \<Rightarrow> 'w \<Rightarrow> 'w result" where
  "run_cmd proc cmd w = (case proc cmd w of (ok, w') \<Rightarrow> if ok then Inr w' else Inl RuntimeError)"

fun run_cmds :: "'w process \<Rightarrow> argv list \<Rightarrow> 'w \<Rightarrow> 'w result" where
  "run_cmds proc [] w = Inr w"
| "run_cmds proc (cmd # cmds) w = rbind (run_cmd proc cmd w) (run_cmds proc cmds)"

subsection \<open>Firmware\<close>

definition object_of :: "string \<Rightarrow> string \<Rightarrow> string" where
  "object_of build_dir src = os_join build_dir (stem (base_name src) @ ''.o'')"

text \<open>The loop over the sources and the link step.\<close>

definition firmware_commands :: "string \<Rightarrow> string list \<Rightarrow> string \<Rightarrow> string list \<Rightarrow> string \<Rightarrow> argv list" where
  "firmware_commands gcc cflags build_dir sources elf =
     map (\<lambda>src. [gcc] @ cflags @ [''-c'', src, ''-o'', object_of build_dir src]) sources @
     [[gcc] @ cflags @ map (object_of build_dir) sources @ [''-o'', elf]]"

definition FW_DIR :: "string \<Rightarrow> string" where
  "FW_DIR here = os_path [here, ''..'', ''firmware'']"

definition linux_cflags :: "string \<Rightarrow> string list" where
  "linux_cflags here =
     [''-march=rv64imafd_zicsr'', ''-mabi=lp64'', ''-nostdlib'', ''-nostartfiles'', ''-ffreestanding'',
      ''-msmall-data-limit=0'', ''-O1'', ''-DSPEC_VERSION_TO_REPORT=2'', ''-DKERNEL_ENTRY='' @ hex_alt KERNEL_LOAD_ADDR,
      ''-DKERNEL_DTB_ADDR='' @ hex_alt DTB_ADDR_KERNEL, ''-Wl,-T,'' @ os_join (FW_DIR here) ''link_sbi.ld'', ''-I'', FW_DIR here]"

definition linux_sources :: "string \<Rightarrow> string list" where
  "linux_sources here = map (os_join (FW_DIR here)) [''boot.S'', ''trap_entry.S'', ''sbi.c'']"

definition linux_commands :: "string \<Rightarrow> string \<Rightarrow> argv list" where
  "linux_commands here gcc =
     (let build_dir = os_join (FW_DIR here) ''build_linux''
      in firmware_commands gcc (linux_cflags here) build_dir (linux_sources here) (os_join build_dir ''fw.elf''))"

definition sbi_cflags :: "string \<Rightarrow> int \<Rightarrow> string list" where
  "sbi_cflags here spec_version =
     [''-march=rv64imafd_zicsr'', ''-mabi=lp64'', ''-nostdlib'', ''-nostartfiles'', ''-ffreestanding'',
      ''-msmall-data-limit=0'', ''-O1'', ''-DSPEC_VERSION_TO_REPORT='' @ show_int spec_version,
      ''-Wl,-T,'' @ os_join (FW_DIR here) ''link_sbi.ld'', ''-I'', FW_DIR here]"

definition sbi_sources :: "string \<Rightarrow> string list" where
  "sbi_sources here = map (os_join (FW_DIR here)) [''boot.S'', ''trap_entry.S'', ''sbi.c'', ''payload_start.S'', ''payload.c'']"

definition sbi_commands :: "string \<Rightarrow> string \<Rightarrow> int \<Rightarrow> argv list" where
  "sbi_commands here gcc spec_version =
     (let build_dir = os_join (FW_DIR here) ''build''
      in firmware_commands gcc (sbi_cflags here spec_version) build_dir (sbi_sources here) (os_join build_dir ''sbi_firmware.elf''))"

subsection \<open>C benchmarks\<close>

definition C_DIR :: "string \<Rightarrow> string" where
  "C_DIR here = os_path [here, ''..'', ''benchmarks'', ''c'']"

definition c_cflags :: "string \<Rightarrow> string \<Rightarrow> string list \<Rightarrow> string list" where
  "c_cflags here extra_cflags include_dirs =
     [''-march=rv32im'', ''-mabi=ilp32'', ''-nostdlib'', ''-nostartfiles'', ''-ffreestanding'',
      ''-Wl,-T,'' @ os_join (C_DIR here) ''link.ld'', ''-msmall-data-limit=0'', ''-O2''] @ py_split extra_cflags @
     concat (map (\<lambda>d. [''-I'', d]) (C_DIR here # include_dirs))"

definition c_command :: "string \<Rightarrow> string \<Rightarrow> string \<Rightarrow> string list \<Rightarrow> string list \<Rightarrow> string \<Rightarrow> argv" where
  "c_command here gcc extra_cflags include_dirs sources elf =
     [gcc] @ c_cflags here extra_cflags include_dirs @
     [os_join (C_DIR here) ''crt0.S'', os_join (C_DIR here) ''libc_stubs.c''] @ sources @ [''-o'', elf]"

subsection \<open>The builders with their commands\<close>

text \<open>What the binary utilities give for the ELF file after the commands, if all of them succeed.\<close>

definition built :: "'w process \<Rightarrow> ('w \<Rightarrow> elf_tools) \<Rightarrow> argv list \<Rightarrow> 'w \<Rightarrow> elf_tools option" where
  "built proc elf_of cmds w = (case run_cmds proc cmds w of Inl _ \<Rightarrow> None | Inr w' \<Rightarrow> Some (elf_of w'))"

definition linux_boot_build where
  "linux_boot_build proc elf_of here gcc kernel_bytes initramfs_bytes msize w =
     linux_boot_main kernel_bytes initramfs_bytes (built proc elf_of (linux_commands here gcc) w) msize"

definition sbi_firmware_build where
  "sbi_firmware_build proc elf_of here gcc spec_version w =
     sbi_firmware_main (built proc elf_of (sbi_commands here gcc spec_version) w)"

definition c_bench_build where
  "c_bench_build proc elf_of here gcc extra_cflags include_dirs sources elf sim tpl p msize max_time strategy w =
     c_bench_main (built proc elf_of [c_command here gcc extra_cflags include_dirs sources elf] w) sim tpl p msize max_time strategy"

subsection \<open>The kernel simulation\<close>

record kernel_args =
  k_imem :: string
  k_dmem :: string
  k_mem_size :: int
  k_zero_init :: int
  k_clks_per_bit :: int
  k_verilator_bin :: string
  k_verilator_root :: string
  k_gxx :: string
  k_out :: string
  k_obj_dir :: string

definition REPO_ROOT :: "string \<Rightarrow> string" where
  "REPO_ROOT here = os_normpath (os_path [here, ''..'', ''..''])"

definition DESIGN_DIR :: "string \<Rightarrow> string" where
  "DESIGN_DIR here = os_join (REPO_ROOT here) ''design''"

definition VERILATOR_DIR :: "string \<Rightarrow> string" where
  "VERILATOR_DIR here = os_path [REPO_ROOT here, ''sim'', ''verilator'']"

definition backslashed :: "string list \<Rightarrow> string" where
  "backslashed parts = join_with [CHR 0x5C] parts"

definition OSS_CAD_BIN :: string where
  "OSS_CAD_BIN = backslashed [''C:'', ''oss-cad-suite'', ''oss-cad-suite'', ''bin'']"

definition OSS_CAD_VERILATOR_ROOT :: string where
  "OSS_CAD_VERILATOR_ROOT = backslashed [''C:'', ''oss-cad-suite'', ''oss-cad-suite'', ''share'', ''verilator'']"

text \<open>The arguments when only the required ones are given.\<close>

definition kernel_defaults :: "string \<Rightarrow> string \<Rightarrow> string \<Rightarrow> int \<Rightarrow> kernel_args" where
  "kernel_defaults here imem dmem msize =
     \<lparr>k_imem = imem, k_dmem = dmem, k_mem_size = msize, k_zero_init = 0, k_clks_per_bit = 4,
      k_verilator_bin = os_join OSS_CAD_BIN ''verilator_bin.exe'', k_verilator_root = OSS_CAD_VERILATOR_ROOT,
      k_gxx = backslashed [''C:'', ''Users'', ''poorn'', ''mingw64'', ''mingw64'', ''bin'', ''g++.exe''],
      k_out = os_join (VERILATOR_DIR here) ''vboot.exe'', k_obj_dir = os_join (VERILATOR_DIR here) ''obj_dir_boot''\<rparr>"

text \<open>
  The Verilator command; \<open>relpath\<close> gives the path of a file relative to the repository's root, which
  depends on the current directory.
\<close>

definition verilate_cmd :: "(string \<Rightarrow> string) \<Rightarrow> string \<Rightarrow> kernel_args \<Rightarrow> argv" where
  "verilate_cmd relpath here args =
     [k_verilator_bin args, ''-Wall'', ''-Wno-fatal'',
      ''-Wno-WIDTHEXPAND'', ''-Wno-WIDTHTRUNC'', ''-Wno-LATCH'', ''-Wno-UNUSEDSIGNAL'',
      ''-Wno-BLKSEQ'', ''-Wno-UNUSEDPARAM'', ''-Wno-VARHIDDEN'', ''-Wno-DECLFILENAME'',
      ''-Wno-PINMISSING'', ''-Wno-CASEINCOMPLETE'', ''-Wno-UNOPTFLAT'', ''-Wno-UNSIGNED'',
      ''--cc'', ''-I'' @ forward_slashes (DESIGN_DIR here), ''-GXLEN=64'', ''-GMEM_SIZE_BYTES='' @ show_int (k_mem_size args),
      ''-GINIT_FILE='' @ [CHR 0x22] @ forward_slashes (relpath (k_imem args)) @ [CHR 0x22],
      ''-GDATA_INIT_FILE='' @ [CHR 0x22] @ forward_slashes (relpath (k_dmem args)) @ [CHR 0x22],
      ''-GUART_CLKS_PER_BIT='' @ show_int (k_clks_per_bit args),
      ''-GZERO_INIT_LIMIT_OVERRIDE='' @ show_int (k_zero_init args),
      ''--top-module'', ''PIPELINED'', forward_slashes (os_join (DESIGN_DIR here) ''riscvpipeline.v''),
      ''--Mdir'', forward_slashes (k_obj_dir args)]"

definition starts_with :: "string \<Rightarrow> string \<Rightarrow> bool" where
  "starts_with p s \<longleftrightarrow> take (length p) s = p"

definition ends_with :: "string \<Rightarrow> string \<Rightarrow> bool" where
  "ends_with p s \<longleftrightarrow> starts_with (rev p) (rev s)"

definition obj_cpps :: "string list \<Rightarrow> string list" where
  "obj_cpps entries = filter (\<lambda>f. starts_with ''VPIPELINED'' f \<and> ends_with ''.cpp'' f) entries"

definition gxx_cmd :: "string \<Rightarrow> kernel_args \<Rightarrow> string list \<Rightarrow> argv" where
  "gxx_cmd here args cpps =
     [k_gxx args, ''-O2'', ''-std=c++17'', ''-static-libgcc'', ''-static-libstdc++'', ''-static'',
      ''-I'', k_obj_dir args, ''-I'', os_join (k_verilator_root args) ''include'',
      ''-I'', os_path [k_verilator_root args, ''include'', ''vltstd''], os_join (VERILATOR_DIR here) ''sim_main.cpp''] @
     map (os_join (k_obj_dir args)) cpps @
     [os_path [k_verilator_root args, ''include'', ''verilated.cpp''],
      os_path [k_verilator_root args, ''include'', ''verilated_threads.cpp''], ''-lpsapi'', ''-o'', k_out args]"

text \<open>The environment of both commands: \<open>env.get("PATH", "")\<close> behind the tools' own directory.\<close>

definition kernel_env :: "string \<Rightarrow> kernel_args \<Rightarrow> (string \<rightharpoonup> string) \<Rightarrow> (string \<rightharpoonup> string)" where
  "kernel_env pathsep args environ =
     (let env = environ(''VERILATOR_ROOT'' \<mapsto> k_verilator_root args)
      in env(''PATH'' \<mapsto> OSS_CAD_BIN @ pathsep @ (case env ''PATH'' of None \<Rightarrow> [] | Some p \<Rightarrow> p)))"

text \<open>\<open>main\<close>: \<open>listdir\<close> reads a directory of the world; the process gets the environment.\<close>

definition kernel_boot_main ::
  "((string \<rightharpoonup> string) \<Rightarrow> 'w process) \<Rightarrow> (string \<Rightarrow> 'w \<Rightarrow> string list) \<Rightarrow> (string \<Rightarrow> string) \<Rightarrow> string \<Rightarrow> string \<Rightarrow>
     kernel_args \<Rightarrow> (string \<rightharpoonup> string) \<Rightarrow> 'w \<Rightarrow> 'w result" where
  "kernel_boot_main proc listdir relpath here pathsep args environ w =
     (let env = kernel_env pathsep args environ
      in rbind (run_cmd (proc env) (verilate_cmd relpath here args) w) (\<lambda>w'.
           run_cmd (proc env) (gxx_cmd here args (obj_cpps (listdir (k_obj_dir args) w'))) w'))"

subsection \<open>What the builders rely on\<close>

lemma run_cmds_append: "run_cmds proc (xs @ ys) w = rbind (run_cmds proc xs w) (run_cmds proc ys)"
proof (induction xs arbitrary: w)
  case (Cons x xs)
  then show ?case by (cases "run_cmd proc x w") simp_all
qed simp

text \<open>A build fails exactly when a command fails that runs after the ones before it succeeded; nothing runs after it.\<close>

lemma built_None:
  "built proc elf_of cmds w = None \<longleftrightarrow>
     (\<exists>pre cmd post w'. cmds = pre @ cmd # post \<and> run_cmds proc pre w = Inr w' \<and> \<not> fst (proc cmd w'))"
proof
  assume "built proc elf_of cmds w = None"
  then obtain e where "run_cmds proc cmds w = Inl e" by (auto simp: built_def split: sum.splits)
  then show "\<exists>pre cmd post w'. cmds = pre @ cmd # post \<and> run_cmds proc pre w = Inr w' \<and> \<not> fst (proc cmd w')"
  proof (induction cmds arbitrary: w)
    case (Cons cmd cmds)
    show ?case
    proof (cases "proc cmd w")
      case (Pair ok w')
      show ?thesis
      proof (cases ok)
        case True
        then have r: "run_cmd proc cmd w = Inr w'" by (simp add: run_cmd_def Pair)
        then have "run_cmds proc cmds w' = Inl e" using Cons.prems by simp
        from Cons.IH [OF this] obtain pre c post v where
          "cmds = pre @ c # post" "run_cmds proc pre w' = Inr v" "\<not> fst (proc c v)" by blast
        then show ?thesis using r by (intro exI [of _ "cmd # pre"] exI [of _ c] exI [of _ post] exI [of _ v]) simp
      next
        case False
        then show ?thesis using Pair by (intro exI [of _ "[]"] exI [of _ cmd] exI [of _ cmds] exI [of _ w]) simp
      qed
    qed
  qed simp
next
  assume "\<exists>pre cmd post w'. cmds = pre @ cmd # post \<and> run_cmds proc pre w = Inr w' \<and> \<not> fst (proc cmd w')"
  then show "built proc elf_of cmds w = None"
    by (auto simp: built_def run_cmds_append run_cmd_def split: prod.splits)
qed

lemma base_name_join: "CHR ''/'' \<notin> set n \<Longrightarrow> base_name (os_join d n) = n"
proof -
  assume n: "CHR ''/'' \<notin> set n"
  have t: "takeWhile (\<lambda>c. c \<noteq> CHR ''/'') (rev n) = rev n" using n by (auto simp: takeWhile_eq_all_conv)
  have j: "os_join d n = (if d = [] \<or> last d = CHR ''/'' then d @ n else d @ ''/'' @ n)"
    using n by (cases n) (auto simp: os_join_def)
  have "takeWhile (\<lambda>c. c \<noteq> CHR ''/'') (rev n @ rev d) = rev n" if "d = [] \<or> last d = CHR ''/''"
    using that n by (cases d rule: rev_cases) (auto simp: t takeWhile_append)
  moreover have "takeWhile (\<lambda>c. c \<noteq> CHR ''/'') (rev n @ CHR ''/'' # rev d) = rev n"
    using n by (auto simp: takeWhile_append)
  ultimately show ?thesis by (auto simp: base_name_def j)
qed

text \<open>
  The objects of the firmware are different files with the names the linker script selects; no
  compiler command overwrites the object of another.
\<close>

lemma os_join_inj: "CHR ''/'' \<notin> set m \<Longrightarrow> CHR ''/'' \<notin> set n \<Longrightarrow> os_join d m = os_join d n \<longleftrightarrow> m = n"
  using base_name_join [of m d] base_name_join [of n d] by metis

lemma firmware_objects:
  "map (object_of build_dir) (sbi_sources here) =
     map (os_join build_dir) [''boot.o'', ''trap_entry.o'', ''sbi.o'', ''payload_start.o'', ''payload.o'']"
  "map (object_of build_dir) (linux_sources here) = map (os_join build_dir) [''boot.o'', ''trap_entry.o'', ''sbi.o'']"
  "distinct (map (object_of build_dir) (sbi_sources here))" "distinct (map (object_of build_dir) (linux_sources here))"
proof -
  have s: "stem ''boot.S'' = ''boot''" "stem ''trap_entry.S'' = ''trap_entry''" "stem ''sbi.c'' = ''sbi''"
    "stem ''payload_start.S'' = ''payload_start''" "stem ''payload.c'' = ''payload''" by code_simp+
  show o: "map (object_of build_dir) (sbi_sources here) =
      map (os_join build_dir) [''boot.o'', ''trap_entry.o'', ''sbi.o'', ''payload_start.o'', ''payload.o'']"
    "map (object_of build_dir) (linux_sources here) = map (os_join build_dir) [''boot.o'', ''trap_entry.o'', ''sbi.o'']"
    by (simp_all add: sbi_sources_def linux_sources_def object_of_def base_name_join s)
  show "distinct (map (object_of build_dir) (sbi_sources here))" "distinct (map (object_of build_dir) (linux_sources here))"
    unfolding o by (simp_all add: os_join_inj)
qed

text \<open>
  The C++ compiler gets the generated sources of the model and nothing else from the object
  directory: every path of the command that lies there is a \<open>VPIPELINED*.cpp\<close> that Verilator left.
\<close>

lemma kernel_sources:
  "f \<in> set (obj_cpps entries) \<longleftrightarrow> f \<in> set entries \<and> (\<exists>t. f = ''VPIPELINED'' @ t) \<and> (\<exists>t. f = t @ ''.cpp'')"
proof -
  have s: "starts_with p f \<longleftrightarrow> (\<exists>t. f = p @ t)" for p f :: string
    unfolding starts_with_def by (metis append_eq_conv_conj append_take_drop_id)
  have e: "ends_with p f \<longleftrightarrow> (\<exists>t. f = t @ p)" for p f
    unfolding ends_with_def s by (metis rev_append rev_rev_ident)
  show ?thesis by (auto simp: obj_cpps_def s e)
qed

text \<open>From the tool directory of the repository the root is the repository itself.\<close>

lemma repo_root: "REPO_ROOT ''/repo/sim/tools'' = ''/repo''" "DESIGN_DIR ''/repo/sim/tools'' = ''/repo/design''"
  by code_simp+

end
