(* ===== verification/Spec2Isabelle.thy ===== *)
theory Spec2Isabelle
  imports Float_Props Iss_Props Asm_Props Disasm_Props Debug_Props Dtb_Props Random_Props Image_Props Reports_Props
    Profiler_Props Bench_Props C_Bench Cross_Props Random_Irq Viewer Build_Commands
begin

text \<open>
  \<^bold>\<open>Verification of the RV32IM/RV64IM processor's software model and tools.\<close>

  The repository is a five-stage pipelined RISC-V processor in Verilog with a Python tool chain
  under \<open>src/sim/tools\<close>. The tool chain is what this development models: the instruction-set
  simulator \<open>iss.py\<close>, the golden model the RTL is compared against in lockstep; the assembler
  \<open>asm.py\<close>, which produces every test program and its memory image; the disassembler
  \<open>disasm.py\<close>; the interactive debugger \<open>debugger.py\<close>, which drives the simulator; the
  device-tree generator \<open>gen_dtb.py\<close>, whose blob the boot images carry; the constrained-random
  program generator \<open>random_gen.py\<close>; the converter \<open>elf2mem.py\<close> and the image builders
  \<open>build_linux_boot.py\<close>, \<open>build_sbi_firmware.py\<close>, \<open>build_c_bench.py\<close> and \<open>build_kernel_boot.py\<close>; the profiler
  \<open>profiler.py\<close>, the benchmark runner \<open>bench_runner.py\<close> and the random test driver
  \<open>run_random_tests.py\<close>; and the report scripts \<open>read_dump.py\<close>,
  \<open>coverage_report.py\<close>, \<open>gen_trace.py\<close> and \<open>build_viewer.py\<close>.

  \<^bold>\<open>How the parts interact.\<close> \<open>asm.assemble\<close> turns source lines into 32-bit words, \<open>asm.write_mem\<close>
  into a text image of bytes; \<open>load_words\<close> of the debugger reads such an image back;
  \<open>ISS.run\<close> fetches words and executes them with \<open>ISS.step\<close>, which calls the width helpers, the
  CSR file, the translation and the single-precision functions; the debugger calls \<open>ISS.step\<close>
  itself and prints words through \<open>disasm\<close>. \<open>random_gen\<close> prints programs for the assembler, which
  the simulator and the RTL run; \<open>run_random_tests\<close> generates, assembles and runs a program per seed
  and compares the final states; profiler and benchmark runner assemble their programs, write the
  images, and compare the RTL with \<open>ISS.run\<close>. \<open>elf2mem\<close> turns the sections of an ELF file into text
  images; the builders read such images back, overlay kernel, ramdisk and the device tree of
  \<open>gen_dtb\<close>, and write them again. The report scripts read the dumps, coverage lines and pipeline
  rows that the RTL simulation prints; \<open>build_viewer\<close> puts the trace of \<open>gen_trace\<close> into a page.

  \<^bold>\<open>Conventions.\<close> Python integers are \<^typ>\<open>int\<close>; register values are kept as the code keeps
  them, unsigned residues modulo \<open>2 ^ xlen\<close>. Lists are lists, dictionaries are maps or association
  lists, and an exception is an \<open>Inl\<close> of \<^typ>\<open>py_error\<close>. Objects are records passed and returned.
  Text is a list of ASCII characters (the one non-ASCII literal, the dash of \<open>disasm 0\<close>, is its
  UTF-8 bytes). A loop that may not end is a \<open>partial_function\<close> into \<open>option\<close>, where \<open>None\<close> is
  divergence: \<open>run_loop\<close> and the two normalisation loops \<open>norm_up\<close> and \<open>norm_down\<close>. There is no
  fuel: \<open>run_until_loop\<close> counts down the steps the source counts up. Programs outside the
  repository are parameters: the compilers (a process that succeeds or not and changes the state of
  the world), the binary utilities (what \<open>objcopy\<close>, \<open>objdump\<close> and
  \<open>nm\<close> print for a file), and the Verilog simulator (a function from memory images to the text it
  prints). The random source is a tape of draws, and a statement about all programs of the generator
  quantifies over the tape.

  \<^bold>\<open>Theories and sources.\<close>
  \<^item> \<open>Prelude\<close>: errors, the shared collections of facts, masks and shifts as remainders and quotients.
  \<^item> \<open>Iss_Ints\<close>, \<open>Iss_State\<close>, \<open>Iss_Mem\<close>: the width helpers, the attributes of \<open>ISS\<close> as the record
    \<open>iss\<close>, the CSR file, \<open>trap\<close>, \<open>mret\<close>, \<open>sret\<close>, byte memory, and the Sv32 and Sv39 walks.
  \<^item> \<open>Softfloat\<close>: the functions \<open>f32_*\<close> and \<open>f_*\<close> over exact rationals.
    \<open>Softfloat_Norm\<close>, \<open>Softfloat_Round\<close>, \<open>Softfloat_Ops\<close>, \<open>Softfloat_Cmp\<close> prove their specification;
    \<open>Float_Props\<close> holds the properties.
  \<^item> \<open>Iss_Step\<close>: \<open>ISS.step\<close> opcode by opcode, and \<open>ISS.run\<close>. \<open>Iss_Inv\<close> proves the state
    invariant, the exceptions and the frame of a step; \<open>Iss_Run\<close> reads the loop as a transition
    system (locale \<open>transition_system\<close>, interpreted on it twice); \<open>Iss_Arith\<close>, \<open>Iss_Bytes\<close> and
    \<open>Iss_Priv\<close> hold the arithmetic, memory and privilege lemmas, \<open>Sv32_Spec\<close> the page tables as the
    format of their entries defines them; \<open>Iss_Props\<close> the properties.
  \<^item> \<open>Asm\<close>, \<open>Asm_Text\<close>: \<open>asm.py\<close>, encoders and text handling. \<open>Asm_Decode\<close> relates encoders to the
    fields \<open>step\<close> reads, \<open>Asm_Exec\<close> and \<open>Asm_Sem\<close> to what it does, \<open>Asm_Image\<close> to memory images;
    \<open>Asm_Props\<close> holds the properties.
  \<^item> \<open>Disasm\<close>: \<open>disasm.py\<close>. \<open>Disasm_Text\<close> shows that printed numbers and operands are read back,
    \<open>Disasm_Round\<close> and \<open>Disasm_Fp\<close> each statement form, \<open>Disasm_Props\<close> the round trip.
  \<^item> \<open>Debugger\<close>: \<open>debugger.py\<close>. \<open>Debug_Run\<close> proves the loop, \<open>Debug_Session\<close> the command
    interpreter, \<open>Debug_Props\<close> holds the properties.
  \<^item> \<open>Dtb\<close>: \<open>gen_dtb.py\<close>. \<open>Dtb_Spec\<close> says what a blob means as a list of events and shows that the
    self-check decides it, \<open>Dtb_Build\<close> that each builder method appends one event, \<open>Dtb_Props\<close> holds
    the tree of this core and the properties.
  \<^item> \<open>Random_Gen\<close>: \<open>random_gen.py\<close>, on the state monad over the tape. \<open>Forward_Run\<close> shows that a
    program whose jumps go forward runs to its last word; \<open>Random_Text\<close> and \<open>Random_Fp\<close> give the
    word of each printed statement, \<open>Random_Items\<close> covers every draw, \<open>Random_Labels\<close>,
    \<open>Random_Program\<close> and \<open>Random_Halt\<close> the label pass and whole programs, \<open>Random_Const\<close> the
    constant-loading sequences; \<open>Random_Props\<close> holds the properties of the plain mode.
  \<^item> \<open>Twin_Step\<close> compares two runs whose states differ in CSRs that the program does not access and in
    the scheduled interrupt; \<open>Twin_Run\<close> adds the handler behind a forward program; \<open>Irq_Prefix\<close> gives
    the words of the prefix that arms the interrupt; \<open>Random_Irq\<close> holds the property of the interrupt
    modes.
  \<^item> \<open>Elf2mem\<close>: \<open>elf2mem.py\<close>. \<open>Boot\<close>: \<open>build_linux_boot.py\<close> and \<open>build_sbi_firmware.py\<close>. What a
    placement of bytes into an image does is the locale \<open>placement\<close> of \<open>Elf_Image\<close>, interpreted
    there on the byte buffers of the converter and in \<open>Boot_Image\<close> on the text images of the
    builders; \<open>Elf_Listing\<close> gives the output formats of \<open>objdump -h\<close> and \<open>nm\<close> and shows that the
    converter reads the addresses out of them; \<open>Image_Props\<close> holds the properties.
  \<^item> \<open>Build_Commands\<close>: the commands the builders run, and \<open>build_kernel_boot.py\<close>; paths are those of a
    POSIX system.
  \<^item> \<open>Reports\<close>: \<open>read_dump.py\<close>, \<open>coverage_report.py\<close>, \<open>gen_trace.py\<close>; \<open>Reports_Props\<close> the properties.
    \<open>Viewer\<close>: the JSON text of a trace, and \<open>build_viewer.py\<close>.
  \<^item> \<open>Py_Float\<close>: Python's floating-point numbers as the reports use them, exact values rounded once to
    a double, and their decimal output.
  \<^item> \<open>Profiler\<close>: \<open>profiler.py\<close>. \<open>Asm_Modules\<close> shows that texts with labels of their own assemble to
    the same words wherever they stand; \<open>Profiler_Props\<close> holds the properties.
  \<^item> \<open>Bench\<close>, \<open>Bench_Props\<close>: \<open>bench_runner.py\<close>. \<open>C_Bench\<close>: \<open>build_c_bench.py\<close>.
  \<^item> \<open>Cross_Check\<close>, \<open>Cross_Props\<close>: \<open>run_random_tests.py\<close>, on top of generator, assembler and simulator.

  \<^bold>\<open>What is shown.\<close>
  \<^item> Simulator: a step keeps the state well formed and raises exactly on the undefined encodings;
    \<open>run\<close> always ends on a wide core, and on a 32-bit core may not; traps and returns, CSR writes
    and reads, stores and loads are inverse where they should be (a store to the MMIO range has no
    effect). The Sv32 translation follows the entry format of the architecture without accessed and
    dirty bits, SUM and MXR, cuts addresses to 32 bits and accepts the reserved writable entry that is
    not readable; the Sv39 translation is a three-level walk of the same shape with page numbers of
    20 bits, which no reachable state enters.
  \<^item> Floating point: every operation returns, and returns the exact result rounded once in each
    of the rounding modes, with the flags the code raises.
  \<^item> Assembler: executing an assembled statement has the effect its mnemonic and operands name,
    labels are reached, any text gives words or one of three exceptions, images are little-endian.
  \<^item> Disassembler: assembling a disassembly gives the words back.
  \<^item> Debugger: the history is the execution, \<open>continue\<close> stops for the reason it reports and agrees
    with \<open>ISS.run\<close>.
  \<^item> Device tree: the generated blob reads back as the intended tree, and the self-check accepts
    exactly the well-formed blobs with at least two levels and one property.
  \<^item> Random programs: whatever is drawn, a program of the plain mode with fewer than 900 random
    instructions assembles and \<open>ISS.run\<close> reaches its halt loop within its own length; the
    constant-loading sequences leave the constant in the register at both widths (with the exception
    stated); the size the generator budgets for the plain mode misses one statement. A program of an
    interrupt mode with at most 450 ends in the same state whether or not, and whenever, an interrupt
    is delivered. The bounds are round numbers: the first keeps a branch within its offset, the second
    the handler's address within the immediate that loads it, and the generator also returns longer
    programs, which need not assemble. The base address is one that \<open>addi\<close> can load.
  \<^item> Cross-check: the comparison accepts exactly the dumps of the reference state; but images are read
    with their bytes reversed, so every test of the driver fails.
  \<^item> Images: a converted ELF file holds every section at its VMA and zeros elsewhere, and the
    Linux image holds firmware, kernel, ramdisk and tree at their offsets without overlap.
  \<^item> Measurements: an instrumented kernel is the kernel's own words with the counter reads around
    them; its rates are correctly rounded and lie between 0 and 1; the benchmark runner hands the
    simulator the words with their bytes reversed, and its exit status is 0 exactly when it reported
    no failure.
  \<^item> Reports: a value read from inside a dump is what a load of the simulator reads, coverage totals are
    sums over the tests, and a page of the viewer is its template around the printable trace.
  \<^item> Builders: a build fails exactly at the first failing command, after which nothing runs, and the
    objects of the firmware are different files with the names the linker script selects.

  \<^bold>\<open>Not modelled.\<close> Argument parsing and files around the modelled functions; the text of error
  messages that quote a tool's output; the JSON copy of the profiler's report; the branch test
  script; the Verilog, C and assembly sources.
\<close>

end
